(* ===== verification/Menhir_Prelude.thy ===== *)
theory Menhir_Prelude
  imports Main "HOL-Library.Char_ord" "HOL-Library.List_Lexorder" "HOL-Library.Product_Lexorder"
    "HOL-Library.Multiset"
begin

text \<open>
  Shared vocabulary of the development.

  \<^item> Python exceptions are values: \<open>'a result\<close> is \<open>py_error + 'a\<close>, with \<open>Inl\<close> for a
    raised exception; \<open>bind_result\<close> sequences two fallible steps and \<open>foldM\<close> is a
    \<^verbatim>\<open>for\<close> loop whose body may raise.
  \<^item> A Python dictionary is an association list in insertion order. \<open>group_by\<close> is the
    \<^verbatim>\<open>d.setdefault(key(x), []).append(x)\<close> loop; \<open>get_group\<close> is \<^verbatim>\<open>d.get(k, [])\<close>.
  \<^item> \<^verbatim>\<open>sorted(xs, key=f)\<close> is \<open>sort_key f xs\<close>, which is stable like Python's sort. Strings
    and tuples of strings compare lexicographically by code point.
  \<^item> A Python string is a \<open>string\<close> whose characters are code points below 256; the string
    operations below are exact on that range.
\<close>

section \<open>Proof collections\<close>

named_theorems group_simps \<open>what the grouping dictionaries of the source look up\<close>
named_theorems frame_simps \<open>fields an operation leaves alone\<close>

section \<open>Errors as values\<close>

datatype py_error = KeyError string | ValueError string | RuntimeError string | ConstraintError string

type_synonym 'a result = "py_error + 'a"

definition bind_result :: "'a result \<Rightarrow> ('a \<Rightarrow> 'b result) \<Rightarrow> 'b result" where
  "bind_result m f = (case m of Inl e \<Rightarrow> Inl e | Inr x \<Rightarrow> f x)"

fun foldM :: "('a \<Rightarrow> 's \<Rightarrow> 's result) \<Rightarrow> 'a list \<Rightarrow> 's \<Rightarrow> 's result" where
  "foldM f [] s = Inr s"
| "foldM f (x # xs) s = bind_result (f x s) (foldM f xs)"

lemma bind_result_simps [simp]:
  "bind_result (Inl e) f = Inl e" "bind_result (Inr x) f = f x"
  by (simp_all add: bind_result_def)

lemma bind_result_eq_Inr [simp]:
  "bind_result m f = Inr y \<longleftrightarrow> (\<exists>x. m = Inr x \<and> f x = Inr y)"
  by (cases m) auto

text \<open>The loop rule: an invariant of the not yet visited items and the state.\<close>

lemma foldM_rule:
  assumes "foldM f xs s = Inr t" and "I xs s"
    and "\<And>x ys u v. I (x # ys) u \<Longrightarrow> x \<in> set xs \<Longrightarrow> f x u = Inr v \<Longrightarrow> I ys v"
  shows "I [] t"
  using assms
proof (induction xs arbitrary: s)
  case Nil
  then show ?case by simp
next
  case (Cons x xs)
  from Cons.prems(1) obtain u where u: "f x s = Inr u" "foldM f xs u = Inr t"
    by auto
  have "I xs u" using Cons.prems(2) u(1) by (intro Cons.prems(3) [of x xs s u]) auto
  then show ?case
    using u(2) Cons.prems(3) by (intro Cons.IH [of u]) auto
qed

lemma foldM_total:
  assumes "\<And>x s. x \<in> set xs \<Longrightarrow> \<exists>t. f x s = Inr t"
  shows "\<exists>t. foldM f xs s = Inr t"
  using assms
proof (induction xs arbitrary: s)
  case Nil
  then show ?case by simp
next
  case (Cons x xs)
  then obtain u where "f x s = Inr u" by (meson list.set_intros(1))
  then show ?case using Cons by (auto simp: Cons.IH)
qed

lemma foldM_pure: "foldM (\<lambda>x s. Inr (f x s)) xs s = Inr (fold f xs s)"
  by (induction xs arbitrary: s) auto

lemma foldM_append: "foldM f (xs @ ys) s = bind_result (foldM f xs s) (foldM f ys)"
  by (induction xs arbitrary: s) (auto simp: bind_result_def split: sum.splits)

section \<open>Grouping dictionaries\<close>

fun group_add :: "'k \<Rightarrow> 'v \<Rightarrow> ('k \<times> 'v list) list \<Rightarrow> ('k \<times> 'v list) list" where
  "group_add k v [] = [(k, [v])]"
| "group_add k v ((k', vs) # d) =
     (if k = k' then (k', vs @ [v]) # d else (k', vs) # group_add k v d)"

definition group_by :: "('v \<Rightarrow> 'k) \<Rightarrow> 'v list \<Rightarrow> ('k \<times> 'v list) list" where
  "group_by f xs = fold (\<lambda>x. group_add (f x) x) xs []"

definition get_group :: "'k \<Rightarrow> ('k \<times> 'v list) list \<Rightarrow> 'v list" where
  "get_group k d = (case map_of d k of None \<Rightarrow> [] | Some vs \<Rightarrow> vs)"

lemma get_group_add:
  "get_group k (group_add k' v d) = (if k = k' then get_group k d @ [v] else get_group k d)"
  by (induction d) (auto simp: get_group_def)

lemma set_fst_group_add: "set (map fst (group_add k v d)) = insert k (set (map fst d))"
  by (induction k v d rule: group_add.induct) (simp_all add: insert_commute)

lemma distinct_group_add: "distinct (map fst d) \<Longrightarrow> distinct (map fst (group_add k v d))"
proof (induction d)
  case (Cons p d)
  then show ?case using set_fst_group_add [of k v d] by (cases p) auto
qed simp

lemma get_group_fold:
  "get_group k (fold (\<lambda>x. group_add (f x) x) xs d) = get_group k d @ filter (\<lambda>x. f x = k) xs"
  by (induction xs arbitrary: d) (auto simp: get_group_add)

lemma get_group_by [group_simps]: "get_group k (group_by f xs) = filter (\<lambda>x. f x = k) xs"
  by (simp add: group_by_def get_group_fold) (simp add: get_group_def)

lemma distinct_keys_group_by: "distinct (map fst (group_by f xs))"
proof -
  have "distinct (map fst d) \<Longrightarrow> distinct (map fst (fold (\<lambda>x. group_add (f x) x) xs d))" for d
    by (induction xs arbitrary: d) (auto simp: distinct_group_add)
  then show ?thesis by (simp add: group_by_def)
qed

lemma set_keys_group_by: "set (map fst (group_by f xs)) = f ` set xs"
proof -
  have "set (map fst (fold (\<lambda>x. group_add (f x) x) xs d)) = set (map fst d) \<union> f ` set xs" for d
    by (induction xs arbitrary: d) (simp_all only: fold_simps o_def set_fst_group_add, auto)
  then show ?thesis by (simp add: group_by_def)
qed

lemma in_group_by:
  assumes "(k, vs) \<in> set (group_by f xs)"
  shows "vs = filter (\<lambda>x. f x = k) xs" and "k \<in> f ` set xs"
proof -
  have "map_of (group_by f xs) k = Some vs"
    using assms distinct_keys_group_by [of f xs] by (simp add: map_of_eq_Some_iff)
  then show "vs = filter (\<lambda>x. f x = k) xs"
    using get_group_by [of k f xs] by (simp add: get_group_def)
  from assms have "k \<in> set (map fst (group_by f xs))" by force
  then show "k \<in> f ` set xs" by (simp add: set_keys_group_by del: set_map)
qed

lemma in_group_by_nonempty: "(k, vs) \<in> set (group_by f xs) \<Longrightarrow> vs \<noteq> []"
  using in_group_by [of k vs f xs] by (auto simp: filter_empty_conv)

lemma mset_concat_group_add:
  "mset (concat (map snd (group_add k v d))) = add_mset v (mset (concat (map snd d)))"
  by (induction k v d rule: group_add.induct) auto

lemma mset_concat_group_by: "mset (concat (map snd (group_by f xs))) = mset xs"
proof -
  have "mset (concat (map snd (fold (\<lambda>x. group_add (f x) x) xs d)))
      = mset (concat (map snd d)) + mset xs" for d
    by (induction xs arbitrary: d) (simp_all add: mset_concat_group_add)
  then show ?thesis by (simp add: group_by_def)
qed

section \<open>Sorting\<close>

lemma sort_key_perm_eq:
  assumes "mset xs = mset ys" and "inj_on f (set xs)"
  shows "sort_key f xs = sort_key f ys"
proof (rule properties_for_sort_key [symmetric])
  show "mset (sort_key f xs) = mset ys" using assms(1) by simp
  show "sorted (map f (sort_key f xs))" by simp
  fix k
  assume "k \<in> set (sort_key f xs)"
  then have k: "k \<in> set xs" by simp
  have p: "(\<lambda>x. f k = f x) z \<longleftrightarrow> z = k" if "z \<in> set xs" for z
    using that k assms(2) by (auto dest: inj_onD)
  have fx: "filter (\<lambda>x. f k = f x) zs = filter (\<lambda>x. x = k) zs" if "set zs = set xs" for zs
    using p that by (intro filter_cong) auto
  have rep: "filter (\<lambda>x. x = k) zs = replicate (count (mset zs) k) k" for zs
    by (induction zs) auto
  have "set ys = set xs" using assms(1) by (metis set_mset_mset)
  then show "filter (\<lambda>x. f k = f x) (sort_key f xs) = filter (\<lambda>x. f k = f x) ys"
    using fx [of ys] fx [of "sort_key f xs"] rep [of ys] rep [of "sort_key f xs"] assms(1) by simp
qed

lemma distinct_map_sort_key [simp]: "distinct (map f (sort_key g xs)) = distinct (map f xs)"
proof -
  have "mset (map f (sort_key g xs)) = mset (map f xs)" by simp
  then show ?thesis by (rule mset_eq_imp_distinct_iff)
qed

section \<open>Loops over independent items\<close>

lemma sorted_wrt_distinct_map: "distinct (map f xs) \<longleftrightarrow> sorted_wrt (\<lambda>x y. f x \<noteq> f y) xs"
  by (induction xs) auto

lemma sorted_wrt_disjoint_groups:
  assumes "distinct (map f (concat (map snd ps)))" and "distinct (map fst ps)"
  shows "sorted_wrt (\<lambda>p q. fst p \<noteq> fst q \<and> f ` set (snd p) \<inter> f ` set (snd q) = {}) ps"
  using assms
proof (induction ps)
  case (Cons p ps)
  have "f ` set (snd p) \<inter> f ` set (snd q) = {}" if "q \<in> set ps" for q
  proof -
    have "f ` set (snd q) \<subseteq> f ` set (concat (map snd ps))" using that by auto
    then show ?thesis using Cons.prems(1) by (fastforce simp: distinct_append)
  qed
  then show ?case using Cons by (auto simp: image_iff)
qed simp

text \<open>
  A loop whose body is one abstract step per item. \<open>ready\<close> is what an item needs of the state
  when the loop reaches it, and \<open>apart\<close> says that handling one item leaves the other ready.
\<close>

locale loop_of_steps =
  fixes body :: "'i \<Rightarrow> 's \<Rightarrow> 's result"
    and step :: "'s \<Rightarrow> 's \<Rightarrow> bool"
    and ready :: "'i \<Rightarrow> 's \<Rightarrow> bool"
    and apart :: "'i \<Rightarrow> 'i \<Rightarrow> bool"
  assumes body_steps: "ready i s \<Longrightarrow> body i s = Inr t \<Longrightarrow> step\<^sup>*\<^sup>* s t"
    and body_ready: "apart i j \<Longrightarrow> ready i s \<Longrightarrow> ready j s \<Longrightarrow> body i s = Inr t \<Longrightarrow> ready j t"
begin

lemma loop_steps:
  "foldM body is s = Inr t \<Longrightarrow> sorted_wrt apart is \<Longrightarrow> (\<And>i. i \<in> set is \<Longrightarrow> ready i s)
    \<Longrightarrow> step\<^sup>*\<^sup>* s t"
proof (induction "is" arbitrary: s)
  case (Cons i "is")
  from Cons.prems(1) obtain u where u: "body i s = Inr u" "foldM body is u = Inr t" by auto
  have i: "ready i s" by (rule Cons.prems(3)) simp
  have later: "ready j u" if "j \<in> set is" for j
    using body_ready [OF _ i _ u(1)] Cons.prems(2,3) that by simp
  have "step\<^sup>*\<^sup>* u t" by (rule Cons.IH [OF u(2)]) (use Cons.prems(2) later in auto)
  then show ?case using body_steps [OF i u(1)] by (meson rtranclp_trans)
qed simp

end

section \<open>Optional strings\<close>

text \<open>
  \<^verbatim>\<open>bool(x)\<close> of an optional string is false for \<open>None\<close> and for the empty string;
  \<^verbatim>\<open>x or ""\<close> and \<^verbatim>\<open>x or y\<close> follow it.
\<close>

definition truthy :: "string option \<Rightarrow> bool" where
  "truthy x \<longleftrightarrow> x \<noteq> None \<and> x \<noteq> Some []"

definition or_empty :: "string option \<Rightarrow> string" where
  "or_empty x = (case x of None \<Rightarrow> [] | Some s \<Rightarrow> s)"

definition or_else :: "string option \<Rightarrow> string option \<Rightarrow> string option" where
  "or_else x y = (if truthy x then x else y)"

lemma truthy_simps [simp]: "\<not> truthy None" "truthy (Some s) \<longleftrightarrow> s \<noteq> []"
  by (auto simp: truthy_def)

lemma or_empty_simps [simp]: "or_empty None = []" "or_empty (Some s) = s"
  by (auto simp: or_empty_def)

lemma or_else_simps [simp]:
  "or_else None y = y" "or_else (Some s) y = (if s = [] then y else Some s)"
  by (auto simp: or_else_def)

lemma truthy_eq_or_empty: "truthy x \<Longrightarrow> x = Some (or_empty x)"
  by (cases x) auto

end
