(* ===== verification/Python_Text.thy ===== *)
theory Python_Text
  imports Menhir_Prelude "HOL-Library.Sublist"
begin

text \<open>
  The operations of Python's \<^verbatim>\<open>str\<close> the source uses, on strings of code points below 256.
  \<open>is_space\<close> is \<^verbatim>\<open>str.isspace\<close> of one code point in that range, \<open>lower\<close> is
  \<^verbatim>\<open>str.lower\<close> (which maps the range into itself), \<open>split_ws\<close> is \<^verbatim>\<open>s.split()\<close>,
  \<open>before_sep\<close> is \<^verbatim>\<open>s.split(sep)[0]\<close>, \<open>split_char\<close> is \<^verbatim>\<open>s.split(c)\<close> for a
  one-character separator and \<open>join\<close> is \<^verbatim>\<open>sep.join(xs)\<close>.
\<close>

named_theorems text_simps \<open>evaluation of the string operations\<close>

section \<open>Characters\<close>

definition is_space :: "char \<Rightarrow> bool" where
  "is_space c \<longleftrightarrow> of_char c \<in> {9, 10, 11, 12, 13, 28, 29, 30, 31, 32, 133, 160 :: nat}"

definition lower_char :: "char \<Rightarrow> char" where
  "lower_char c =
     (let n = of_char c :: nat
      in if (65 \<le> n \<and> n \<le> 90) \<or> (192 \<le> n \<and> n \<le> 222 \<and> n \<noteq> 215)
         then char_of (n + 32) else c)"

definition lower :: "string \<Rightarrow> string" where
  "lower s = map lower_char s"

definition is_ascii_digit :: "char \<Rightarrow> bool" where
  "is_ascii_digit c \<longleftrightarrow> (let n = of_char c :: nat in 48 \<le> n \<and> n \<le> 57)"

definition is_ascii_letter :: "char \<Rightarrow> bool" where
  "is_ascii_letter c \<longleftrightarrow>
     (let n = of_char c :: nat in (65 \<le> n \<and> n \<le> 90) \<or> (97 \<le> n \<and> n \<le> 122))"

lemma is_space_blank [simp]: "is_space CHR '' ''"
  by (simp add: is_space_def)

lemma lower_char_idem [simp]: "lower_char (lower_char c) = lower_char c"
proof -
  have "(of_char (char_of n :: char) :: nat) = n mod 256" for n :: nat by simp
  then show ?thesis by (auto simp: lower_char_def Let_def)
qed

lemma lower_idem [simp]: "lower (lower s) = lower s"
  by (simp add: lower_def)

lemma lower_append [simp]: "lower (s @ t) = lower s @ lower t"
  by (simp add: lower_def)

lemma length_lower [simp]: "length (lower s) = length s"
  by (simp add: lower_def)

lemma lower_empty_iff [simp]: "lower s = [] \<longleftrightarrow> s = []"
  by (simp add: lower_def)

section \<open>Stripping\<close>

definition lstrip :: "string \<Rightarrow> string" where
  "lstrip s = dropWhile is_space s"

definition rstrip :: "string \<Rightarrow> string" where
  "rstrip s = rev (dropWhile is_space (rev s))"

definition strip :: "string \<Rightarrow> string" where
  "strip s = rstrip (lstrip s)"

definition strip_of :: "string \<Rightarrow> string \<Rightarrow> string" where
  "strip_of cs s =
     rev (dropWhile (\<lambda>c. c \<in> set cs) (rev (dropWhile (\<lambda>c. c \<in> set cs) s)))"

lemma rstrip_snoc: "rstrip (s @ [c]) = (if is_space c then rstrip s else s @ [c])"
  by (simp add: rstrip_def)

lemma rstrip_Nil [simp]: "rstrip [] = []"
  by (simp add: rstrip_def)

lemma lstrip_simps [simp]:
  "lstrip [] = []" "lstrip (c # s) = (if is_space c then lstrip s else c # s)"
  by (simp_all add: lstrip_def)

lemma rstrip_idem [simp]: "rstrip (rstrip s) = rstrip s"
  by (simp add: rstrip_def dropWhile_idem o_def)

lemma lstrip_idem [simp]: "lstrip (lstrip s) = lstrip s"
  by (simp add: lstrip_def)

lemma rstrip_prefix: "\<exists>w. s = rstrip s @ w \<and> (\<forall>c\<in>set w. is_space c)"
proof (intro exI conjI)
  show "s = rstrip s @ rev (takeWhile is_space (rev s))"
    unfolding rstrip_def by (metis rev_append rev_rev_ident takeWhile_dropWhile_id)
  show "\<forall>c\<in>set (rev (takeWhile is_space (rev s))). is_space c"
    by (auto dest: set_takeWhileD)
qed

lemma lstrip_rstrip_hd: "lstrip s = s \<Longrightarrow> lstrip (rstrip s) = rstrip s"
proof (cases "rstrip s")
  case (Cons c u)
  assume s: "lstrip s = s"
  obtain w where "s = rstrip s @ w" using rstrip_prefix by blast
  then have "s = c # u @ w" using Cons by simp
  moreover from s have "dropWhile is_space s = s" by (simp add: lstrip_def)
  ultimately have "\<not> is_space c" by (simp only: dropWhile_eq_self_iff) auto
  then show ?thesis using Cons by simp
qed simp

lemma strip_idem [simp]: "strip (strip s) = strip s"
  unfolding strip_def by (simp add: lstrip_rstrip_hd)

lemma set_strip_subset: "set (strip s) \<subseteq> set s"
  unfolding strip_def rstrip_def lstrip_def
  by (auto dest!: set_dropWhileD)

section \<open>Splitting and joining\<close>

fun split_char :: "char \<Rightarrow> string \<Rightarrow> string list" where
  "split_char d [] = [[]]"
| "split_char d (c # s) =
     (if c = d then [] # split_char d s
      else (case split_char d s of [] \<Rightarrow> [[c]] | w # ws \<Rightarrow> (c # w) # ws))"

text \<open>\<open>split_ws_aux w s\<close>: \<open>w\<close> is the word being read.\<close>

fun split_ws_aux :: "string \<Rightarrow> string \<Rightarrow> string list" where
  "split_ws_aux w [] = (if w = [] then [] else [w])"
| "split_ws_aux w (c # s) =
     (if is_space c then (if w = [] then split_ws_aux [] s else w # split_ws_aux [] s)
      else split_ws_aux (w @ [c]) s)"

definition split_ws :: "string \<Rightarrow> string list" where
  "split_ws s = split_ws_aux [] s"

fun join :: "string \<Rightarrow> string list \<Rightarrow> string" where
  "join sep [] = []"
| "join sep [w] = w"
| "join sep (w # ws) = w @ sep @ join sep ws"

fun digits_aux :: "nat \<Rightarrow> nat \<Rightarrow> string" where
  "digits_aux 0 n = []"
| "digits_aux (Suc f) n =
     (if n < 10 then [char_of (48 + n)] else digits_aux f (n div 10) @ [char_of (48 + n mod 10)])"

text \<open>\<^verbatim>\<open>str(n)\<close> of an integer; a number has at most as many digits as its value plus one.\<close>

definition str_of_int :: "int \<Rightarrow> string" where
  "str_of_int n = (if n < 0 then ''-'' else []) @ digits_aux (Suc (nat \<bar>n\<bar>)) (nat \<bar>n\<bar>)"

definition starts_with :: "string \<Rightarrow> string \<Rightarrow> bool" where
  "starts_with p s \<longleftrightarrow> take (length p) s = p"

definition ends_with :: "string \<Rightarrow> string \<Rightarrow> bool" where
  "ends_with p s \<longleftrightarrow> length p \<le> length s \<and> drop (length s - length p) s = p"

fun contains :: "string \<Rightarrow> string \<Rightarrow> bool" where
  "contains p [] = (p = [])"
| "contains p (c # s) = (starts_with p (c # s) \<or> contains p s)"

fun before_sep :: "string \<Rightarrow> string \<Rightarrow> string" where
  "before_sep p [] = []"
| "before_sep p (c # s) = (if starts_with p (c # s) then [] else c # before_sep p s)"

definition remove_chars :: "string \<Rightarrow> string \<Rightarrow> string" where
  "remove_chars cs s = filter (\<lambda>c. c \<notin> set cs) s"

definition replace_char :: "char \<Rightarrow> char \<Rightarrow> string \<Rightarrow> string" where
  "replace_char a b s = map (\<lambda>c. if c = a then b else c) s"

text \<open>
  \<^verbatim>\<open>str.upper\<close>: the sharp s becomes two letters. The micro sign and the y with diaeresis, whose
  upper case lies outside the range, are left alone.
\<close>

definition upper_char :: "char \<Rightarrow> string" where
  "upper_char c =
     (let n = of_char c :: nat
      in if (97 \<le> n \<and> n \<le> 122) \<or> (224 \<le> n \<and> n \<le> 254 \<and> n \<noteq> 247) then [char_of (n - 32)]
         else if n = 223 then ''SS'' else [c])"

definition upper :: "string \<Rightarrow> string" where
  "upper s = concat (map upper_char s)"

text \<open>
  \<^verbatim>\<open>s.rpartition(c)\<close> for a one-character separator: the part before the last occurrence, whether
  there is one, and the part after it. \<^verbatim>\<open>s.partition(c)\<close> is the same for the first occurrence.
\<close>

definition rpartition :: "char \<Rightarrow> string \<Rightarrow> string \<times> bool \<times> string" where
  "rpartition c s =
     (if c \<in> set s
      then (rev (tl (dropWhile (\<lambda>x. x \<noteq> c) (rev s))), True, rev (takeWhile (\<lambda>x. x \<noteq> c) (rev s)))
      else ([], False, s))"

definition partition_at :: "char \<Rightarrow> string \<Rightarrow> string \<times> bool \<times> string" where
  "partition_at c s =
     (if c \<in> set s
      then (takeWhile (\<lambda>x. x \<noteq> c) s, True, tl (dropWhile (\<lambda>x. x \<noteq> c) s))
      else (s, False, []))"

text \<open>\<^verbatim>\<open>str.splitlines()\<close>: a carriage return followed by a newline is one boundary.\<close>

definition is_linebreak :: "char \<Rightarrow> bool" where
  "is_linebreak c \<longleftrightarrow> of_char c \<in> {10, 11, 12, 13, 28, 29, 30, 133 :: nat}"

fun splitlines_aux :: "string \<Rightarrow> string \<Rightarrow> string list" where
  "splitlines_aux w [] = (if w = [] then [] else [w])"
| "splitlines_aux w [c] = (if is_linebreak c then [w] else [w @ [c]])"
| "splitlines_aux w (c # d # s) =
     (if of_char c = (13 :: nat) \<and> of_char d = (10 :: nat) then w # splitlines_aux [] s
      else if is_linebreak c then w # splitlines_aux [] (d # s)
      else splitlines_aux (w @ [c]) (d # s))"

definition splitlines :: "string \<Rightarrow> string list" where
  "splitlines s = splitlines_aux [] s"

text \<open>
  \<^verbatim>\<open>int(s)\<close>: surrounding white space, an optional sign, then decimal digits with single
  underscores allowed between them; \<open>None\<close> is the \<^verbatim>\<open>ValueError\<close>.
\<close>

fun digits_value :: "nat \<Rightarrow> bool \<Rightarrow> string \<Rightarrow> nat option" where
  "digits_value n after_digit [] = (if after_digit then Some n else None)"
| "digits_value n after_digit (c # s) =
     (if is_ascii_digit c then digits_value (10 * n + (of_char c - 48)) True s
      else if c = CHR ''_'' \<and> after_digit then digits_value n False s
      else None)"

definition int_of_string :: "string \<Rightarrow> int option" where
  "int_of_string s =
     (case strip s of
        [] \<Rightarrow> None
      | c # t \<Rightarrow>
          if c = CHR ''-'' then map_option (\<lambda>n. - int n) (digits_value 0 False t)
          else if c = CHR ''+'' then map_option int (digits_value 0 False t)
          else map_option int (digits_value 0 False (c # t)))"

lemma split_char_nonempty [simp]: "split_char d s \<noteq> []"
  by (induction s) (auto split: list.splits)

lemma join_split_char: "join [d] (split_char d s) = s"
proof (induction s)
  case (Cons c s)
  obtain w ws where w: "split_char d s = w # ws"
    using split_char_nonempty [of d s] by (cases "split_char d s") auto
  then show ?case using Cons by (cases ws) auto
qed simp

lemma split_char_no_sep: "w \<in> set (split_char d s) \<Longrightarrow> d \<notin> set w"
  by (induction s arbitrary: w) (auto split: list.splits if_splits)

lemma split_char_self: "d \<notin> set s \<Longrightarrow> split_char d s = [s]"
  by (induction s) auto

lemma split_char_append_sep:
  "d \<notin> set s \<Longrightarrow> split_char d (s @ d # t) = s # split_char d t"
  by (induction s) auto

lemma split_char_join:
  assumes "ws \<noteq> []" and "\<forall>w\<in>set ws. d \<notin> set w"
  shows "split_char d (join [d] ws) = ws"
  using assms
proof (induction "[d]" ws rule: join.induct)
  case (3 w v vs)
  then show ?case by (simp add: split_char_append_sep)
qed (auto simp: split_char_self)

lemma split_ws_aux_words:
  "\<forall>c\<in>set w. \<not> is_space c \<Longrightarrow> v \<in> set (split_ws_aux w s) \<Longrightarrow>
     v \<noteq> [] \<and> (\<forall>c\<in>set v. \<not> is_space c)"
proof (induction w s arbitrary: v rule: split_ws_aux.induct)
  case (1 w)
  then show ?case by (simp split: if_splits)
next
  case (2 w c s)
  show ?case
  proof (cases "is_space c")
    case True
    show ?thesis
    proof (cases "v \<in> set (split_ws_aux [] s)")
      case rest: True
      have e: "\<forall>c\<in>set []. \<not> is_space c" by simp
      show ?thesis
        using "2.IH"(1) [OF True _ e rest] "2.IH"(2) [OF True _ e rest] by (cases "w = []") fast+
    next
      case False
      with "2.prems"(2) \<open>is_space c\<close> have "v = w" "w \<noteq> []" by (simp_all split: if_splits)
      then show ?thesis using "2.prems"(1) by simp
    qed
  next
    case False
    with "2.prems" show ?thesis by (intro "2.IH"(3)) auto
  qed
qed

lemma split_ws_words: "v \<in> set (split_ws s) \<Longrightarrow> v \<noteq> [] \<and> (\<forall>c\<in>set v. \<not> is_space c)"
  by (auto simp: split_ws_def dest: split_ws_aux_words [rotated])

lemma split_ws_aux_word:
  "\<forall>c\<in>set v. \<not> is_space c \<Longrightarrow> split_ws_aux w (v @ s) = split_ws_aux (w @ v) s"
  by (induction v arbitrary: w) auto

lemma split_ws_join:
  assumes "\<forall>w\<in>set ws. w \<noteq> [] \<and> (\<forall>c\<in>set w. \<not> is_space c)"
  shows "split_ws (join '' '' ws) = ws"
proof -
  have sp: "is_space CHR '' ''" by (simp add: is_space_def)
  have "split_ws_aux [] (join '' '' ws) = ws"
    using assms
  proof (induction "'' ''" ws rule: join.induct)
    case (2 w)
    then show ?case using split_ws_aux_word [of w "[]" "[]"] by simp
  next
    case (3 w v vs)
    then show ?case using split_ws_aux_word [of w "[]" "'' '' @ join '' '' (v # vs)"] sp by simp
  qed simp
  then show ?thesis by (simp add: split_ws_def)
qed

lemma starts_with_prefix: "starts_with p s \<longleftrightarrow> prefix p s"
  by (metis append_eq_conv_conj prefix_def starts_with_def)

lemma before_sep_prefix: "prefix (before_sep p s) s"
  by (induction s) auto

lemma before_sep_absent: "\<not> contains p s \<Longrightarrow> before_sep p s = s"
  by (induction s) auto

lemma before_sep_char: "d \<notin> set s \<Longrightarrow> before_sep [d] (s @ d # t) = s"
  by (induction s) (auto simp: starts_with_def)

lemma lower_replace_free: "set (remove_chars cs s) \<inter> set cs = {}"
  by (auto simp: remove_chars_def)

end
