(* ===== verification/Work_Artifact.thy ===== *)
theory Work_Artifact
  imports Python_Text
begin

text \<open>
  The domain half of engineering documents, \<^verbatim>\<open>domain/work_artifact.py\<close>: artifact types,
  their status graphs, which transitions and registrations are legal, how a prose
  \<^verbatim>\<open>Status:\<close> header is read, which relations may join two artifacts, the open-question
  state machine and the flattening of declared references. Types and statuses are strings as
  in the source, since callers pass values read from the graph.
\<close>

section \<open>Types, statuses and the status graphs\<close>

definition PLAN :: string where "PLAN = ''plan''"
definition REVIEW :: string where "REVIEW = ''review''"
definition INVESTIGATION :: string where "INVESTIGATION = ''investigation''"
definition IMPLEMENTATION_REPORT :: string where
  "IMPLEMENTATION_REPORT = ''implementation_report''"
definition HANDOFF :: string where "HANDOFF = ''handoff''"

definition ARTIFACT_TYPES :: "string list" where
  "ARTIFACT_TYPES = [PLAN, REVIEW, INVESTIGATION, IMPLEMENTATION_REPORT, HANDOFF]"

definition PROPOSED :: string where "PROPOSED = ''PROPOSED''"
definition REVIEWED :: string where "REVIEWED = ''REVIEWED''"
definition APPROVED :: string where "APPROVED = ''APPROVED''"
definition IMPLEMENTING :: string where "IMPLEMENTING = ''IMPLEMENTING''"
definition IMPLEMENTED :: string where "IMPLEMENTED = ''IMPLEMENTED''"
definition OPEN :: string where "OPEN = ''OPEN''"
definition COMPLETE :: string where "COMPLETE = ''COMPLETE''"
definition DRAFT :: string where "DRAFT = ''DRAFT''"
definition READY_FOR_REVIEW :: string where "READY_FOR_REVIEW = ''READY_FOR_REVIEW''"
definition SUPERSEDED :: string where "SUPERSEDED = ''SUPERSEDED''"
definition DEFERRED :: string where "DEFERRED = ''DEFERRED''"

lemmas type_defs =
  PLAN_def REVIEW_def INVESTIGATION_def IMPLEMENTATION_REPORT_def HANDOFF_def

lemmas status_defs =
  PROPOSED_def REVIEWED_def APPROVED_def IMPLEMENTING_def IMPLEMENTED_def OPEN_def
  COMPLETE_def DRAFT_def READY_FOR_REVIEW_def SUPERSEDED_def DEFERRED_def

definition TERMINAL_ANY :: "string list" where
  "TERMINAL_ANY = [SUPERSEDED, DEFERRED]"

definition FORWARD :: "(string \<times> (string \<times> string list) list) list" where
  "FORWARD =
    [(PLAN,
       [(PROPOSED, [REVIEWED]), (REVIEWED, [APPROVED]), (APPROVED, [IMPLEMENTING]),
        (IMPLEMENTING, [IMPLEMENTED]), (IMPLEMENTED, [])]),
     (REVIEW, [(OPEN, [COMPLETE]), (COMPLETE, [])]),
     (INVESTIGATION, [(OPEN, [COMPLETE]), (COMPLETE, [])]),
     (IMPLEMENTATION_REPORT,
       [(DRAFT, [READY_FOR_REVIEW, COMPLETE]), (READY_FOR_REVIEW, [REVIEWED, COMPLETE]),
        (REVIEWED, [COMPLETE]), (COMPLETE, [])]),
     (HANDOFF, [(OPEN, [COMPLETE]), (COMPLETE, [])])]"

definition INITIAL_STATUS :: "(string \<times> string) list" where
  "INITIAL_STATUS =
    [(PLAN, PROPOSED), (REVIEW, OPEN), (INVESTIGATION, OPEN),
     (IMPLEMENTATION_REPORT, DRAFT), (HANDOFF, OPEN)]"

definition ARTIFACT_MEDIA :: "string list" where
  "ARTIFACT_MEDIA = [''markdown'', ''pdf'', ''html'', ''wiki'', ''file'']"

definition valid_statuses :: "string \<Rightarrow> string list" where
  "valid_statuses artifact_type =
     map fst (case map_of FORWARD artifact_type of None \<Rightarrow> [] | Some fw \<Rightarrow> fw) @ TERMINAL_ANY"

definition can_transition :: "string \<Rightarrow> string \<Rightarrow> string \<Rightarrow> bool" where
  "can_transition artifact_type from_status to_status =
     (case map_of FORWARD artifact_type of
        None \<Rightarrow> False
      | Some fw \<Rightarrow>
          if to_status = SUPERSEDED then False
          else if from_status = to_status then False
          else if from_status \<notin> set (valid_statuses artifact_type) then False
          else if to_status \<in> set TERMINAL_ANY then from_status \<notin> set TERMINAL_ANY
          else to_status \<in> set (case map_of fw from_status of None \<Rightarrow> [] | Some ts \<Rightarrow> ts))"

definition legal_next_statuses :: "string \<Rightarrow> string \<Rightarrow> string list" where
  "legal_next_statuses artifact_type from_status =
     (if map_of FORWARD artifact_type = None then []
      else filter (can_transition artifact_type from_status) (valid_statuses artifact_type))"

definition resolve_registration :: "string \<Rightarrow> string option \<Rightarrow> string result" where
  "resolve_registration artifact_type status =
     (if artifact_type \<notin> set ARTIFACT_TYPES then Inl (ValueError ''unknown artifact_type'')
      else bind_result
        (if truthy status then Inr (or_empty status)
         else (case map_of INITIAL_STATUS artifact_type of
                 None \<Rightarrow> Inl (KeyError artifact_type)
               | Some initial \<Rightarrow> Inr initial))
        (\<lambda>resolved.
           if resolved = SUPERSEDED then Inl (ValueError ''SUPERSEDED requires a replacement'')
           else if resolved \<notin> set (valid_statuses artifact_type)
           then Inl (ValueError ''status is not valid for type'')
           else Inr resolved))"

definition require_known_medium :: "string \<Rightarrow> string result" where
  "require_known_medium medium =
     (if medium \<notin> set ARTIFACT_MEDIA then Inl (ValueError ''unknown medium'') else Inr medium)"

section \<open>Namespaces of linked records\<close>

definition DEFAULT_NAMESPACE :: string where "DEFAULT_NAMESPACE = ''default''"

definition namespaces_are_compatible :: "string option \<Rightarrow> string option \<Rightarrow> bool" where
  "namespaces_are_compatible owner subordinate \<longleftrightarrow>
     subordinate \<in> {owner, Some DEFAULT_NAMESPACE}"

text \<open>
  \<open>namespace_compatibility_cypher\<close> evaluates the emitted fragment
  \<^verbatim>\<open>subordinate.namespace IN [owner.namespace, $default_ns]\<close> under Cypher's three-valued
  logic: \<open>None\<close> is Cypher's \<^verbatim>\<open>null\<close>, which a \<^verbatim>\<open>WHERE\<close> clause refuses.
\<close>

definition cypher_eq :: "string option \<Rightarrow> string option \<Rightarrow> bool option" where
  "cypher_eq a b = (case (a, b) of (Some x, Some y) \<Rightarrow> Some (x = y) | _ \<Rightarrow> None)"

fun cypher_in :: "string option \<Rightarrow> string option list \<Rightarrow> bool option" where
  "cypher_in x [] = Some False"
| "cypher_in x (y # ys) =
     (if cypher_eq x y = Some True then Some True
      else case cypher_in x ys of
             Some True \<Rightarrow> Some True
           | r \<Rightarrow> if cypher_eq x y = None then None else r)"

definition namespace_compatibility_cypher :: "string option \<Rightarrow> string option \<Rightarrow> bool option" where
  "namespace_compatibility_cypher owner subordinate =
     cypher_in subordinate [owner, Some DEFAULT_NAMESPACE]"

section \<open>Status headers\<close>

definition STATUS_HEADER_ALIASES :: "(string \<times> string) list" where
  "STATUS_HEADER_ALIASES =
    [(''proposal'', PROPOSED), (''proposed'', PROPOSED),
     (''reviewer-approved'', REVIEWED), (''reviewed'', REVIEWED),
     (''approved'', APPROVED), (''in progress'', IMPLEMENTING),
     (''implementing'', IMPLEMENTING), (''implemented'', IMPLEMENTED),
     (''complete'', COMPLETE), (''completed'', COMPLETE), (''open'', OPEN), (''draft'', DRAFT),
     (''ready for review'', READY_FOR_REVIEW), (''partial'', DRAFT), (''blocked'', DRAFT),
     (''superseded'', SUPERSEDED), (''deferred'', DEFERRED)]"

text \<open>
  The source also splits at the em dash and the en dash; neither is a code point below 256, so
  those two splits never cut a string of this model.
\<close>

definition header_delimiters :: "string list" where
  "header_delimiters = [''('', '' - '', '','', '';'', '':'']"

definition status_header_key :: "string \<Rightarrow> string" where
  "status_header_key raw =
     join '' '' (split_ws
       (fold before_sep header_delimiters (lower (strip (remove_chars ''*_`'' raw)))))"

text \<open>\<open>alias_of_width ws n\<close>: the loop over the widths \<open>n, n - 1, \<dots>, 1\<close>.\<close>

fun alias_of_width :: "string list \<Rightarrow> nat \<Rightarrow> string option" where
  "alias_of_width ws 0 = None"
| "alias_of_width ws (Suc n) =
     (case map_of STATUS_HEADER_ALIASES (join '' '' (take (Suc n) ws)) of
        Some st \<Rightarrow> Some st
      | None \<Rightarrow> alias_of_width ws n)"

definition status_from_header ::
  "string option \<Rightarrow> string \<Rightarrow> string option \<times> string option" where
  "status_from_header raw artifact_type =
     (case raw of
        None \<Rightarrow> (None, Some ''no_status_header'')
      | Some r \<Rightarrow>
          if strip r = [] then (None, Some ''no_status_header'')
          else let key = status_header_key r in
            if key = [] then (None, Some ''no_status_header'')
            else let words = split_char CHR '' '' key in
              case alias_of_width words (length words) of
                None \<Rightarrow> (None, Some ''unrecognized_status'')
              | Some mapped \<Rightarrow>
                  if mapped \<notin> set (valid_statuses artifact_type)
                  then (None, Some ''status_invalid_for_type'')
                  else (Some mapped, None))"

section \<open>Relations, open questions and declarations\<close>

definition ARTIFACT_RELATIONS :: "(string \<times> string \<times> string list \<times> string list) list" where
  "ARTIFACT_RELATIONS =
    [(''reviews'', ''REVIEWS'', [REVIEW], [PLAN, INVESTIGATION, IMPLEMENTATION_REPORT]),
     (''implements'', ''IMPLEMENTS'', [IMPLEMENTATION_REPORT], [PLAN]),
     (''informs'', ''INFORMS'', [INVESTIGATION, HANDOFF], [PLAN])]"

definition relation_is_legal :: "string \<Rightarrow> string \<Rightarrow> string \<Rightarrow> bool \<times> string option" where
  "relation_is_legal relation source_type target_type =
     (case map_of ARTIFACT_RELATIONS relation of
        None \<Rightarrow> (False, Some ''unsupported_relation'')
      | Some (edge, sources, targets) \<Rightarrow>
          if source_type \<notin> set sources then (False, Some ''illegal_source_type'')
          else if target_type \<notin> set targets then (False, Some ''illegal_target_type'')
          else (True, None))"

definition Q_OPEN :: string where "Q_OPEN = ''open''"
definition Q_ANSWERED :: string where "Q_ANSWERED = ''answered''"
definition Q_DEFERRED :: string where "Q_DEFERRED = ''deferred''"

definition QUESTION_FORWARD :: "(string \<times> string list) list" where
  "QUESTION_FORWARD = [(Q_OPEN, [Q_ANSWERED, Q_DEFERRED]), (Q_ANSWERED, []), (Q_DEFERRED, [])]"

definition question_can_transition :: "string \<Rightarrow> string \<Rightarrow> bool" where
  "question_can_transition from_status to_status \<longleftrightarrow>
     to_status \<in> set (case map_of QUESTION_FORWARD from_status of None \<Rightarrow> [] | Some ts \<Rightarrow> ts)"

definition question_statuses_allowing :: "string \<Rightarrow> string list" where
  "question_statuses_allowing to_status =
     map fst (filter (\<lambda>(source, targets). to_status \<in> set targets) QUESTION_FORWARD)"

definition DECLARATION_KEYS :: "(string \<times> string) list" where
  "DECLARATION_KEYS =
    [(''reviews'', ''artifact_relation''), (''implements'', ''artifact_relation''),
     (''informs'', ''artifact_relation''), (''supersedes'', ''supersession''),
     (''about'', ''subject''), (''todos'', ''todo'')]"

record declared_reference =
  dr_key :: string
  dr_raw_target :: string
  dr_ordinal :: nat
  dr_kind :: string

text \<open>
  A frontmatter value is one target or a list of targets; \<open>None\<close> is Python's \<^verbatim>\<open>None\<close>, any
  other target stands for its \<^verbatim>\<open>str()\<close>.
\<close>

datatype declaration_value = Single "string option" | Items "string option list"

definition declaration_targets :: "declaration_value \<Rightarrow> string option list" where
  "declaration_targets v = (case v of Single t \<Rightarrow> [t] | Items ts \<Rightarrow> ts)"

fun add_targets ::
  "string \<Rightarrow> string \<Rightarrow> string option list \<Rightarrow> declared_reference list \<times> nat
    \<Rightarrow> declared_reference list \<times> nat" where
  "add_targets k kind [] acc = acc"
| "add_targets k kind (t # ts) (refs, n) =
     (let text = strip (or_empty t) in
      if text = [] then add_targets k kind ts (refs, n)
      else add_targets k kind ts
        (refs @ [\<lparr>dr_key = k, dr_raw_target = text, dr_ordinal = n, dr_kind = kind\<rparr>], Suc n))"

fun normalize_loop ::
  "(string \<times> declaration_value) list \<Rightarrow> declared_reference list \<Rightarrow> (string \<times> string) list \<Rightarrow> nat
    \<Rightarrow> declared_reference list \<times> (string \<times> string) list" where
  "normalize_loop [] refs ignored n = (refs, ignored)"
| "normalize_loop ((key, v) # ds) refs ignored n =
     (let k = lower (strip key) in
      case map_of DECLARATION_KEYS k of
        None \<Rightarrow> normalize_loop ds refs (ignored @ [(key, ''unsupported_declaration_key'')]) n
      | Some kind \<Rightarrow>
          (let (refs', n') = add_targets k kind (declaration_targets v) (refs, n)
           in normalize_loop ds refs' ignored n'))"

definition normalize_declarations ::
  "(string \<times> declaration_value) list option
    \<Rightarrow> declared_reference list \<times> (string \<times> string) list" where
  "normalize_declarations declarations =
     normalize_loop (case declarations of None \<Rightarrow> [] | Some ds \<Rightarrow> ds) [] [] 0"

section \<open>The lifecycle\<close>

lemma distinct_statuses:
  "distinct [PROPOSED, REVIEWED, APPROVED, IMPLEMENTING, IMPLEMENTED, OPEN, COMPLETE, DRAFT,
     READY_FOR_REVIEW, SUPERSEDED, DEFERRED]"
  by (simp add: status_defs)

lemma distinct_statuses_rev:
  "distinct [DEFERRED, SUPERSEDED, READY_FOR_REVIEW, DRAFT, COMPLETE, OPEN, IMPLEMENTED,
     IMPLEMENTING, APPROVED, REVIEWED, PROPOSED]"
  by (simp add: status_defs)

lemmas status_neqs [simp] = distinct_statuses [simplified] distinct_statuses_rev [simplified]

lemma FORWARD_eq_None_iff: "map_of FORWARD t = None \<longleftrightarrow> t \<notin> set ARTIFACT_TYPES"
  by (auto simp: FORWARD_def ARTIFACT_TYPES_def)

lemma INITIAL_STATUS_eq_None_iff: "map_of INITIAL_STATUS t = None \<longleftrightarrow> t \<notin> set ARTIFACT_TYPES"
  by (auto simp: INITIAL_STATUS_def ARTIFACT_TYPES_def)

lemma artifact_type_cases:
  assumes "t \<in> set ARTIFACT_TYPES"
  obtains "t = PLAN" | "t = REVIEW" | "t = INVESTIGATION" | "t = IMPLEMENTATION_REPORT"
    | "t = HANDOFF"
  using assms by (auto simp: ARTIFACT_TYPES_def)

lemma FORWARD_lookup [simp]:
  "map_of FORWARD PLAN =
     Some [(PROPOSED, [REVIEWED]), (REVIEWED, [APPROVED]), (APPROVED, [IMPLEMENTING]),
           (IMPLEMENTING, [IMPLEMENTED]), (IMPLEMENTED, [])]"
  "map_of FORWARD REVIEW = Some [(OPEN, [COMPLETE]), (COMPLETE, [])]"
  "map_of FORWARD INVESTIGATION = Some [(OPEN, [COMPLETE]), (COMPLETE, [])]"
  "map_of FORWARD IMPLEMENTATION_REPORT =
     Some [(DRAFT, [READY_FOR_REVIEW, COMPLETE]), (READY_FOR_REVIEW, [REVIEWED, COMPLETE]),
           (REVIEWED, [COMPLETE]), (COMPLETE, [])]"
  "map_of FORWARD HANDOFF = Some [(OPEN, [COMPLETE]), (COMPLETE, [])]"
  by (simp_all add: FORWARD_def type_defs)

lemma INITIAL_STATUS_lookup [simp]:
  "map_of INITIAL_STATUS PLAN = Some PROPOSED" "map_of INITIAL_STATUS REVIEW = Some OPEN"
  "map_of INITIAL_STATUS INVESTIGATION = Some OPEN"
  "map_of INITIAL_STATUS IMPLEMENTATION_REPORT = Some DRAFT"
  "map_of INITIAL_STATUS HANDOFF = Some OPEN"
  by (simp_all add: INITIAL_STATUS_def type_defs)

lemma valid_statuses_lookup [simp]:
  "valid_statuses PLAN =
     [PROPOSED, REVIEWED, APPROVED, IMPLEMENTING, IMPLEMENTED, SUPERSEDED, DEFERRED]"
  "valid_statuses REVIEW = [OPEN, COMPLETE, SUPERSEDED, DEFERRED]"
  "valid_statuses INVESTIGATION = [OPEN, COMPLETE, SUPERSEDED, DEFERRED]"
  "valid_statuses IMPLEMENTATION_REPORT =
     [DRAFT, READY_FOR_REVIEW, REVIEWED, COMPLETE, SUPERSEDED, DEFERRED]"
  "valid_statuses HANDOFF = [OPEN, COMPLETE, SUPERSEDED, DEFERRED]"
  by (simp_all add: valid_statuses_def TERMINAL_ANY_def)

lemma can_transition_type: "can_transition t a b \<Longrightarrow> t \<in> set ARTIFACT_TYPES"
  using FORWARD_eq_None_iff [of t] by (auto simp: can_transition_def split: option.splits)

lemma can_transition_valid:
  assumes "can_transition t a b"
  shows "a \<in> set (valid_statuses t)" "b \<in> set (valid_statuses t)" "b \<noteq> SUPERSEDED"
    "a \<notin> set TERMINAL_ANY"
proof -
  show "a \<in> set (valid_statuses t)" "b \<noteq> SUPERSEDED"
    using assms by (auto simp: can_transition_def split: option.splits if_splits)
  from assms have "t \<in> set ARTIFACT_TYPES" by (rule can_transition_type)
  then show "b \<in> set (valid_statuses t)"
    using assms
    by (cases rule: artifact_type_cases)
      (auto simp: can_transition_def TERMINAL_ANY_def split: if_splits)
  show "a \<notin> set TERMINAL_ANY"
    using \<open>t \<in> set ARTIFACT_TYPES\<close> assms
    by (cases rule: artifact_type_cases)
      (auto simp: can_transition_def TERMINAL_ANY_def
        split: if_splits)
qed

text \<open>
  How far a status is along its type's graph: the position in the type's table, with the
  terminal statuses last.
\<close>

definition status_rank :: "string \<Rightarrow> string \<Rightarrow> nat" where
  "status_rank t s = length (takeWhile (\<lambda>x. x \<noteq> s) (valid_statuses t))"

lemma can_transition_rank:
  assumes "can_transition t a b"
  shows "status_rank t a < status_rank t b"
proof -
  from assms have "t \<in> set ARTIFACT_TYPES" by (rule can_transition_type)
  then show ?thesis
    using assms
    by (cases rule: artifact_type_cases)
      (auto simp: can_transition_def TERMINAL_ANY_def status_rank_def
        split: if_splits)
qed

lemma status_rank_bound: "t \<in> set ARTIFACT_TYPES \<Longrightarrow> s \<in> set (valid_statuses t) \<Longrightarrow> status_rank t s \<le> 6"
  by (cases rule: artifact_type_cases)
    (auto simp: TERMINAL_ANY_def status_rank_def)

text \<open>No chain of legal status transitions, of any length and for any artifact type,
  returns an artifact to a status it already had: the lifecycle graph of every type is
  acyclic, so an artifact cannot be reopened by transitions.\<close>

theorem lifecycle_acyclic: "acyclicP (can_transition t)"
proof -
  have "{(a, b). can_transition t a b} \<subseteq> inv_image less_than (status_rank t)"
    by (auto dest: can_transition_rank)
  moreover have "acyclic (inv_image less_than (status_rank t))"
    by (simp add: wf_acyclic)
  ultimately show ?thesis by (rule acyclic_subset [rotated])
qed

lemma can_transition_reachable_valid:
  assumes "(can_transition t)\<^sup>*\<^sup>* a b" and "a \<in> set (valid_statuses t)" and "a \<noteq> SUPERSEDED"
  shows "b \<in> set (valid_statuses t) \<and> b \<noteq> SUPERSEDED"
  using assms by (induction rule: rtranclp_induct) (auto dest: can_transition_valid)

lemma can_transition_deferred:
  "t \<in> set ARTIFACT_TYPES \<Longrightarrow> s \<in> set (valid_statuses t) \<Longrightarrow> s \<notin> set TERMINAL_ANY \<Longrightarrow>
     can_transition t s DEFERRED"
  using FORWARD_eq_None_iff [of t]
  by (auto simp: can_transition_def TERMINAL_ANY_def split: option.splits)

lemma plan_chain:
  "can_transition PLAN PROPOSED REVIEWED" "can_transition PLAN REVIEWED APPROVED"
  "can_transition PLAN APPROVED IMPLEMENTING" "can_transition PLAN IMPLEMENTING IMPLEMENTED"
  by (simp_all add: can_transition_def TERMINAL_ANY_def)

lemma report_chain:
  "can_transition IMPLEMENTATION_REPORT DRAFT READY_FOR_REVIEW"
  "can_transition IMPLEMENTATION_REPORT READY_FOR_REVIEW REVIEWED"
  "can_transition IMPLEMENTATION_REPORT REVIEWED COMPLETE"
  by (simp_all add: can_transition_def TERMINAL_ANY_def)

lemma open_chain:
  "t \<in> {REVIEW, INVESTIGATION, HANDOFF} \<Longrightarrow> can_transition t OPEN COMPLETE"
  by (auto simp: can_transition_def TERMINAL_ANY_def)

lemma initial_valid:
  "map_of INITIAL_STATUS t = Some i \<Longrightarrow>
     t \<in> set ARTIFACT_TYPES \<and> i \<in> set (valid_statuses t) \<and> i \<notin> set TERMINAL_ANY"
  using INITIAL_STATUS_eq_None_iff [of t]
  by (cases "t \<in> set ARTIFACT_TYPES")
    (auto elim!: artifact_type_cases simp: TERMINAL_ANY_def)

lemma initial_reaches_forward:
  assumes "map_of INITIAL_STATUS t = Some i"
    and "s \<in> set (valid_statuses t)" and "s \<notin> set TERMINAL_ANY"
  shows "(can_transition t)\<^sup>*\<^sup>* i s"
proof -
  from assms(1) have "t \<in> set ARTIFACT_TYPES" by (simp add: initial_valid)
  then show ?thesis
  proof (cases rule: artifact_type_cases)
    case 1
    note c = plan_chain [THEN r_into_rtranclp [of "can_transition PLAN"]]
    have "(can_transition PLAN)\<^sup>*\<^sup>* PROPOSED APPROVED" using c(1,2) by (rule rtranclp_trans)
    moreover from this have "(can_transition PLAN)\<^sup>*\<^sup>* PROPOSED IMPLEMENTING"
      using c(3) by (rule rtranclp_trans)
    moreover from this have "(can_transition PLAN)\<^sup>*\<^sup>* PROPOSED IMPLEMENTED"
      using c(4) by (rule rtranclp_trans)
    ultimately show ?thesis using 1 assms c(1)
      by (auto simp: TERMINAL_ANY_def)
  next
    case 4
    note c = report_chain [THEN r_into_rtranclp [of "can_transition IMPLEMENTATION_REPORT"]]
    have "(can_transition IMPLEMENTATION_REPORT)\<^sup>*\<^sup>* DRAFT REVIEWED"
      using c(1,2) by (rule rtranclp_trans)
    moreover from this have "(can_transition IMPLEMENTATION_REPORT)\<^sup>*\<^sup>* DRAFT COMPLETE"
      using c(3) by (rule rtranclp_trans)
    ultimately show ?thesis using 4 assms c(1)
      by (auto simp: TERMINAL_ANY_def)
  qed (use assms open_chain [of t] in \<open>auto simp: TERMINAL_ANY_def\<close>)
qed

text \<open>From the initial status of its type, the statuses an artifact can reach by legal
  transitions are exactly the statuses valid for the type other than SUPERSEDED: nothing the
  type declares is unreachable, nothing outside it is reached, and supersession never happens
  by a plain transition.\<close>

theorem reachable_statuses:
  assumes "map_of INITIAL_STATUS t = Some i"
  shows "{s. (can_transition t)\<^sup>*\<^sup>* i s} = set (valid_statuses t) - {SUPERSEDED}"
proof (intro set_eqI iffI)
  fix s
  assume "s \<in> {s. (can_transition t)\<^sup>*\<^sup>* i s}"
  then show "s \<in> set (valid_statuses t) - {SUPERSEDED}"
    using can_transition_reachable_valid [of t i s] initial_valid [OF assms]
    by (auto simp: TERMINAL_ANY_def)
next
  fix s
  assume s: "s \<in> set (valid_statuses t) - {SUPERSEDED}"
  show "s \<in> {s. (can_transition t)\<^sup>*\<^sup>* i s}"
  proof (cases "s \<in> set TERMINAL_ANY")
    case True
    with s have "s = DEFERRED" by (auto simp: TERMINAL_ANY_def)
    moreover have "can_transition t i DEFERRED"
      using initial_valid [OF assms] by (auto intro: can_transition_deferred)
    ultimately show ?thesis by auto
  next
    case False
    with s assms show ?thesis by (auto intro: initial_reaches_forward)
  qed
qed

theorem reachable_statuses_witness:
  "map_of INITIAL_STATUS PLAN = Some PROPOSED \<and>
   {s. (can_transition PLAN)\<^sup>*\<^sup>* PROPOSED s} = set (valid_statuses PLAN) - {SUPERSEDED}"
proof -
  have h: "map_of INITIAL_STATUS PLAN = Some PROPOSED" by simp
  show ?thesis using h reachable_statuses [OF h] by blast
qed

text \<open>The statuses a refused caller is told to be legal are exactly those a transition
  from the current status would be granted for, and none is offered once the artifact is
  superseded or deferred.\<close>

theorem legal_next_statuses_exact:
  "set (legal_next_statuses t a) = {b. can_transition t a b}
   \<and> (a \<in> set TERMINAL_ANY \<longrightarrow> legal_next_statuses t a = [])"
proof -
  have "set (legal_next_statuses t a) = {b. can_transition t a b}"
    using can_transition_valid(2) [of t a] can_transition_type [of t a] FORWARD_eq_None_iff [of t]
    by (auto simp: legal_next_statuses_def)
  moreover from this have "a \<in> set TERMINAL_ANY \<Longrightarrow> set (legal_next_statuses t a) = {}"
    using can_transition_valid(4) [of t a] by auto
  ultimately show ?thesis by (metis set_empty)
qed

theorem legal_next_statuses_exact_witness:
  "set (legal_next_statuses PLAN DEFERRED) = {b. can_transition PLAN DEFERRED b}
   \<and> DEFERRED \<in> set TERMINAL_ANY \<and> legal_next_statuses PLAN DEFERRED = []"
proof -
  have "DEFERRED \<in> set TERMINAL_ANY" by (simp add: TERMINAL_ANY_def)
  then show ?thesis using legal_next_statuses_exact [of PLAN DEFERRED] by blast
qed

section \<open>Registration, headers and declarations\<close>

lemma resolve_registration_Inr:
  "resolve_registration t st = Inr r \<longleftrightarrow>
     t \<in> set ARTIFACT_TYPES \<and> r \<in> set (valid_statuses t) \<and> r \<noteq> SUPERSEDED \<and>
     (if truthy st then st = Some r else map_of INITIAL_STATUS t = Some r)"
  by (cases st) (auto simp: resolve_registration_def split: option.splits if_splits)

lemma alias_of_width_Some:
  "alias_of_width ws n = Some st \<Longrightarrow>
     \<exists>k. 0 < k \<and> k \<le> n \<and> map_of STATUS_HEADER_ALIASES (join '' '' (take k ws)) = Some st \<and>
       (\<forall>j. k < j \<longrightarrow> j \<le> n \<longrightarrow> map_of STATUS_HEADER_ALIASES (join '' '' (take j ws)) = None)"
proof (induction n)
  case (Suc n)
  show ?case
  proof (cases "map_of STATUS_HEADER_ALIASES (join '' '' (take (Suc n) ws))")
    case None
    with Suc obtain k where "0 < k" "k \<le> n"
      "map_of STATUS_HEADER_ALIASES (join '' '' (take k ws)) = Some st"
      "\<forall>j. k < j \<longrightarrow> j \<le> n \<longrightarrow> map_of STATUS_HEADER_ALIASES (join '' '' (take j ws)) = None"
      by auto
    with None show ?thesis by (intro exI [of _ k]) (auto simp: le_Suc_eq)
  next
    case (Some s)
    with Suc.prems show ?thesis by (intro exI [of _ "Suc n"]) auto
  qed
qed simp

lemma status_header_words:
  assumes "status_header_key r \<noteq> []"
  shows "split_char CHR '' '' (status_header_key r) =
    split_ws (fold before_sep header_delimiters (lower (strip (remove_chars ''*_`'' r))))"
    (is "_ = ?ws")
proof -
  have "?ws \<noteq> []" using assms by (auto simp: status_header_key_def)
  moreover have "\<forall>w\<in>set ?ws. CHR '' '' \<notin> set w"
    using split_ws_words is_space_blank by blast
  ultimately show ?thesis unfolding status_header_key_def by (rule split_char_join)
qed

text \<open>A prose status header is read by its longest leading phrase only: when a status is
  returned, it is one the artifact's type may hold, no reason is attached, and it is the
  status the alias table gives to the first \<open>k\<close> words of the header with every longer leading
  phrase unknown to the table. A header that yields no status always carries a reason.\<close>

theorem status_from_header_leading:
  assumes "status_from_header (Some raw) t = (st, reason)"
  defines "ws \<equiv> split_ws (fold before_sep header_delimiters (lower (strip (remove_chars ''*_`'' raw))))"
  shows "(st = None \<longleftrightarrow> reason \<noteq> None) \<and>
    (\<forall>s. st = Some s \<longrightarrow> s \<in> set (valid_statuses t) \<and>
       (\<exists>k. 0 < k \<and> k \<le> length ws \<and>
          map_of STATUS_HEADER_ALIASES (join '' '' (take k ws)) = Some s \<and>
          (\<forall>j. k < j \<longrightarrow> j \<le> length ws \<longrightarrow>
             map_of STATUS_HEADER_ALIASES (join '' '' (take j ws)) = None)))"
proof (cases "strip raw = [] \<or> status_header_key raw = []")
  case True
  then show ?thesis using assms(1) by (auto simp: status_from_header_def Let_def split: if_splits)
next
  case False
  then have w: "split_char CHR '' '' (status_header_key raw) = ws"
    unfolding ws_def by (simp add: status_header_words)
  show ?thesis
  proof (cases "alias_of_width ws (length ws)")
    case None
    then show ?thesis using False assms(1) w by (auto simp: status_from_header_def Let_def)
  next
    case (Some m)
    then have "(st, reason) = (if m \<notin> set (valid_statuses t)
        then (None, Some ''status_invalid_for_type'') else (Some m, None))"
      using False assms(1) w by (simp add: status_from_header_def Let_def)
    then show ?thesis
      using alias_of_width_Some [OF Some] by (cases "m \<in> set (valid_statuses t)") auto
  qed
qed

theorem status_from_header_leading_witness:
  "status_from_header (Some ''**APPROVED** as the basis (see open items)'') PLAN = (Some APPROVED, None)
   \<and> APPROVED \<in> set (valid_statuses PLAN)"
proof -
  have h: "status_from_header (Some ''**APPROVED** as the basis (see open items)'') PLAN
      = (Some APPROVED, None)"
    by code_simp
  show ?thesis using h status_from_header_leading [OF h] by blast
qed

text \<open>What the flattening loop computes, without the running ordinal.\<close>

definition declared_targets :: "(string \<times> declaration_value) list \<Rightarrow> (string \<times> string) list" where
  "declared_targets ds =
     concat (map (\<lambda>(key, v).
       if map_of DECLARATION_KEYS (lower (strip key)) = None then []
       else map (\<lambda>x. (lower (strip key), x))
              (filter (\<lambda>x. x \<noteq> []) (map (\<lambda>t. strip (or_empty t)) (declaration_targets v)))) ds)"

lemma add_targets_spec:
  assumes "add_targets k kind ts (refs, n) = (refs', n')" and "n = length refs"
    and "map dr_ordinal refs = [0..<length refs]"
  shows "n' = length refs'" "map dr_ordinal refs' = [0..<length refs']"
    "map (\<lambda>r. (dr_key r, dr_raw_target r)) refs' =
       map (\<lambda>r. (dr_key r, dr_raw_target r)) refs @
       map (\<lambda>x. (k, x)) (filter (\<lambda>x. x \<noteq> []) (map (\<lambda>t. strip (or_empty t)) ts))"
proof -
  define mk where "mk n x = \<lparr>dr_key = k, dr_raw_target = x, dr_ordinal = n, dr_kind = kind\<rparr>" for n x
  have "n' = length refs' \<and> map dr_ordinal refs' = [0..<length refs'] \<and>
    map (\<lambda>r. (dr_key r, dr_raw_target r)) refs' =
       map (\<lambda>r. (dr_key r, dr_raw_target r)) refs @
       map (\<lambda>x. (k, x)) (filter (\<lambda>x. x \<noteq> []) (map (\<lambda>t. strip (or_empty t)) ts))"
    using assms
  proof (induction ts arbitrary: refs n)
    case (Cons t ts)
    show ?case
    proof (cases "strip (or_empty t) = []")
      case True
      then show ?thesis using Cons.IH [of refs n] Cons.prems by simp
    next
      case False
      then show ?thesis
        using Cons.IH [of "refs @ [mk n (strip (or_empty t))]" "Suc n"] Cons.prems
        by (simp add: mk_def)
    qed
  qed simp
  then show "n' = length refs'" "map dr_ordinal refs' = [0..<length refs']"
    "map (\<lambda>r. (dr_key r, dr_raw_target r)) refs' =
       map (\<lambda>r. (dr_key r, dr_raw_target r)) refs @
       map (\<lambda>x. (k, x)) (filter (\<lambda>x. x \<noteq> []) (map (\<lambda>t. strip (or_empty t)) ts))"
    by auto
qed

lemma normalize_loop_spec:
  assumes "normalize_loop ds refs ignored n = (out, ign)" and "n = length refs"
    and "map dr_ordinal refs = [0..<length refs]"
  shows "map dr_ordinal out = [0..<length out]"
    "map (\<lambda>r. (dr_key r, dr_raw_target r)) out =
       map (\<lambda>r. (dr_key r, dr_raw_target r)) refs @ declared_targets ds"
    "map fst ign = map fst ignored @
       map fst (filter (\<lambda>(key, v). map_of DECLARATION_KEYS (lower (strip key)) = None) ds)"
  using assms
proof (induction ds refs ignored n rule: normalize_loop.induct)
  case (1 refs ignored n)
  {
    case 1
    then show ?case by simp
  next
    case 2
    then show ?case by (simp add: declared_targets_def)
  next
    case 3
    then show ?case by simp
  }
next
  case (2 key v ds refs ignored n)
  obtain refs' n' where a: "add_targets (lower (strip key))
      (the (map_of DECLARATION_KEYS (lower (strip key)))) (declaration_targets v) (refs, n) = (refs', n')"
    by (cases "add_targets (lower (strip key))
      (the (map_of DECLARATION_KEYS (lower (strip key)))) (declaration_targets v) (refs, n)") auto
  {
    case 1
    then show ?case
      using "2.IH" a add_targets_spec [OF a]
      by (cases "map_of DECLARATION_KEYS (lower (strip key))") (auto simp: Let_def)
  next
    case 2
    then show ?case
      using "2.IH" a add_targets_spec [OF a]
      by (cases "map_of DECLARATION_KEYS (lower (strip key))")
        (auto simp: Let_def declared_targets_def)
  next
    case 3
    then show ?case
      using "2.IH" a add_targets_spec [OF a]
      by (cases "map_of DECLARATION_KEYS (lower (strip key))") (auto simp: Let_def)
  }
qed

text \<open>Flattening a frontmatter mapping loses and invents nothing: the references are, in
  the author's order, one per non-blank target of every supported key, numbered
  \<open>0, 1, 2, \<dots>\<close> across the whole mapping, and the ignored list names exactly the unsupported
  keys, in order.\<close>

theorem normalize_declarations_exact:
  "case normalize_declarations (Some ds) of (refs, ignored) \<Rightarrow>
     map (\<lambda>r. (dr_key r, dr_raw_target r)) refs = declared_targets ds \<and>
     map dr_ordinal refs = [0..<length refs] \<and>
     map fst ignored =
       map fst (filter (\<lambda>(key, v). map_of DECLARATION_KEYS (lower (strip key)) = None) ds)"
proof -
  obtain out ign where n: "normalize_loop ds [] [] 0 = (out, ign)"
    by (cases "normalize_loop ds [] [] 0") auto
  show ?thesis
    using normalize_loop_spec [OF n] n by (simp add: normalize_declarations_def)
qed

section \<open>Questions and namespaces\<close>

lemma question_lookup [simp]:
  "map_of QUESTION_FORWARD Q_OPEN = Some [Q_ANSWERED, Q_DEFERRED]"
  "map_of QUESTION_FORWARD Q_ANSWERED = Some []" "map_of QUESTION_FORWARD Q_DEFERRED = Some []"
  by (simp_all add: QUESTION_FORWARD_def Q_OPEN_def Q_ANSWERED_def Q_DEFERRED_def)

lemma distinct_questions [simp]:
  "Q_OPEN \<noteq> Q_ANSWERED" "Q_ANSWERED \<noteq> Q_OPEN" "Q_OPEN \<noteq> Q_DEFERRED" "Q_DEFERRED \<noteq> Q_OPEN"
  "Q_ANSWERED \<noteq> Q_DEFERRED" "Q_DEFERRED \<noteq> Q_ANSWERED"
  by (simp_all add: Q_OPEN_def Q_ANSWERED_def Q_DEFERRED_def)

lemma distinct_QUESTION_FORWARD: "distinct (map fst QUESTION_FORWARD)"
  by (simp add: QUESTION_FORWARD_def)

lemma question_statuses_allowing_iff:
  "s \<in> set (question_statuses_allowing t) \<longleftrightarrow> question_can_transition s t"
proof -
  have "s \<in> set (question_statuses_allowing t) \<longleftrightarrow> (\<exists>ts. (s, ts) \<in> set QUESTION_FORWARD \<and> t \<in> set ts)"
    by (force simp: question_statuses_allowing_def)
  also have "\<dots> \<longleftrightarrow> (\<exists>ts. map_of QUESTION_FORWARD s = Some ts \<and> t \<in> set ts)"
    by (simp only: map_of_eq_Some_iff [OF distinct_QUESTION_FORWARD])
  also have "\<dots> \<longleftrightarrow> question_can_transition s t"
    by (cases "map_of QUESTION_FORWARD s") (simp_all add: question_can_transition_def)
  finally show ?thesis .
qed

lemma question_can_transition_iff:
  "question_can_transition s t \<longleftrightarrow> s = Q_OPEN \<and> (t = Q_ANSWERED \<or> t = Q_DEFERRED)"
  by (auto simp: question_can_transition_def QUESTION_FORWARD_def)

text \<open>The guard list handed to the store for an open-question update is equivalent to the
  state machine, for every status including unknown ones: a status is admissible exactly when
  the transition is legal, and the only legal transitions leave the open status.\<close>

theorem question_guard_equiv:
  "(s \<in> set (question_statuses_allowing t)) = question_can_transition s t \<and>
   question_can_transition s t = (s = Q_OPEN \<and> (t = Q_ANSWERED \<or> t = Q_DEFERRED))"
  by (simp add: question_statuses_allowing_iff question_can_transition_iff)

text \<open>The Python and the Cypher form of the namespace rule agree on every pair of stamped
  namespaces; on an unstamped subordinate they differ exactly when the owner is unstamped too,
  where Python admits the link and the Cypher predicate refuses it.\<close>

theorem namespace_forms_agree:
  "(\<forall>own sub. namespace_compatibility_cypher (Some own) (Some sub)
      = Some (namespaces_are_compatible (Some own) (Some sub))) \<and>
   (\<forall>own. (namespace_compatibility_cypher own None = Some True) \<noteq> namespaces_are_compatible own None
      \<longleftrightarrow> own = None)"
  by (auto simp: namespace_compatibility_cypher_def namespaces_are_compatible_def cypher_eq_def)

end
