(* ===== verification/Namespace.thy ===== *)
theory Namespace
  imports Work_Artifact
begin

text \<open>
  The memory namespace, \<^verbatim>\<open>domain/namespace.py\<close>: how a caller's namespace becomes the stamp and
  the group of a written node, and which nodes a scoped read admits. A Cypher predicate is its
  value in three-valued logic, \<open>None\<close> for null; a row passes a filter when the value is
  \<open>Some True\<close>. The fragments the source builds are strings here as well, and \<open>tenant_scope\<close> is
  what the fragment means for a row and a parameter list.
\<close>

section \<open>Namespaces\<close>

definition GRAPHITI_DEFAULT_GROUP_ID :: string where
  "GRAPHITI_DEFAULT_GROUP_ID = []"

definition normalize_namespace :: "string option \<Rightarrow> string" where
  "normalize_namespace value =
     (let t = (case value of None \<Rightarrow> [] | Some v \<Rightarrow> strip v) in if t = [] then DEFAULT_NAMESPACE else t)"

definition namespace_spellings :: "string option \<Rightarrow> string list option" where
  "namespace_spellings namespace =
     (case namespace of
        None \<Rightarrow> None
      | Some n \<Rightarrow>
          if n \<in> {DEFAULT_NAMESPACE, GRAPHITI_DEFAULT_GROUP_ID}
          then Some [DEFAULT_NAMESPACE, GRAPHITI_DEFAULT_GROUP_ID] else Some [n])"

definition TURN_EVIDENCE_NULL_NAMESPACE_KEY :: string where
  "TURN_EVIDENCE_NULL_NAMESPACE_KEY = char_of (0 :: nat) # ''null''"

definition turn_evidence_cursor_keys :: "string option \<Rightarrow> string list" where
  "turn_evidence_cursor_keys namespace =
     (case namespace of
        None \<Rightarrow> [DEFAULT_NAMESPACE, GRAPHITI_DEFAULT_GROUP_ID, TURN_EVIDENCE_NULL_NAMESPACE_KEY]
      | Some n \<Rightarrow>
          if n \<in> {DEFAULT_NAMESPACE, GRAPHITI_DEFAULT_GROUP_ID}
          then [DEFAULT_NAMESPACE, GRAPHITI_DEFAULT_GROUP_ID, TURN_EVIDENCE_NULL_NAMESPACE_KEY]
          else [n])"

definition namespace_to_group_id :: "string option \<Rightarrow> string" where
  "namespace_to_group_id namespace =
     (case namespace of
        None \<Rightarrow> GRAPHITI_DEFAULT_GROUP_ID
      | Some n \<Rightarrow> if n = DEFAULT_NAMESPACE then GRAPHITI_DEFAULT_GROUP_ID else n)"

definition namespace_to_group_ids :: "string option \<Rightarrow> string list option" where
  "namespace_to_group_ids namespace =
     (case namespace of
        None \<Rightarrow> None
      | Some n \<Rightarrow> if n = DEFAULT_NAMESPACE then Some [GRAPHITI_DEFAULT_GROUP_ID] else Some [n])"

definition stamped_namespace :: "string option \<Rightarrow> string" where
  "stamped_namespace namespace =
     (case namespace of
        None \<Rightarrow> DEFAULT_NAMESPACE
      | Some n \<Rightarrow> if n = DEFAULT_NAMESPACE then DEFAULT_NAMESPACE else n)"

text \<open>
  \<^verbatim>\<open>re.compile(r"^[a-zA-Z0-9_-]+$").match\<close>: a greedy run of safe characters, and \<^verbatim>\<open>$\<close> holds at
  the end of the string and before a newline that ends it.
\<close>

definition group_id_safe_char :: "char \<Rightarrow> bool" where
  "group_id_safe_char c \<longleftrightarrow>
     (let n = of_char c :: nat
      in 97 \<le> n \<and> n \<le> 122 \<or> 65 \<le> n \<and> n \<le> 90 \<or> 48 \<le> n \<and> n \<le> 57 \<or> c \<in> set ''_-'')"

definition newline :: string where
  "newline = [char_of (10 :: nat)]"

definition group_id_pattern_matches :: "string \<Rightarrow> bool" where
  "group_id_pattern_matches s \<longleftrightarrow>
     (let run = takeWhile group_id_safe_char s; rest = dropWhile group_id_safe_char s
      in run \<noteq> [] \<and> (rest = [] \<or> rest = newline))"

definition namespace_group_id_error :: "string option \<Rightarrow> string option" where
  "namespace_group_id_error namespace =
     (if \<not> truthy namespace \<or> namespace = Some DEFAULT_NAMESPACE then None
      else if group_id_pattern_matches (or_empty namespace) then None
      else Some ''must contain only alphanumeric characters, dashes, or underscores'')"

section \<open>The tenancy predicate\<close>

datatype tenancy_scheme = MEMORY | STRUCTURE

record tenant_row =
  row_namespace :: "string option"
  row_group_id :: "string option"

text \<open>
  \<^verbatim>\<open>str.isidentifier\<close> on code points below 256: letters, the Latin-1 letters and underscore,
  then also digits and the middle dot.
\<close>

definition identifier_start :: "char \<Rightarrow> bool" where
  "identifier_start c \<longleftrightarrow>
     (let n = of_char c :: nat
      in 97 \<le> n \<and> n \<le> 122 \<or> 65 \<le> n \<and> n \<le> 90 \<or> n = 95 \<or> n = 170 \<or> n = 181 \<or> n = 186
         \<or> 192 \<le> n \<and> n \<le> 214 \<or> 216 \<le> n \<and> n \<le> 246 \<or> 248 \<le> n)"

definition identifier_continue :: "char \<Rightarrow> bool" where
  "identifier_continue c \<longleftrightarrow>
     identifier_start c \<or> (let n = of_char c :: nat in 48 \<le> n \<and> n \<le> 57 \<or> n = 183)"

fun isidentifier :: "string \<Rightarrow> bool" where
  "isidentifier [] \<longleftrightarrow> False"
| "isidentifier (c # s) \<longleftrightarrow> identifier_start c \<and> list_all identifier_continue s"

definition tenant_scope_cypher :: "string \<Rightarrow> tenancy_scheme \<Rightarrow> string result" where
  "tenant_scope_cypher v scheme =
     (if scheme = STRUCTURE then Inl (ValueError ''structure entities are a single shared silo'')
      else if \<not> isidentifier v then Inl (ValueError ''variable must be a Cypher identifier'')
      else Inr (''($tenant_namespaces IS NULL OR coalesce('' @ v @ ''.namespace, '' @ v
                 @ ''.group_id, '' @ [CHR 0x27, CHR 0x27] @ '') IN $tenant_namespaces)''))"

definition tenant_scope_prefilter_cypher :: "string \<Rightarrow> string result" where
  "tenant_scope_prefilter_cypher v =
     (if \<not> isidentifier v then Inl (ValueError ''variable must be a Cypher identifier'')
      else Inr (''('' @ v @ ''.namespace IN $tenant_namespaces OR '' @ v
                 @ ''.group_id IN $tenant_namespaces)''))"

definition coalesce :: "string option \<Rightarrow> string option \<Rightarrow> string \<Rightarrow> string" where
  "coalesce x y d = (case x of Some s \<Rightarrow> s | None \<Rightarrow> (case y of Some s \<Rightarrow> s | None \<Rightarrow> d))"

definition cypher_or :: "bool option \<Rightarrow> bool option \<Rightarrow> bool option" where
  "cypher_or p q =
     (if p = Some True \<or> q = Some True then Some True
      else if p = None \<or> q = None then None else Some False)"

definition tenant_scope :: "string list option \<Rightarrow> tenant_row \<Rightarrow> bool option" where
  "tenant_scope tenant_namespaces row =
     (case tenant_namespaces of
        None \<Rightarrow> Some True
      | Some ns \<Rightarrow> cypher_in (Some (coalesce (row_namespace row) (row_group_id row) [])) (map Some ns))"

definition tenant_scope_prefilter :: "string list option \<Rightarrow> tenant_row \<Rightarrow> bool option" where
  "tenant_scope_prefilter tenant_namespaces row =
     (case tenant_namespaces of
        None \<Rightarrow> None
      | Some ns \<Rightarrow> cypher_or (cypher_in (row_namespace row) (map Some ns))
                     (cypher_in (row_group_id row) (map Some ns)))"

text \<open>The row a write with a namespace leaves behind.\<close>

definition written_row :: "string option \<Rightarrow> tenant_row" where
  "written_row namespace =
     \<lparr>row_namespace = Some (stamped_namespace namespace),
      row_group_id = Some (namespace_to_group_id namespace)\<rparr>"

section \<open>Silos\<close>

text \<open>
  The silo a namespace denotes: an absent and an empty namespace are the default silo, any
  other value is its own.
\<close>

definition silo :: "string option \<Rightarrow> string" where
  "silo namespace = (if truthy namespace then or_empty namespace else DEFAULT_NAMESPACE)"

lemma default_namespace_nonempty [simp]: "DEFAULT_NAMESPACE \<noteq> []"
  by (simp add: DEFAULT_NAMESPACE_def)

lemma cypher_in_Some: "cypher_in (Some x) (map Some xs) = Some (x \<in> set xs)"
  by (induction xs) (auto simp: cypher_eq_def split: bool.splits)

lemma cypher_in_None: "cypher_in None (map Some xs) = (if xs = [] then Some False else None)"
  by (induction xs) (auto simp: cypher_eq_def split: option.splits bool.splits)

lemma tenant_scope_simps:
  "tenant_scope None row = Some True"
  "tenant_scope (Some ns) row = Some (coalesce (row_namespace row) (row_group_id row) [] \<in> set ns)"
  by (simp_all add: tenant_scope_def cypher_in_Some)

lemma prefilter_simps:
  "ns \<noteq> [] \<Longrightarrow> tenant_scope_prefilter (Some ns) row = Some True \<longleftrightarrow>
     row_namespace row \<in> Some ` set ns \<or> row_group_id row \<in> Some ` set ns"
  by (cases "row_namespace row"; cases "row_group_id row")
    (auto simp: tenant_scope_prefilter_def cypher_in_Some cypher_in_None cypher_or_def)

text \<open>
  C38: a read scoped to a namespace sees exactly the writes of the same silo. A node written
  under any namespace passes the tenancy predicate of a reader iff the reader is unscoped or
  both namespaces denote the same silo, where an absent and an empty namespace and the name
  \<open>default\<close> are one silo.
\<close>

theorem tenant_scope_isolates_silos:
  "tenant_scope (namespace_spellings reader) (written_row writer) = Some True \<longleftrightarrow>
     reader = None \<or> silo reader = silo writer"
  by (cases reader; cases writer)
    (auto simp: tenant_scope_simps namespace_spellings_def written_row_def stamped_namespace_def
      coalesce_def silo_def GRAPHITI_DEFAULT_GROUP_ID_def)

text \<open>
  the graph partition agrees with the stamp. The group a write lands in is among the
  groups a reader of the namespace searches iff the stamp passes the reader's tenancy
  predicate.
\<close>

theorem group_partition_agrees_with_stamp:
  "(case namespace_to_group_ids reader of None \<Rightarrow> True | Some gs \<Rightarrow> namespace_to_group_id writer \<in> set gs)
   \<longleftrightarrow> tenant_scope (namespace_spellings reader) (written_row writer) = Some True"
  by (cases reader; cases writer)
    (auto simp: tenant_scope_simps namespace_spellings_def written_row_def stamped_namespace_def
      coalesce_def namespace_to_group_ids_def namespace_to_group_id_def
      GRAPHITI_DEFAULT_GROUP_ID_def)

text \<open>
  the index-friendly prefilter admits every row of a scoped reader that carries a
  namespace or a group, so adding it beside the tenancy predicate loses none of them; it loses
  exactly the rows of the default silo that carry neither.
\<close>

theorem prefilter_superset:
  assumes "tenant_scope (namespace_spellings (Some reader)) row = Some True"
  shows "tenant_scope_prefilter (namespace_spellings (Some reader)) row \<noteq> Some True \<longleftrightarrow>
     row_namespace row = None \<and> row_group_id row = None"
  using assms
  by (cases "row_namespace row"; cases "row_group_id row")
    (auto simp: tenant_scope_simps prefilter_simps namespace_spellings_def coalesce_def split: if_splits)

theorem prefilter_superset_witness:
  "tenant_scope_prefilter (namespace_spellings (Some ''team'')) (written_row (Some ''team'')) = Some True"
proof -
  have "tenant_scope (namespace_spellings (Some ''team'')) (written_row (Some ''team'')) = Some True"
    by code_simp
  from prefilter_superset [OF this] show ?thesis by (simp add: written_row_def)
qed

text \<open>
  a legacy row without a namespace and without a group belongs to the default silo by the
  tenancy predicate, and the prefilter that is documented as its superset drops it.
\<close>

theorem prefilter_drops_unstamped_rows:
  "tenant_scope (namespace_spellings (Some DEFAULT_NAMESPACE)) \<lparr>row_namespace = None, row_group_id = None\<rparr>
     = Some True
   \<and> tenant_scope_prefilter (namespace_spellings (Some DEFAULT_NAMESPACE))
       \<lparr>row_namespace = None, row_group_id = None\<rparr> = None"
  by code_simp

lemma safe_append:
  "list_all group_id_safe_char s \<Longrightarrow>
     takeWhile group_id_safe_char (s @ newline) = s \<and> dropWhile group_id_safe_char (s @ newline) = newline"
proof (induction s)
  case Nil
  have "\<not> group_id_safe_char (char_of (10 :: nat))" by code_simp
  then show ?case by (simp add: newline_def)
qed simp

lemma group_id_pattern_exact:
  "group_id_pattern_matches n \<longleftrightarrow>
     (\<exists>s. s \<noteq> [] \<and> list_all group_id_safe_char s \<and> (n = s \<or> n = s @ newline))"
proof
  assume "group_id_pattern_matches n"
  then show "\<exists>s. s \<noteq> [] \<and> list_all group_id_safe_char s \<and> (n = s \<or> n = s @ newline)"
    unfolding group_id_pattern_matches_def Let_def
    by (intro exI [of _ "takeWhile group_id_safe_char n"])
      (metis append.right_neutral list_all_iff set_takeWhileD takeWhile_dropWhile_id)
next
  assume "\<exists>s. s \<noteq> [] \<and> list_all group_id_safe_char s \<and> (n = s \<or> n = s @ newline)"
  then show "group_id_pattern_matches n"
    unfolding group_id_pattern_matches_def Let_def using safe_append
    by (metis dropWhile_eq_Nil_conv list_all_iff takeWhile_eq_all_conv)
qed

text \<open>
  the write-time check accepts a namespace exactly when it is absent, empty, the default,
  or a nonempty run of letters, digits, dashes and underscores, alone or followed by one
  newline at the end.
\<close>

theorem namespace_group_id_error_exact:
  "namespace_group_id_error namespace = None \<longleftrightarrow>
     namespace = None \<or> namespace = Some [] \<or> namespace = Some DEFAULT_NAMESPACE
     \<or> (\<exists>s. s \<noteq> [] \<and> list_all group_id_safe_char s
          \<and> (namespace = Some s \<or> namespace = Some (s @ newline)))"
  by (cases namespace) (auto simp: namespace_group_id_error_def group_id_pattern_exact)

lemma normalize_namespace_idem: "normalize_namespace (Some (normalize_namespace v)) = normalize_namespace v"
proof -
  have "strip DEFAULT_NAMESPACE = DEFAULT_NAMESPACE" by code_simp
  then show ?thesis by (cases v) (auto simp: normalize_namespace_def Let_def strip_idem)
qed

end
