(* ===== verification/Artifact_Store.thy ===== *)
theory Artifact_Store
  imports Namespace
begin

text \<open>
  The graph of work artifacts, \<^verbatim>\<open>infrastructure/work_artifact_repository.py\<close>: creation, lifecycle
  transitions, declared relations, supersession, open questions and deletion. A Cypher
  statement runs atomically; a method of two statements is two operations, and what it read is
  kept in a ticket between them, so that a run may interleave the statements of any number of
  callers. Timestamps, embodiments and locations are left out. The uniqueness constraint on
  \<^verbatim>\<open>artifact_uuid\<close> (\<^verbatim>\<open>schema.py\<close>) makes a second creation of a UUID fail.
\<close>

section \<open>The graph\<close>

record artifact =
  wa_type :: string
  wa_title :: string
  wa_status :: string
  wa_status_raw :: "string option"
  wa_status_unresolved_reason :: "string option"
  wa_namespace :: "string option"
  wa_lifecycle_revision :: int

record question =
  qn_owner :: string
  qn_ordinal :: nat
  qn_text :: string
  qn_raw_segment :: string
  qn_status :: string

type_synonym edge = "string \<times> string \<times> string"

record graph =
  gr_artifacts :: "string \<rightharpoonup> artifact"
  gr_questions :: "string \<rightharpoonup> question"
  gr_edges :: "edge set"

definition SUPERSEDES_EDGE :: string where "SUPERSEDES_EDGE = ''SUPERSEDES''"
definition ANSWERS_QUESTION_EDGE :: string where "ANSWERS_QUESTION_EDGE = ''ANSWERS_QUESTION''"

definition empty_graph :: graph where
  "empty_graph = \<lparr>gr_artifacts = Map.empty, gr_questions = Map.empty, gr_edges = {}\<rparr>"

definition create_artifact ::
  "string \<Rightarrow> string \<Rightarrow> string \<Rightarrow> string option \<Rightarrow> string option \<Rightarrow> string option \<Rightarrow> string option
    \<Rightarrow> graph \<Rightarrow> graph result" where
  "create_artifact uuid artifact_type title namespace status status_raw status_unresolved_reason g =
     bind_result (resolve_registration artifact_type status) (\<lambda>resolved.
       if gr_artifacts g uuid \<noteq> None then Inl (ConstraintError uuid)
       else Inr (g\<lparr>gr_artifacts := (gr_artifacts g)(uuid \<mapsto>
         \<lparr>wa_type = artifact_type, wa_title = title, wa_status = resolved, wa_status_raw = status_raw,
          wa_status_unresolved_reason = status_unresolved_reason,
          wa_namespace = Some (normalize_namespace namespace), wa_lifecycle_revision = 0\<rparr>)\<rparr>))"

section \<open>Lifecycle transitions\<close>

text \<open>What \<^verbatim>\<open>transition_status\<close> carries from its read to its compare-and-set.\<close>

record transition_ticket =
  tk_uuid :: string
  tk_type :: string
  tk_from :: string
  tk_to :: string
  tk_observed_namespace :: "string option"
  tk_scope :: "string option"

definition scope_of :: "string option \<Rightarrow> string option" where
  "scope_of namespace = (if strip (or_empty namespace) \<noteq> [] then Some (normalize_namespace namespace) else None)"

definition in_scope :: "string option \<Rightarrow> artifact \<Rightarrow> bool" where
  "in_scope scope a \<longleftrightarrow> (case scope of None \<Rightarrow> True | Some n \<Rightarrow> wa_namespace a = Some n)"

definition transition_read ::
  "string \<Rightarrow> string \<Rightarrow> string option \<Rightarrow> graph \<Rightarrow> string + transition_ticket" where
  "transition_read uuid to_status namespace g =
     (case gr_artifacts g uuid of
        None \<Rightarrow> Inl ''artifact_not_found''
      | Some a \<Rightarrow>
          if \<not> in_scope (scope_of namespace) a then Inl ''artifact_not_found''
          else if to_status = SUPERSEDED then Inl ''supersession_requires_replacement''
          else if \<not> can_transition (wa_type a) (wa_status a) to_status then Inl ''illegal_transition''
          else Inr \<lparr>tk_uuid = uuid, tk_type = wa_type a, tk_from = wa_status a, tk_to = to_status,
                    tk_observed_namespace = wa_namespace a, tk_scope = scope_of namespace\<rparr>)"

definition bump :: "artifact \<Rightarrow> artifact" where
  "bump a = a\<lparr>wa_lifecycle_revision := wa_lifecycle_revision a + 1\<rparr>"

definition transition_write :: "transition_ticket \<Rightarrow> graph \<Rightarrow> graph \<times> bool" where
  "transition_write tk g =
     (case gr_artifacts g (tk_uuid tk) of
        None \<Rightarrow> (g, False)
      | Some a \<Rightarrow>
          if \<not> in_scope (tk_scope tk) a then (g, False)
          else if wa_type a = tk_type tk \<and> wa_status a = tk_from tk
                  \<and> or_empty (wa_namespace a) = or_empty (tk_observed_namespace tk)
          then (g\<lparr>gr_artifacts := (gr_artifacts g)(tk_uuid tk \<mapsto> (bump a)\<lparr>wa_status := tk_to tk\<rparr>)\<rparr>, True)
          else (g\<lparr>gr_artifacts := (gr_artifacts g)(tk_uuid tk \<mapsto> bump a)\<rparr>, False))"

section \<open>Declared relations\<close>

definition link_read :: "string \<Rightarrow> string \<Rightarrow> string \<Rightarrow> graph \<Rightarrow> string + edge" where
  "link_read source target relation g =
     (case map_of ARTIFACT_RELATIONS relation of
        None \<Rightarrow> Inl ''unsupported_relation''
      | Some (edge_type, _, _) \<Rightarrow>
          (case (gr_artifacts g source, gr_artifacts g target) of
             (Some s, Some t) \<Rightarrow>
               if \<not> fst (relation_is_legal relation (wa_type s) (wa_type t))
               then Inl (or_empty (snd (relation_is_legal relation (wa_type s) (wa_type t))))
               else if \<not> namespaces_are_compatible (wa_namespace s) (wa_namespace t)
               then Inl ''namespace_incompatible''
               else Inr (edge_type, source, target)
           | _ \<Rightarrow> Inl ''artifact_not_found''))"

definition link_write :: "edge \<Rightarrow> graph \<Rightarrow> graph" where
  "link_write e g =
     (case e of (edge_type, source, target) \<Rightarrow>
       if gr_artifacts g source \<noteq> None \<and> gr_artifacts g target \<noteq> None
       then g\<lparr>gr_edges := insert e (gr_edges g)\<rparr> else g)"

text \<open>
  The legality predicate of supersession. Each conjunct that is not true, null included,
  refuses the row.
\<close>

definition supersession_legal :: "string \<Rightarrow> artifact \<Rightarrow> string \<Rightarrow> artifact \<Rightarrow> bool" where
  "supersession_legal new_uuid new old_uuid old \<longleftrightarrow>
     wa_type new = wa_type old \<and> new_uuid \<noteq> old_uuid \<and> wa_type new \<in> set ARTIFACT_TYPES
     \<and> wa_status new \<in> set (valid_statuses (wa_type new))
     \<and> wa_status old \<in> set (valid_statuses (wa_type old))
     \<and> wa_status old \<notin> set TERMINAL_ANY
     \<and> namespace_compatibility_cypher (wa_namespace new) (wa_namespace old) = Some True"

definition bump_at :: "string \<Rightarrow> graph \<Rightarrow> graph" where
  "bump_at uuid g =
     (case gr_artifacts g uuid of
        None \<Rightarrow> g
      | Some a \<Rightarrow> g\<lparr>gr_artifacts := (gr_artifacts g)(uuid \<mapsto> bump a)\<rparr>)"

definition supersede_artifact :: "string \<Rightarrow> string \<Rightarrow> graph \<Rightarrow> graph \<times> bool" where
  "supersede_artifact new_uuid old_uuid g =
     (let first = min new_uuid old_uuid; second = max new_uuid old_uuid in
      if gr_artifacts g first = None then (g, False)
      else let g1 = bump_at first g in
        if gr_artifacts g1 second = None then (g1, False)
        else let g2 = bump_at second g1 in
          case (gr_artifacts g2 new_uuid, gr_artifacts g2 old_uuid) of
            (Some new, Some old) \<Rightarrow>
              if supersession_legal new_uuid new old_uuid old
              then (g2\<lparr>gr_artifacts := (gr_artifacts g2)(old_uuid \<mapsto> old\<lparr>wa_status := SUPERSEDED\<rparr>),
                       gr_edges := insert (SUPERSEDES_EDGE, new_uuid, old_uuid) (gr_edges g2)\<rparr>, True)
              else (g2, False)
          | _ \<Rightarrow> (g2, False))"

section \<open>Open questions\<close>

text \<open>\<open>fresh\<close> are the UUIDs drawn for the rows.\<close>

definition question_rows :: "string \<Rightarrow> string list \<Rightarrow> question list" where
  "question_rows owner texts =
     map (\<lambda>(i, t). \<lparr>qn_owner = owner, qn_ordinal = i, qn_text = strip t, qn_raw_segment = t, qn_status = Q_OPEN\<rparr>)
       (enumerate 0 (filter (\<lambda>t. t \<noteq> [] \<and> strip t \<noteq> []) texts))"

definition add_open_questions :: "string list \<Rightarrow> string \<Rightarrow> string list \<Rightarrow> graph \<Rightarrow> graph" where
  "add_open_questions fresh artifact_uuid texts g =
     (if gr_artifacts g artifact_uuid = None then g
      else g\<lparr>gr_questions := gr_questions g ++ map_of (zip fresh (question_rows artifact_uuid texts))\<rparr>)"

definition answer_question :: "string \<Rightarrow> string \<Rightarrow> graph \<Rightarrow> graph \<times> bool" where
  "answer_question question_uuid answering_uuid g =
     (case gr_questions g question_uuid of
        None \<Rightarrow> (g, False)
      | Some q \<Rightarrow>
          if qn_status q \<notin> set (question_statuses_allowing Q_ANSWERED) then (g, False)
          else if gr_artifacts g answering_uuid = None then (g, False)
          else (g\<lparr>gr_questions := (gr_questions g)(question_uuid \<mapsto> q\<lparr>qn_status := Q_ANSWERED\<rparr>),
                  gr_edges := insert (ANSWERS_QUESTION_EDGE, answering_uuid, question_uuid) (gr_edges g)\<rparr>, True))"

definition defer_question :: "string \<Rightarrow> graph \<Rightarrow> graph \<times> bool" where
  "defer_question question_uuid g =
     (case gr_questions g question_uuid of
        None \<Rightarrow> (g, False)
      | Some q \<Rightarrow>
          if qn_status q \<notin> set (question_statuses_allowing Q_DEFERRED) then (g, False)
          else (g\<lparr>gr_questions := (gr_questions g)(question_uuid \<mapsto> q\<lparr>qn_status := Q_DEFERRED\<rparr>)\<rparr>, True))"

section \<open>Deletion\<close>

text \<open>\<^verbatim>\<open>DETACH DELETE\<close> of the artifact and of the questions it owns, with every edge at them.\<close>

definition owned_questions :: "string \<Rightarrow> graph \<Rightarrow> string set" where
  "owned_questions uuid g = {k. \<exists>q. gr_questions g k = Some q \<and> qn_owner q = uuid}"

definition edge_touches :: "string \<Rightarrow> graph \<Rightarrow> edge \<Rightarrow> bool" where
  "edge_touches uuid g e \<longleftrightarrow>
     (case e of (ty, a, b) \<Rightarrow>
       a = uuid
       \<or> (if ty = ANSWERS_QUESTION_EDGE
          then (case gr_questions g b of Some q \<Rightarrow> qn_owner q = uuid | None \<Rightarrow> False)
          else b = uuid))"

definition delete_artifact :: "string \<Rightarrow> graph \<Rightarrow> graph \<times> bool" where
  "delete_artifact uuid g =
     (if gr_artifacts g uuid = None then (g, False)
      else (g\<lparr>gr_artifacts := (gr_artifacts g)(uuid := None),
              gr_questions := (\<lambda>k. case gr_questions g k of
                  Some q \<Rightarrow> if qn_owner q = uuid then None else Some q | None \<Rightarrow> None),
              gr_edges := {e \<in> gr_edges g. \<not> edge_touches uuid g e}\<rparr>, True))"

section \<open>Runs\<close>

record session =
  ss_graph :: graph
  ss_transitions :: "transition_ticket list"
  ss_links :: "edge list"

datatype operation =
  Create string string string "string option" "string option" "string option" "string option"
| ReadTransition string string "string option"
| WriteTransition nat
| ReadLink string string string
| WriteLink nat
| Supersede string string
| AddQuestions "string list" string "string list"
| Answer string string
| Defer string
| Delete string

definition remove_nth :: "nat \<Rightarrow> 'a list \<Rightarrow> 'a list" where
  "remove_nth n xs = take n xs @ drop (Suc n) xs"

fun perform :: "operation \<Rightarrow> session \<Rightarrow> session" where
  "perform (Create u ty ti ns st raw reason) s =
     (case create_artifact u ty ti ns st raw reason (ss_graph s) of Inl _ \<Rightarrow> s | Inr g \<Rightarrow> s\<lparr>ss_graph := g\<rparr>)"
| "perform (ReadTransition u to ns) s =
     (case transition_read u to ns (ss_graph s) of Inl _ \<Rightarrow> s
      | Inr tk \<Rightarrow> s\<lparr>ss_transitions := ss_transitions s @ [tk]\<rparr>)"
| "perform (WriteTransition n) s =
     (if n < length (ss_transitions s)
      then s\<lparr>ss_graph := fst (transition_write (ss_transitions s ! n) (ss_graph s)),
             ss_transitions := remove_nth n (ss_transitions s)\<rparr> else s)"
| "perform (ReadLink a b r) s =
     (case link_read a b r (ss_graph s) of Inl _ \<Rightarrow> s | Inr e \<Rightarrow> s\<lparr>ss_links := ss_links s @ [e]\<rparr>)"
| "perform (WriteLink n) s =
     (if n < length (ss_links s)
      then s\<lparr>ss_graph := link_write (ss_links s ! n) (ss_graph s), ss_links := remove_nth n (ss_links s)\<rparr>
      else s)"
| "perform (Supersede a b) s = s\<lparr>ss_graph := fst (supersede_artifact a b (ss_graph s))\<rparr>"
| "perform (AddQuestions fresh u ts) s =
     (if distinct fresh \<and> (\<forall>k \<in> set fresh. gr_questions (ss_graph s) k = None)
      then s\<lparr>ss_graph := add_open_questions fresh u ts (ss_graph s)\<rparr> else s)"
| "perform (Answer q u) s = s\<lparr>ss_graph := fst (answer_question q u (ss_graph s))\<rparr>"
| "perform (Defer q) s = s\<lparr>ss_graph := fst (defer_question q (ss_graph s))\<rparr>"
| "perform (Delete u) s = s\<lparr>ss_graph := fst (delete_artifact u (ss_graph s))\<rparr>"

definition new_session :: session where
  "new_session = \<lparr>ss_graph = empty_graph, ss_transitions = [], ss_links = []\<rparr>"

definition run :: "operation list \<Rightarrow> session" where
  "run ops = fold perform ops new_session"

section \<open>Invariants of every run\<close>

definition valid_artifact :: "artifact \<Rightarrow> bool" where
  "valid_artifact a \<longleftrightarrow> wa_type a \<in> set ARTIFACT_TYPES \<and> wa_status a \<in> set (valid_statuses (wa_type a))"

definition valid_supersession :: "graph \<Rightarrow> string \<Rightarrow> string \<Rightarrow> bool" where
  "valid_supersession g n old \<longleftrightarrow>
     n \<noteq> old \<and> (\<exists>a b. gr_artifacts g n = Some a \<and> gr_artifacts g old = Some b
       \<and> wa_type a = wa_type b \<and> wa_status b = SUPERSEDED)"

definition graph_ok :: "graph \<Rightarrow> bool" where
  "graph_ok g \<longleftrightarrow>
     (\<forall>u a. gr_artifacts g u = Some a \<longrightarrow> valid_artifact a)
     \<and> (\<forall>n old. (SUPERSEDES_EDGE, n, old) \<in> gr_edges g \<longrightarrow> valid_supersession g n old)
     \<and> (\<forall>n m old. (SUPERSEDES_EDGE, n, old) \<in> gr_edges g \<longrightarrow> (SUPERSEDES_EDGE, m, old) \<in> gr_edges g \<longrightarrow> n = m)
     \<and> (\<forall>a k. (ANSWERS_QUESTION_EDGE, a, k) \<in> gr_edges g \<longrightarrow>
          gr_artifacts g a \<noteq> None \<and> (\<exists>q. gr_questions g k = Some q \<and> qn_status q = Q_ANSWERED))
     \<and> (\<forall>a b k. (ANSWERS_QUESTION_EDGE, a, k) \<in> gr_edges g \<longrightarrow> (ANSWERS_QUESTION_EDGE, b, k) \<in> gr_edges g \<longrightarrow> a = b)"

definition ticket_ok :: "transition_ticket \<Rightarrow> bool" where
  "ticket_ok tk \<longleftrightarrow> can_transition (tk_type tk) (tk_from tk) (tk_to tk)"

definition link_ok :: "edge \<Rightarrow> bool" where
  "link_ok e \<longleftrightarrow> fst e \<in> {''REVIEWS'', ''IMPLEMENTS'', ''INFORMS''}"

definition session_ok :: "session \<Rightarrow> bool" where
  "session_ok s \<longleftrightarrow> graph_ok (ss_graph s) \<and> (\<forall>tk \<in> set (ss_transitions s). ticket_ok tk)
     \<and> (\<forall>e \<in> set (ss_links s). link_ok e)"

lemma graph_okD:
  assumes "graph_ok g"
  shows "gr_artifacts g u = Some a \<Longrightarrow> valid_artifact a"
    and "(SUPERSEDES_EDGE, n, old) \<in> gr_edges g \<Longrightarrow> valid_supersession g n old"
    and "(SUPERSEDES_EDGE, n, old) \<in> gr_edges g \<Longrightarrow> (SUPERSEDES_EDGE, m, old) \<in> gr_edges g \<Longrightarrow> n = m"
    and "(ANSWERS_QUESTION_EDGE, u, k) \<in> gr_edges g \<Longrightarrow> gr_artifacts g u \<noteq> None"
    and "(ANSWERS_QUESTION_EDGE, u, k) \<in> gr_edges g \<Longrightarrow> \<exists>q. gr_questions g k = Some q \<and> qn_status q = Q_ANSWERED"
    and "(ANSWERS_QUESTION_EDGE, u, k) \<in> gr_edges g \<Longrightarrow> (ANSWERS_QUESTION_EDGE, v, k) \<in> gr_edges g \<Longrightarrow> u = v"
  using assms unfolding graph_ok_def by blast+

lemma edge_names [simp]:
  "SUPERSEDES_EDGE \<noteq> ANSWERS_QUESTION_EDGE" "ANSWERS_QUESTION_EDGE \<noteq> SUPERSEDES_EDGE"
  "link_ok (SUPERSEDES_EDGE, a, b) \<longleftrightarrow> False" "link_ok (ANSWERS_QUESTION_EDGE, a, b) \<longleftrightarrow> False"
  by (simp_all add: SUPERSEDES_EDGE_def ANSWERS_QUESTION_EDGE_def link_ok_def)

lemma superseded_valid: "SUPERSEDED \<in> set (valid_statuses t)"
  by (simp add: valid_statuses_def TERMINAL_ANY_def)

lemma superseded_final: "\<not> can_transition t SUPERSEDED to"
  using can_transition_valid(4) [of t SUPERSEDED to] by (auto simp: TERMINAL_ANY_def)

text \<open>
  Replacing an artifact by one of the same type: the invariant asks that a superseded artifact
  keeps its status.
\<close>

lemma graph_ok_update:
  assumes "graph_ok g" "gr_artifacts g u = Some a" "valid_artifact b" "wa_type b = wa_type a"
    and "wa_status a = SUPERSEDED \<Longrightarrow> wa_status b = SUPERSEDED"
  shows "graph_ok (g\<lparr>gr_artifacts := (gr_artifacts g)(u \<mapsto> b)\<rparr>)"
proof -
  have "valid_supersession (g\<lparr>gr_artifacts := (gr_artifacts g)(u \<mapsto> b)\<rparr>) n old"
    if "valid_supersession g n old" for n old
    using that assms(2,4,5) unfolding valid_supersession_def by (cases "u = n"; cases "u = old") auto
  then show ?thesis
    using assms(1,3) unfolding graph_ok_def by auto
qed

lemma graph_ok_bump:
  assumes "graph_ok g" "gr_artifacts g u = Some a"
  shows "graph_ok (g\<lparr>gr_artifacts := (gr_artifacts g)(u \<mapsto> bump a)\<rparr>)"
  using graph_okD(1) [OF assms] by (intro graph_ok_update [OF assms]) (auto simp: bump_def valid_artifact_def)

lemma graph_ok_bump_at: "graph_ok g \<Longrightarrow> graph_ok (bump_at u g)"
  by (auto simp: bump_at_def graph_ok_bump split: option.splits)

lemma transition_write_ok:
  assumes "graph_ok g" "ticket_ok tk"
  shows "graph_ok (fst (transition_write tk g))"
proof (cases "gr_artifacts g (tk_uuid tk)")
  case (Some a)
  have legal: "wa_type a = tk_type tk \<Longrightarrow> wa_status a = tk_from tk \<Longrightarrow>
      tk_to tk \<in> set (valid_statuses (wa_type a)) \<and> wa_status a \<noteq> SUPERSEDED"
    using assms(2) can_transition_valid superseded_final unfolding ticket_ok_def by metis
  have "graph_ok (g\<lparr>gr_artifacts := (gr_artifacts g)(tk_uuid tk \<mapsto> (bump a)\<lparr>wa_status := tk_to tk\<rparr>)\<rparr>)"
    if "wa_type a = tk_type tk" "wa_status a = tk_from tk"
    using legal [OF that] graph_okD(1) [OF assms(1) Some]
    by (intro graph_ok_update [OF assms(1) Some]) (auto simp: bump_def valid_artifact_def)
  then show ?thesis
    using Some assms(1) graph_ok_bump [OF assms(1) Some] by (auto simp: transition_write_def)
qed (use assms(1) in \<open>simp add: transition_write_def\<close>)

lemma create_ok:
  assumes "graph_ok g" "create_artifact u ty ti ns st raw reason g = Inr h"
  shows "graph_ok h"
proof -
  from assms(2) obtain resolved where r: "resolve_registration ty st = Inr resolved"
    and new: "gr_artifacts g u = None" and h: "h = g\<lparr>gr_artifacts := (gr_artifacts g)(u \<mapsto>
         \<lparr>wa_type = ty, wa_title = ti, wa_status = resolved, wa_status_raw = raw,
          wa_status_unresolved_reason = reason,
          wa_namespace = Some (normalize_namespace ns), wa_lifecycle_revision = 0\<rparr>)\<rparr>"
    by (auto simp: create_artifact_def split: if_splits)
  have "valid_supersession h n old" if "valid_supersession g n old" for n old
    using that new unfolding valid_supersession_def h by auto
  moreover have "ty \<in> set ARTIFACT_TYPES \<and> resolved \<in> set (valid_statuses ty)"
    using r by (simp add: resolve_registration_Inr)
  ultimately show ?thesis
    using assms(1) unfolding graph_ok_def h by (auto simp: valid_artifact_def)
qed

lemma supersede_ok:
  assumes "graph_ok g"
  shows "graph_ok (fst (supersede_artifact n old g))"
proof -
  define g2 where "g2 = bump_at (max n old) (bump_at (min n old) g)"
  have g1: "graph_ok (bump_at (min n old) g)" by (rule graph_ok_bump_at [OF assms])
  have g2: "graph_ok g2" unfolding g2_def by (rule graph_ok_bump_at [OF g1])
  have super: "graph_ok (g2\<lparr>gr_artifacts := (gr_artifacts g2)(old \<mapsto> b\<lparr>wa_status := SUPERSEDED\<rparr>),
      gr_edges := insert (SUPERSEDES_EDGE, n, old) (gr_edges g2)\<rparr>)"
    if ab: "gr_artifacts g2 n = Some a" "gr_artifacts g2 old = Some b" "supersession_legal n a old b" for a b
  proof -
    have legal: "wa_type a = wa_type b" "n \<noteq> old" "wa_status b \<noteq> SUPERSEDED"
      using ab(3) by (auto simp: supersession_legal_def TERMINAL_ANY_def)
    have fresh: "(SUPERSEDES_EDGE, m, old) \<notin> gr_edges g2" for m
      using graph_okD(2) [OF g2, of m old] ab(2) legal(3) by (auto simp: valid_supersession_def)
    let ?g = "g2\<lparr>gr_artifacts := (gr_artifacts g2)(old \<mapsto> b\<lparr>wa_status := SUPERSEDED\<rparr>)\<rparr>"
    have ok: "graph_ok ?g"
      using graph_okD(1) [OF g2 ab(2)]
      by (intro graph_ok_update [OF g2 ab(2)]) (auto simp: valid_artifact_def superseded_valid)
    have new: "valid_supersession (?g\<lparr>gr_edges := E\<rparr>) n old" for E
      using ab legal by (simp add: valid_supersession_def)
    have keep: "valid_supersession (?g\<lparr>gr_edges := E\<rparr>) x y = valid_supersession ?g x y" for E x y
      by (simp add: valid_supersession_def)
    show ?thesis
      using ok new fresh unfolding graph_ok_def by (auto simp: keep valid_supersession_def)
  qed
  show ?thesis
    using assms g1 g2 super unfolding supersede_artifact_def Let_def g2_def [symmetric]
    by (auto split: option.splits)
qed

lemma link_write_ok: "graph_ok g \<Longrightarrow> link_ok e \<Longrightarrow> graph_ok (link_write e g)"
  by (cases e) (auto simp: link_write_def graph_ok_def valid_supersession_def)

lemma add_questions_ok:
  assumes "graph_ok g" "\<forall>k \<in> set fresh. gr_questions g k = None"
  shows "graph_ok (add_open_questions fresh u ts g)"
proof -
  have "k \<notin> set fresh" if "(ANSWERS_QUESTION_EDGE, a, k) \<in> gr_edges g" for a k
    using graph_okD(5) [OF assms(1) that] assms(2) by auto
  then have "(gr_questions g ++ map_of (zip fresh rows)) k = gr_questions g k"
    if "(ANSWERS_QUESTION_EDGE, a, k) \<in> gr_edges g" for a k rows
    using that by (auto simp: map_add_def split: option.splits dest!: map_of_SomeD set_zip_leftD)
  then show ?thesis
    using assms(1) unfolding graph_ok_def add_open_questions_def by (auto simp: valid_supersession_def)
qed

lemma answerable_iff:
  "x \<in> set (question_statuses_allowing Q_ANSWERED) \<longleftrightarrow> x = Q_OPEN"
  "x \<in> set (question_statuses_allowing Q_DEFERRED) \<longleftrightarrow> x = Q_OPEN"
  by (auto simp: question_statuses_allowing_def QUESTION_FORWARD_def)

lemma answer_ok:
  assumes "graph_ok g"
  shows "graph_ok (fst (answer_question k a g))"
proof (cases "gr_questions g k")
  case (Some q)
  have fresh: "(ANSWERS_QUESTION_EDGE, b, k) \<notin> gr_edges g" if "qn_status q = Q_OPEN" for b
    using graph_okD(5) [OF assms, of b k] Some that by auto
  show ?thesis
    using assms Some fresh unfolding answer_question_def graph_ok_def
    by (auto simp: answerable_iff valid_supersession_def)
qed (use assms in \<open>simp add: answer_question_def\<close>)

lemma defer_ok:
  assumes "graph_ok g"
  shows "graph_ok (fst (defer_question k g))"
proof (cases "gr_questions g k")
  case (Some q)
  have fresh: "(ANSWERS_QUESTION_EDGE, b, k) \<notin> gr_edges g" if "qn_status q = Q_OPEN" for b
    using graph_okD(5) [OF assms, of b k] Some that by auto
  show ?thesis
    using assms Some fresh unfolding defer_question_def graph_ok_def
    by (auto simp: answerable_iff valid_supersession_def)
qed (use assms in \<open>simp add: defer_question_def\<close>)

lemma delete_ok:
  assumes "graph_ok g"
  shows "graph_ok (fst (delete_artifact u g))"
proof (cases "gr_artifacts g u = None")
  case False
  let ?h = "fst (delete_artifact u g)"
  have arts: "gr_artifacts ?h v = (if v = u then None else gr_artifacts g v)" for v
    using False by (auto simp: delete_artifact_def)
  have edges: "e \<in> gr_edges ?h \<longleftrightarrow> e \<in> gr_edges g \<and> \<not> edge_touches u g e" for e
    using False by (auto simp: delete_artifact_def)
  have qs: "gr_questions ?h k = (case gr_questions g k of Some q \<Rightarrow> if qn_owner q = u then None else Some q | None \<Rightarrow> None)" for k
    using False by (auto simp: delete_artifact_def)
  have "valid_supersession ?h n old" if "(SUPERSEDES_EDGE, n, old) \<in> gr_edges ?h" for n old
    using graph_okD(2) [OF assms, of n old] that unfolding edges valid_supersession_def arts edge_touches_def by auto
  moreover have "gr_artifacts ?h a \<noteq> None \<and> (\<exists>q. gr_questions ?h k = Some q \<and> qn_status q = Q_ANSWERED)"
    if "(ANSWERS_QUESTION_EDGE, a, k) \<in> gr_edges ?h" for a k
    using graph_okD(4,5) [OF assms, of a k] that unfolding edges arts qs edge_touches_def by auto
  moreover have "valid_artifact a" if "gr_artifacts ?h v = Some a" for v a
    using graph_okD(1) [OF assms] that unfolding arts by (auto split: if_splits)
  ultimately show ?thesis
    using graph_okD(3,6) [OF assms] unfolding graph_ok_def edges by blast
qed (use assms in \<open>simp add: delete_artifact_def\<close>)

lemma transition_read_ticket: "transition_read u to ns g = Inr tk \<Longrightarrow> ticket_ok tk"
  by (auto simp: transition_read_def ticket_ok_def split: option.splits if_splits)

lemma link_read_ok: "link_read a b r g = Inr e \<Longrightarrow> link_ok e"
  by (auto simp: link_read_def link_ok_def ARTIFACT_RELATIONS_def split: option.splits if_splits prod.splits)

lemma set_remove_nth: "set (remove_nth n xs) \<subseteq> set xs"
  by (auto simp: remove_nth_def dest: in_set_takeD in_set_dropD)

lemma map_option_SomeE: "map_option f x = Some y \<Longrightarrow> (\<And>a. x = Some a \<Longrightarrow> f a = y \<Longrightarrow> P) \<Longrightarrow> P"
  by (cases x) auto

lemma perform_ok:
  assumes "session_ok s"
  shows "session_ok (perform cmd s)"
proof -
  have g: "graph_ok (ss_graph s)" using assms by (simp add: session_ok_def)
  have written: "graph_ok (fst (transition_write (ss_transitions s ! n) (ss_graph s)))"
    if "n < length (ss_transitions s)" for n
    using that assms by (intro transition_write_ok) (auto simp: session_ok_def)
  have link: "graph_ok (link_write (ss_links s ! n) (ss_graph s))" if "n < length (ss_links s)" for n
    using that assms by (intro link_write_ok) (auto simp: session_ok_def)
  show ?thesis
  proof (cases cmd)
    case (WriteTransition n)
    then show ?thesis
      using assms written set_remove_nth [of n "ss_transitions s"] by (auto simp: session_ok_def)
  next
    case (WriteLink n)
    then show ?thesis
      using assms link set_remove_nth [of n "ss_links s"] by (auto simp: session_ok_def)
  qed (use assms in \<open>auto simp: session_ok_def supersede_ok answer_ok defer_ok delete_ok
      add_questions_ok split: sum.splits intro: create_ok dest: transition_read_ticket link_read_ok\<close>)
qed

lemma run_ok: "session_ok (run ops)"
proof -
  have "session_ok s \<Longrightarrow> session_ok (fold perform ops s)" for s
    by (induction ops arbitrary: s) (simp_all add: perform_ok)
  moreover have "session_ok new_session"
    by (simp add: session_ok_def new_session_def graph_ok_def empty_graph_def)
  ultimately show ?thesis by (simp add: run_def)
qed

text \<open>
  whatever statements of concurrent callers interleave, every artifact of the graph has a
  known type and a status of that type; every SUPERSEDES edge joins two different artifacts of
  one type and its target is marked superseded; an artifact has at most one replacement; an
  answered question's edge starts at an existing artifact, and a question has at most one
  answer.
\<close>

theorem artifact_graph_invariant:
  "let g = ss_graph (run ops) in
     (\<forall>u a. gr_artifacts g u = Some a \<longrightarrow> valid_artifact a)
     \<and> (\<forall>n old. (SUPERSEDES_EDGE, n, old) \<in> gr_edges g \<longrightarrow> valid_supersession g n old)
     \<and> (\<forall>n m old. (SUPERSEDES_EDGE, n, old) \<in> gr_edges g \<longrightarrow> (SUPERSEDES_EDGE, m, old) \<in> gr_edges g \<longrightarrow> n = m)
     \<and> (\<forall>a k. (ANSWERS_QUESTION_EDGE, a, k) \<in> gr_edges g \<longrightarrow>
          gr_artifacts g a \<noteq> None \<and> (\<exists>q. gr_questions g k = Some q \<and> qn_status q = Q_ANSWERED))
     \<and> (\<forall>a b k. (ANSWERS_QUESTION_EDGE, a, k) \<in> gr_edges g \<longrightarrow> (ANSWERS_QUESTION_EDGE, b, k) \<in> gr_edges g \<longrightarrow> a = b)"
  using run_ok [of ops] unfolding session_ok_def graph_ok_def Let_def by blast

theorem artifact_graph_invariant_witness:
  "let g = ss_graph (run [Create ''a'' PLAN ''a plan'' None None None None,
        Create ''b'' PLAN ''a plan'' None None None None, Supersede ''b'' ''a'',
        AddQuestions [''q''] ''a'' [''why''], Answer ''q'' ''b'']) in
     valid_supersession g ''b'' ''a'' \<and> gr_artifacts g ''b'' \<noteq> None
     \<and> (\<exists>q. gr_questions g ''q'' = Some q \<and> qn_status q = Q_ANSWERED)"
proof -
  let ?ops = "[Create ''a'' PLAN ''a plan'' None None None None,
        Create ''b'' PLAN ''a plan'' None None None None, Supersede ''b'' ''a'',
        AddQuestions [''q''] ''a'' [''why''], Answer ''q'' ''b'']"
  have "(SUPERSEDES_EDGE, ''b'', ''a'') \<in> gr_edges (ss_graph (run ?ops))"
    "(ANSWERS_QUESTION_EDGE, ''b'', ''q'') \<in> gr_edges (ss_graph (run ?ops))" by code_simp+
  with artifact_graph_invariant [of ?ops] show ?thesis unfolding Let_def by blast
qed

section \<open>Status changes are legal when they happen\<close>

text \<open>Type and status of each artifact, all that a lifecycle operation may change.\<close>

definition lifecycle :: "graph \<Rightarrow> string \<Rightarrow> (string \<times> string) option" where
  "lifecycle g u = map_option (\<lambda>a. (wa_type a, wa_status a)) (gr_artifacts g u)"

lemma bump_at_frame [simp]:
  "lifecycle (bump_at u g) = lifecycle g" "gr_edges (bump_at u g) = gr_edges g"
  by (auto simp: lifecycle_def bump_at_def bump_def fun_eq_iff split: option.splits)

lemma supersede_outcome:
  fixes n old g
  defines "h \<equiv> fst (supersede_artifact n old g)"
  obtains (refused) "lifecycle h = lifecycle g" "gr_edges h = gr_edges g"
  | (applied) ty st where "lifecycle g old = Some (ty, st)" "st \<notin> set TERMINAL_ANY"
      "lifecycle h = (lifecycle g)(old \<mapsto> (ty, SUPERSEDED))"
      "gr_edges h = insert (SUPERSEDES_EDGE, n, old) (gr_edges g)"
proof -
  define g2 where "g2 = bump_at (max n old) (bump_at (min n old) g)"
  have frame: "lifecycle g2 = lifecycle g" "gr_edges g2 = gr_edges g" by (simp_all add: g2_def)
  have "h = g \<or> h = bump_at (min n old) g \<or> h = g2
    \<or> (\<exists>a b. gr_artifacts g2 n = Some a \<and> gr_artifacts g2 old = Some b \<and> supersession_legal n a old b
      \<and> h = g2\<lparr>gr_artifacts := (gr_artifacts g2)(old \<mapsto> b\<lparr>wa_status := SUPERSEDED\<rparr>),
        gr_edges := insert (SUPERSEDES_EDGE, n, old) (gr_edges g2)\<rparr>)"
    unfolding h_def supersede_artifact_def Let_def g2_def [symmetric]
    by (cases "gr_artifacts g2 n"; cases "gr_artifacts g2 old") auto
  then consider "h = g" | "h = bump_at (min n old) g" | "h = g2"
    | a b where "gr_artifacts g2 n = Some a" "gr_artifacts g2 old = Some b" "supersession_legal n a old b"
      "h = g2\<lparr>gr_artifacts := (gr_artifacts g2)(old \<mapsto> b\<lparr>wa_status := SUPERSEDED\<rparr>),
        gr_edges := insert (SUPERSEDES_EDGE, n, old) (gr_edges g2)\<rparr>" by blast
  then show ?thesis
  proof cases
    case (4 a b)
    have "lifecycle g old = Some (wa_type b, wa_status b)"
      using 4(2) frame(1) by (metis lifecycle_def option.simps(9))
    moreover have "lifecycle h = (lifecycle g)(old \<mapsto> (wa_type b, SUPERSEDED))"
      unfolding frame(1) [symmetric] 4(4) by (auto simp: lifecycle_def)
    moreover have "wa_status b \<notin> set TERMINAL_ANY" using 4(3) by (simp add: supersession_legal_def)
    ultimately show ?thesis using applied 4(4) frame(2) by simp
  qed (use refused frame in simp_all)
qed

lemma lifecycle_Some: "gr_artifacts g u = Some a \<Longrightarrow> lifecycle g u = Some (wa_type a, wa_status a)"
  by (simp add: lifecycle_def)

lemma supersede_status:
  assumes "gr_artifacts g u = Some a" "gr_artifacts (fst (supersede_artifact n old g)) u = Some b"
  shows "wa_type b = wa_type a \<and> (wa_status b = wa_status a
    \<or> wa_status b = SUPERSEDED \<and> wa_status a \<notin> set TERMINAL_ANY \<and> u = old)"
  using lifecycle_Some [OF assms(1)] lifecycle_Some [OF assms(2)]
  by (cases rule: supersede_outcome [of n old g]) (auto split: if_splits)

text \<open>
  a lifecycle change is legal at the moment it is written. If an operation of a run
  changes the status of an artifact, the new status is a legal next status of the status it
  then had, or the operation is the supersession of a live artifact; a transition that was
  read before another caller moved the artifact changes nothing.
\<close>

theorem status_changes_are_legal:
  assumes "gr_artifacts (ss_graph (run ops)) u = Some a"
    and "gr_artifacts (ss_graph (perform cmd (run ops))) u = Some b"
    and "wa_status b \<noteq> wa_status a"
  shows "wa_type b = wa_type a \<and>
    (can_transition (wa_type a) (wa_status a) (wa_status b)
     \<or> wa_status b = SUPERSEDED \<and> wa_status a \<notin> set TERMINAL_ANY \<and> (\<exists>n. cmd = Supersede n u))"
proof -
  let ?g = "ss_graph (run ops)"
  have tickets: "\<forall>tk \<in> set (ss_transitions (run ops)). ticket_ok tk"
    using run_ok [of ops] by (simp add: session_ok_def)
  show ?thesis
  proof (cases cmd)
    case (WriteTransition n)
    then have n: "n < length (ss_transitions (run ops))" using assms by (auto split: if_splits)
    then have "ticket_ok (ss_transitions (run ops) ! n)" using tickets by simp
    then show ?thesis
      using assms WriteTransition n
      by (auto simp: transition_write_def bump_def ticket_ok_def split: option.splits if_splits)
  next
    case (Supersede n old)
    then show ?thesis
      using supersede_status [OF assms(1), of n old b] assms(2,3) by auto
  next
    case (Create x1 x2 x3 x4 x5 x6 x7)
    then show ?thesis
      using assms by (auto simp: create_artifact_def split: sum.splits if_splits)
  qed (use assms in \<open>auto simp: link_write_def add_open_questions_def answer_question_def
      defer_question_def delete_artifact_def split: sum.splits if_splits option.splits prod.splits\<close>)
qed

definition sample_plan :: "string \<Rightarrow> operation" where
  "sample_plan u = Create u PLAN ''a plan'' None None None None"

theorem status_changes_are_legal_witness:
  "\<exists>a b. gr_artifacts (ss_graph (run [sample_plan ''u1'', ReadTransition ''u1'' REVIEWED None])) ''u1'' = Some a
     \<and> gr_artifacts (ss_graph (run [sample_plan ''u1'', ReadTransition ''u1'' REVIEWED None, WriteTransition 0])) ''u1'' = Some b
     \<and> can_transition (wa_type a) (wa_status a) (wa_status b)"
proof -
  let ?ops = "[sample_plan ''u1'', ReadTransition ''u1'' REVIEWED None]"
  have r: "run [sample_plan ''u1'', ReadTransition ''u1'' REVIEWED None, WriteTransition 0]
      = perform (WriteTransition 0) (run ?ops)" by (simp add: run_def)
  have st: "map_option wa_status (gr_artifacts (ss_graph (run ?ops)) ''u1'') = Some PROPOSED"
    "map_option wa_status (gr_artifacts (ss_graph (perform (WriteTransition 0) (run ?ops))) ''u1'') = Some REVIEWED"
    by code_simp+
  from map_option_SomeE [OF st(1)] obtain a where
    a: "gr_artifacts (ss_graph (run ?ops)) ''u1'' = Some a" "wa_status a = PROPOSED" .
  from map_option_SomeE [OF st(2)] obtain b where
    b: "gr_artifacts (ss_graph (perform (WriteTransition 0) (run ?ops))) ''u1'' = Some b" "wa_status b = REVIEWED" .
  have "wa_status b \<noteq> wa_status a" "wa_status b \<noteq> SUPERSEDED" using a(2) b(2) by simp_all
  with status_changes_are_legal [OF a(1) b(1)]
  have "can_transition (wa_type a) (wa_status a) (wa_status b)" by blast
  then show ?thesis unfolding r using a(1) b(1) by blast
qed

section \<open>Supersession and what it records\<close>

definition is_delete :: "operation \<Rightarrow> bool" where
  "is_delete cmd = (case cmd of Delete _ \<Rightarrow> True | _ \<Rightarrow> False)"

definition replacements_recorded :: "graph \<Rightarrow> bool" where
  "replacements_recorded g \<longleftrightarrow>
     (\<forall>u a. gr_artifacts g u = Some a \<longrightarrow> wa_status a = SUPERSEDED
        \<longrightarrow> (\<exists>n. (SUPERSEDES_EDGE, n, u) \<in> gr_edges g))"

lemma replacements_transfer:
  assumes "replacements_recorded g" "gr_edges g \<subseteq> gr_edges h"
    and "\<And>u b. gr_artifacts h u = Some b \<Longrightarrow> wa_status b = SUPERSEDED \<Longrightarrow>
      (\<exists>a. gr_artifacts g u = Some a \<and> wa_status a = SUPERSEDED) \<or> (\<exists>n. (SUPERSEDES_EDGE, n, u) \<in> gr_edges h)"
  shows "replacements_recorded h"
  using assms unfolding replacements_recorded_def by (meson subsetD)

lemma superseded_origin:
  assumes "gr_artifacts (fst (supersede_artifact n old g)) u = Some b" "wa_status b = SUPERSEDED"
  shows "(\<exists>a. gr_artifacts g u = Some a \<and> wa_status a = SUPERSEDED)
    \<or> (SUPERSEDES_EDGE, n, u) \<in> gr_edges (fst (supersede_artifact n old g))"
proof (cases rule: supersede_outcome [of n old g])
  case refused
  then have "lifecycle g u = Some (wa_type b, SUPERSEDED)"
    using lifecycle_Some [OF assms(1)] assms(2) by simp
  then show ?thesis by (auto simp: lifecycle_def)
next
  case (applied ty st)
  then have "u = old \<or> lifecycle g u = Some (wa_type b, SUPERSEDED)"
    using lifecycle_Some [OF assms(1)] assms(2) by (auto split: if_splits)
  then show ?thesis using applied(4) by (auto simp: lifecycle_def)
qed

lemma supersede_edges: "gr_edges g \<subseteq> gr_edges (fst (supersede_artifact n old g))"
  by (cases rule: supersede_outcome [of n old g]) auto

lemma replacements_perform:
  assumes "replacements_recorded (ss_graph s)" "session_ok s" "\<not> is_delete cmd"
  shows "replacements_recorded (ss_graph (perform cmd s))"
proof (rule replacements_transfer [OF assms(1)])
  show "gr_edges (ss_graph s) \<subseteq> gr_edges (ss_graph (perform cmd s))"
    using assms(3) supersede_edges
    by (cases cmd) (auto simp: create_artifact_def transition_write_def link_write_def
        add_open_questions_def answer_question_def defer_question_def is_delete_def
        split: sum.splits option.splits prod.splits)
next
  fix u b
  assume b: "gr_artifacts (ss_graph (perform cmd s)) u = Some b" "wa_status b = SUPERSEDED"
  show "(\<exists>a. gr_artifacts (ss_graph s) u = Some a \<and> wa_status a = SUPERSEDED)
      \<or> (\<exists>n. (SUPERSEDES_EDGE, n, u) \<in> gr_edges (ss_graph (perform cmd s)))"
  proof (cases cmd)
    case (Create v ty ti ns st raw reason)
    then show ?thesis
      using b by (auto simp: create_artifact_def resolve_registration_Inr split: sum.splits if_splits)
  next
    case (WriteTransition n)
    have "tk_to (ss_transitions s ! n) \<noteq> SUPERSEDED" if "n < length (ss_transitions s)"
      using that assms(2) can_transition_valid(3) [of "tk_type (ss_transitions s ! n)"
        "tk_from (ss_transitions s ! n)" "tk_to (ss_transitions s ! n)"]
      by (simp add: session_ok_def ticket_ok_def)
    then show ?thesis
      using b WriteTransition by (auto simp: transition_write_def bump_def split: option.splits if_splits)
  next
    case (Supersede n old)
    then show ?thesis using superseded_origin [of n old "ss_graph s" u b] b by auto
  qed (use b assms(3) in \<open>auto simp: link_write_def add_open_questions_def answer_question_def
      defer_question_def is_delete_def split: sum.splits if_splits option.splits prod.splits\<close>)
qed

text \<open>
  as long as nothing is deleted, an artifact is marked superseded exactly when the graph
  records its replacement.
\<close>

theorem superseded_iff_replaced:
  assumes "list_all (\<lambda>c. \<not> is_delete c) ops" "gr_artifacts (ss_graph (run ops)) u = Some a"
  shows "wa_status a = SUPERSEDED \<longleftrightarrow> (\<exists>n. (SUPERSEDES_EDGE, n, u) \<in> gr_edges (ss_graph (run ops)))"
proof -
  have "list_all (\<lambda>c. \<not> is_delete c) ops \<Longrightarrow> session_ok s \<Longrightarrow> replacements_recorded (ss_graph s)
      \<Longrightarrow> replacements_recorded (ss_graph (fold perform ops s))" for s
    by (induction ops arbitrary: s) (simp_all add: replacements_perform perform_ok)
  from this [OF assms(1), of new_session] run_ok [of "[]"]
  have "replacements_recorded (ss_graph (run ops))"
    by (simp add: run_def) (simp add: replacements_recorded_def new_session_def empty_graph_def)
  moreover have "graph_ok (ss_graph (run ops))" using run_ok [of ops] by (simp add: session_ok_def)
  ultimately show ?thesis
    using assms(2) graph_okD(2) [of "ss_graph (run ops)" _ u]
    by (auto simp: replacements_recorded_def valid_supersession_def)
qed

theorem superseded_iff_replaced_witness:
  "\<exists>a. gr_artifacts (ss_graph (run [sample_plan ''a'', sample_plan ''b'', Supersede ''b'' ''a''])) ''a'' = Some a
     \<and> wa_status a = SUPERSEDED"
proof -
  let ?ops = "[sample_plan ''a'', sample_plan ''b'', Supersede ''b'' ''a'']"
  have "gr_artifacts (ss_graph (run ?ops)) ''a'' \<noteq> None"
    "(SUPERSEDES_EDGE, ''b'', ''a'') \<in> gr_edges (ss_graph (run ?ops))" by code_simp+
  moreover have "list_all (\<lambda>c. \<not> is_delete c) ?ops" by code_simp
  ultimately show ?thesis using superseded_iff_replaced [of ?ops "''a''"] by blast
qed

text \<open>
  supersession can run in a circle. The predicate asks that the replacement has a valid
  status but not that it is live, so a superseded artifact may in turn supersede the artifact
  that replaced it: both end superseded, each recorded as the other's replacement.
\<close>

theorem supersession_cycle:
  "let g = ss_graph (run [sample_plan ''a'', sample_plan ''b'', Supersede ''b'' ''a'', Supersede ''a'' ''b'']) in
     {(SUPERSEDES_EDGE, ''b'', ''a''), (SUPERSEDES_EDGE, ''a'', ''b'')} \<subseteq> gr_edges g
     \<and> map_option wa_status (gr_artifacts g ''a'') = Some SUPERSEDED
     \<and> map_option wa_status (gr_artifacts g ''b'') = Some SUPERSEDED"
  by code_simp

end
