(* ===== verification/Reconciliation_Model.thy ===== *)
theory Reconciliation_Model
  imports Work_Artifact
begin

text \<open>
  The value types the reconciliation planner exchanges,
  \<^verbatim>\<open>domain/artifact_reconciliation_model.py\<close>, and the claim bookkeeping of
  \<^verbatim>\<open>domain/artifact_reconciliation_plan_state.py\<close>. The planner's state object is split in
  two records: \<open>plan_index\<close> holds the legs no pass writes (the inputs and the lookup
  dictionaries built from them), \<open>plan_state\<close> the four legs the passes update.
\<close>

section \<open>Vocabulary\<close>

datatype action_kind =
  NOOP | REFRESH_SOURCE | RELOCATE_SOURCE | ADOPT_SOURCE_REPOSITORY | ATTACH_SOURCE
| REGISTER_ARTIFACT | MARK_SOURCE_UNRESOLVED | CONFLICT

fun action_kind_value :: "action_kind \<Rightarrow> string" where
  "action_kind_value NOOP = ''NOOP''"
| "action_kind_value REFRESH_SOURCE = ''REFRESH_SOURCE''"
| "action_kind_value RELOCATE_SOURCE = ''RELOCATE_SOURCE''"
| "action_kind_value ADOPT_SOURCE_REPOSITORY = ''ADOPT_SOURCE_REPOSITORY''"
| "action_kind_value ATTACH_SOURCE = ''ATTACH_SOURCE''"
| "action_kind_value REGISTER_ARTIFACT = ''REGISTER_ARTIFACT''"
| "action_kind_value MARK_SOURCE_UNRESOLVED = ''MARK_SOURCE_UNRESOLVED''"
| "action_kind_value CONFLICT = ''CONFLICT''"

definition SAFE_ACTION_KINDS :: "action_kind list" where
  "SAFE_ACTION_KINDS =
    [REFRESH_SOURCE, RELOCATE_SOURCE, ADOPT_SOURCE_REPOSITORY, ATTACH_SOURCE,
     REGISTER_ARTIFACT, MARK_SOURCE_UNRESOLVED]"

datatype match_basis =
  DECLARED_UUID | EXACT_LOCATOR | GIT_RENAME | UNIQUE_CONTENT_SHA256 | BASIS_NONE

datatype conflict_kind =
  UUID_LOCATOR_DISAGREEMENT | DESTINATION_ALREADY_CLAIMED | DUPLICATE_DECLARED_UUID
| DUPLICATE_CURRENT_LOCATOR | AMBIGUOUS_CONTENT_MATCH | AMBIGUOUS_GIT_RENAME
| UNCLASSIFIED_NEW_SOURCE | INVALID_DECLARED_METADATA | DECLARED_UUID_TYPE_DISAGREEMENT
| DECLARED_UUID_ALREADY_EMBODIED | UNSCOPED_SOURCE_REPOSITORY

definition ACTIVE :: string where "ACTIVE = ''active''"
definition BACKLOG :: string where "BACKLOG = ''backlog''"
definition REFERENCE :: string where "REFERENCE = ''reference''"
definition ARCHIVE :: string where "ARCHIVE = ''archive''"

definition EXECUTABLE_LANES :: "string list" where
  "EXECUTABLE_LANES = [ACTIVE, BACKLOG]"

definition RESOLVED :: string where "RESOLVED = ''resolved''"
definition UNRESOLVED :: string where "UNRESOLVED = ''unresolved''"

definition ARTIFACT_SOURCE_SCHEMA_VERSION :: int where
  "ARTIFACT_SOURCE_SCHEMA_VERSION = 2"

section \<open>Values\<close>

type_synonym key = "string \<times> string \<times> string"

record corpus_entry =
  ent_repository :: string
  ent_path :: string
  ent_medium :: string
  ent_lane :: string
  ent_integrity :: string
  ent_size_bytes :: int
  ent_route_type :: "string option"
  ent_preserve_existing_type :: bool
  ent_requires_declared_type :: bool
  ent_declared_uuid :: "string option"
  ent_declared_type :: "string option"
  ent_declared_status :: "string option"
  ent_raw_status_header :: "string option"
  ent_title :: "string option"
  ent_title_from_h1 :: bool
  ent_version :: "string option"
  ent_version_kind :: "string option"
  ent_metadata_errors :: "string list"

definition effective_type :: "corpus_entry \<Rightarrow> string option" where
  "effective_type e = or_else (ent_declared_type e) (ent_route_type e)"

definition entry_key :: "corpus_entry \<Rightarrow> key" where
  "entry_key e = (ent_repository e, ent_medium e, ent_path e)"

record source_snapshot =
  snap_artifact_uuid :: string
  snap_medium :: string
  snap_source_uuid :: "string option"
  snap_artifact_type :: "string option"
  snap_repository :: "string option"
  snap_path :: "string option"
  snap_integrity :: "string option"
  snap_version :: "string option"
  snap_version_kind :: "string option"
  snap_lane :: "string option"
  snap_resolution_status :: string
  snap_title :: "string option"
  snap_status :: "string option"
  snap_schema_version :: "int option"

definition snapshot_key :: "source_snapshot \<Rightarrow> key" where
  "snapshot_key s = (or_empty (snap_repository s), snap_medium s, or_empty (snap_path s))"

definition identity :: "source_snapshot \<Rightarrow> string" where
  "identity s =
     (if truthy (snap_source_uuid s) then or_empty (snap_source_uuid s)
      else snap_artifact_uuid s @ '':'' @ snap_medium s @ '':'' @ or_empty (snap_path s))"

record identity_snapshot =
  idn_artifact_uuid :: string
  idn_artifact_type :: "string option"
  idn_title :: "string option"
  idn_status :: "string option"
  idn_source_count :: int

record git_rename =
  ren_old_path :: string
  ren_new_path :: string
  ren_repository :: "string option"

record reconciliation_action =
  act_kind :: action_kind
  act_basis :: match_basis
  act_repository :: string
  act_medium :: string
  act_path :: "string option"
  act_old_path :: "string option"
  act_source_uuid :: "string option"
  act_source_identity :: "string option"
  act_artifact_uuid :: "string option"
  act_artifact_type :: "string option"
  act_lane :: "string option"
  act_integrity :: "string option"
  act_expected_integrity :: "string option"
  act_version :: "string option"
  act_version_kind :: "string option"
  act_size_bytes :: "int option"
  act_title :: "string option"
  act_status :: "string option"
  act_raw_status_header :: "string option"
  act_status_unresolved_reason :: "string option"
  act_conflict_kind :: "conflict_kind option"
  act_reason :: "string option"
  act_detail :: "string list"

text \<open>An action with every optional leg at its default.\<close>

definition action_of :: "action_kind \<Rightarrow> reconciliation_action" where
  "action_of k =
     \<lparr>act_kind = k, act_basis = BASIS_NONE, act_repository = [], act_medium = ''markdown'',
      act_path = None, act_old_path = None, act_source_uuid = None, act_source_identity = None,
      act_artifact_uuid = None, act_artifact_type = None, act_lane = None, act_integrity = None,
      act_expected_integrity = None, act_version = None, act_version_kind = None,
      act_size_bytes = None, act_title = None, act_status = None, act_raw_status_header = None,
      act_status_unresolved_reason = None, act_conflict_kind = None, act_reason = None,
      act_detail = []\<rparr>"

definition action_sort_key :: "reconciliation_action \<Rightarrow> string \<times> string \<times> string \<times> string" where
  "action_sort_key a =
     (action_kind_value (act_kind a), act_repository a,
      or_empty (or_else (act_path a) (act_old_path a)),
      or_empty (or_else (act_source_identity a) (act_artifact_uuid a)))"

definition locator_key :: "string option \<Rightarrow> string \<Rightarrow> string option \<Rightarrow> string" where
  "locator_key repository medium path =
     strip (or_empty repository) @ ''|'' @ medium @ ''|'' @ strip (or_empty path)"

record source_observation =
  obs_integrity :: "string option"
  obs_size_bytes :: "int option"
  obs_lane :: "string option"
  obs_version :: "string option"
  obs_version_kind :: "string option"
  obs_observed_commit :: "string option"
  obs_observed_at :: "string option"
  obs_basis :: match_basis
  obs_run_id :: "string option"

definition observation_from_action ::
  "reconciliation_action \<Rightarrow> string option \<Rightarrow> string \<Rightarrow> string option \<Rightarrow> source_observation" where
  "observation_from_action a observed_commit observed_at run_id =
     \<lparr>obs_integrity = act_integrity a, obs_size_bytes = act_size_bytes a,
      obs_lane = act_lane a, obs_version = act_version a,
      obs_version_kind = act_version_kind a, obs_observed_commit = observed_commit,
      obs_observed_at = Some observed_at, obs_basis = act_basis a, obs_run_id = run_id\<rparr>"

section \<open>Planner bookkeeping\<close>

record plan_index =
  ix_repository :: string
  ix_entries :: "corpus_entry list"
  ix_snapshots :: "source_snapshot list"
  ix_unscoped :: "source_snapshot list"
  ix_identities :: "identity_snapshot list"
  ix_entries_by_key :: "(key \<times> corpus_entry list) list"
  ix_paths_on_disk :: "(string \<times> string) list"
  ix_snapshots_by_key :: "(key \<times> source_snapshot list) list"
  ix_snapshots_by_artifact :: "(string \<times> source_snapshot list) list"
  ix_unscoped_by_artifact :: "(string \<times> source_snapshot list) list"
  ix_unscoped_by_key :: "((string \<times> string) \<times> source_snapshot list) list"
  ix_identities_by_artifact :: "(string \<times> identity_snapshot) list"

text \<open>
  \<^verbatim>\<open>entries_by_key.setdefault(entry.key, entry)\<close> keeps the first entry of a key, the head of
  its group. \<^verbatim>\<open>identities_by_artifact\<close> is a dictionary comprehension, so the last identity of
  a UUID wins; the association list is built in reverse for \<open>map_of\<close> to find it.
\<close>

definition plan_index_of ::
  "corpus_entry list \<Rightarrow> source_snapshot list \<Rightarrow> source_snapshot list
    \<Rightarrow> identity_snapshot list \<Rightarrow> string \<Rightarrow> plan_index" where
  "plan_index_of entries snapshots unscoped identities repository =
     \<lparr>ix_repository = repository, ix_entries = entries, ix_snapshots = snapshots,
      ix_unscoped = unscoped, ix_identities = identities,
      ix_entries_by_key = group_by entry_key entries,
      ix_paths_on_disk = map (\<lambda>e. (ent_repository e, ent_path e)) entries,
      ix_snapshots_by_key = group_by snapshot_key snapshots,
      ix_snapshots_by_artifact = group_by snap_artifact_uuid snapshots,
      ix_unscoped_by_artifact = group_by snap_artifact_uuid unscoped,
      ix_unscoped_by_key = group_by (\<lambda>s. (snap_medium s, or_empty (snap_path s))) unscoped,
      ix_identities_by_artifact = rev (map (\<lambda>i. (idn_artifact_uuid i, i)) identities)\<rparr>"

definition entry_at :: "plan_index \<Rightarrow> key \<Rightarrow> corpus_entry option" where
  "entry_at ix k = (case get_group k (ix_entries_by_key ix) of [] \<Rightarrow> None | e # _ \<Rightarrow> Some e)"

record plan_state =
  ps_actions :: "reconciliation_action list"
  ps_claimed_entries :: "key set"
  ps_claimed_sources :: "string set"
  ps_claimed_destinations :: "key set"

definition plan_state_init :: plan_state where
  "plan_state_init =
     \<lparr>ps_actions = [], ps_claimed_entries = {}, ps_claimed_sources = {},
      ps_claimed_destinations = {}\<rparr>"

definition unclaimed_entries :: "plan_index \<Rightarrow> plan_state \<Rightarrow> corpus_entry list" where
  "unclaimed_entries ix st = filter (\<lambda>e. entry_key e \<notin> ps_claimed_entries st) (ix_entries ix)"

definition unclaimed_snapshots :: "plan_index \<Rightarrow> plan_state \<Rightarrow> source_snapshot list" where
  "unclaimed_snapshots ix st = filter (\<lambda>s. identity s \<notin> ps_claimed_sources st) (ix_snapshots ix)"

definition unclaimed_unscoped_snapshots :: "plan_index \<Rightarrow> plan_state \<Rightarrow> source_snapshot list" where
  "unclaimed_unscoped_snapshots ix st =
     filter (\<lambda>s. identity s \<notin> ps_claimed_sources st) (ix_unscoped ix)"

definition append_action :: "reconciliation_action \<Rightarrow> plan_state \<Rightarrow> plan_state" where
  "append_action a st = st\<lparr>ps_actions := ps_actions st @ [a]\<rparr>"

definition claim ::
  "reconciliation_action \<Rightarrow> corpus_entry option \<Rightarrow> source_snapshot option \<Rightarrow> plan_state \<Rightarrow> plan_state" where
  "claim a entry snapshot st =
     (let st1 = append_action a st;
          st2 = (case entry of
                   None \<Rightarrow> st1
                 | Some e \<Rightarrow>
                     st1\<lparr>ps_claimed_entries := insert (entry_key e) (ps_claimed_entries st1),
                         ps_claimed_destinations :=
                           (if act_kind a \<noteq> CONFLICT
                            then insert (entry_key e) (ps_claimed_destinations st1)
                            else ps_claimed_destinations st1)\<rparr>)
      in case snapshot of
           None \<Rightarrow> st2
         | Some s \<Rightarrow>
             if act_kind a \<noteq> CONFLICT
             then st2\<lparr>ps_claimed_sources := insert (identity s) (ps_claimed_sources st2)\<rparr>
             else st2)"

definition reserve_conflict ::
  "reconciliation_action \<Rightarrow> corpus_entry \<Rightarrow> source_snapshot list \<Rightarrow> plan_state \<Rightarrow> plan_state result" where
  "reserve_conflict a entry snapshots st =
     (if act_kind a \<noteq> CONFLICT
      then Inl (ValueError ''reserve_conflict requires a CONFLICT action'')
      else let st1 = claim a (Some entry) None st
           in Inr (st1\<lparr>ps_claimed_sources := ps_claimed_sources st1 \<union> identity ` set snapshots\<rparr>))"

definition relocate_or_refresh ::
  "corpus_entry \<Rightarrow> source_snapshot \<Rightarrow> match_basis \<Rightarrow> reconciliation_action" where
  "relocate_or_refresh e s basis =
     (let moved = or_empty (snap_path s) \<noteq> ent_path e;
          content_changed = snap_integrity s \<noteq> Some (ent_integrity e);
          lane_changed = or_else (snap_lane s) None \<noteq> Some (ent_lane e);
          was_unresolved = snap_resolution_status s = UNRESOLVED;
          stale_schema =
            (case snap_schema_version s of None \<Rightarrow> 1 | Some v \<Rightarrow> if v = 0 then 1 else v)
              < ARTIFACT_SOURCE_SCHEMA_VERSION;
          common = (action_of NOOP)
            \<lparr>act_basis := basis, act_repository := ent_repository e, act_medium := ent_medium e,
             act_path := Some (ent_path e), act_source_uuid := snap_source_uuid s,
             act_source_identity := Some (identity s),
             act_artifact_uuid := Some (snap_artifact_uuid s),
             act_artifact_type := snap_artifact_type s, act_lane := Some (ent_lane e),
             act_integrity := Some (ent_integrity e), act_expected_integrity := snap_integrity s,
             act_version := ent_version e, act_version_kind := ent_version_kind e,
             act_size_bytes := Some (ent_size_bytes e), act_title := ent_title e\<rparr>
      in if moved then
           common\<lparr>act_kind := RELOCATE_SOURCE, act_old_path := snap_path s,
             act_reason := Some (if \<not> content_changed then ''source_moved''
                                 else ''source_moved_and_changed'')\<rparr>
         else if content_changed \<or> lane_changed \<or> was_unresolved \<or> stale_schema then
           common\<lparr>act_kind := REFRESH_SOURCE,
             act_reason := Some (join ''+''
               ((if content_changed then [''content_changed''] else []) @
                (if lane_changed then [''lane_changed''] else []) @
                (if was_unresolved then [''source_reappeared''] else []) @
                (if stale_schema then [''source_schema_upgrade''] else [])))\<rparr>
         else common\<lparr>act_kind := NOOP, act_reason := Some ''unchanged''\<rparr>)"

end
