(* ===== verification/Reconciliation_Passes.thy ===== *)
theory Reconciliation_Passes
  imports Reconciliation_Model
begin

text \<open>
  The nine match passes of the planner, in the order the source runs them:
  \<^verbatim>\<open>artifact_reconciliation_plan_passes.py\<close>, \<^verbatim>\<open>artifact_reconciliation_plan_uuid.py\<close> and
  \<^verbatim>\<open>artifact_reconciliation_plan_renames.py\<close>. A pass maps the read-only index and the
  current claims to the new claims; a pass that can raise returns a \<open>result\<close>. The body of a
  loop over entries is a definition of its own, so that each early \<^verbatim>\<open>continue\<close> of the source
  is one branch.
\<close>

section \<open>Conflict actions about an entry\<close>

text \<open>The legs every conflict about an entry carries; a branch adds its own to it.\<close>

definition entry_conflict :: "conflict_kind \<Rightarrow> corpus_entry \<Rightarrow> string \<Rightarrow> string list \<Rightarrow> reconciliation_action" where
  "entry_conflict ck e reason detail =
     (action_of CONFLICT)
       \<lparr>act_conflict_kind := Some ck, act_repository := ent_repository e,
        act_medium := ent_medium e, act_path := Some (ent_path e),
        act_lane := Some (ent_lane e), act_reason := Some reason, act_detail := detail\<rparr>"

definition with_content :: "corpus_entry \<Rightarrow> reconciliation_action \<Rightarrow> reconciliation_action" where
  "with_content e a = a\<lparr>act_integrity := Some (ent_integrity e), act_title := ent_title e\<rparr>"

section \<open>Duplicate current locators\<close>

definition duplicate_locator_action ::
  "key \<Rightarrow> source_snapshot list \<Rightarrow> source_snapshot \<Rightarrow> reconciliation_action" where
  "duplicate_locator_action k grp s =
     (case k of (repository, medium, path) \<Rightarrow>
       (action_of CONFLICT)
         \<lparr>act_conflict_kind := Some DUPLICATE_CURRENT_LOCATOR, act_repository := repository,
          act_medium := medium, act_path := Some path, act_source_uuid := snap_source_uuid s,
          act_source_identity := Some (identity s),
          act_artifact_uuid := Some (snap_artifact_uuid s),
          act_artifact_type := snap_artifact_type s,
          act_reason := Some ''multiple_sources_share_current_locator'',
          act_detail := sort (map snap_artifact_uuid grp)\<rparr>)"

definition duplicate_locator_source ::
  "key \<Rightarrow> source_snapshot list \<Rightarrow> source_snapshot \<Rightarrow> plan_state \<Rightarrow> plan_state" where
  "duplicate_locator_source k grp s st =
     append_action (duplicate_locator_action k grp s)
       (st\<lparr>ps_claimed_sources := insert (identity s) (ps_claimed_sources st)\<rparr>)"

definition duplicate_locator_group ::
  "plan_index \<Rightarrow> key \<times> source_snapshot list \<Rightarrow> plan_state \<Rightarrow> plan_state" where
  "duplicate_locator_group ix kg st =
     (case kg of (k, grp) \<Rightarrow>
       if length grp < 2 then st
       else let st1 = fold (duplicate_locator_source k grp) grp st
            in case entry_at ix k of
                 None \<Rightarrow> st1
               | Some e \<Rightarrow>
                   st1\<lparr>ps_claimed_entries := insert (entry_key e) (ps_claimed_entries st1)\<rparr>)"

definition plan_duplicate_locators :: "plan_index \<Rightarrow> plan_state \<Rightarrow> plan_state" where
  "plan_duplicate_locators ix st =
     fold (duplicate_locator_group ix) (sort_key fst (ix_snapshots_by_key ix)) st"

section \<open>Declared UUIDs\<close>

definition duplicate_uuid_action :: "string \<Rightarrow> corpus_entry list \<Rightarrow> corpus_entry \<Rightarrow> reconciliation_action" where
  "duplicate_uuid_action uuid grp e =
     (with_content e (entry_conflict DUPLICATE_DECLARED_UUID e
       ''declared_uuid_claimed_by_multiple_documents'' (sort (map ent_path grp))))
       \<lparr>act_artifact_uuid := Some uuid\<rparr>"

definition adopt_action :: "string \<Rightarrow> corpus_entry \<Rightarrow> source_snapshot \<Rightarrow> reconciliation_action" where
  "adopt_action uuid e s =
     (action_of ADOPT_SOURCE_REPOSITORY)
       \<lparr>act_basis := DECLARED_UUID, act_repository := ent_repository e,
        act_medium := ent_medium e, act_path := Some (ent_path e), act_old_path := snap_path s,
        act_source_uuid := snap_source_uuid s, act_source_identity := Some (identity s),
        act_artifact_uuid := Some uuid, act_artifact_type := snap_artifact_type s,
        act_lane := Some (ent_lane e), act_integrity := Some (ent_integrity e),
        act_expected_integrity := snap_integrity s, act_version := ent_version e,
        act_version_kind := ent_version_kind e, act_size_bytes := Some (ent_size_bytes e),
        act_title := or_else (snap_title s) (ent_title e), act_status := snap_status s,
        act_reason := Some ''declared_uuid_adopts_unscoped_source_repository''\<rparr>"

definition attach_action :: "string \<Rightarrow> corpus_entry \<Rightarrow> identity_snapshot \<Rightarrow> reconciliation_action" where
  "attach_action uuid e idn =
     (action_of ATTACH_SOURCE)
       \<lparr>act_basis := DECLARED_UUID, act_repository := ent_repository e,
        act_medium := ent_medium e, act_path := Some (ent_path e),
        act_artifact_uuid := Some uuid,
        act_artifact_type := or_else (idn_artifact_type idn) (effective_type e),
        act_lane := Some (ent_lane e), act_integrity := Some (ent_integrity e),
        act_version := ent_version e, act_version_kind := ent_version_kind e,
        act_size_bytes := Some (ent_size_bytes e), act_title := ent_title e,
        act_status := idn_status idn,
        act_reason := Some ''declared_uuid_identifies_source_less_artifact''\<rparr>"

definition type_detail :: "string option \<Rightarrow> string option \<Rightarrow> string list" where
  "type_detail graph_type document_type =
     [if truthy graph_type then or_empty graph_type else ''graph_type_missing'',
      if truthy document_type then or_empty document_type else ''document_type_missing'']"

text \<open>The branch for one unscoped source with the declared UUID.\<close>

definition adopt_unscoped ::
  "plan_index \<Rightarrow> string \<Rightarrow> corpus_entry \<Rightarrow> source_snapshot \<Rightarrow> plan_state \<Rightarrow> plan_state result" where
  "adopt_unscoped ix uuid e s st =
     (let occupants = filter (\<lambda>x. identity x \<noteq> identity s)
            (get_group (ent_medium e, ent_path e) (ix_unscoped_by_key ix))
      in if occupants \<noteq> [] then
           reserve_conflict
             ((entry_conflict UNSCOPED_SOURCE_REPOSITORY e
                 ''unscoped_destination_claimed_by_different_artifact''
                 (sort (map snap_artifact_uuid occupants)))
               \<lparr>act_old_path := snap_path s, act_artifact_uuid := Some uuid\<rparr>)
             e (s # occupants) st
         else if effective_type e \<noteq> snap_artifact_type s then
           reserve_conflict
             ((entry_conflict DECLARED_UUID_TYPE_DISAGREEMENT e
                 ''declared_uuid_type_disagrees_with_unscoped_source_owner''
                 (type_detail (snap_artifact_type s) (effective_type e)))
               \<lparr>act_old_path := snap_path s, act_artifact_uuid := Some uuid,
                act_artifact_type := effective_type e\<rparr>)
             e [s] st
         else if \<not> truthy (snap_source_uuid s) then
           reserve_conflict
             ((entry_conflict UNSCOPED_SOURCE_REPOSITORY e ''unscoped_source_uuid_not_backfilled'' [])
               \<lparr>act_old_path := snap_path s, act_artifact_uuid := Some uuid\<rparr>)
             e [s] st
         else Inr (claim (adopt_action uuid e s) (Some e) (Some s) st))"

text \<open>The branch for a declared UUID no source in the scan carries.\<close>

definition attach_identity ::
  "plan_index \<Rightarrow> string \<Rightarrow> corpus_entry \<Rightarrow> plan_state \<Rightarrow> plan_state" where
  "attach_identity ix uuid e st =
     (case map_of (ix_identities_by_artifact ix) uuid of
        None \<Rightarrow> st
      | Some idn \<Rightarrow>
          if effective_type e \<noteq> idn_artifact_type idn then
            claim
              ((with_content e (entry_conflict DECLARED_UUID_TYPE_DISAGREEMENT e
                  ''declared_uuid_type_disagrees_with_graph_artifact''
                  (type_detail (idn_artifact_type idn) (effective_type e))))
                \<lparr>act_artifact_uuid := Some uuid, act_artifact_type := effective_type e\<rparr>)
              (Some e) None st
          else if idn_source_count idn \<noteq> 0 then
            claim
              ((with_content e (entry_conflict DECLARED_UUID_ALREADY_EMBODIED e
                  ''declared_uuid_has_sources_outside_reconciliation_scope''
                  [''source_count:'' @ str_of_int (idn_source_count idn)]))
                \<lparr>act_artifact_uuid := Some uuid, act_artifact_type := idn_artifact_type idn\<rparr>)
              (Some e) None st
          else claim (attach_action uuid e idn) (Some e) None st)"

definition declared_uuid_entry ::
  "plan_index \<Rightarrow> string \<Rightarrow> corpus_entry \<Rightarrow> plan_state \<Rightarrow> plan_state result" where
  "declared_uuid_entry ix uuid e st =
     (if ent_metadata_errors e \<noteq> [] then Inr st
      else
        let free = (\<lambda>s. snap_medium s = ent_medium e \<and> identity s \<notin> ps_claimed_sources st);
            candidates = filter free (get_group uuid (ix_snapshots_by_artifact ix));
            unscoped_candidates = filter free (get_group uuid (ix_unscoped_by_artifact ix));
            occupant = filter (\<lambda>s. snap_artifact_uuid s \<noteq> uuid)
              (get_group (entry_key e) (ix_snapshots_by_key ix));
            unscoped_occupants = filter
              (\<lambda>s. snap_artifact_uuid s \<noteq> uuid \<and> identity s \<notin> ps_claimed_sources st)
              (get_group (ent_medium e, ent_path e) (ix_unscoped_by_key ix))
        in if occupant \<noteq> [] then
             Inr (claim
               ((with_content e (entry_conflict UUID_LOCATOR_DISAGREEMENT e
                   ''declared_uuid_and_current_locator_name_different_artifacts''
                   (sort (map snap_artifact_uuid occupant))))
                 \<lparr>act_artifact_uuid := Some uuid\<rparr>)
               (Some e) None st)
           else if length candidates + length unscoped_candidates > 1 then
             reserve_conflict
               ((entry_conflict UUID_LOCATOR_DISAGREEMENT e
                   ''declared_uuid_has_multiple_sources_of_this_medium''
                   (sort (map (\<lambda>s. or_empty (snap_path s)) (candidates @ unscoped_candidates))))
                 \<lparr>act_artifact_uuid := Some uuid\<rparr>)
               e (candidates @ unscoped_candidates) st
           else if unscoped_occupants \<noteq> [] then
             reserve_conflict
               ((entry_conflict UNSCOPED_SOURCE_REPOSITORY e
                   ''declared_uuid_destination_claimed_by_unscoped_source''
                   (sort (map snap_artifact_uuid unscoped_occupants)))
                 \<lparr>act_artifact_uuid := Some uuid\<rparr>)
               e (candidates @ unscoped_occupants) st
           else case unscoped_candidates of
             s # _ \<Rightarrow> adopt_unscoped ix uuid e s st
           | [] \<Rightarrow>
               (case candidates of
                  [] \<Rightarrow> Inr (attach_identity ix uuid e st)
                | s # _ \<Rightarrow>
                    Inr (claim (relocate_or_refresh e s DECLARED_UUID) (Some e) (Some s) st)))"

definition declared_uuid_group ::
  "plan_index \<Rightarrow> string \<times> corpus_entry list \<Rightarrow> plan_state \<Rightarrow> plan_state result" where
  "declared_uuid_group ix ug st =
     (case ug of (uuid, grp) \<Rightarrow>
       (case grp of
          [e] \<Rightarrow> declared_uuid_entry ix uuid e st
        | _ \<Rightarrow> Inr (fold (\<lambda>e. claim (duplicate_uuid_action uuid grp e) (Some e) None) grp st)))"

definition declared_groups :: "corpus_entry list \<Rightarrow> (string \<times> corpus_entry list) list" where
  "declared_groups es =
     sort_key fst (group_by (\<lambda>e. or_empty (ent_declared_uuid e))
       (filter (\<lambda>e. truthy (ent_declared_uuid e)) es))"

definition plan_declared_uuids :: "plan_index \<Rightarrow> plan_state \<Rightarrow> plan_state result" where
  "plan_declared_uuids ix st =
     foldM (declared_uuid_group ix) (declared_groups (unclaimed_entries ix st)) st"

section \<open>Unscoped path conflicts\<close>

definition unscoped_path_entry :: "plan_index \<Rightarrow> corpus_entry \<Rightarrow> plan_state \<Rightarrow> plan_state result" where
  "unscoped_path_entry ix e st =
     (let candidates = filter (\<lambda>s. identity s \<notin> ps_claimed_sources st)
            (get_group (ent_medium e, ent_path e) (ix_unscoped_by_key ix))
      in if candidates = [] then Inr st
         else reserve_conflict
           (with_content e (entry_conflict UNSCOPED_SOURCE_REPOSITORY e
              ''path_match_cannot_infer_unscoped_source_repository''
              (sort (map snap_artifact_uuid candidates))))
           e candidates st)"

definition plan_unscoped_path_conflicts :: "plan_index \<Rightarrow> plan_state \<Rightarrow> plan_state result" where
  "plan_unscoped_path_conflicts ix st =
     foldM (unscoped_path_entry ix) (unclaimed_entries ix st) st"

section \<open>Git renames\<close>

definition scoped_renames :: "string \<Rightarrow> git_rename list \<Rightarrow> git_rename list" where
  "scoped_renames repository renames =
     filter (\<lambda>r. ren_repository r \<in> {None, Some [], Some repository}) renames"

definition can_vacate ::
  "plan_index \<Rightarrow> git_rename list \<Rightarrow> corpus_entry \<Rightarrow> source_snapshot \<Rightarrow> bool" where
  "can_vacate ix scoped e occupant =
     (case get_group (or_empty (snap_path occupant)) (group_by ren_old_path scoped) of
        [r] \<Rightarrow>
          length (get_group (ren_new_path r) (group_by ren_new_path scoped)) = 1
          \<and> entry_at ix (ent_repository e, ent_medium e, ren_new_path r) \<noteq> None
      | _ \<Rightarrow> False)"

definition git_rename_entry ::
  "plan_index \<Rightarrow> git_rename list \<Rightarrow> corpus_entry \<Rightarrow> plan_state \<Rightarrow> plan_state result" where
  "git_rename_entry ix scoped e st =
     (let grp = get_group (ent_path e) (group_by ren_new_path scoped);
          at_old = (\<lambda>r. get_group (ent_repository e, ent_medium e, ren_old_path r)
                          (ix_snapshots_by_key ix))
      in case grp of
           [] \<Rightarrow> Inr st
         | [rename] \<Rightarrow>
             (let old_path = ren_old_path rename;
                  outgoing = get_group old_path (group_by ren_old_path scoped);
                  raw_candidates = at_old rename
              in if length outgoing \<noteq> 1 then
                   reserve_conflict
                     ((with_content e (entry_conflict AMBIGUOUS_GIT_RENAME e
                         ''git_rename_source_has_multiple_destinations''
                         (sort (map ren_new_path outgoing))))
                       \<lparr>act_old_path := Some old_path\<rparr>)
                     e raw_candidates st
                 else case filter (\<lambda>s. identity s \<notin> ps_claimed_sources st) raw_candidates of
                   [s] \<Rightarrow>
                     if entry_key e \<in> ps_claimed_destinations st then Inr st
                     else let occupants = filter
                                (\<lambda>x. identity x \<noteq> identity s \<and> identity x \<notin> ps_claimed_sources st)
                                (get_group (entry_key e) (ix_snapshots_by_key ix));
                              blocked = filter (\<lambda>x. \<not> can_vacate ix scoped e x) occupants
                          in if blocked \<noteq> [] then
                               reserve_conflict
                                 ((with_content e (entry_conflict DESTINATION_ALREADY_CLAIMED e
                                     ''git_rename_destination_has_nonmoving_source''
                                     (sort (map snap_artifact_uuid blocked))))
                                   \<lparr>act_old_path := Some old_path,
                                    act_source_uuid := snap_source_uuid s,
                                    act_source_identity := Some (identity s),
                                    act_artifact_uuid := Some (snap_artifact_uuid s),
                                    act_artifact_type := snap_artifact_type s\<rparr>)
                                 e (s # blocked) st
                             else Inr (claim (relocate_or_refresh e s GIT_RENAME)
                                         (Some e) (Some s) st)
                 | _ \<Rightarrow>
                     if raw_candidates \<noteq> [] then
                       reserve_conflict
                         ((with_content e (entry_conflict AMBIGUOUS_GIT_RENAME e
                             ''git_rename_source_is_not_uniquely_available''
                             (sort (map identity raw_candidates))))
                           \<lparr>act_old_path := Some old_path\<rparr>)
                         e raw_candidates st
                     else Inr st)
         | _ \<Rightarrow>
             reserve_conflict
               (with_content e (entry_conflict AMBIGUOUS_GIT_RENAME e
                  ''multiple_git_renames_claim_destination'' (sort (map ren_old_path grp))))
               e (concat (map at_old grp)) st)"

definition plan_git_renames ::
  "plan_index \<Rightarrow> git_rename list \<Rightarrow> string \<Rightarrow> plan_state \<Rightarrow> plan_state result" where
  "plan_git_renames ix renames repository st =
     foldM (git_rename_entry ix (scoped_renames repository renames)) (unclaimed_entries ix st) st"

section \<open>Exact locators\<close>

definition exact_locator_entry :: "plan_index \<Rightarrow> corpus_entry \<Rightarrow> plan_state \<Rightarrow> plan_state" where
  "exact_locator_entry ix e st =
     (case filter (\<lambda>s. identity s \<notin> ps_claimed_sources st)
             (get_group (entry_key e) (ix_snapshots_by_key ix)) of
        [s] \<Rightarrow> claim (relocate_or_refresh e s EXACT_LOCATOR) (Some e) (Some s) st
      | _ \<Rightarrow> st)"

definition plan_exact_locators :: "plan_index \<Rightarrow> plan_state \<Rightarrow> plan_state" where
  "plan_exact_locators ix st = fold (exact_locator_entry ix) (unclaimed_entries ix st) st"

section \<open>Content hashes\<close>

definition ambiguous_content_action ::
  "corpus_entry list \<Rightarrow> source_snapshot list \<Rightarrow> corpus_entry \<Rightarrow> reconciliation_action" where
  "ambiguous_content_action candidates sources e =
     with_content e (entry_conflict AMBIGUOUS_CONTENT_MATCH e
       ''content_hash_matches_more_than_one_candidate''
       (sort (map (\<lambda>c. ''entry:'' @ ent_path c) candidates @
              map (\<lambda>s. ''source:'' @ or_empty (snap_path s)) sources)))"

definition hash_group ::
  "(string \<times> source_snapshot list) list \<Rightarrow> string \<times> corpus_entry list \<Rightarrow> plan_state \<Rightarrow> plan_state" where
  "hash_group sources_by_hash dg st =
     (case dg of (digest, candidates) \<Rightarrow>
       (let sources = get_group digest sources_by_hash in
        case (candidates, sources) of
          (_, []) \<Rightarrow> st
        | ([e], [s]) \<Rightarrow>
            if entry_key e \<in> ps_claimed_destinations st then st
            else claim (relocate_or_refresh e s UNIQUE_CONTENT_SHA256) (Some e) (Some s) st
        | _ \<Rightarrow> fold (\<lambda>e. claim (ambiguous_content_action candidates sources e) (Some e) None)
                 candidates st))"

definition hash_entries :: "plan_index \<Rightarrow> plan_state \<Rightarrow> corpus_entry list" where
  "hash_entries ix st = filter (\<lambda>e. \<not> truthy (ent_declared_uuid e)) (unclaimed_entries ix st)"

text \<open>
  The source tests \<^verbatim>\<open>(s.repository, s.path or "") not in paths_on_disk\<close>: an absent repository
  is \<open>None\<close> there and equals no scanned repository.
\<close>

definition hash_sources :: "plan_index \<Rightarrow> plan_state \<Rightarrow> source_snapshot list" where
  "hash_sources ix st =
     filter (\<lambda>s. truthy (snap_integrity s) \<and>
         (case snap_repository s of None \<Rightarrow> True
          | Some r \<Rightarrow> (r, or_empty (snap_path s)) \<notin> set (ix_paths_on_disk ix)))
       (unclaimed_snapshots ix st)"

definition plan_hash_matches :: "plan_index \<Rightarrow> plan_state \<Rightarrow> plan_state" where
  "plan_hash_matches ix st =
     fold (hash_group (group_by (\<lambda>s. or_empty (snap_integrity s)) (hash_sources ix st)))
       (sort_key fst (group_by ent_integrity (hash_entries ix st))) st"

section \<open>Registrations\<close>

definition register_action ::
  "corpus_entry \<Rightarrow> string \<Rightarrow> string \<Rightarrow> string option \<Rightarrow> reconciliation_action" where
  "register_action e artifact_type status unresolved =
     (action_of REGISTER_ARTIFACT)
       \<lparr>act_basis := BASIS_NONE, act_repository := ent_repository e,
        act_medium := ent_medium e, act_path := Some (ent_path e),
        act_artifact_uuid := ent_declared_uuid e, act_artifact_type := Some artifact_type,
        act_lane := Some (ent_lane e), act_integrity := Some (ent_integrity e),
        act_version := ent_version e, act_version_kind := ent_version_kind e,
        act_size_bytes := Some (ent_size_bytes e), act_title := ent_title e,
        act_status := Some status, act_raw_status_header := ent_raw_status_header e,
        act_status_unresolved_reason := unresolved,
        act_reason := Some ''new_source_in_typed_route''\<rparr>"

definition registration_entry :: "corpus_entry \<Rightarrow> plan_state \<Rightarrow> plan_state result" where
  "registration_entry e st =
     (if ent_metadata_errors e \<noteq> [] then
        Inr (claim (with_content e (entry_conflict INVALID_DECLARED_METADATA e
               ''declared_metadata_rejected'' (ent_metadata_errors e))) (Some e) None st)
      else case effective_type e of
        None \<Rightarrow>
          Inr (claim (with_content e (entry_conflict UNCLASSIFIED_NEW_SOURCE e
                 ''route_requires_a_declared_artifact_type'' [])) (Some e) None st)
      | Some artifact_type \<Rightarrow>
          (let (status, unresolved) =
             (if ent_declared_status e \<noteq> None then (ent_declared_status e, None)
              else status_from_header (ent_raw_status_header e) artifact_type)
           in bind_result
             (if truthy status then Inr (or_empty status)
              else (case map_of INITIAL_STATUS artifact_type of
                      None \<Rightarrow> Inl (KeyError artifact_type)
                    | Some initial \<Rightarrow> Inr initial))
             (\<lambda>final. Inr (claim (register_action e artifact_type final unresolved)
                              (Some e) None st))))"

definition plan_registrations :: "plan_index \<Rightarrow> plan_state \<Rightarrow> plan_state result" where
  "plan_registrations ix st = foldM registration_entry (unclaimed_entries ix st) st"

section \<open>Sources nobody found\<close>

definition unresolved_action :: "source_snapshot \<Rightarrow> reconciliation_action" where
  "unresolved_action s =
     (action_of MARK_SOURCE_UNRESOLVED)
       \<lparr>act_basis := BASIS_NONE, act_repository := or_empty (snap_repository s),
        act_medium := snap_medium s, act_path := snap_path s,
        act_source_uuid := snap_source_uuid s, act_source_identity := Some (identity s),
        act_artifact_uuid := Some (snap_artifact_uuid s),
        act_artifact_type := snap_artifact_type s,
        act_reason := Some ''source_not_observed_in_corpus_scan''\<rparr>"

definition unresolved_source :: "source_snapshot \<Rightarrow> plan_state \<Rightarrow> plan_state" where
  "unresolved_source s st =
     (if snap_resolution_status s = UNRESOLVED then st
      else append_action (unresolved_action s) st)"

definition plan_unresolved_sources :: "plan_index \<Rightarrow> plan_state \<Rightarrow> plan_state" where
  "plan_unresolved_sources ix st = fold unresolved_source (unclaimed_snapshots ix st) st"

definition remaining_unscoped_source :: "plan_index \<Rightarrow> source_snapshot \<Rightarrow> plan_state \<Rightarrow> plan_state" where
  "remaining_unscoped_source ix s st =
     (let st1 = append_action
            ((action_of CONFLICT)
              \<lparr>act_conflict_kind := Some UNSCOPED_SOURCE_REPOSITORY,
               act_repository := ix_repository ix, act_medium := snap_medium s,
               act_old_path := snap_path s, act_source_uuid := snap_source_uuid s,
               act_source_identity := Some (identity s),
               act_artifact_uuid := Some (snap_artifact_uuid s),
               act_artifact_type := snap_artifact_type s,
               act_reason := Some ''unscoped_source_requires_repository_disposition''\<rparr>) st
      in st1\<lparr>ps_claimed_sources := insert (identity s) (ps_claimed_sources st1)\<rparr>)"

definition plan_remaining_unscoped_sources :: "plan_index \<Rightarrow> plan_state \<Rightarrow> plan_state" where
  "plan_remaining_unscoped_sources ix st =
     fold (remaining_unscoped_source ix) (unclaimed_unscoped_snapshots ix st) st"

end
