(* ===== verification/Reconciliation_Planner.thy ===== *)
theory Reconciliation_Planner
  imports Reconciliation_Passes
begin

text \<open>
  The planner, \<^verbatim>\<open>domain/artifact_reconciliation_planner.py\<close>: it scopes and sorts its inputs,
  runs the passes strongest evidence first, sorts the actions, reports lane contradictions,
  counts and a digest over the premises and the conclusions. \<open>digest_of\<close> stands for
  \<^verbatim>\<open>sha256(json.dumps(payload))\<close>; it is an argument of the planner, applied to the payload the
  source builds.
\<close>

section \<open>Counting dictionaries\<close>

fun count_add :: "'k \<Rightarrow> ('k \<times> nat) list \<Rightarrow> ('k \<times> nat) list" where
  "count_add k [] = [(k, 1)]"
| "count_add k ((k', n) # d) = (if k = k' then (k', n + 1) # d else (k', n) # count_add k d)"

definition count_by :: "('a \<Rightarrow> 'k :: linorder) \<Rightarrow> 'a list \<Rightarrow> ('k \<times> nat) list" where
  "count_by f xs = sort_key fst (fold (\<lambda>x. count_add (f x)) xs [])"

fun match_basis_value :: "match_basis \<Rightarrow> string" where
  "match_basis_value DECLARED_UUID = ''DECLARED_UUID''"
| "match_basis_value EXACT_LOCATOR = ''EXACT_LOCATOR''"
| "match_basis_value GIT_RENAME = ''GIT_RENAME''"
| "match_basis_value UNIQUE_CONTENT_SHA256 = ''UNIQUE_CONTENT_SHA256''"
| "match_basis_value BASIS_NONE = ''NONE''"

fun conflict_kind_value :: "conflict_kind \<Rightarrow> string" where
  "conflict_kind_value UUID_LOCATOR_DISAGREEMENT = ''UUID_LOCATOR_DISAGREEMENT''"
| "conflict_kind_value DESTINATION_ALREADY_CLAIMED = ''DESTINATION_ALREADY_CLAIMED''"
| "conflict_kind_value DUPLICATE_DECLARED_UUID = ''DUPLICATE_DECLARED_UUID''"
| "conflict_kind_value DUPLICATE_CURRENT_LOCATOR = ''DUPLICATE_CURRENT_LOCATOR''"
| "conflict_kind_value AMBIGUOUS_CONTENT_MATCH = ''AMBIGUOUS_CONTENT_MATCH''"
| "conflict_kind_value AMBIGUOUS_GIT_RENAME = ''AMBIGUOUS_GIT_RENAME''"
| "conflict_kind_value UNCLASSIFIED_NEW_SOURCE = ''UNCLASSIFIED_NEW_SOURCE''"
| "conflict_kind_value INVALID_DECLARED_METADATA = ''INVALID_DECLARED_METADATA''"
| "conflict_kind_value DECLARED_UUID_TYPE_DISAGREEMENT = ''DECLARED_UUID_TYPE_DISAGREEMENT''"
| "conflict_kind_value DECLARED_UUID_ALREADY_EMBODIED = ''DECLARED_UUID_ALREADY_EMBODIED''"
| "conflict_kind_value UNSCOPED_SOURCE_REPOSITORY = ''UNSCOPED_SOURCE_REPOSITORY''"

section \<open>Lane contradictions\<close>

record lane_contradiction =
  lc_repository :: string
  lc_path :: string
  lc_lane :: string
  lc_artifact_uuid :: "string option"
  lc_artifact_type :: "string option"
  lc_status :: "string option"
  lc_reason :: string

definition TERMINALISH :: "string list" where
  "TERMINALISH = [IMPLEMENTED, COMPLETE, SUPERSEDED, DEFERRED]"

text \<open>
  Both lookups are dictionary comprehensions, so the last binding of a key wins. A matched
  action always carries a path; its key is compared with the key of the entry.
\<close>

definition matched_action :: "plan_state \<Rightarrow> corpus_entry \<Rightarrow> reconciliation_action option" where
  "matched_action st e =
     map_of (rev (map (\<lambda>a. ((act_repository a, act_medium a, act_path a), a))
        (filter (\<lambda>a. act_kind a \<in> {NOOP, REFRESH_SOURCE, RELOCATE_SOURCE}) (ps_actions st))))
      (ent_repository e, ent_medium e, Some (ent_path e))"

definition snapshot_of_artifact :: "plan_index \<Rightarrow> string \<Rightarrow> source_snapshot option" where
  "snapshot_of_artifact ix uuid =
     map_of (rev (map (\<lambda>s. (snap_artifact_uuid s, s))
        (filter (\<lambda>s. snap_artifact_uuid s \<noteq> []) (ix_snapshots ix)))) uuid"

definition lane_contradiction_of ::
  "plan_index \<Rightarrow> plan_state \<Rightarrow> corpus_entry \<Rightarrow> lane_contradiction list" where
  "lane_contradiction_of ix st e =
     (case matched_action st e of
        None \<Rightarrow> []
      | Some a \<Rightarrow>
          if \<not> truthy (act_artifact_uuid a) then []
          else case snapshot_of_artifact ix (or_empty (act_artifact_uuid a)) of
            None \<Rightarrow> []
          | Some s \<Rightarrow>
              (case snap_status s of
                 None \<Rightarrow> []
               | Some status \<Rightarrow>
                   let line = (\<lambda>reason. \<lparr>lc_repository = ent_repository e, lc_path = ent_path e,
                         lc_lane = ent_lane e, lc_artifact_uuid = act_artifact_uuid a,
                         lc_artifact_type = act_artifact_type a, lc_status = Some status,
                         lc_reason = reason\<rparr>)
                   in if ent_lane e = ARCHIVE \<and> status \<notin> set TERMINALISH
                      then [line ''archived_source_without_terminal_lifecycle'']
                      else if ent_lane e \<in> set EXECUTABLE_LANES \<and> status \<in> set TERMINALISH
                      then [line ''terminal_lifecycle_in_executable_lane'']
                      else []))"

definition lane_contradictions :: "plan_index \<Rightarrow> plan_state \<Rightarrow> lane_contradiction list" where
  "lane_contradictions ix st =
     sort_key (\<lambda>c. (lc_repository c, lc_path c))
       (concat (map (lane_contradiction_of ix st) (ix_entries ix)))"

section \<open>Summary and digest\<close>

record plan_counts =
  cnt_entries :: nat
  cnt_sources :: nat
  cnt_unscoped_sources :: nat
  cnt_artifact_identities :: nat
  cnt_actions :: nat
  cnt_by_kind :: "(string \<times> nat) list"
  cnt_by_basis :: "(string \<times> nat) list"
  cnt_by_conflict :: "(string \<times> nat) list"
  cnt_entries_by_lane :: "(string \<times> nat) list"
  cnt_entries_by_type :: "(string \<times> nat) list"
  cnt_contradictions :: nat

definition summarize ::
  "plan_index \<Rightarrow> reconciliation_action list \<Rightarrow> lane_contradiction list \<Rightarrow> plan_counts" where
  "summarize ix actions contradictions =
     \<lparr>cnt_entries = length (ix_entries ix), cnt_sources = length (ix_snapshots ix),
      cnt_unscoped_sources = length (ix_unscoped ix),
      cnt_artifact_identities = length (ix_identities ix), cnt_actions = length actions,
      cnt_by_kind = count_by (\<lambda>a. action_kind_value (act_kind a)) actions,
      cnt_by_basis = count_by (\<lambda>a. match_basis_value (act_basis a))
        (filter (\<lambda>a. act_basis a \<noteq> BASIS_NONE) actions),
      cnt_by_conflict = count_by id
        (concat (map (\<lambda>a. case act_conflict_kind a of None \<Rightarrow> []
            | Some c \<Rightarrow> [conflict_kind_value c]) actions)),
      cnt_entries_by_lane = count_by ent_lane (ix_entries ix),
      cnt_entries_by_type = count_by
        (\<lambda>e. if truthy (effective_type e) then or_empty (effective_type e) else ''undeclared'')
        (ix_entries ix),
      cnt_contradictions = length contradictions\<rparr>"

record plan_payload =
  pay_repository :: string
  pay_observed_commit :: "string option"
  pay_cursor_commit :: "string option"
  pay_evidence_from_commit :: "string option"
  pay_evidence_base_valid :: bool
  pay_schema :: int
  pay_sources :: "string list list"
  pay_unscoped_sources :: "string list list"
  pay_identities :: "string list list"
  pay_entries :: "string list list"
  pay_actions :: "reconciliation_action list"

definition plan_payload_of ::
  "string \<Rightarrow> string option \<Rightarrow> string option \<Rightarrow> string option \<Rightarrow> bool \<Rightarrow> corpus_entry list
    \<Rightarrow> source_snapshot list \<Rightarrow> source_snapshot list \<Rightarrow> identity_snapshot list
    \<Rightarrow> reconciliation_action list \<Rightarrow> plan_payload" where
  "plan_payload_of repository observed cursor evidence_from evidence_valid entries snapshots
      unscoped identities actions =
     \<lparr>pay_repository = repository, pay_observed_commit = observed, pay_cursor_commit = cursor,
      pay_evidence_from_commit = evidence_from, pay_evidence_base_valid = evidence_valid,
      pay_schema = ARTIFACT_SOURCE_SCHEMA_VERSION,
      pay_sources = sort (map (\<lambda>s.
        [or_empty (snap_source_uuid s), snap_artifact_uuid s, snap_medium s,
         or_empty (snap_repository s), or_empty (snap_path s), or_empty (snap_integrity s),
         snap_resolution_status s]) snapshots),
      pay_unscoped_sources = sort (map (\<lambda>s.
        [or_empty (snap_source_uuid s), snap_artifact_uuid s, snap_medium s,
         or_empty (snap_path s), or_empty (snap_integrity s), snap_resolution_status s])
        unscoped),
      pay_identities = sort (map (\<lambda>i.
        [idn_artifact_uuid i, or_empty (idn_artifact_type i), or_empty (idn_title i),
         or_empty (idn_status i), str_of_int (idn_source_count i)]) identities),
      pay_entries = sort (map (\<lambda>e.
        [ent_repository e, ent_medium e, ent_path e, ent_integrity e,
         str_of_int (ent_size_bytes e), or_empty (ent_declared_uuid e),
         or_empty (ent_declared_type e), or_empty (ent_declared_status e), ent_lane e]) entries),
      pay_actions = sort_key action_sort_key actions\<rparr>"

record reconciliation_report =
  rep_repository :: string
  rep_observed_commit :: "string option"
  rep_cursor_commit :: "string option"
  rep_evidence_from_commit :: "string option"
  rep_evidence_base_valid :: bool
  rep_actions :: "reconciliation_action list"
  rep_contradictions :: "lane_contradiction list"
  rep_plan_digest :: string
  rep_counts :: plan_counts

definition report_conflicts :: "reconciliation_report \<Rightarrow> reconciliation_action list" where
  "report_conflicts r = filter (\<lambda>a. act_kind a = CONFLICT) (rep_actions r)"

definition report_safe_actions :: "reconciliation_report \<Rightarrow> reconciliation_action list" where
  "report_safe_actions r = filter (\<lambda>a. act_kind a \<in> set SAFE_ACTION_KINDS) (rep_actions r)"

section \<open>The planner\<close>

definition scoped_entries :: "string \<Rightarrow> corpus_entry list \<Rightarrow> corpus_entry list" where
  "scoped_entries repository entries =
     sort_key ent_path (filter (\<lambda>e. ent_repository e = repository) entries)"

definition scoped_snapshots :: "string \<Rightarrow> source_snapshot list \<Rightarrow> source_snapshot list" where
  "scoped_snapshots repository snapshots =
     sort_key (\<lambda>s. (or_empty (snap_path s), snap_artifact_uuid s))
       (filter (\<lambda>s. or_empty (snap_repository s) = repository) snapshots)"

definition run_passes ::
  "plan_index \<Rightarrow> git_rename list \<Rightarrow> string \<Rightarrow> plan_state result" where
  "run_passes ix renames repository =
     bind_result (plan_declared_uuids ix (plan_duplicate_locators ix plan_state_init)) (\<lambda>st2.
     bind_result (plan_unscoped_path_conflicts ix st2) (\<lambda>st3.
     bind_result (plan_git_renames ix renames repository st3) (\<lambda>st4.
     bind_result (plan_registrations ix (plan_hash_matches ix (plan_exact_locators ix st4))) (\<lambda>st7.
     Inr (plan_remaining_unscoped_sources ix (plan_unresolved_sources ix st7))))))"

record plan_request =
  req_repository :: string
  req_entries :: "corpus_entry list"
  req_snapshots :: "source_snapshot list"
  req_unscoped :: "source_snapshot list"
  req_identities :: "identity_snapshot list"
  req_renames :: "git_rename list"
  req_observed_commit :: "string option"
  req_cursor_commit :: "string option"
  req_evidence_from_commit :: "string option"
  req_evidence_base_valid :: bool

definition request_index :: "plan_request \<Rightarrow> plan_index" where
  "request_index q =
     plan_index_of (scoped_entries (req_repository q) (req_entries q))
       (scoped_snapshots (req_repository q) (req_snapshots q))
       (req_unscoped q) (req_identities q) (req_repository q)"

definition plan_reconciliation ::
  "(plan_payload \<Rightarrow> string) \<Rightarrow> plan_request \<Rightarrow> reconciliation_report result" where
  "plan_reconciliation digest_of q =
     (let ix = request_index q in
      bind_result (run_passes ix (req_renames q) (req_repository q)) (\<lambda>st.
        let actions = sort_key action_sort_key (ps_actions st);
            contradictions = lane_contradictions ix st
        in Inr
          \<lparr>rep_repository = req_repository q, rep_observed_commit = req_observed_commit q,
           rep_cursor_commit = req_cursor_commit q,
           rep_evidence_from_commit = req_evidence_from_commit q,
           rep_evidence_base_valid = req_evidence_base_valid q, rep_actions = actions,
           rep_contradictions = contradictions,
           rep_plan_digest = digest_of (plan_payload_of (req_repository q)
             (req_observed_commit q) (req_cursor_commit q) (req_evidence_from_commit q)
             (req_evidence_base_valid q) (ix_entries ix) (ix_snapshots ix) (ix_unscoped ix)
             (ix_identities ix) actions),
           rep_counts = summarize ix actions contradictions\<rparr>))"

end
