(* ===== verification/Artifact_Sources.thy ===== *)
theory Artifact_Sources
  imports Artifact_Store Reconciliation_Planner
begin

text \<open>
  The embodiments of work artifacts, \<^verbatim>\<open>:ArtifactSource\<close> nodes, and the reconciliation cursors:
  the source half of \<^verbatim>\<open>infrastructure/work_artifact_repository.py\<close>. A source node hangs on
  exactly one artifact (\<^verbatim>\<open>EMBODIED_IN\<close>), so its owner is a leg of the record. One Cypher
  statement is one atomic change; a statement that would break an active uniqueness constraint
  (\<^verbatim>\<open>schema.py\<close>) is rolled back and raises. An operation returns the graph it leaves behind and
  an outcome or the raised error, because statements that ran before the error stay committed.

  A comparison with null is not true in Cypher; where the source only branches on the truth of
  such a comparison, null counts as false. Cypher's \<^verbatim>\<open>trim\<close> is the \<open>strip\<close> of the prelude.
  Identifiers drawn by \<^verbatim>\<open>uuid4\<close> and the clock are arguments.
\<close>

section \<open>Nodes and statements\<close>

record source_node =
  sn_owner :: string
  sn_source_uuid :: "string option"
  sn_medium :: "string option"
  sn_repository :: "string option"
  sn_path :: "string option"
  sn_current_locator_key :: "string option"
  sn_integrity :: "string option"
  sn_integrity_algorithm :: "string option"
  sn_size_bytes :: "int option"
  sn_lane :: "string option"
  sn_version :: "string option"
  sn_version_kind :: "string option"
  sn_observed_commit :: "string option"
  sn_resolution_status :: "string option"
  sn_resolution_reason :: "string option"
  sn_schema_version :: "int option"
  sn_last_reconcile_basis :: "match_basis option"
  sn_last_reconcile_run_id :: "string option"
  sn_first_seen_at :: "string option"
  sn_last_seen_at :: "string option"
  sn_last_reconciled_at :: "string option"

record source_graph =
  sg_graph :: graph
  sg_sources :: "source_node list"
  sg_cursors :: "string \<rightharpoonup> string"
  sg_constraints :: bool

datatype outcome = Applied string "string option" | Skipped string

text \<open>What an operation leaves and what it returns or raises.\<close>

type_synonym written = "source_graph \<times> outcome result"

definition coalesce_opt :: "'a option \<Rightarrow> 'a option \<Rightarrow> 'a option" where
  "coalesce_opt x y = (case x of None \<Rightarrow> y | Some _ \<Rightarrow> x)"

definition effective_key :: "source_node \<Rightarrow> string" where
  "effective_key s =
     (case sn_current_locator_key s of
        Some k \<Rightarrow> k
      | None \<Rightarrow> or_empty (sn_repository s) @ ''|'' @ or_empty (sn_medium s) @ ''|'' @ or_empty (sn_path s))"

definition is_unscoped :: "source_node \<Rightarrow> bool" where
  "is_unscoped s \<longleftrightarrow> strip (or_empty (sn_repository s)) = []"

definition not_null_eq :: "string option \<Rightarrow> string option \<Rightarrow> bool" where
  "not_null_eq x y \<longleftrightarrow> x \<noteq> None \<and> x = y"

definition unscoped_at :: "string \<Rightarrow> string option \<Rightarrow> source_node \<Rightarrow> bool" where
  "unscoped_at medium path s \<longleftrightarrow>
     is_unscoped s \<and> not_null_eq (sn_medium s) (Some medium) \<and> not_null_eq (sn_path s) path"

definition owned :: "source_graph \<Rightarrow> source_node \<Rightarrow> bool" where
  "owned g s \<longleftrightarrow> gr_artifacts (sg_graph g) (sn_owner s) \<noteq> None"

definition match_uuid :: "source_graph \<Rightarrow> string \<Rightarrow> source_node \<Rightarrow> bool" where
  "match_uuid g u s \<longleftrightarrow> owned g s \<and> sn_source_uuid s = Some u"

definition update_where :: "('a \<Rightarrow> bool) \<Rightarrow> ('a \<Rightarrow> 'a) \<Rightarrow> 'a list \<Rightarrow> 'a list" where
  "update_where p f xs = map (\<lambda>s. if p s then f s else s) xs"

definition sources_constrained :: "source_node list \<Rightarrow> bool" where
  "sources_constrained ss \<longleftrightarrow>
     distinct (List.map_filter sn_source_uuid ss) \<and> distinct (List.map_filter sn_current_locator_key ss)"

definition write_sources :: "source_node list \<Rightarrow> source_graph \<Rightarrow> source_graph result" where
  "write_sources ss g =
     (if sg_constraints g \<and> \<not> sources_constrained ss then Inl (ConstraintError ''ArtifactSource'')
      else Inr (g\<lparr>sg_sources := ss\<rparr>))"

definition statement :: "source_graph \<Rightarrow> source_node list \<Rightarrow> outcome \<Rightarrow> written" where
  "statement g ss out =
     (case write_sources ss g of Inl err \<Rightarrow> (g, Inl err) | Inr g' \<Rightarrow> (g', Inr out))"

section \<open>Observations\<close>

definition INTEGRITY_ALGORITHM :: string where "INTEGRITY_ALGORITHM = ''sha256''"

text \<open>
  \<^verbatim>\<open>SET s += props\<close> with the properties of an observation: absent legs are left alone, and the
  resolution reason is cleared.
\<close>

definition source_write_props :: "source_observation \<Rightarrow> source_node \<Rightarrow> source_node" where
  "source_write_props obs s = s
     \<lparr>sn_integrity_algorithm :=
        coalesce_opt (if truthy (obs_integrity obs) then Some INTEGRITY_ALGORITHM else None) (sn_integrity_algorithm s),
      sn_integrity := coalesce_opt (obs_integrity obs) (sn_integrity s),
      sn_size_bytes := coalesce_opt (obs_size_bytes obs) (sn_size_bytes s),
      sn_lane := coalesce_opt (obs_lane obs) (sn_lane s),
      sn_version := coalesce_opt (obs_version obs) (sn_version s),
      sn_version_kind := coalesce_opt (obs_version_kind obs) (sn_version_kind s),
      sn_observed_commit := coalesce_opt (obs_observed_commit obs) (sn_observed_commit s),
      sn_last_seen_at := coalesce_opt (obs_observed_at obs) (sn_last_seen_at s),
      sn_last_reconciled_at := coalesce_opt (obs_observed_at obs) (sn_last_reconciled_at s),
      sn_last_reconcile_basis := Some (obs_basis obs),
      sn_last_reconcile_run_id := coalesce_opt (obs_run_id obs) (sn_last_reconcile_run_id s),
      sn_resolution_status := Some RESOLVED,
      sn_resolution_reason := None,
      sn_schema_version := Some ARTIFACT_SOURCE_SCHEMA_VERSION\<rparr>"

section \<open>Refresh, relocation, loss\<close>

definition is_fresh :: "string option \<Rightarrow> source_node \<Rightarrow> bool" where
  "is_fresh expected s \<longleftrightarrow> (case expected of None \<Rightarrow> True | Some i \<Rightarrow> or_empty (sn_integrity s) = i)"

definition refresh_artifact_source ::
  "string \<Rightarrow> source_observation \<Rightarrow> string option \<Rightarrow> source_graph \<Rightarrow> written" where
  "refresh_artifact_source source_uuid obs expected g =
     (let ss = update_where (\<lambda>s. match_uuid g source_uuid s \<and> is_fresh expected s)
                 (source_write_props obs) (sg_sources g)
      in statement g ss
        (case filter (match_uuid g source_uuid) (sg_sources g) of
           [] \<Rightarrow> Skipped ''source_not_found''
         | row # _ \<Rightarrow>
             if \<not> is_fresh expected row then Skipped ''stale_expected_integrity''
             else Applied (sn_owner row) (Some source_uuid)))"

record locator =
  loc_repository :: "string option"
  loc_path :: "string option"
  loc_medium :: "string option"

definition locator_props ::
  "source_observation \<Rightarrow> string option \<Rightarrow> string option \<Rightarrow> string \<Rightarrow> source_node \<Rightarrow> source_node" where
  "locator_props obs repository path key s = (source_write_props obs s)
     \<lparr>sn_repository := repository, sn_path := path, sn_current_locator_key := Some key\<rparr>"

definition blocks :: "string \<Rightarrow> string \<Rightarrow> string option \<Rightarrow> source_node \<Rightarrow> bool" where
  "blocks key medium path s \<longleftrightarrow> effective_key s = key \<or> unscoped_at medium path s"

definition relocate_artifact_source ::
  "string \<Rightarrow> locator \<Rightarrow> locator \<Rightarrow> source_observation \<Rightarrow> string option \<Rightarrow> source_graph \<Rightarrow> written" where
  "relocate_artifact_source source_uuid old_locator new_locator obs expected g =
     (let medium = or_empty (or_else (loc_medium new_locator)
                     (or_else (loc_medium old_locator) (Some ''markdown'')));
          repository = or_else (loc_repository new_locator) (loc_repository old_locator);
          new_key = locator_key repository medium (loc_path new_locator);
          old_key = locator_key (loc_repository old_locator) medium (loc_path old_locator);
          old_unscoped = (strip (or_empty (loc_repository old_locator)) = []);
          blockers = filter (\<lambda>s. blocks new_key medium (loc_path new_locator) s
                        \<and> or_empty (sn_source_uuid s) \<noteq> source_uuid) (sg_sources g);
          at_old = (\<lambda>s. effective_key s = old_key
                     \<or> old_unscoped \<and> unscoped_at medium (loc_path old_locator) s);
          ss = update_where
                 (\<lambda>s. match_uuid g source_uuid s \<and> blockers = [] \<and> at_old s \<and> is_fresh expected s)
                 (locator_props obs repository (loc_path new_locator) new_key) (sg_sources g)
      in statement g ss
        (case filter (match_uuid g source_uuid) (sg_sources g) of
           [] \<Rightarrow> Skipped ''source_not_found''
         | row # _ \<Rightarrow>
             if filter is_unscoped blockers \<noteq> [] then Skipped ''unscoped_source_claims_destination''
             else if blockers \<noteq> [] then Skipped ''destination_already_claimed''
             else if \<not> at_old row then Skipped ''stale_old_locator''
             else if \<not> is_fresh expected row then Skipped ''stale_expected_integrity''
             else Applied (sn_owner row) (Some source_uuid)))"

definition source_uuid_at_locator ::
  "string \<Rightarrow> string \<Rightarrow> string \<Rightarrow> source_graph \<Rightarrow> string + string" where
  "source_uuid_at_locator repository medium path g =
     (let key = locator_key (Some repository) medium (Some path)
      in case filter (\<lambda>s. owned g s \<and> effective_key s = key) (sg_sources g) of
           [] \<Rightarrow> Inl ''locator_not_found''
         | [s] \<Rightarrow> if truthy (sn_source_uuid s) then Inr (or_empty (sn_source_uuid s))
                  else Inl ''source_uuid_not_backfilled''
         | _ \<Rightarrow> Inl ''locator_is_ambiguous'')"

definition relocate_artifact_source_by_locator ::
  "string \<Rightarrow> string \<Rightarrow> string \<Rightarrow> string \<Rightarrow> source_observation \<Rightarrow> source_graph \<Rightarrow> written" where
  "relocate_artifact_source_by_locator repository medium old_path new_path obs g =
     (case source_uuid_at_locator repository medium old_path g of
        Inl reason \<Rightarrow> (g, Inr (Skipped reason))
      | Inr u \<Rightarrow> relocate_artifact_source u
          \<lparr>loc_repository = Some repository, loc_path = Some old_path, loc_medium = Some medium\<rparr>
          \<lparr>loc_repository = Some repository, loc_path = Some new_path, loc_medium = Some medium\<rparr>
          obs None g)"

definition refresh_artifact_source_by_locator ::
  "string \<Rightarrow> string \<Rightarrow> string \<Rightarrow> source_observation \<Rightarrow> source_graph \<Rightarrow> written" where
  "refresh_artifact_source_by_locator repository medium path obs g =
     (case source_uuid_at_locator repository medium path g of
        Inl reason \<Rightarrow> (g, Inr (Skipped reason))
      | Inr u \<Rightarrow> refresh_artifact_source u obs None g)"

definition unresolved_props :: "string \<Rightarrow> string option \<Rightarrow> string \<Rightarrow> source_node \<Rightarrow> source_node" where
  "unresolved_props reason observed_commit now s = s
     \<lparr>sn_resolution_status := Some UNRESOLVED, sn_resolution_reason := Some reason,
      sn_observed_commit := coalesce_opt observed_commit (sn_observed_commit s),
      sn_last_reconciled_at := Some now, sn_schema_version := Some ARTIFACT_SOURCE_SCHEMA_VERSION\<rparr>"

definition mark_artifact_source_unresolved ::
  "string \<Rightarrow> string \<Rightarrow> string option \<Rightarrow> string \<Rightarrow> source_graph \<Rightarrow> written" where
  "mark_artifact_source_unresolved source_uuid reason observed_commit now g =
     statement g
       (update_where (match_uuid g source_uuid) (unresolved_props reason observed_commit now) (sg_sources g))
       (case filter (match_uuid g source_uuid) (sg_sources g) of
          [] \<Rightarrow> Skipped ''source_not_found''
        | row # _ \<Rightarrow> Applied (sn_owner row) None)"

section \<open>Registration and attachment\<close>

text \<open>A node as \<^verbatim>\<open>_write_source\<close> creates it from an \<^verbatim>\<open>ArtifactSourceSpec\<close>.\<close>

definition ARTIFACT_SCHEMA_VERSION :: int where "ARTIFACT_SCHEMA_VERSION = 1"

definition spec_node ::
  "string \<Rightarrow> string \<Rightarrow> string \<Rightarrow> string \<Rightarrow> string option \<Rightarrow> string option \<Rightarrow> string \<Rightarrow> source_node" where
  "spec_node owner medium repository path version integrity now =
     \<lparr>sn_owner = owner, sn_source_uuid = None, sn_medium = Some medium, sn_repository = Some repository,
      sn_path = Some path, sn_current_locator_key = None, sn_integrity = integrity,
      sn_integrity_algorithm = None, sn_size_bytes = None, sn_lane = None, sn_version = version,
      sn_version_kind = None, sn_observed_commit = None, sn_resolution_status = None,
      sn_resolution_reason = None, sn_schema_version = Some ARTIFACT_SCHEMA_VERSION,
      sn_last_reconcile_basis = None, sn_last_reconcile_run_id = None, sn_first_seen_at = Some now,
      sn_last_seen_at = Some now, sn_last_reconciled_at = None\<rparr>"

definition write_source :: "source_node \<Rightarrow> source_graph \<Rightarrow> source_graph \<times> unit result" where
  "write_source s g =
     (case require_known_medium (or_empty (sn_medium s)) of
        Inl err \<Rightarrow> (g, Inl err)
      | Inr _ \<Rightarrow>
          (case write_sources (if owned g s then sg_sources g @ [s] else sg_sources g) g of
             Inl err \<Rightarrow> (g, Inl err)
           | Inr g' \<Rightarrow> (g', Inr ())))"

text \<open>
  \<^verbatim>\<open>create_artifact\<close> with a source: the artifact is one statement, its embodiment the next, and
  the medium is checked between the two.
\<close>

definition create_with_source ::
  "string \<Rightarrow> string \<Rightarrow> string \<Rightarrow> source_node \<Rightarrow> string option \<Rightarrow> string option \<Rightarrow> string option
    \<Rightarrow> string option \<Rightarrow> source_graph \<Rightarrow> source_graph \<times> unit result" where
  "create_with_source uuid artifact_type title source namespace status status_raw
       status_unresolved_reason g =
     (case create_artifact uuid artifact_type title namespace status status_raw
             status_unresolved_reason (sg_graph g) of
        Inl err \<Rightarrow> (g, Inl err)
      | Inr h \<Rightarrow> write_source source (g\<lparr>sg_graph := h\<rparr>))"

record registration =
  rg_artifact_type :: string
  rg_title :: string
  rg_repository :: string
  rg_path :: string
  rg_medium :: string
  rg_namespace :: "string option"
  rg_status :: "string option"
  rg_status_raw :: "string option"
  rg_status_unresolved_reason :: "string option"
  rg_artifact_uuid :: "string option"

definition register_refusal :: "registration \<Rightarrow> source_graph \<Rightarrow> string option" where
  "register_refusal rg g =
     (let key = locator_key (Some (rg_repository rg)) (rg_medium rg) (Some (rg_path rg));
          claimed = filter (blocks key (rg_medium rg) (Some (rg_path rg))) (sg_sources g)
      in if truthy (rg_artifact_uuid rg)
            \<and> gr_artifacts (sg_graph g) (or_empty (rg_artifact_uuid rg)) \<noteq> None
         then Some ''declared_uuid_already_registered''
         else if claimed \<noteq> [] then
           (if filter is_unscoped claimed \<noteq> [] then Some ''unscoped_source_claims_destination''
            else Some ''destination_already_claimed'')
         else None)"

definition stamp_props ::
  "source_observation \<Rightarrow> string \<Rightarrow> string \<Rightarrow> source_node \<Rightarrow> source_node" where
  "stamp_props obs key source_uuid s = (source_write_props obs s)
     \<lparr>sn_current_locator_key := Some key, sn_source_uuid := Some source_uuid\<rparr>"

definition register_stamp ::
  "registration \<Rightarrow> source_observation \<Rightarrow> string \<Rightarrow> string \<Rightarrow> source_graph \<Rightarrow> written" where
  "register_stamp rg obs uuid source_uuid g =
     statement g
       (update_where (\<lambda>s. owned g s \<and> sn_owner s = uuid \<and> not_null_eq (sn_path s) (Some (rg_path rg)))
          (stamp_props obs (locator_key (Some (rg_repository rg)) (rg_medium rg) (Some (rg_path rg))) source_uuid)
          (sg_sources g))
       (Applied uuid (Some source_uuid))"

definition register_work_artifact ::
  "registration \<Rightarrow> source_observation \<Rightarrow> string \<Rightarrow> string \<Rightarrow> string \<Rightarrow> source_graph \<Rightarrow> written" where
  "register_work_artifact rg obs new_uuid source_uuid now g =
     (case register_refusal rg g of
        Some reason \<Rightarrow> (g, Inr (Skipped reason))
      | None \<Rightarrow>
          let uuid = (if truthy (rg_artifact_uuid rg) then or_empty (rg_artifact_uuid rg) else new_uuid)
          in case create_with_source uuid (rg_artifact_type rg) (rg_title rg)
                    (spec_node uuid (rg_medium rg) (rg_repository rg) (rg_path rg) (obs_version obs)
                       (obs_integrity obs) now)
                    (rg_namespace rg) (rg_status rg) (rg_status_raw rg)
                    (rg_status_unresolved_reason rg) g of
               (g', Inl err) \<Rightarrow> (g', Inl err)
             | (g', Inr _) \<Rightarrow> register_stamp rg obs uuid source_uuid g')"

definition attach_node ::
  "string \<Rightarrow> string \<Rightarrow> string \<Rightarrow> string \<Rightarrow> source_observation \<Rightarrow> string \<Rightarrow> string \<Rightarrow> source_node" where
  "attach_node owner repository path medium obs source_uuid now =
     (let blank = (spec_node owner medium repository path None None now)
            \<lparr>sn_last_seen_at := None, sn_schema_version := None\<rparr>
      in (stamp_props obs (locator_key (Some repository) medium (Some path)) source_uuid blank)
           \<lparr>sn_first_seen_at := or_else (obs_observed_at obs) (Some now)\<rparr>)"

definition attach_artifact_source ::
  "string \<Rightarrow> string \<Rightarrow> string \<Rightarrow> string \<Rightarrow> string \<Rightarrow> source_observation \<Rightarrow> string \<Rightarrow> string
    \<Rightarrow> source_graph \<Rightarrow> written" where
  "attach_artifact_source artifact_uuid expected_type repository path medium obs source_uuid now g =
     (if medium \<notin> set ARTIFACT_MEDIA then (g, Inl (ValueError ''unknown medium''))
      else case gr_artifacts (sg_graph g) artifact_uuid of
        None \<Rightarrow> (g, Inr (Skipped ''artifact_not_found''))
      | Some a \<Rightarrow>
          let key = locator_key (Some repository) medium (Some path);
              existing = filter (\<lambda>s. sn_owner s = artifact_uuid) (sg_sources g);
              blockers = filter (blocks key medium (Some path)) (sg_sources g);
              type_matches = (wa_type a = expected_type);
              ss = (if existing = [] \<and> blockers = [] \<and> type_matches
                    then sg_sources g @ [attach_node artifact_uuid repository path medium obs source_uuid now]
                    else sg_sources g)
          in case write_sources ss g of
               Inl _ \<Rightarrow> (g, Inr (Skipped ''destination_already_claimed''))
             | Inr g' \<Rightarrow> (g', Inr
                 (if \<not> type_matches then Skipped ''artifact_type_changed''
                  else if existing \<noteq> [] then Skipped ''artifact_already_has_source''
                  else if filter is_unscoped blockers \<noteq> [] then Skipped ''unscoped_source_claims_destination''
                  else if blockers \<noteq> [] then Skipped ''destination_already_claimed''
                  else if length (filter (\<lambda>s. sn_owner s = artifact_uuid
                            \<and> sn_source_uuid s = Some source_uuid) (sg_sources g')) \<noteq> 1
                  then Skipped ''source_attach_not_confirmed''
                  else Applied artifact_uuid (Some source_uuid))))"

text \<open>The older \<^verbatim>\<open>relocate_source\<close>, which moves every embodiment of one medium.\<close>

definition relocate_source ::
  "string \<Rightarrow> string \<Rightarrow> locator \<Rightarrow> string option \<Rightarrow> string \<Rightarrow> source_graph \<Rightarrow> source_graph \<times> bool result" where
  "relocate_source artifact_uuid medium loc version now g =
     (let hit = (\<lambda>s. owned g s \<and> sn_owner s = artifact_uuid \<and> sn_medium s = Some medium)
      in case write_sources (update_where hit (\<lambda>s. s
             \<lparr>sn_repository := coalesce_opt (loc_repository loc) (sn_repository s),
              sn_path := coalesce_opt (loc_path loc) (sn_path s),
              sn_last_seen_at := Some now, sn_version := coalesce_opt version (sn_version s)\<rparr>) (sg_sources g)) g of
           Inl err \<Rightarrow> (g, Inl err)
         | Inr g' \<Rightarrow> (g', Inr (filter hit (sg_sources g) \<noteq> [])))"

section \<open>Cursors\<close>

definition get_artifact_reconciliation_cursor :: "string \<Rightarrow> source_graph \<Rightarrow> string option" where
  "get_artifact_reconciliation_cursor repository g = sg_cursors g repository"

definition advance_artifact_reconciliation_cursor ::
  "string \<Rightarrow> string option \<Rightarrow> string \<Rightarrow> source_graph \<Rightarrow> source_graph \<times> bool \<times> string option" where
  "advance_artifact_reconciliation_cursor repository expected observed g =
     (let moved = g\<lparr>sg_cursors := (sg_cursors g)(repository \<mapsto> observed)\<rparr>
      in case expected of
           None \<Rightarrow>
             (case sg_cursors g repository of
                None \<Rightarrow> (moved, True, Some observed)
              | Some current \<Rightarrow> (g, False, Some current))
         | Some e \<Rightarrow>
             if sg_cursors g repository = Some e then (moved, True, Some observed)
             else (g, False, None))"

section \<open>Reads for the audit\<close>

definition safe_namespace_filter :: "string option \<Rightarrow> string option" where
  "safe_namespace_filter namespace =
     (let value = strip (or_empty namespace) in if value = [] then None else Some value)"

definition in_namespace :: "string option \<Rightarrow> artifact \<Rightarrow> bool" where
  "in_namespace namespace a \<longleftrightarrow>
     (case safe_namespace_filter namespace of None \<Rightarrow> True | Some n \<Rightarrow> wa_namespace a = Some n)"

definition snapshot_of_node :: "source_graph \<Rightarrow> source_node \<Rightarrow> source_snapshot" where
  "snapshot_of_node g s =
     (let a = gr_artifacts (sg_graph g) (sn_owner s) in
      \<lparr>snap_artifact_uuid = sn_owner s,
       snap_medium = or_empty (or_else (sn_medium s) (Some ''markdown'')),
       snap_source_uuid = sn_source_uuid s, snap_artifact_type = map_option wa_type a,
       snap_repository = sn_repository s, snap_path = sn_path s, snap_integrity = sn_integrity s,
       snap_version = sn_version s, snap_version_kind = sn_version_kind s, snap_lane = sn_lane s,
       snap_resolution_status = or_empty (or_else (sn_resolution_status s) (Some RESOLVED)),
       snap_title = map_option wa_title a, snap_status = map_option wa_status a,
       snap_schema_version = sn_schema_version s\<rparr>)"

definition source_rows :: "(source_node \<Rightarrow> bool) \<Rightarrow> string option \<Rightarrow> source_graph \<Rightarrow> source_node list" where
  "source_rows p namespace g =
     sort_key (\<lambda>s. (sn_path s = None, or_empty (sn_path s), sn_owner s))
       (filter (\<lambda>s. p s \<and> sn_owner s \<noteq> []
          \<and> (case gr_artifacts (sg_graph g) (sn_owner s) of
               None \<Rightarrow> False | Some a \<Rightarrow> in_namespace namespace a)) (sg_sources g))"

definition list_artifact_source_snapshots ::
  "string option \<Rightarrow> string option \<Rightarrow> source_graph \<Rightarrow> source_snapshot list" where
  "list_artifact_source_snapshots repository namespace g =
     map (snapshot_of_node g)
       (source_rows (\<lambda>s. repository = None \<or> not_null_eq (sn_repository s) repository) namespace g)"

definition list_unscoped_artifact_source_snapshots ::
  "string list \<Rightarrow> string list \<Rightarrow> string option \<Rightarrow> source_graph \<Rightarrow> source_snapshot list" where
  "list_unscoped_artifact_source_snapshots paths artifact_uuids namespace g =
     (if paths = [] \<and> artifact_uuids = [] then []
      else map (snapshot_of_node g)
        (source_rows (\<lambda>s. is_unscoped s
           \<and> (sn_path s \<in> Some ` set paths \<or> sn_owner s \<in> set artifact_uuids)) namespace g))"

definition list_work_artifact_identities ::
  "string list \<Rightarrow> string option \<Rightarrow> source_graph \<Rightarrow> identity_snapshot list" where
  "list_work_artifact_identities artifact_uuids namespace g =
     concat (map (\<lambda>u. case gr_artifacts (sg_graph g) u of
         None \<Rightarrow> []
       | Some a \<Rightarrow>
           if in_namespace namespace a \<and> u \<noteq> []
           then [\<lparr>idn_artifact_uuid = u, idn_artifact_type = Some (wa_type a),
                  idn_title = Some (wa_title a), idn_status = Some (wa_status a),
                  idn_source_count = int (length (filter (\<lambda>s. sn_owner s = u) (sg_sources g)))\<rparr>]
           else []) (sort (remdups artifact_uuids)))"

end
