(* ===== verification/Source_Registry.thy ===== *)
theory Source_Registry
  imports Artifact_Sources
begin

text \<open>
  What the source operations of \<^verbatim>\<open>work_artifact_repository.py\<close> promise. Each of them is at most
  one \<open>source_step\<close>: it revises a source in place, moves it to a free locator, or adds an
  artifact or a source at a free locator. The invariant \<open>store_ok\<close>, the frame (nothing is
  deleted or re-owned) and the refinement of an abstract registry of locators are proved once
  for steps.
\<close>

section \<open>The invariant\<close>

definition uuids :: "source_node list \<Rightarrow> string list" where
  "uuids ss = List.map_filter sn_source_uuid ss"

text \<open>
  The uniqueness constraints are active; no two sources share a UUID or claim one locator; no
  UUID is the empty string; every source has an owner in the graph.
\<close>

definition store_ok :: "source_graph \<Rightarrow> bool" where
  "store_ok g \<longleftrightarrow> sg_constraints g \<and> distinct (uuids (sg_sources g)) \<and> [] \<notin> set (uuids (sg_sources g))
     \<and> distinct (map effective_key (sg_sources g)) \<and> list_all (owned g) (sg_sources g)"

lemma store_okD:
  assumes "store_ok g"
  shows "sg_constraints g" "distinct (uuids (sg_sources g))" "[] \<notin> set (uuids (sg_sources g))"
    "distinct (map effective_key (sg_sources g))" "\<And>s. s \<in> set (sg_sources g) \<Longrightarrow> owned g s"
  using assms by (simp_all add: store_ok_def list_all_iff)

lemma uuids_simps [simp]:
  "uuids [] = []" "uuids (s # ss) = (case sn_source_uuid s of None \<Rightarrow> [] | Some u \<Rightarrow> [u]) @ uuids ss"
  "uuids (xs @ ys) = uuids xs @ uuids ys"
  by (auto simp: uuids_def List.map_filter_def split: option.splits)

lemma in_uuids: "u \<in> set (uuids ss) \<longleftrightarrow> (\<exists>s \<in> set ss. sn_source_uuid s = Some u)"
  by (induction ss) (auto split: option.splits)

lemma key_is_effective: "sn_current_locator_key s = Some k \<Longrightarrow> effective_key s = k"
  by (simp add: effective_key_def)

lemma distinct_locator_keys:
  "distinct (map effective_key ss) \<Longrightarrow> distinct (List.map_filter sn_current_locator_key ss)"
proof (induction ss)
  case (Cons s ss)
  have "k \<notin> set (List.map_filter sn_current_locator_key ss)" if "sn_current_locator_key s = Some k" for k
  proof
    assume "k \<in> set (List.map_filter sn_current_locator_key ss)"
    then obtain z where "z \<in> set ss" "sn_current_locator_key z = Some k"
      by (auto simp: List.map_filter_def)
    then show False using Cons.prems key_is_effective [OF that] key_is_effective [of z k]
      by (auto simp: image_iff)
  qed
  then show ?case using Cons by (auto simp: List.map_filter_def split: option.splits)
qed (simp add: List.map_filter_def)

text \<open>A statement whose result is tidy is never rolled back.\<close>

lemma statement_commits:
  "distinct (uuids ss) \<Longrightarrow> distinct (map effective_key ss) \<Longrightarrow>
   statement g ss out = (g\<lparr>sg_sources := ss\<rparr>, Inr out)"
  "distinct (uuids ss) \<Longrightarrow> distinct (map effective_key ss) \<Longrightarrow>
   write_sources ss g = Inr (g\<lparr>sg_sources := ss\<rparr>)"
  by (simp_all add: statement_def write_sources_def sources_constrained_def distinct_locator_keys
      flip: uuids_def)

section \<open>One row at a time\<close>

lemma update_where_id: "(\<And>s. s \<in> set ss \<Longrightarrow> \<not> p s) \<Longrightarrow> update_where p f ss = ss"
  by (simp add: update_where_def map_idI)

lemma update_where_one:
  assumes "distinct (uuids ss)" "\<forall>s. p s \<longrightarrow> sn_source_uuid s = Some u"
  obtains (none) "update_where p f ss = ss" "\<And>s. s \<in> set ss \<Longrightarrow> \<not> p s"
  | (one) xs s ys where "ss = xs @ s # ys" "p s" "update_where p f ss = xs @ f s # ys"
proof (cases "\<exists>s \<in> set ss. p s")
  case True
  then obtain xs s ys where s: "ss = xs @ s # ys" "p s" by (metis split_list)
  then have u: "sn_source_uuid s = Some u" using assms(2) by blast
  have "\<not> p z" if "z \<in> set xs \<union> set ys" for z
  proof
    assume "p z"
    then have "u \<in> set (uuids xs) \<union> set (uuids ys)" using that assms(2) by (force simp: in_uuids)
    then show False using assms(1) s u by auto
  qed
  then have "update_where p f xs = xs" "update_where p f ys = ys"
    by (simp_all add: update_where_id)
  then show ?thesis using one [OF s] s by (simp add: update_where_def)
qed (auto intro: none update_where_id)

lemma filter_first: "filter p xs = y # ys \<Longrightarrow> y \<in> set xs \<and> p y"
  by (drule Cons_eq_filterD [OF sym]) auto

section \<open>Steps\<close>

text \<open>The graph of artifacts only grows: what is there stays as it is.\<close>

definition graph_grows :: "graph \<Rightarrow> graph \<Rightarrow> bool" where
  "graph_grows g h \<longleftrightarrow> gr_artifacts g \<subseteq>\<^sub>m gr_artifacts h \<and> gr_questions h = gr_questions g \<and> gr_edges h = gr_edges g"

lemma graph_grows_refl [simp]: "graph_grows g g"
  by (simp add: graph_grows_def)

lemma graph_grows_trans: "graph_grows g h \<Longrightarrow> graph_grows h k \<Longrightarrow> graph_grows g k"
  by (auto simp: graph_grows_def intro: map_le_trans)

inductive source_step :: "source_graph \<Rightarrow> source_graph \<Rightarrow> bool" where
  revise: "sg_sources g = xs @ s # ys \<Longrightarrow> sn_owner t = sn_owner s \<Longrightarrow> sn_source_uuid t = sn_source_uuid s \<Longrightarrow>
    sn_medium t = sn_medium s \<Longrightarrow> effective_key t = effective_key s \<Longrightarrow>
    source_step g (g\<lparr>sg_sources := xs @ t # ys\<rparr>)"
| move: "sg_sources g = xs @ s # ys \<Longrightarrow> sn_owner t = sn_owner s \<Longrightarrow> sn_source_uuid t = sn_source_uuid s \<Longrightarrow>
    sn_medium t = sn_medium s \<Longrightarrow> effective_key t \<notin> effective_key ` set (xs @ ys) \<Longrightarrow>
    source_step g (g\<lparr>sg_sources := xs @ t # ys\<rparr>)"
| grow: "graph_grows (sg_graph g) h \<Longrightarrow> source_step g (g\<lparr>sg_graph := h\<rparr>)"
| embody: "graph_grows (sg_graph g) h \<Longrightarrow> gr_artifacts h (sn_owner t) \<noteq> None \<Longrightarrow>
    sn_source_uuid t = Some u \<Longrightarrow> u \<noteq> [] \<Longrightarrow> u \<notin> set (uuids (sg_sources g)) \<Longrightarrow>
    effective_key t \<notin> effective_key ` set (sg_sources g) \<Longrightarrow>
    source_step g (g\<lparr>sg_graph := h, sg_sources := sg_sources g @ [t]\<rparr>)"

lemma owned_grows:
  "graph_grows (sg_graph g) h \<Longrightarrow> owned g s \<Longrightarrow> gr_artifacts h (sn_owner s) \<noteq> None"
  by (auto simp: owned_def graph_grows_def map_le_def dom_def)

lemma step_store_ok: "source_step g h \<Longrightarrow> store_ok g \<Longrightarrow> store_ok h"
proof (induction rule: source_step.induct)
  case (grow g h)
  then show ?case using owned_grows by (auto simp: store_ok_def list_all_iff owned_def)
next
  case (embody g h t u)
  then show ?case using owned_grows by (auto simp: store_ok_def list_all_iff owned_def)
qed (auto simp: store_ok_def list_all_iff owned_def)

text \<open>Sources are never deleted, re-owned, re-identified or given another medium.\<close>

definition same_source :: "source_node \<Rightarrow> source_node \<Rightarrow> bool" where
  "same_source s t \<longleftrightarrow> sn_owner t = sn_owner s \<and> sn_source_uuid t = sn_source_uuid s \<and> sn_medium t = sn_medium s"

definition keeps :: "source_graph \<Rightarrow> source_graph \<Rightarrow> bool" where
  "keeps g h \<longleftrightarrow> graph_grows (sg_graph g) (sg_graph h)
     \<and> (\<exists>us vs. sg_sources h = us @ vs \<and> list_all2 same_source (sg_sources g) us)"

lemma same_source_refl [simp]: "list_all2 same_source ss ss"
  by (simp add: list_all2_refl same_source_def)

lemma keepsI:
  "graph_grows (sg_graph g) (sg_graph h) \<Longrightarrow> sg_sources h = us @ vs
    \<Longrightarrow> list_all2 same_source (sg_sources g) us \<Longrightarrow> keeps g h"
  by (auto simp: keeps_def)

lemma keeps_refl [simp]: "keeps g g"
  by (rule keepsI [of g g "sg_sources g" "[]"]) simp_all

lemma keeps_trans: "keeps g h \<Longrightarrow> keeps h k \<Longrightarrow> keeps g k"
proof -
  assume gh: "keeps g h" and hk: "keeps h k"
  from gh obtain us vs where us: "sg_sources h = us @ vs" "list_all2 same_source (sg_sources g) us"
    by (auto simp: keeps_def)
  from hk obtain ws zs where ws: "sg_sources k = ws @ zs" "list_all2 same_source (us @ vs) ws"
    unfolding keeps_def us(1) by blast
  from ws(2) obtain as bs where as: "ws = as @ bs" "list_all2 same_source us as"
    by (auto simp: list_all2_append1)
  have "list_all2 same_source (sg_sources g) as"
    by (rule list_all2_trans [OF _ us(2) as(2)]) (simp add: same_source_def)
  then show ?thesis
    using gh hk ws(1) as(1) by (auto simp: keeps_def intro: graph_grows_trans)
qed

lemma replace_same_source:
  "same_source s t \<Longrightarrow> list_all2 same_source (xs @ s # ys) (xs @ t # ys)"
  by (simp add: list_all2_appendI)

lemma step_keeps: "source_step g h \<Longrightarrow> keeps g h"
proof (induction rule: source_step.induct)
  case (revise g xs s ys t)
  then show ?case
    by (intro keepsI [where us = "xs @ t # ys" and vs = "[]"])
      (simp_all add: replace_same_source same_source_def)
next
  case (move g xs s ys t)
  then show ?case
    by (intro keepsI [where us = "xs @ t # ys" and vs = "[]"])
      (simp_all add: replace_same_source same_source_def)
next
  case (grow g h)
  then show ?case by (intro keepsI [where us = "sg_sources g" and vs = "[]"]) simp_all
next
  case (embody g h t u)
  then show ?case by (intro keepsI [where us = "sg_sources g" and vs = "[t]"]) simp_all
qed

section \<open>The abstract registry\<close>

text \<open>
  The contract of the source store: a partial map from locators to the artifacts that hold
  them. A free locator may be claimed, and a holder may move to a free locator.
\<close>

type_synonym registry = "string \<rightharpoonup> string"

inductive registry_step :: "registry \<Rightarrow> registry \<Rightarrow> bool" where
  registry_claim: "m k = None \<Longrightarrow> registry_step m (m(k \<mapsto> a))"
| registry_move: "m old = Some a \<Longrightarrow> m new = None \<Longrightarrow> registry_step m (m(old := None, new \<mapsto> a))"

definition holder :: "source_graph \<Rightarrow> registry" where
  "holder g = map_of (map (\<lambda>s. (effective_key s, sn_owner s)) (sg_sources g))"

lemma holder_Some:
  assumes "store_ok g"
  shows "holder g k = Some a \<longleftrightarrow> (\<exists>s \<in> set (sg_sources g). effective_key s = k \<and> sn_owner s = a)"
  using store_okD(4) [OF assms] by (auto simp: holder_def map_of_eq_Some_iff o_def image_iff)

lemma holder_None: "holder g k = None \<longleftrightarrow> k \<notin> effective_key ` set (sg_sources g)"
  by (auto simp: holder_def map_of_eq_None_iff image_iff)

lemma map_of_replace:
  "k \<notin> fst ` set xs \<Longrightarrow> k' \<notin> fst ` set xs \<Longrightarrow> k \<notin> fst ` set ys \<Longrightarrow> k' \<notin> fst ` set ys \<Longrightarrow>
   map_of (xs @ (k', v) # ys) = (map_of (xs @ (k, v) # ys))(k := None, k' \<mapsto> v)"
  by (auto simp: fun_eq_iff map_add_def map_of_eq_None_iff [THEN iffD2] split: option.splits)

lemma step_refines: "source_step g h \<Longrightarrow> store_ok g \<Longrightarrow> registry_step\<^sup>=\<^sup>= (holder g) (holder h)"
proof (induction rule: source_step.induct)
  case (revise g xs s ys t)
  then show ?case by (simp add: holder_def)
next
  case (move g xs s ys t)
  let ?k = "effective_key s" and ?k' = "effective_key t"
  have k: "?k \<notin> effective_key ` set (xs @ ys)" using store_okD(4) [OF move.prems] move(1) by auto
  have h: "holder (g\<lparr>sg_sources := xs @ t # ys\<rparr>) = (holder g)(?k := None, ?k' \<mapsto> sn_owner s)"
    using map_of_replace [of ?k "map (\<lambda>s. (effective_key s, sn_owner s)) xs" ?k'
        "map (\<lambda>s. (effective_key s, sn_owner s)) ys" "sn_owner s"] k move(1,2,5)
    by (simp add: holder_def image_image image_Un)
  have s: "holder g ?k = Some (sn_owner s)"
    using holder_Some [OF move.prems] move(1) by auto
  show ?case
  proof (cases "?k' = ?k")
    case True
    then show ?thesis using h s by (auto simp: fun_eq_iff)
  next
    case False
    then have "holder g ?k' = None" using move(1,5) by (auto simp: holder_None)
    then show ?thesis using registry_move [of "holder g" ?k "sn_owner s" ?k'] s unfolding h by blast
  qed
next
  case (grow g h)
  then show ?case by (simp add: holder_def)
next
  case (embody g h t u)
  then have "holder g (effective_key t) = None" by (simp add: holder_None)
  moreover from this have "holder (g\<lparr>sg_graph := h, sg_sources := sg_sources g @ [t]\<rparr>)
      = (holder g)(effective_key t \<mapsto> sn_owner t)"
    by (auto simp: holder_def fun_eq_iff map_add_def split: option.splits)
  ultimately show ?case using registry_claim [of "holder g" "effective_key t"] by (metis sup2CI)
qed

text \<open>An artifact that holds a locator holds one ever after.\<close>

lemma registry_step_ran: "registry_step m m' \<Longrightarrow> ran m \<subseteq> ran m'"
proof (induction rule: registry_step.induct)
  case (registry_claim m k a)
  then show ?case unfolding ran_map_upd [of m k a, OF registry_claim] by blast
next
  case (registry_move m old a new)
  show ?case
  proof
    fix b
    assume "b \<in> ran m"
    then obtain k where k: "m k = Some b" by (auto simp: ran_def)
    show "b \<in> ran (m(old := None, new \<mapsto> a))"
    proof (cases "k = old")
      case True
      then show ?thesis using k registry_move by (auto simp: ran_def)
    next
      case False
      then have "(m(old := None, new \<mapsto> a)) k = Some b" using k registry_move by auto
      then show ?thesis by (rule ranI)
    qed
  qed
qed

lemma registry_steps_ran: "registry_step\<^sup>*\<^sup>* m m' \<Longrightarrow> ran m \<subseteq> ran m'"
  by (induction rule: rtranclp_induct) (auto dest: registry_step_ran)

section \<open>Operations are steps\<close>

text \<open>An operation that makes at most one step and does not raise.\<close>

definition returns_step :: "source_graph \<Rightarrow> written \<Rightarrow> bool" where
  "returns_step g w \<longleftrightarrow> source_step\<^sup>=\<^sup>= g (fst w) \<and> (\<exists>out. snd w = Inr out)"

lemma props_frame [simp, frame_simps]:
  "sn_owner (source_write_props obs s) = sn_owner s" "sn_source_uuid (source_write_props obs s) = sn_source_uuid s"
  "sn_medium (source_write_props obs s) = sn_medium s" "effective_key (source_write_props obs s) = effective_key s"
  "sn_owner (unresolved_props r c n s) = sn_owner s" "sn_source_uuid (unresolved_props r c n s) = sn_source_uuid s"
  "sn_medium (unresolved_props r c n s) = sn_medium s" "effective_key (unresolved_props r c n s) = effective_key s"
  "sn_owner (locator_props obs repo path k s) = sn_owner s" "sn_source_uuid (locator_props obs repo path k s) = sn_source_uuid s"
  "sn_medium (locator_props obs repo path k s) = sn_medium s" "effective_key (locator_props obs repo path k s) = k"
  "sn_owner (stamp_props obs k u s) = sn_owner s" "sn_source_uuid (stamp_props obs k u s) = Some u"
  "effective_key (stamp_props obs k u s) = k"
  by (simp_all add: source_write_props_def unresolved_props_def locator_props_def stamp_props_def effective_key_def
      split: option.splits)

lemma sources_self [simp]: "g\<lparr>sg_sources := sg_sources g\<rparr> = g"
  by (cases g) simp

lemma statement_same: "store_ok g \<Longrightarrow> statement g (sg_sources g) out = (g, Inr out)"
  using statement_commits(1) [of "sg_sources g" g out] store_okD(2,4) [of g] by simp

text \<open>The row a statement changes keeps its locator, or takes one nobody else has.\<close>

lemma statement_row:
  assumes ok: "store_ok g" and p: "\<And>s. p s \<Longrightarrow> sn_source_uuid s = Some u"
    and same: "\<And>s. same_source s (f s)"
    and key: "\<And>s. p s \<Longrightarrow> effective_key (f s) = effective_key s \<or>
      (\<forall>z \<in> set (sg_sources g). effective_key z = effective_key (f s) \<longrightarrow> sn_source_uuid z = Some u)"
  shows "statement g (update_where p f (sg_sources g)) out =
      (g\<lparr>sg_sources := update_where p f (sg_sources g)\<rparr>, Inr out)"
    and "source_step\<^sup>=\<^sup>= g (g\<lparr>sg_sources := update_where p f (sg_sources g)\<rparr>)"
proof -
  have row: "\<forall>s. p s \<longrightarrow> sn_source_uuid s = Some u" using p by blast
  have "statement g (update_where p f (sg_sources g)) out =
      (g\<lparr>sg_sources := update_where p f (sg_sources g)\<rparr>, Inr out)
    \<and> source_step\<^sup>=\<^sup>= g (g\<lparr>sg_sources := update_where p f (sg_sources g)\<rparr>)"
  proof (cases rule: update_where_one [of "sg_sources g" p u f, OF store_okD(2) [OF ok] row, case_names none one])
    case none
    then show ?thesis using statement_same [OF ok] by simp
  next
    case (one xs s ys)
    have u: "sn_source_uuid s = Some u" using p one(2) by blast
    have f: "sn_owner (f s) = sn_owner s" "sn_source_uuid (f s) = sn_source_uuid s" "sn_medium (f s) = sn_medium s"
      using same [of s] by (simp_all add: same_source_def)
    have others: "sn_source_uuid z \<noteq> Some u" if "z \<in> set (xs @ ys)" for z
      using that store_okD(2) [OF ok] u in_uuids [of u xs] in_uuids [of u ys] unfolding one(1) by auto
    have free: "effective_key (f s) \<notin> effective_key ` set (xs @ ys)"
    proof (cases "effective_key (f s) = effective_key s")
      case True
      then show ?thesis using store_okD(4) [OF ok] unfolding one(1) by auto
    next
      case False
      then show ?thesis using key [OF one(2)] others unfolding one(1) by fastforce
    qed
    have "source_step g (g\<lparr>sg_sources := xs @ f s # ys\<rparr>)"
      by (rule source_step.move [OF one(1) f free])
    moreover from step_store_ok [OF this ok]
    have "distinct (uuids (xs @ f s # ys))" "distinct (map effective_key (xs @ f s # ys))"
      using store_okD(2,4) [of "g\<lparr>sg_sources := xs @ f s # ys\<rparr>"] by simp_all
    ultimately show ?thesis unfolding one(3) using statement_commits(1) by auto
  qed
  then show "statement g (update_where p f (sg_sources g)) out =
      (g\<lparr>sg_sources := update_where p f (sg_sources g)\<rparr>, Inr out)"
    "source_step\<^sup>=\<^sup>= g (g\<lparr>sg_sources := update_where p f (sg_sources g)\<rparr>)" by blast+
qed

lemma statement_returns_step:
  assumes "store_ok g" "\<And>s. p s \<Longrightarrow> sn_source_uuid s = Some u" "\<And>s. same_source s (f s)"
    "\<And>s. p s \<Longrightarrow> effective_key (f s) = effective_key s \<or>
      (\<forall>z \<in> set (sg_sources g). effective_key z = effective_key (f s) \<longrightarrow> sn_source_uuid z = Some u)"
  shows "returns_step g (statement g (update_where p f (sg_sources g)) out)"
  using statement_row [of g p u f, OF assms] unfolding returns_step_def by simp

lemma refresh_source_step: "store_ok g \<Longrightarrow> returns_step g (refresh_artifact_source u obs expected g)"
  unfolding refresh_artifact_source_def Let_def
  by (rule statement_returns_step [of _ _ u]) (auto simp: match_uuid_def same_source_def)

lemma mark_source_step: "store_ok g \<Longrightarrow> returns_step g (mark_artifact_source_unresolved u r c n g)"
  unfolding mark_artifact_source_unresolved_def
  by (rule statement_returns_step [of _ _ u]) (auto simp: match_uuid_def same_source_def)

lemma relocate_source_step: "store_ok g \<Longrightarrow> returns_step g (relocate_artifact_source u old new obs expected g)"
proof -
  assume ok: "store_ok g"
  have u: "u \<noteq> []" if "match_uuid g u s" "s \<in> set (sg_sources g)" for s
    using that store_okD(3) [OF ok] by (auto simp: match_uuid_def in_uuids)
  have known: "sn_source_uuid z = Some u" if "or_empty (sn_source_uuid z) = u" "u \<noteq> []" for z
    using that by (cases "sn_source_uuid z") auto
  have "returns_step g (statement g (update_where (\<lambda>s. match_uuid g u s \<and>
      filter (\<lambda>z. blocks k m q z \<and> or_empty (sn_source_uuid z) \<noteq> u) (sg_sources g) = [] \<and> c s \<and> d s)
      (locator_props obs r q k) (sg_sources g)) out)" for k m q c d r out
  proof (cases "u = []")
    case True
    then have "update_where (\<lambda>s. match_uuid g u s \<and>
      filter (\<lambda>z. blocks k m q z \<and> or_empty (sn_source_uuid z) \<noteq> u) (sg_sources g) = [] \<and> c s \<and> d s)
      (locator_props obs r q k) (sg_sources g) = sg_sources g"
      using u by (intro update_where_id) auto
    then show ?thesis using statement_same [OF ok] by (simp add: returns_step_def)
  next
    case False
    then show ?thesis
      by (intro statement_returns_step [OF ok, of _ u])
        (auto simp: match_uuid_def same_source_def filter_empty_conv blocks_def intro: known)
  qed
  note row = this
  show ?thesis unfolding relocate_artifact_source_def Let_def by (rule row)
qed

lemma returns_step_skip [simp]: "returns_step g (g, Inr out)"
  by (simp add: returns_step_def)

lemma by_locator_steps:
  assumes "store_ok g"
  shows "returns_step g (relocate_artifact_source_by_locator r m old new obs g)"
    and "returns_step g (refresh_artifact_source_by_locator r m q obs g)"
  using assms unfolding relocate_artifact_source_by_locator_def refresh_artifact_source_by_locator_def
  by (auto simp: relocate_source_step refresh_source_step split: sum.splits)

section \<open>Adding artifacts and sources\<close>

lemma create_artifact_grows:
  assumes "create_artifact u ty ti ns st raw reason g = Inr h"
  shows "graph_grows g h" "gr_artifacts g u = None" "gr_artifacts h u \<noteq> None"
  using assms by (auto simp: create_artifact_def graph_grows_def map_le_def split: sum.splits if_splits)

lemma filter_blocks_Nil:
  "filter (blocks k m q) ss = [] \<Longrightarrow> k \<notin> effective_key ` set ss"
  by (auto simp: filter_empty_conv blocks_def)

lemma embody_commits:
  assumes "store_ok g" "graph_grows (sg_graph g) h" "gr_artifacts h (sn_owner t) \<noteq> None"
    "sn_source_uuid t = Some u" "u \<noteq> []" "u \<notin> set (uuids (sg_sources g))"
    "effective_key t \<notin> effective_key ` set (sg_sources g)"
  defines "g' \<equiv> g\<lparr>sg_graph := h, sg_sources := sg_sources g @ [t]\<rparr>"
  shows "source_step g g'" "distinct (uuids (sg_sources g'))" "distinct (map effective_key (sg_sources g'))"
proof -
  show "source_step g g'" unfolding g'_def by (rule source_step.embody [OF assms(2-7)])
  from step_store_ok [OF this assms(1)]
  show "distinct (uuids (sg_sources g'))" "distinct (map effective_key (sg_sources g'))"
    using store_okD(2,4) [of g'] by simp_all
qed

text \<open>
  Attachment never raises for a known medium; a rolled back statement is reported as a claimed
  destination.
\<close>

lemma attach_source_step:
  assumes ok: "store_ok g" and fresh: "su \<noteq> []" "su \<notin> set (uuids (sg_sources g))"
    and m: "m \<in> set ARTIFACT_MEDIA"
  shows "returns_step g (attach_artifact_source au ty r q m obs su now g)"
proof (cases "gr_artifacts (sg_graph g) au")
  case None
  then show ?thesis using m by (simp add: attach_artifact_source_def)
next
  case (Some a)
  let ?t = "attach_node au r q m obs su now" and ?k = "locator_key (Some r) m (Some q)"
  have t: "sn_owner ?t = au" "sn_source_uuid ?t = Some su" "effective_key ?t = ?k"
    by (simp_all add: attach_node_def Let_def spec_node_def stamp_props_def effective_key_def source_write_props_def)
  show ?thesis
  proof (cases "filter (\<lambda>s. sn_owner s = au) (sg_sources g) = [] \<and> filter (blocks ?k m (Some q)) (sg_sources g) = []
      \<and> wa_type a = ty")
    case True
    then have "?k \<notin> effective_key ` set (sg_sources g)" using filter_blocks_Nil by blast
    note e = embody_commits [of g "sg_graph g" ?t su, OF ok graph_grows_refl _ t(2) fresh, unfolded t, OF _ this]
    have "write_sources (sg_sources g @ [?t]) g = Inr (g\<lparr>sg_sources := sg_sources g @ [?t]\<rparr>)"
      using e(2,3) Some by (intro statement_commits) simp_all
    then show ?thesis
      using True Some m e(1) by (auto simp: attach_artifact_source_def Let_def returns_step_def)
  next
    case False
    then show ?thesis
      using m Some statement_commits(2) [of "sg_sources g" g] store_okD(2,4) [OF ok]
      by (auto simp: attach_artifact_source_def Let_def returns_step_def)
  qed
qed

definition chosen_uuid :: "registration \<Rightarrow> string \<Rightarrow> string" where
  "chosen_uuid rg new_uuid = (if truthy (rg_artifact_uuid rg) then or_empty (rg_artifact_uuid rg) else new_uuid)"

text \<open>
  Registration is refused without a trace, or raises having written at most the artifact, or
  adds the artifact with its stamped source.
\<close>

lemma register_cases:
  fixes rg obs nu su now g
  assumes ok: "store_ok g" and fresh: "su \<noteq> []" "su \<notin> set (uuids (sg_sources g))"
  defines "w \<equiv> register_work_artifact rg obs nu su now g" and "u \<equiv> chosen_uuid rg nu"
  obtains (refused) reason where "w = (g, Inr (Skipped reason))" "register_refusal rg g = Some reason"
  | (rejected) err where "w = (g, Inl err)"
      "create_artifact u (rg_artifact_type rg) (rg_title rg) (rg_namespace rg) (rg_status rg)
         (rg_status_raw rg) (rg_status_unresolved_reason rg) (sg_graph g) = Inl err"
  | (orphaned) h where "w = (g\<lparr>sg_graph := h\<rparr>, Inl (ValueError ''unknown medium''))"
      "graph_grows (sg_graph g) h" "rg_medium rg \<notin> set ARTIFACT_MEDIA"
  | (registered) h t where "w = (g\<lparr>sg_graph := h, sg_sources := sg_sources g @ [t]\<rparr>, Inr (Applied u (Some su)))"
      "create_artifact u (rg_artifact_type rg) (rg_title rg) (rg_namespace rg) (rg_status rg)
         (rg_status_raw rg) (rg_status_unresolved_reason rg) (sg_graph g) = Inr h"
      "t = stamp_props obs (locator_key (Some (rg_repository rg)) (rg_medium rg) (Some (rg_path rg))) su
         (spec_node u (rg_medium rg) (rg_repository rg) (rg_path rg) (obs_version obs) (obs_integrity obs) now)"
      "source_step g (fst w)"
proof (cases "register_refusal rg g")
  case (Some reason)
  then show ?thesis using refused by (simp add: w_def register_work_artifact_def)
next
  case None
  let ?create = "create_artifact u (rg_artifact_type rg) (rg_title rg) (rg_namespace rg) (rg_status rg)
    (rg_status_raw rg) (rg_status_unresolved_reason rg) (sg_graph g)"
  let ?n = "spec_node u (rg_medium rg) (rg_repository rg) (rg_path rg) (obs_version obs) (obs_integrity obs) now"
  let ?k = "locator_key (Some (rg_repository rg)) (rg_medium rg) (Some (rg_path rg))"
  let ?t = "stamp_props obs ?k su ?n"
  note w = w_def [unfolded register_work_artifact_def None option.case Let_def chosen_uuid_def [symmetric]
      u_def [symmetric] create_with_source_def]
  have n: "sn_owner ?n = u" "sn_medium ?n = Some (rg_medium rg)" "sn_path ?n = Some (rg_path rg)"
    by (simp_all add: spec_node_def)
  show ?thesis
  proof (cases ?create)
    case (Inl err)
    then show ?thesis using rejected by (simp add: w)
  next
    case (Inr h)
    note h = create_artifact_grows [OF Inr]
    let ?g = "g\<lparr>sg_graph := h\<rparr>"
    show ?thesis
    proof (cases "rg_medium rg \<in> set ARTIFACT_MEDIA")
      case False
      then show ?thesis
        using orphaned h(1) by (simp add: w Inr write_source_def require_known_medium_def n)
    next
      case True
      let ?g1 = "?g\<lparr>sg_sources := sg_sources g @ [?n]\<rparr>"
      have "List.map_filter f (sg_sources g @ [?n]) = List.map_filter f (sg_sources g)"
        if "f ?n = None" for f :: "source_node \<Rightarrow> string option"
        using that by (simp add: List.map_filter_def)
      then have "sources_constrained (sg_sources g @ [?n])"
        using store_okD(2) [OF ok] distinct_locator_keys [OF store_okD(4) [OF ok]]
        by (simp add: sources_constrained_def uuids_def spec_node_def)
      then have wrote: "write_source ?n ?g = (?g1, Inr ())"
        using True h(3) by (simp add: write_source_def require_known_medium_def n owned_def write_sources_def)
      have old: "sn_owner z \<noteq> u" if "z \<in> set (sg_sources g)" for z
        using store_okD(5) [OF ok that] h(2) by (auto simp: owned_def)
      have stamped: "update_where (\<lambda>z. owned ?g1 z \<and> sn_owner z = u \<and> not_null_eq (sn_path z) (Some (rg_path rg)))
          (stamp_props obs ?k su) (sg_sources ?g1) = sg_sources g @ [?t]"
        using old h(3) by (simp add: update_where_def n owned_def not_null_eq_def map_idI)
      have "?k \<notin> effective_key ` set (sg_sources g)"
        using None filter_blocks_Nil by (auto simp: register_refusal_def Let_def split: if_splits)
      then have free: "effective_key ?t \<notin> effective_key ` set (sg_sources g)" by simp
      have "gr_artifacts h (sn_owner ?t) \<noteq> None" using h(3) n(1) by simp
      note e = embody_commits [OF ok h(1) this props_frame(14) fresh free]
      have "register_stamp rg obs u su ?g1 = (?g1\<lparr>sg_sources := sg_sources g @ [?t]\<rparr>, Inr (Applied u (Some su)))"
        unfolding register_stamp_def stamped by (rule statement_commits(1)) (use e(2,3) in simp_all)
      then have "w = (g\<lparr>sg_graph := h, sg_sources := sg_sources g @ [?t]\<rparr>, Inr (Applied u (Some su)))"
        by (simp add: w Inr wrote)
      then show ?thesis using registered [OF _ Inr refl] e(1) by simp
    qed
  qed
qed

lemma register_source_step:
  assumes "store_ok g" "su \<noteq> []" "su \<notin> set (uuids (sg_sources g))"
  shows "source_step\<^sup>=\<^sup>= g (fst (register_work_artifact rg obs nu su now g))"
  using assms
proof (cases rule: register_cases [of g su rg obs nu now])
  case (orphaned h)
  then show ?thesis using source_step.grow by simp
qed auto

end
