(* ===== verification/Reconciliation_Steps.thy ===== *)
theory Reconciliation_Steps
  imports Reconciliation_Planner
begin

text \<open>
  What the planner is allowed to do, as a step relation on its claims, and the proof that
  every pass only takes such steps. An entry is settled once, by a match that consumes an
  unclaimed source on admissible evidence, by an adoption, an attachment or a registration, or
  by a conflict; a conflict may hold sources back, and then its action names them. The
  invariants of the plan are proved once, by rule induction over the steps.
\<close>

section \<open>What a step may do\<close>

definition action_key :: "reconciliation_action \<Rightarrow> key" where
  "action_key a = (act_repository a, act_medium a, or_empty (act_path a))"

text \<open>A conflict names a source by its identity, its owner, or its path.\<close>

definition names_source :: "reconciliation_action \<Rightarrow> source_snapshot \<Rightarrow> bool" where
  "names_source a s \<longleftrightarrow>
     act_source_identity a = Some (identity s) \<or> act_artifact_uuid a = Some (snap_artifact_uuid s)
     \<or> act_old_path a = Some (or_empty (snap_path s)) \<or> identity s \<in> set (act_detail a)
     \<or> snap_artifact_uuid s \<in> set (act_detail a) \<or> or_empty (snap_path s) \<in> set (act_detail a)"

definition gone_from_disk :: "plan_index \<Rightarrow> source_snapshot \<Rightarrow> bool" where
  "gone_from_disk ix s \<longleftrightarrow>
     (case snap_repository s of None \<Rightarrow> True
      | Some r \<Rightarrow> (r, or_empty (snap_path s)) \<notin> set (ix_paths_on_disk ix))"

text \<open>
  The evidence that ties an entry to a source. A content match also requires that every other
  candidate on either side has been settled by something else.
\<close>

fun evidence ::
  "plan_index \<Rightarrow> git_rename list \<Rightarrow> plan_state \<Rightarrow> match_basis \<Rightarrow> corpus_entry \<Rightarrow> source_snapshot \<Rightarrow> bool" where
  "evidence ix rn st DECLARED_UUID e s \<longleftrightarrow>
     ent_declared_uuid e = Some (snap_artifact_uuid s) \<and> snap_medium s = ent_medium e
     \<and> ent_metadata_errors e = []"
| "evidence ix rn st EXACT_LOCATOR e s \<longleftrightarrow> snapshot_key s = entry_key e"
| "evidence ix rn st GIT_RENAME e s \<longleftrightarrow>
     (\<exists>r. filter (\<lambda>r'. ren_new_path r' = ent_path e) rn = [r]
        \<and> filter (\<lambda>r'. ren_old_path r' = ren_old_path r) rn = [r]
        \<and> snapshot_key s = (ent_repository e, ent_medium e, ren_old_path r))"
| "evidence ix rn st UNIQUE_CONTENT_SHA256 e s \<longleftrightarrow>
     snap_integrity s = Some (ent_integrity e) \<and> gone_from_disk ix s
     \<and> \<not> truthy (ent_declared_uuid e)
     \<and> (\<forall>s' \<in> set (ix_snapshots ix). snap_integrity s' = snap_integrity s
          \<and> truthy (snap_integrity s') \<and> gone_from_disk ix s' \<and> identity s' \<notin> ps_claimed_sources st
          \<longrightarrow> s' = s)
     \<and> (\<forall>e' \<in> set (ix_entries ix). ent_integrity e' = ent_integrity e
          \<and> \<not> truthy (ent_declared_uuid e') \<and> entry_key e' \<notin> ps_claimed_entries st \<longrightarrow> e' = e)"
| "evidence ix rn st BASIS_NONE e s \<longleftrightarrow> False"

definition open_entry :: "plan_index \<Rightarrow> plan_state \<Rightarrow> corpus_entry \<Rightarrow> bool" where
  "open_entry ix st e \<longleftrightarrow> e \<in> set (ix_entries ix) \<and> entry_key e \<notin> ps_claimed_entries st"

text \<open>
  The lifecycle status a registration starts in: the declared one, else the one of the status
  header, else the initial status of the type.
\<close>

definition planned_status :: "corpus_entry \<Rightarrow> string \<Rightarrow> string \<Rightarrow> bool" where
  "planned_status e ty status \<longleftrightarrow>
     (let declared = (if ent_declared_status e \<noteq> None then ent_declared_status e
                      else fst (status_from_header (ent_raw_status_header e) ty))
      in if truthy declared then declared = Some status else map_of INITIAL_STATUS ty = Some status)"

inductive plan_step :: "plan_index \<Rightarrow> git_rename list \<Rightarrow> plan_state \<Rightarrow> plan_state \<Rightarrow> bool"
  for ix rn where
  conflict_step:
    "open_entry ix st e \<Longrightarrow> act_kind a = CONFLICT \<Longrightarrow> action_key a = entry_key e
      \<Longrightarrow> (\<And>x. x \<in> set held \<Longrightarrow> names_source a x) \<Longrightarrow> set held \<subseteq> set (ix_snapshots ix @ ix_unscoped ix)
      \<Longrightarrow> t = (claim a (Some e) None st)
             \<lparr>ps_claimed_sources := ps_claimed_sources st \<union> identity ` set held\<rparr>
      \<Longrightarrow> plan_step ix rn st t"
| match_step:
    "open_entry ix st e \<Longrightarrow> s \<in> set (ix_snapshots ix) \<Longrightarrow> identity s \<notin> ps_claimed_sources st
      \<Longrightarrow> evidence ix rn st b e s
      \<Longrightarrow> plan_step ix rn st (claim (relocate_or_refresh e s b) (Some e) (Some s) st)"
| adopt_step:
    "open_entry ix st e \<Longrightarrow> s \<in> set (ix_unscoped ix) \<Longrightarrow> identity s \<notin> ps_claimed_sources st
      \<Longrightarrow> evidence ix rn st DECLARED_UUID e s \<Longrightarrow> snap_artifact_type s = effective_type e
      \<Longrightarrow> truthy (snap_source_uuid s)
      \<Longrightarrow> plan_step ix rn st
            (claim (adopt_action (snap_artifact_uuid s) e s) (Some e) (Some s) st)"
| attach_step:
    "open_entry ix st e \<Longrightarrow> idn \<in> set (ix_identities ix)
      \<Longrightarrow> ent_declared_uuid e = Some (idn_artifact_uuid idn) \<Longrightarrow> idn_source_count idn = 0
      \<Longrightarrow> idn_artifact_type idn = effective_type e
      \<Longrightarrow> plan_step ix rn st (claim (attach_action (idn_artifact_uuid idn) e idn) (Some e) None st)"
| register_step:
    "open_entry ix st e \<Longrightarrow> ent_metadata_errors e = [] \<Longrightarrow> effective_type e = Some ty
      \<Longrightarrow> planned_status e ty status
      \<Longrightarrow> plan_step ix rn st (claim (register_action e ty status reason) (Some e) None st)"
| hold_source_step:
    "s \<in> set grp \<Longrightarrow> set grp \<subseteq> set (ix_snapshots ix) \<Longrightarrow> snapshot_key s = k
      \<Longrightarrow> plan_step ix rn st (duplicate_locator_source k grp s st)"
| hold_entry_step:
    "e \<in> set (ix_entries ix)
      \<Longrightarrow> (\<exists>a \<in> set (ps_actions st). act_kind a = CONFLICT \<and> action_key a = entry_key e)
      \<Longrightarrow> plan_step ix rn st
            (st\<lparr>ps_claimed_entries := insert (entry_key e) (ps_claimed_entries st)\<rparr>)"

inductive_cases plan_stepE: "plan_step ix rn st t"

section \<open>Shape of the actions\<close>

lemma claim_simps [simp, frame_simps]:
  "ps_actions (claim a eo so st) = ps_actions st @ [a]"
  "ps_claimed_entries (claim a eo so st) = ps_claimed_entries st \<union> entry_key ` set_option eo"
  "ps_claimed_sources (claim a eo so st) =
     ps_claimed_sources st \<union> (if act_kind a = CONFLICT then {} else identity ` set_option so)"
  "ps_claimed_destinations (claim a eo so st) =
     ps_claimed_destinations st \<union> (if act_kind a = CONFLICT then {} else entry_key ` set_option eo)"
  by (auto simp: claim_def append_action_def Let_def split: option.splits)

lemma relocate_or_refresh_simps [simp]:
  "act_source_identity (relocate_or_refresh e s b) = Some (identity s)"
  "act_basis (relocate_or_refresh e s b) = b"
  "act_repository (relocate_or_refresh e s b) = ent_repository e"
  "act_medium (relocate_or_refresh e s b) = ent_medium e"
  "act_path (relocate_or_refresh e s b) = Some (ent_path e)"
  "act_artifact_uuid (relocate_or_refresh e s b) = Some (snap_artifact_uuid s)"
  by (simp_all add: relocate_or_refresh_def Let_def)

lemma relocate_or_refresh_kind:
  "act_kind (relocate_or_refresh e s b) \<in> {NOOP, REFRESH_SOURCE, RELOCATE_SOURCE}"
  by (simp add: relocate_or_refresh_def Let_def)

lemma relocate_not_conflict [simp]:
  "act_kind (relocate_or_refresh e s b) \<noteq> CONFLICT"
  "act_kind (relocate_or_refresh e s b) \<noteq> MARK_SOURCE_UNRESOLVED"
  "act_kind (relocate_or_refresh e s b) \<noteq> REGISTER_ARTIFACT"
  "act_kind (relocate_or_refresh e s b) \<noteq> ATTACH_SOURCE"
  "act_kind (relocate_or_refresh e s b) \<noteq> ADOPT_SOURCE_REPOSITORY"
  using relocate_or_refresh_kind [of e s b] by auto

lemma action_of_simps [simp]:
  "act_kind (action_of k) = k" "act_basis (action_of k) = BASIS_NONE"
  "act_source_identity (action_of k) = None" "act_path (action_of k) = None"
  by (simp_all add: action_of_def)

lemma action_shapes [simp]:
  "act_kind (adopt_action u e s) = ADOPT_SOURCE_REPOSITORY"
  "act_source_identity (adopt_action u e s) = Some (identity s)"
  "action_key (adopt_action u e s) = entry_key e"
  "act_kind (attach_action u e i) = ATTACH_SOURCE"
  "act_source_identity (attach_action u e i) = None"
  "action_key (attach_action u e i) = entry_key e"
  "act_kind (register_action e ty st rs) = REGISTER_ARTIFACT"
  "act_source_identity (register_action e ty st rs) = None"
  "act_basis (register_action e ty st rs) = BASIS_NONE"
  "action_key (register_action e ty st rs) = entry_key e"
  "action_key (relocate_or_refresh e s b) = entry_key e"
  "act_kind (entry_conflict ck e r d) = CONFLICT"
  "act_detail (entry_conflict ck e r d) = d"
  "action_key (entry_conflict ck e r d) = entry_key e"
  "act_kind (with_content e a) = act_kind a"
  "act_detail (with_content e a) = act_detail a"
  "action_key (with_content e a) = action_key a"
  by (simp_all add: adopt_action_def attach_action_def register_action_def entry_conflict_def
      with_content_def action_key_def entry_key_def)

lemma action_key_update [simp]:
  "action_key (a\<lparr>act_old_path := p\<rparr>) = action_key a"
  "action_key (a\<lparr>act_artifact_uuid := u\<rparr>) = action_key a"
  "action_key (a\<lparr>act_artifact_type := u\<rparr>) = action_key a"
  "action_key (a\<lparr>act_source_uuid := u\<rparr>) = action_key a"
  "action_key (a\<lparr>act_source_identity := u\<rparr>) = action_key a"
  by (simp_all add: action_key_def)

lemma duplicate_locator_shapes [simp]:
  "act_kind (duplicate_locator_action k grp s) = CONFLICT"
  "act_source_identity (duplicate_locator_action k grp s) = Some (identity s)"
  "action_key (duplicate_locator_action k grp s) = k"
  by (auto simp: duplicate_locator_action_def action_key_def split: prod.splits)

lemma reserve_conflict_Inr:
  "reserve_conflict a e xs st = Inr t \<longleftrightarrow>
     act_kind a = CONFLICT
     \<and> t = (claim a (Some e) None st)\<lparr>ps_claimed_sources := ps_claimed_sources st \<union> identity ` set xs\<rparr>"
  by (auto simp: reserve_conflict_def Let_def)

section \<open>Every pass takes steps\<close>

definition indexed :: "plan_index \<Rightarrow> bool" where
  "indexed ix \<longleftrightarrow> ix = plan_index_of (ix_entries ix) (ix_snapshots ix) (ix_unscoped ix)
     (ix_identities ix) (ix_repository ix)"

lemma indexed_plan_index_of [simp]: "indexed (plan_index_of es ss us ids r)"
  by (simp add: indexed_def plan_index_of_def)

lemma indexed_groups [group_simps]:
  assumes "indexed ix"
  shows "get_group k (ix_snapshots_by_key ix) = filter (\<lambda>s. snapshot_key s = k) (ix_snapshots ix)"
    and "get_group u (ix_snapshots_by_artifact ix) = filter (\<lambda>s. snap_artifact_uuid s = u) (ix_snapshots ix)"
    and "get_group u (ix_unscoped_by_artifact ix) = filter (\<lambda>s. snap_artifact_uuid s = u) (ix_unscoped ix)"
    and "get_group mp (ix_unscoped_by_key ix) =
      filter (\<lambda>s. (snap_medium s, or_empty (snap_path s)) = mp) (ix_unscoped ix)"
    and "get_group k (ix_entries_by_key ix) = filter (\<lambda>e. entry_key e = k) (ix_entries ix)"
    and "ix_snapshots_by_key ix = group_by snapshot_key (ix_snapshots ix)"
    and "ix_identities_by_artifact ix = rev (map (\<lambda>i. (idn_artifact_uuid i, i)) (ix_identities ix))"
    and "ix_paths_on_disk ix = map (\<lambda>e. (ent_repository e, ent_path e)) (ix_entries ix)"
  by (subst assms [unfolded indexed_def], simp add: plan_index_of_def get_group_by)+

lemma entry_at_SomeD:
  "indexed ix \<Longrightarrow> entry_at ix k = Some e \<Longrightarrow> e \<in> set (ix_entries ix) \<and> entry_key e = k"
  by (auto simp: entry_at_def group_simps split: list.splits dest!: arg_cong [of "filter _ _" _ set])

text \<open>One loop body leaves the claims alone or settles its own entry by one step.\<close>

definition settles ::
  "plan_index \<Rightarrow> git_rename list \<Rightarrow> corpus_entry \<Rightarrow> plan_state \<Rightarrow> plan_state \<Rightarrow> bool" where
  "settles ix rn e st t \<longleftrightarrow>
     t = st \<or> plan_step ix rn st t
              \<and> ps_claimed_entries t = insert (entry_key e) (ps_claimed_entries st)"

lemma settles_refl [simp]: "settles ix rn e st st"
  by (simp add: settles_def)

lemma settles_reserve:
  assumes "reserve_conflict a e xs st = Inr t" "open_entry ix st e" "action_key a = entry_key e"
    and "\<And>x. x \<in> set xs \<Longrightarrow> names_source a x" "set xs \<subseteq> set (ix_snapshots ix @ ix_unscoped ix)"
  shows "settles ix rn e st t"
  using assms unfolding settles_def reserve_conflict_Inr
  by (intro disjI2 conjI conflict_step [of ix st e a xs]) auto

lemma settles_conflict:
  assumes "open_entry ix st e" "act_kind a = CONFLICT" "action_key a = entry_key e"
  shows "settles ix rn e st (claim a (Some e) None st)"
  using assms unfolding settles_def
  by (intro disjI2 conjI conflict_step [of ix st e a "[]"]) (auto simp: claim_def append_action_def)

lemma settles_step:
  "plan_step ix rn st (claim a (Some e) so st) \<Longrightarrow> settles ix rn e st (claim a (Some e) so st)"
  by (simp add: settles_def)

lemmas settles_match = settles_step [OF match_step]
lemmas settles_adopt = settles_step [OF adopt_step]
lemmas settles_attach = settles_step [OF attach_step]
lemmas settles_register = settles_step [OF register_step]

lemma names_sourceI:
  "act_source_identity a = Some (identity s) \<Longrightarrow> names_source a s"
  "act_artifact_uuid a = Some (snap_artifact_uuid s) \<Longrightarrow> names_source a s"
  "act_old_path a = Some (or_empty (snap_path s)) \<Longrightarrow> names_source a s"
  "snap_artifact_uuid s \<in> set (act_detail a) \<Longrightarrow> names_source a s"
  "or_empty (snap_path s) \<in> set (act_detail a) \<Longrightarrow> names_source a s"
  "identity s \<in> set (act_detail a) \<Longrightarrow> names_source a s"
  by (simp_all add: names_source_def)

lemma unscoped_path_settles:
  assumes "indexed ix" "open_entry ix st e" "unscoped_path_entry ix e st = Inr t"
  shows "settles ix rn e st t"
  using assms(3) unfolding unscoped_path_entry_def Let_def
  by (auto simp: group_simps assms(1) split: if_splits
      intro!: settles_reserve [OF _ assms(2)] names_sourceI(4))

lemma exact_locator_settles:
  assumes "indexed ix" "open_entry ix st e"
  shows "settles ix rn e st (exact_locator_entry ix e st)"
proof (cases "filter (\<lambda>s. identity s \<notin> ps_claimed_sources st)
    (get_group (entry_key e) (ix_snapshots_by_key ix))")
  case (Cons s xs)
  show ?thesis
  proof (cases xs)
    case Nil
    with Cons have "s \<in> set (ix_snapshots ix)" "snapshot_key s = entry_key e"
        "identity s \<notin> ps_claimed_sources st"
      by (auto simp: group_simps assms(1) dest!: arg_cong [of "filter _ _" _ set])
    then show ?thesis
      using Cons Nil assms by (auto simp: exact_locator_entry_def intro!: settles_match)
  qed (use Cons in \<open>simp add: exact_locator_entry_def\<close>)
qed (simp add: exact_locator_entry_def)

lemma registration_settles:
  assumes "open_entry ix st e" "registration_entry e st = Inr t"
  shows "settles ix rn e st t"
proof (cases "ent_metadata_errors e = [] \<and> effective_type e \<noteq> None")
  case True
  then obtain ty where ty: "effective_type e = Some ty" by auto
  define final where "final = (if ent_declared_status e \<noteq> None then (ent_declared_status e, None)
    else status_from_header (ent_raw_status_header e) ty)"
  have "bind_result (if truthy (fst final) then Inr (or_empty (fst final))
      else (case map_of INITIAL_STATUS ty of None \<Rightarrow> Inl (KeyError ty) | Some initial \<Rightarrow> Inr initial))
      (\<lambda>status. Inr (claim (register_action e ty status (snd final)) (Some e) None st)) = Inr t"
    using assms(2) True ty unfolding registration_entry_def Let_def case_prod_unfold final_def by simp
  then obtain status where "if truthy (fst final) then fst final = Some status else map_of INITIAL_STATUS ty = Some status"
    "t = claim (register_action e ty status (snd final)) (Some e) None st"
    by (auto dest: truthy_eq_or_empty split: if_splits option.splits)
  moreover have "fst final = (if ent_declared_status e \<noteq> None then ent_declared_status e
      else fst (status_from_header (ent_raw_status_header e) ty))" by (simp add: final_def)
  ultimately have "planned_status e ty status" "t = claim (register_action e ty status (snd final)) (Some e) None st"
    unfolding planned_status_def Let_def by (simp_all only:)
  then show ?thesis using assms(1) True ty by (auto intro!: settles_register)
qed (use assms in \<open>auto simp: registration_entry_def split: if_splits intro!: settles_conflict\<close>)

lemma filter_single:
  "filter P xs = [x] \<Longrightarrow> x \<in> set xs \<and> P x"
  by (auto simp: filter_eq_Cons_iff)

lemma git_rename_settles:
  assumes "indexed ix" "open_entry ix st e" "git_rename_entry ix rn e st = Inr t"
  shows "settles ix rn e st t"
proof -
  let ?free = "\<lambda>s. identity s \<notin> ps_claimed_sources st"
  let ?grp = "filter (\<lambda>r. ren_new_path r = ent_path e) rn"
  consider "?grp = []" | r where "?grp = [r]" | r r' rs where "?grp = r # r' # rs"
    by (metis list.exhaust)
  then show ?thesis
  proof cases
    case 1
    then show ?thesis using assms by (simp add: git_rename_entry_def group_simps)
  next
    case 3
    then show ?thesis
      using assms unfolding git_rename_entry_def
      by (auto simp: group_simps snapshot_key_def set_insort_key
          elim!: settles_reserve intro!: names_sourceI(5))
  next
    case (2 r)
    let ?out = "filter (\<lambda>r'. ren_old_path r' = ren_old_path r) rn"
    let ?raw = "filter (\<lambda>s. snapshot_key s = (ent_repository e, ent_medium e, ren_old_path r))
      (ix_snapshots ix)"
    have raw: "names_source a x" if "act_old_path a = Some (ren_old_path r)" "x \<in> set ?raw" for a x
      using that by (intro names_sourceI(3)) (auto simp: snapshot_key_def)
    note unfolded = assms(3) [unfolded git_rename_entry_def Let_def get_group_by 2
        indexed_groups(1) [OF assms(1)], simplified]
    show ?thesis
    proof (cases "length ?out = 1 \<and> (\<exists>s. filter ?free ?raw = [s])")
      case False
      then show ?thesis
        using unfolded assms(2)
        by (auto split: if_splits list.splits elim!: settles_reserve intro!: raw)
    next
      case True
      then obtain s where s: "filter ?free ?raw = [s]" and out: "length ?out = 1" by blast
      have sin: "s \<in> set ?raw" "identity s \<notin> ps_claimed_sources st"
        using filter_single [OF s] by auto
      have "r \<in> set rn" using filter_single [OF 2] by simp
      then have "r \<in> set ?out" by simp
      with out have outr: "?out = [r]" by (cases ?out) auto
      have ev: "evidence ix rn st GIT_RENAME e s"
        using 2 outr sin(1) by auto
      have raws: "s \<in> set (ix_snapshots ix)" using sin by simp
      show ?thesis
        using unfolded assms(2) s out
        by (auto split: if_splits elim!: settles_reserve intro!: raws settles_match
            sin(2) ev simp: entry_key_def [symmetric] names_source_def)
    qed
  qed
qed

lemma adopt_unscoped_settles:
  assumes "indexed ix" "open_entry ix st e" "adopt_unscoped ix uuid e s st = Inr t"
    and "s \<in> set (ix_unscoped ix)" "identity s \<notin> ps_claimed_sources st"
    and "evidence ix rn st DECLARED_UUID e s" "snap_artifact_uuid s = uuid"
  shows "settles ix rn e st t"
  using assms unfolding adopt_unscoped_def Let_def
  by (auto split: if_splits elim!: settles_reserve intro!: settles_adopt
      simp: names_source_def group_simps)

lemma attach_identity_settles:
  assumes "indexed ix" "open_entry ix st e" "ent_declared_uuid e = Some uuid"
  shows "settles ix rn e st (attach_identity ix uuid e st)"
proof (cases "map_of (ix_identities_by_artifact ix) uuid")
  case None
  then show ?thesis by (simp add: attach_identity_def)
next
  case (Some idn)
  then have "idn \<in> set (ix_identities ix)" "idn_artifact_uuid idn = uuid"
    using map_of_SomeD [OF Some] by (auto simp: group_simps assms(1))
  then show ?thesis
    using Some assms unfolding attach_identity_def
    by (auto intro!: settles_attach intro: settles_conflict)
qed

lemma declared_uuid_settles:
  assumes "indexed ix" "open_entry ix st e" "ent_declared_uuid e = Some uuid"
    and "declared_uuid_entry ix uuid e st = Inr t"
  shows "settles ix rn e st t"
proof (cases "ent_metadata_errors e = []")
  case False
  then show ?thesis using assms(4) by (simp add: declared_uuid_entry_def)
next
  case True
  let ?free = "\<lambda>s. snap_medium s = ent_medium e \<and> identity s \<notin> ps_claimed_sources st"
  define cand where "cand = filter (\<lambda>s. snap_artifact_uuid s = uuid \<and> ?free s) (ix_snapshots ix)"
  define ucand where "ucand = filter (\<lambda>s. snap_artifact_uuid s = uuid \<and> ?free s) (ix_unscoped ix)"
  have c: "s \<in> set (ix_snapshots ix) \<and> identity s \<notin> ps_claimed_sources st
      \<and> evidence ix rn st DECLARED_UUID e s \<and> snap_artifact_uuid s = uuid" if "s \<in> set cand" for s
    using that True assms(3) by (auto simp: cand_def)
  have u: "s \<in> set (ix_unscoped ix) \<and> identity s \<notin> ps_claimed_sources st
      \<and> evidence ix rn st DECLARED_UUID e s \<and> snap_artifact_uuid s = uuid" if "s \<in> set ucand" for s
    using that True assms(3) by (auto simp: ucand_def)
  note unfolded = assms(4) [unfolded declared_uuid_entry_def Let_def indexed_groups(1-4) [OF assms(1)]
      filter_filter, folded cand_def ucand_def]
  show ?thesis
    using unfolded True assms(2) c u
    by (auto split: if_splits list.splits elim!: settles_reserve
        adopt_unscoped_settles [OF assms(1,2)]
        intro!: settles_match attach_identity_settles [OF assms(1-3)]
        intro: settles_conflict simp: names_source_def)
qed

subsection \<open>Loops over entries\<close>

lemma settles_steps: "settles ix rn e st t \<Longrightarrow> (plan_step ix rn)\<^sup>*\<^sup>* st t"
  by (auto simp: settles_def)

lemma settles_keeps_open:
  "settles ix rn e st t \<Longrightarrow> entry_key e \<noteq> entry_key f \<Longrightarrow> open_entry ix st f \<Longrightarrow> open_entry ix t f"
  by (auto simp: settles_def open_entry_def)

locale entry_loop =
  fixes ix :: plan_index and rn :: "git_rename list"
    and body :: "corpus_entry \<Rightarrow> plan_state \<Rightarrow> plan_state result"
  assumes body_settles:
    "indexed ix \<Longrightarrow> open_entry ix st e \<Longrightarrow> body e st = Inr t \<Longrightarrow> settles ix rn e st t"

sublocale entry_loop \<subseteq> loop: loop_of_steps body "plan_step ix rn"
  "\<lambda>e st. indexed ix \<and> open_entry ix st e" "\<lambda>e f. entry_key e \<noteq> entry_key f"
  by unfold_locales (auto dest: body_settles settles_steps settles_keeps_open)

context entry_loop
begin

lemma pass_steps:
  assumes "indexed ix" "distinct (map entry_key (ix_entries ix))"
    and "foldM body (unclaimed_entries ix st) st = Inr t"
  shows "(plan_step ix rn)\<^sup>*\<^sup>* st t"
proof (rule loop.loop_steps [OF assms(3)])
  have "distinct (map entry_key (unclaimed_entries ix st))"
    using assms(2) by (simp add: unclaimed_entries_def distinct_map_filter)
  then show "sorted_wrt (\<lambda>e f. entry_key e \<noteq> entry_key f) (unclaimed_entries ix st)"
    by (simp add: sorted_wrt_distinct_map)
qed (use assms(1) in \<open>auto simp: unclaimed_entries_def open_entry_def\<close>)

end

interpretation unscoped_paths: entry_loop ix rn "unscoped_path_entry ix" for ix rn
  by unfold_locales (rule unscoped_path_settles)

interpretation git_renames: entry_loop ix rn "git_rename_entry ix rn" for ix rn
  by unfold_locales (rule git_rename_settles)

interpretation exact_locators: entry_loop ix rn "\<lambda>e st. Inr (exact_locator_entry ix e st)" for ix rn
  by unfold_locales (auto intro: exact_locator_settles)

interpretation registrations: entry_loop ix rn registration_entry for ix rn
  by unfold_locales (rule registration_settles)

subsection \<open>Loops over groups of entries\<close>

definition open_group :: "plan_index \<Rightarrow> plan_state \<Rightarrow> corpus_entry list \<Rightarrow> bool" where
  "open_group ix st g \<longleftrightarrow> (\<forall>e \<in> set g. open_entry ix st e) \<and> distinct (map entry_key g)"

lemma claim_conflicts_steps:
  assumes "open_group ix st g" "\<And>e. act_kind (c e) = CONFLICT \<and> action_key (c e) = entry_key e"
  shows "(plan_step ix rn)\<^sup>*\<^sup>* st (fold (\<lambda>e. claim (c e) (Some e) None) g st)"
    and "ps_claimed_entries (fold (\<lambda>e. claim (c e) (Some e) None) g st) =
      ps_claimed_entries st \<union> entry_key ` set g"
    and "ps_claimed_sources (fold (\<lambda>e. claim (c e) (Some e) None) g st) = ps_claimed_sources st"
proof -
  show "(plan_step ix rn)\<^sup>*\<^sup>* st (fold (\<lambda>e. claim (c e) (Some e) None) g st)"
    using assms(1)
  proof (induction g arbitrary: st)
    case (Cons e g)
    let ?u = "claim (c e) (Some e) None st"
    have e: "settles ix rn e st ?u"
      using Cons.prems assms(2) by (intro settles_conflict) (auto simp: open_group_def)
    have "open_group ix ?u g"
      using Cons.prems settles_keeps_open [OF e] by (fastforce simp: open_group_def)
    then show ?case using Cons.IH [of ?u] settles_steps [OF e] by simp
  qed simp
  show "ps_claimed_entries (fold (\<lambda>e. claim (c e) (Some e) None) g st) =
      ps_claimed_entries st \<union> entry_key ` set g"
    by (induction g arbitrary: st) simp_all
  show "ps_claimed_sources (fold (\<lambda>e. claim (c e) (Some e) None) g st) = ps_claimed_sources st"
    by (induction g arbitrary: st) (simp_all add: assms(2))
qed

lemma open_groupD: "open_group ix st g \<Longrightarrow> e \<in> set g \<Longrightarrow> open_entry ix st e"
  by (simp add: open_group_def)

lemma open_group_mono:
  assumes "open_group ix st g" "ps_claimed_entries t \<subseteq> ps_claimed_entries st \<union> K"
    and "entry_key ` set g \<inter> K = {}"
  shows "open_group ix t g"
  using assms by (fastforce simp: open_group_def open_entry_def)

lemma declared_group_steps:
  assumes "indexed ix" "open_group ix st g" "\<forall>e \<in> set g. ent_declared_uuid e = Some u"
    and "declared_uuid_group ix (u, g) st = Inr t"
  shows "(plan_step ix rn)\<^sup>*\<^sup>* st t" and "ps_claimed_entries t \<subseteq> ps_claimed_entries st \<union> entry_key ` set g"
proof -
  have "(plan_step ix rn)\<^sup>*\<^sup>* st t \<and> ps_claimed_entries t \<subseteq> ps_claimed_entries st \<union> entry_key ` set g"
  proof (cases "\<exists>e. g = [e]")
    case True
    then obtain e where g: "g = [e]" by blast
    then have "settles ix rn e st t"
      using assms open_groupD by (intro declared_uuid_settles [of ix st e u t rn])
        (auto simp: declared_uuid_group_def)
    then show ?thesis using g settles_steps by (auto simp: settles_def)
  next
    case False
    then have t: "t = fold (\<lambda>e. claim (duplicate_uuid_action u g e) (Some e) None) g st"
      using assms(4) by (auto simp: declared_uuid_group_def split: list.splits)
    have c: "act_kind (duplicate_uuid_action u g e) = CONFLICT
        \<and> action_key (duplicate_uuid_action u g e) = entry_key e" for e
      by (simp add: duplicate_uuid_action_def)
    show ?thesis
      using claim_conflicts_steps(1,2) [OF assms(2), of "duplicate_uuid_action u g"] c t by simp
  qed
  then show "(plan_step ix rn)\<^sup>*\<^sup>* st t"
    and "ps_claimed_entries t \<subseteq> ps_claimed_entries st \<union> entry_key ` set g" by auto
qed

interpretation declared_uuids: loop_of_steps "declared_uuid_group ix" "plan_step ix rn"
  "\<lambda>ug st. indexed ix \<and> open_group ix st (snd ug) \<and> (\<forall>e \<in> set (snd ug). ent_declared_uuid e = Some (fst ug))"
  "\<lambda>p q. fst p \<noteq> fst q \<and> entry_key ` set (snd p) \<inter> entry_key ` set (snd q) = {}" for ix rn
proof unfold_locales
  fix i st t
  assume "indexed ix \<and> open_group ix st (snd i) \<and> (\<forall>e \<in> set (snd i). ent_declared_uuid e = Some (fst i))"
    and "declared_uuid_group ix i st = Inr t"
  then show "(plan_step ix rn)\<^sup>*\<^sup>* st t"
    using declared_group_steps(1) [of ix st "snd i" "fst i" t rn] by simp
next
  fix i j :: "string \<times> corpus_entry list" and st t
  assume "fst i \<noteq> fst j \<and> entry_key ` set (snd i) \<inter> entry_key ` set (snd j) = {}"
    and "indexed ix \<and> open_group ix st (snd i) \<and> (\<forall>e \<in> set (snd i). ent_declared_uuid e = Some (fst i))"
    and "indexed ix \<and> open_group ix st (snd j) \<and> (\<forall>e \<in> set (snd j). ent_declared_uuid e = Some (fst j))"
    and "declared_uuid_group ix i st = Inr t"
  then show "indexed ix \<and> open_group ix t (snd j) \<and> (\<forall>e \<in> set (snd j). ent_declared_uuid e = Some (fst j))"
    using declared_group_steps(2) [of ix st "snd i" "fst i" t] by (auto intro: open_group_mono)
qed

subsection \<open>The content-hash loop\<close>

definition hash_ready :: "plan_index \<Rightarrow> plan_state \<Rightarrow> string \<times> corpus_entry list \<Rightarrow> plan_state \<Rightarrow> bool" where
  "hash_ready ix st0 dg st \<longleftrightarrow>
     indexed ix \<and> distinct (map identity (ix_snapshots ix)) \<and> open_group ix st (snd dg)
     \<and> snd dg = filter (\<lambda>e. ent_integrity e = fst dg) (hash_entries ix st0)
     \<and> (\<forall>s \<in> set (hash_sources ix st0). or_empty (snap_integrity s) = fst dg
          \<longrightarrow> identity s \<notin> ps_claimed_sources st)
     \<and> ps_claimed_sources st0 \<subseteq> ps_claimed_sources st
     \<and> ps_claimed_entries st0 \<subseteq> ps_claimed_entries st"

abbreviation hash_body :: "plan_index \<Rightarrow> plan_state \<Rightarrow> string \<times> corpus_entry list \<Rightarrow> plan_state \<Rightarrow> plan_state" where
  "hash_body ix st0 \<equiv> hash_group (group_by (\<lambda>s. or_empty (snap_integrity s)) (hash_sources ix st0))"

lemma in_hash_sources:
  "s \<in> set (hash_sources ix st) \<longleftrightarrow>
     s \<in> set (ix_snapshots ix) \<and> truthy (snap_integrity s) \<and> gone_from_disk ix s
     \<and> identity s \<notin> ps_claimed_sources st"
  by (auto simp: hash_sources_def unclaimed_snapshots_def gone_from_disk_def)

lemma in_hash_entries:
  "e \<in> set (hash_entries ix st) \<longleftrightarrow>
     e \<in> set (ix_entries ix) \<and> \<not> truthy (ent_declared_uuid e) \<and> entry_key e \<notin> ps_claimed_entries st"
  by (auto simp: hash_entries_def unclaimed_entries_def)

lemma filter_single_iff: "filter P xs = [x] \<Longrightarrow> y \<in> set xs \<Longrightarrow> P y \<Longrightarrow> y = x"
proof -
  assume f: "filter P xs = [x]" and y: "y \<in> set xs" "P y"
  have "y \<in> set (filter P xs)" using y by simp
  then show "y = x" unfolding f by simp
qed

lemma hash_evidence:
  assumes "hash_ready ix st0 (d, [e]) st"
    and s: "filter (\<lambda>s. or_empty (snap_integrity s) = d) (hash_sources ix st0) = [s]"
  shows "evidence ix rn st UNIQUE_CONTENT_SHA256 e s" "open_entry ix st e"
    "s \<in> set (ix_snapshots ix)" "identity s \<notin> ps_claimed_sources st"
proof -
  have g: "filter (\<lambda>e. ent_integrity e = d) (hash_entries ix st0) = [e]"
    using assms(1) by (simp add: hash_ready_def)
  have e: "e \<in> set (hash_entries ix st0)" "ent_integrity e = d" using filter_single [OF g] by auto
  have sh: "s \<in> set (hash_sources ix st0)" "or_empty (snap_integrity s) = d"
    using filter_single [OF s] by auto
  have si: "snap_integrity s = Some d" using sh truthy_eq_or_empty by (auto simp: in_hash_sources)
  have "s' = s" if "s' \<in> set (ix_snapshots ix)" "snap_integrity s' = snap_integrity s"
      "truthy (snap_integrity s')" "gone_from_disk ix s'" "identity s' \<notin> ps_claimed_sources st" for s'
    using that assms(1) si by (intro filter_single_iff [OF s]) (auto simp: in_hash_sources hash_ready_def)
  moreover have "e' = e" if "e' \<in> set (ix_entries ix)" "ent_integrity e' = ent_integrity e"
      "\<not> truthy (ent_declared_uuid e')" "entry_key e' \<notin> ps_claimed_entries st" for e'
    using that assms(1) e(2)
    by (intro filter_single_iff [OF g]) (auto simp: in_hash_entries hash_ready_def)
  ultimately show "evidence ix rn st UNIQUE_CONTENT_SHA256 e s"
    using si e sh by (simp add: in_hash_entries in_hash_sources)
  show "open_entry ix st e" "s \<in> set (ix_snapshots ix)" "identity s \<notin> ps_claimed_sources st"
    using assms(1) sh by (auto simp: hash_ready_def open_group_def in_hash_sources)
qed

lemma hash_ready_open: "hash_ready ix st0 (d, g) st \<Longrightarrow> open_group ix st g"
  unfolding hash_ready_def snd_conv by (elim conjE)

lemma hash_body_cases:
  fixes ix st0 d
  defines "ss \<equiv> filter (\<lambda>s. or_empty (snap_integrity s) = d) (hash_sources ix st0)"
  obtains "hash_body ix st0 (d, g) st = st"
  | e s where "g = [e]" "ss = [s]"
      "hash_body ix st0 (d, g) st = claim (relocate_or_refresh e s UNIQUE_CONTENT_SHA256) (Some e) (Some s) st"
  | "hash_body ix st0 (d, g) st = fold (\<lambda>e. claim (ambiguous_content_action g ss e) (Some e) None) g st"
proof -
  have "hash_body ix st0 (d, g) st = st \<or> (\<exists>e s. g = [e] \<and> ss = [s] \<and>
      hash_body ix st0 (d, g) st = claim (relocate_or_refresh e s UNIQUE_CONTENT_SHA256) (Some e) (Some s) st)
    \<or> hash_body ix st0 (d, g) st = fold (\<lambda>e. claim (ambiguous_content_action g ss e) (Some e) None) g st"
    by (auto simp: ss_def hash_group_def get_group_by Let_def split: list.splits if_splits)
  then show ?thesis using that by blast
qed

lemma hash_group_steps:
  assumes "hash_ready ix st0 (d, g) st"
  shows "(plan_step ix rn)\<^sup>*\<^sup>* st (hash_body ix st0 (d, g) st)"
    and "ps_claimed_entries (hash_body ix st0 (d, g) st) \<subseteq> ps_claimed_entries st \<union> entry_key ` set g"
    and "ps_claimed_sources (hash_body ix st0 (d, g) st) \<subseteq> ps_claimed_sources st
      \<union> identity ` {s \<in> set (hash_sources ix st0). or_empty (snap_integrity s) = d}"
    and "ps_claimed_sources st \<subseteq> ps_claimed_sources (hash_body ix st0 (d, g) st)"
    and "ps_claimed_entries st \<subseteq> ps_claimed_entries (hash_body ix st0 (d, g) st)"
proof -
  let ?ss = "filter (\<lambda>s. or_empty (snap_integrity s) = d) (hash_sources ix st0)"
  let ?t = "hash_body ix st0 (d, g) st"
  have "(plan_step ix rn)\<^sup>*\<^sup>* st ?t \<and> ps_claimed_entries ?t \<subseteq> ps_claimed_entries st \<union> entry_key ` set g
    \<and> ps_claimed_sources ?t \<subseteq> ps_claimed_sources st
      \<union> identity ` {s \<in> set (hash_sources ix st0). or_empty (snap_integrity s) = d}
    \<and> ps_claimed_sources st \<subseteq> ps_claimed_sources ?t \<and> ps_claimed_entries st \<subseteq> ps_claimed_entries ?t"
  proof (cases rule: hash_body_cases [of ix st0 d g st])
    case 1
    then show ?thesis by auto
  next
    case (2 e s)
    have "plan_step ix rn st ?t"
      unfolding 2(3) by (intro match_step hash_evidence [OF assms [unfolded 2(1)] 2(2)])
    then show ?thesis using 2(1,3) filter_single [OF 2(2)] by auto
  next
    case 3
    have c: "act_kind (ambiguous_content_action g ?ss e) = CONFLICT
        \<and> action_key (ambiguous_content_action g ?ss e) = entry_key e" for e
      by (simp add: ambiguous_content_action_def)
    from claim_conflicts_steps [OF hash_ready_open [OF assms], of "ambiguous_content_action g ?ss", OF c]
    show ?thesis unfolding 3 by auto
  qed
  then show "(plan_step ix rn)\<^sup>*\<^sup>* st ?t"
    and "ps_claimed_entries ?t \<subseteq> ps_claimed_entries st \<union> entry_key ` set g"
    and "ps_claimed_sources ?t \<subseteq> ps_claimed_sources st
      \<union> identity ` {s \<in> set (hash_sources ix st0). or_empty (snap_integrity s) = d}"
    and "ps_claimed_sources st \<subseteq> ps_claimed_sources ?t"
    and "ps_claimed_entries st \<subseteq> ps_claimed_entries ?t" by auto
qed

lemma hash_group_ready:
  assumes "hash_ready ix st0 (d, g) st" "hash_ready ix st0 (d', g') st"
    and "d \<noteq> d'" "entry_key ` set g \<inter> entry_key ` set g' = {}"
  shows "hash_ready ix st0 (d', g') (hash_body ix st0 (d, g) st)"
proof -
  note steps = hash_group_steps [OF assms(1)]
  have inj: "inj_on identity (set (ix_snapshots ix))"
    using assms(1) by (simp add: hash_ready_def distinct_map)
  have "identity s \<notin> ps_claimed_sources (hash_body ix st0 (d, g) st)"
    if s: "s \<in> set (hash_sources ix st0)" "or_empty (snap_integrity s) = d'" for s
  proof
    assume "identity s \<in> ps_claimed_sources (hash_body ix st0 (d, g) st)"
    then have "identity s \<in> identity ` {s \<in> set (hash_sources ix st0). or_empty (snap_integrity s) = d}"
      using steps(3) assms(2) s by (auto simp: hash_ready_def)
    then obtain s' where "s' \<in> set (hash_sources ix st0)" "or_empty (snap_integrity s') = d"
      "identity s' = identity s" by auto
    then show False using s assms(3) inj by (auto simp: in_hash_sources dest: inj_onD)
  qed
  moreover have "open_group ix (hash_body ix st0 (d, g) st) g'"
    using steps(2) assms(4) by (intro open_group_mono [OF hash_ready_open [OF assms(2)]]) auto
  ultimately show ?thesis
    using assms(2) [unfolded hash_ready_def fst_conv snd_conv] steps(4,5)
    unfolding hash_ready_def fst_conv snd_conv by blast
qed

interpretation hash_matches: loop_of_steps "\<lambda>dg st. Inr (hash_body ix st0 dg st)" "plan_step ix rn"
  "hash_ready ix st0" "\<lambda>p q. fst p \<noteq> fst q \<and> entry_key ` set (snd p) \<inter> entry_key ` set (snd q) = {}"
  for ix rn st0
proof unfold_locales
  fix i st t
  assume "hash_ready ix st0 i st" "Inr (hash_body ix st0 i st) = Inr t"
  then show "(plan_step ix rn)\<^sup>*\<^sup>* st t"
    using hash_group_steps(1) [of ix st0 "fst i" "snd i" st rn] by simp
next
  fix i j st t
  assume "fst i \<noteq> fst j \<and> entry_key ` set (snd i) \<inter> entry_key ` set (snd j) = {}"
    "hash_ready ix st0 i st" "hash_ready ix st0 j st" "Inr (hash_body ix st0 i st) = Inr t"
  then show "hash_ready ix st0 j t"
    using hash_group_ready [of ix st0 "fst i" "snd i" st "fst j" "snd j"] by simp
qed

subsection \<open>Duplicate locators\<close>

lemma duplicate_sources_steps:
  assumes "set xs \<subseteq> set grp" "set grp \<subseteq> set (ix_snapshots ix)" "\<forall>s \<in> set grp. snapshot_key s = k"
  shows "(plan_step ix rn)\<^sup>*\<^sup>* st (fold (duplicate_locator_source k grp) xs st)"
  using assms(1)
proof (induction xs arbitrary: st)
  case (Cons s xs)
  then have "plan_step ix rn st (duplicate_locator_source k grp s st)"
    using assms(2,3) by (intro hold_source_step) auto
  then show ?case using Cons by (simp add: converse_rtranclp_into_rtranclp)
qed simp

lemma duplicate_sources_actions:
  "ps_actions (fold (duplicate_locator_source k grp) xs st) =
     ps_actions st @ map (duplicate_locator_action k grp) xs"
  by (induction xs arbitrary: st) (simp_all add: duplicate_locator_source_def append_action_def)

lemma duplicate_group_steps:
  assumes "indexed ix" "(k, grp) \<in> set (ix_snapshots_by_key ix)"
  shows "(plan_step ix rn)\<^sup>*\<^sup>* st (duplicate_locator_group ix (k, grp) st)"
proof -
  have grp: "grp = filter (\<lambda>s. snapshot_key s = k) (ix_snapshots ix)"
    using assms in_group_by(1) by (metis indexed_groups(6))
  let ?u = "fold (duplicate_locator_source k grp) grp st"
  have u: "(plan_step ix rn)\<^sup>*\<^sup>* st ?u"
    by (rule duplicate_sources_steps) (auto simp: grp)
  show ?thesis
  proof (cases "length grp < 2 \<or> entry_at ix k = None")
    case True
    then show ?thesis using u by (auto simp: duplicate_locator_group_def Let_def)
  next
    case False
    then obtain e where e: "entry_at ix k = Some e" by auto
    from False obtain s where s: "s \<in> set grp" by (cases grp) auto
    have "duplicate_locator_action k grp s \<in> set (ps_actions ?u)"
      using s by (simp add: duplicate_sources_actions)
    then have "\<exists>a \<in> set (ps_actions ?u). act_kind a = CONFLICT \<and> action_key a = entry_key e"
      using entry_at_SomeD [OF assms(1) e] by (intro bexI) auto
    then have "plan_step ix rn ?u (?u\<lparr>ps_claimed_entries := insert (entry_key e) (ps_claimed_entries ?u)\<rparr>)"
      using entry_at_SomeD [OF assms(1) e] by (intro hold_entry_step) auto
    with u False e show ?thesis by (simp add: duplicate_locator_group_def Let_def)
  qed
qed

interpretation duplicate_locators: loop_of_steps "\<lambda>kg st. Inr (duplicate_locator_group ix kg st)"
  "plan_step ix rn" "\<lambda>kg st. indexed ix \<and> kg \<in> set (ix_snapshots_by_key ix)" "\<lambda>p q. True" for ix rn
  by unfold_locales (use duplicate_group_steps in auto)

section \<open>The passes composed\<close>

text \<open>
  What the planner assumes of its inputs: one scanned entry per locator and one record per
  source identity.
\<close>

definition wf_index :: "plan_index \<Rightarrow> bool" where
  "wf_index ix \<longleftrightarrow> indexed ix \<and> distinct (map entry_key (ix_entries ix))
     \<and> distinct (map identity (ix_snapshots ix @ ix_unscoped ix))"

lemma wf_indexD:
  "wf_index ix \<Longrightarrow> indexed ix" "wf_index ix \<Longrightarrow> distinct (map entry_key (ix_entries ix))"
  "wf_index ix \<Longrightarrow> distinct (map identity (ix_snapshots ix))"
  "wf_index ix \<Longrightarrow> inj_on identity (set (ix_snapshots ix @ ix_unscoped ix))"
  by (simp_all only: wf_index_def distinct_map map_append distinct_append inj_on_Un set_append) auto

lemma foldM_Inr_fold: "foldM (\<lambda>x s. Inr (f x s)) xs s = Inr t \<longleftrightarrow> fold f xs s = t"
  by (simp add: foldM_pure)

lemma grouped_apart:
  assumes "distinct (map entry_key es)"
  shows "sorted_wrt (\<lambda>p q. fst p \<noteq> fst q \<and> entry_key ` set (snd p) \<inter> entry_key ` set (snd q) = {})
    (sort_key fst (group_by f es))"
proof (rule sorted_wrt_disjoint_groups)
  have "mset (concat (map snd (sort_key fst (group_by f es)))) = mset es"
    using mset_concat_group_by [of f es] by (simp add: mset_concat flip: sum_mset_sum_list)
  then have "mset (map entry_key (concat (map snd (sort_key fst (group_by f es))))) = mset (map entry_key es)"
    by (metis mset_map)
  then show "distinct (map entry_key (concat (map snd (sort_key fst (group_by f es)))))"
    using assms mset_eq_imp_distinct_iff by blast
qed (simp add: distinct_keys_group_by)

lemma duplicate_pass_steps:
  "wf_index ix \<Longrightarrow> (plan_step ix rn)\<^sup>*\<^sup>* st (plan_duplicate_locators ix st)"
  unfolding plan_duplicate_locators_def
  by (rule duplicate_locators.loop_steps [of ix "sort_key fst (ix_snapshots_by_key ix)"])
    (auto simp: foldM_Inr_fold wf_indexD)

lemma declared_pass_steps:
  assumes "wf_index ix" "plan_declared_uuids ix st = Inr t"
  shows "(plan_step ix rn)\<^sup>*\<^sup>* st t"
proof (rule declared_uuids.loop_steps [OF assms(2) [unfolded plan_declared_uuids_def]])
  let ?es = "filter (\<lambda>e. truthy (ent_declared_uuid e)) (unclaimed_entries ix st)"
  have d: "distinct (map entry_key ?es)"
    using wf_indexD(2) [OF assms(1)] by (simp add: unclaimed_entries_def distinct_map_filter)
  then show "sorted_wrt (\<lambda>p q. fst p \<noteq> fst q \<and> entry_key ` set (snd p) \<inter> entry_key ` set (snd q) = {})
      (declared_groups (unclaimed_entries ix st))"
    unfolding declared_groups_def by (rule grouped_apart)
  fix ug
  assume "ug \<in> set (declared_groups (unclaimed_entries ix st))"
  then have "(fst ug, snd ug) \<in> set (group_by (\<lambda>e. or_empty (ent_declared_uuid e)) ?es)"
    by (simp add: declared_groups_def)
  from in_group_by(1) [OF this]
  have snd: "snd ug = filter (\<lambda>e. or_empty (ent_declared_uuid e) = fst ug) ?es" .
  have "ent_declared_uuid e = Some (fst ug)" if "e \<in> set (snd ug)" for e
    using that unfolding snd by (auto dest: truthy_eq_or_empty)
  moreover have "open_group ix st (snd ug)"
    unfolding snd open_group_def
    by (intro conjI distinct_map_filter [OF d]) (auto simp: open_entry_def unclaimed_entries_def)
  ultimately show "indexed ix \<and> open_group ix st (snd ug)
      \<and> (\<forall>e \<in> set (snd ug). ent_declared_uuid e = Some (fst ug))"
    using wf_indexD(1) [OF assms(1)] by blast
qed

lemma hash_pass_steps:
  assumes "wf_index ix"
  shows "(plan_step ix rn)\<^sup>*\<^sup>* st (plan_hash_matches ix st)"
proof (rule hash_matches.loop_steps)
  let ?gs = "sort_key fst (group_by ent_integrity (hash_entries ix st))"
  show "foldM (\<lambda>dg st'. Inr (hash_body ix st dg st')) ?gs st = Inr (plan_hash_matches ix st)"
    by (simp add: foldM_Inr_fold plan_hash_matches_def)
  have d: "distinct (map entry_key (hash_entries ix st))"
    using wf_indexD(2) [OF assms] by (simp add: hash_entries_def unclaimed_entries_def distinct_map_filter)
  then show "sorted_wrt (\<lambda>p q. fst p \<noteq> fst q \<and> entry_key ` set (snd p) \<inter> entry_key ` set (snd q) = {}) ?gs"
    by (rule grouped_apart)
  fix dg
  assume "dg \<in> set ?gs"
  then have "(fst dg, snd dg) \<in> set (group_by ent_integrity (hash_entries ix st))" by simp
  from in_group_by(1) [OF this]
  have snd: "snd dg = filter (\<lambda>e. ent_integrity e = fst dg) (hash_entries ix st)" .
  have "open_group ix st (snd dg)"
    unfolding snd open_group_def
    by (intro conjI distinct_map_filter [OF d]) (auto simp: open_entry_def in_hash_entries)
  then show "hash_ready ix st dg st"
    using snd wf_indexD(1,3) [OF assms] unfolding hash_ready_def by (auto simp: in_hash_sources)
qed

end
