(* ===== verification/Reconciliation_Safety.thy ===== *)
theory Reconciliation_Safety
  imports Reconciliation_Steps
begin

text \<open>
  The guarantees of a plan. Invariants of \<open>plan_step\<close> are proved by rule induction over the
  steps of the seven matching passes; the two closing passes, which only report what is left,
  are described exactly. The properties are stated on the report that \<open>plan_reconciliation\<close>
  returns.
\<close>

section \<open>Invariants of the matching passes\<close>

definition decisions :: "reconciliation_action list \<Rightarrow> reconciliation_action list" where
  "decisions as = filter (\<lambda>a. act_kind a \<noteq> CONFLICT) as"

definition source_decisions :: "reconciliation_action list \<Rightarrow> reconciliation_action list" where
  "source_decisions as = filter (\<lambda>a. act_source_identity a \<noteq> None) (decisions as)"

definition accounts_for :: "reconciliation_action \<Rightarrow> source_snapshot \<Rightarrow> bool" where
  "accounts_for a s \<longleftrightarrow>
     (if act_kind a = CONFLICT then names_source a s else act_source_identity a = Some (identity s))"

text \<open>Why a decision about an entry was taken.\<close>

definition justified ::
  "plan_index \<Rightarrow> git_rename list \<Rightarrow> plan_state \<Rightarrow> reconciliation_action \<Rightarrow> bool" where
  "justified ix rn st a \<longleftrightarrow>
     (\<exists>e \<in> set (ix_entries ix).
        (\<exists>s \<in> set (ix_snapshots ix). \<exists>b. a = relocate_or_refresh e s b \<and> evidence ix rn st b e s)
      \<or> (\<exists>s \<in> set (ix_unscoped ix). a = adopt_action (snap_artifact_uuid s) e s
           \<and> evidence ix rn st DECLARED_UUID e s \<and> truthy (snap_source_uuid s)
           \<and> snap_artifact_type s = effective_type e)
      \<or> (\<exists>idn \<in> set (ix_identities ix). a = attach_action (idn_artifact_uuid idn) e idn
           \<and> ent_declared_uuid e = Some (idn_artifact_uuid idn) \<and> idn_source_count idn = 0
           \<and> idn_artifact_type idn = effective_type e)
      \<or> (\<exists>ty status reason. a = register_action e ty status reason
           \<and> ent_metadata_errors e = [] \<and> effective_type e = Some ty \<and> planned_status e ty status))"

definition plan_inv :: "plan_index \<Rightarrow> git_rename list \<Rightarrow> plan_state \<Rightarrow> bool" where
  "plan_inv ix rn st \<longleftrightarrow>
     distinct (map action_key (decisions (ps_actions st)))
     \<and> action_key ` set (decisions (ps_actions st)) \<subseteq> ps_claimed_entries st
     \<and> distinct (map act_source_identity (source_decisions (ps_actions st)))
     \<and> act_source_identity ` set (source_decisions (ps_actions st)) \<subseteq> Some ` ps_claimed_sources st
     \<and> ps_claimed_entries st \<subseteq> action_key ` set (ps_actions st)
     \<and> (\<forall>s \<in> set (ix_snapshots ix @ ix_unscoped ix). identity s \<in> ps_claimed_sources st
          \<longrightarrow> (\<exists>a \<in> set (ps_actions st). accounts_for a s))
     \<and> (\<forall>a \<in> set (decisions (ps_actions st)). justified ix rn st a)"

lemma plan_invD:
  assumes "plan_inv ix rn st"
  shows "distinct (map action_key (decisions (ps_actions st)))"
    and "action_key ` set (decisions (ps_actions st)) \<subseteq> ps_claimed_entries st"
    and "distinct (map act_source_identity (source_decisions (ps_actions st)))"
    and "act_source_identity ` set (source_decisions (ps_actions st)) \<subseteq> Some ` ps_claimed_sources st"
    and "ps_claimed_entries st \<subseteq> action_key ` set (ps_actions st)"
    and "s \<in> set (ix_snapshots ix @ ix_unscoped ix) \<Longrightarrow> identity s \<in> ps_claimed_sources st
      \<Longrightarrow> \<exists>a \<in> set (ps_actions st). accounts_for a s"
    and "a \<in> set (decisions (ps_actions st)) \<Longrightarrow> justified ix rn st a"
  using assms unfolding plan_inv_def by (elim conjE; blast)+

lemma plan_inv_init: "plan_inv ix rn plan_state_init"
  by (simp add: plan_inv_def plan_state_init_def decisions_def source_decisions_def)

lemma decisions_snoc:
  "decisions (as @ [a]) = decisions as @ (if act_kind a = CONFLICT then [] else [a])"
  "source_decisions (as @ [a]) = source_decisions as
     @ (if act_kind a = CONFLICT \<or> act_source_identity a = None then [] else [a])"
  by (auto simp: decisions_def source_decisions_def)

lemma evidence_mono:
  assumes "evidence ix rn st b e s"
    and "ps_claimed_entries st \<subseteq> ps_claimed_entries t" "ps_claimed_sources st \<subseteq> ps_claimed_sources t"
  shows "evidence ix rn t b e s"
  using assms by (cases b) auto

lemma justified_mono:
  assumes "justified ix rn st a"
    and "ps_claimed_entries st \<subseteq> ps_claimed_entries t" "ps_claimed_sources st \<subseteq> ps_claimed_sources t"
  shows "justified ix rn t a"
  using assms(1) evidence_mono [OF _ assms(2,3)] unfolding justified_def by blast

lemma plan_step_mono:
  assumes "plan_step ix rn st t"
  shows "ps_claimed_entries st \<subseteq> ps_claimed_entries t"
    and "ps_claimed_sources st \<subseteq> ps_claimed_sources t"
    and "set (ps_actions st) \<subseteq> set (ps_actions t)"
  using assms by (cases; auto simp: duplicate_locator_source_def append_action_def)+

text \<open>
  A step that appends one action: the invariant is kept when the action is new for the
  entry and the source it decides, and accounts for every source it claims.
\<close>

lemma plan_inv_append:
  assumes inv: "plan_inv ix rn st" and inj: "inj_on identity (set (ix_snapshots ix @ ix_unscoped ix))"
    and acts: "ps_actions t = ps_actions st @ [a]"
    and ents: "ps_claimed_entries t = ps_claimed_entries st \<union> E" "E \<subseteq> {action_key a}"
    and srcs: "ps_claimed_sources t = ps_claimed_sources st \<union> identity ` S"
    and S: "S \<subseteq> set (ix_snapshots ix @ ix_unscoped ix)" "\<forall>s \<in> S. accounts_for a s"
    and dec: "act_kind a \<noteq> CONFLICT \<Longrightarrow> action_key a \<notin> ps_claimed_entries st \<and> E = {action_key a}
      \<and> act_source_identity a \<notin> Some ` ps_claimed_sources st
      \<and> act_source_identity a \<in> insert None (Some ` identity ` S) \<and> justified ix rn t a"
  shows "plan_inv ix rn t"
proof -
  note keys = plan_invD(1,2) [OF inv] and idents = plan_invD(3,4) [OF inv]
  have "justified ix rn t d" if "d \<in> set (decisions (ps_actions t))" for d
    using that inv dec unfolding acts decisions_snoc plan_inv_def
    by (auto split: if_splits intro!: justified_mono [of ix rn st d t] simp: ents srcs)
  moreover have "\<exists>d \<in> set (ps_actions t). accounts_for d s"
    if s: "s \<in> set (ix_snapshots ix @ ix_unscoped ix)" "identity s \<in> ps_claimed_sources t" for s
  proof (cases "identity s \<in> ps_claimed_sources st")
    case True
    then show ?thesis using s(1) inv unfolding plan_inv_def acts by auto
  next
    case False
    then obtain s' where "s' \<in> S" "identity s' = identity s" using s(2) srcs by auto
    then have "s \<in> S" using inj s(1) S(1) by (metis inj_onD subsetD)
    then show ?thesis using S(2) acts by auto
  qed
  moreover have "distinct (map action_key (decisions (ps_actions t)))"
    using keys dec unfolding acts decisions_snoc by auto
  moreover have "action_key ` set (decisions (ps_actions t)) \<subseteq> ps_claimed_entries t"
    using keys(2) dec ents(1) unfolding acts decisions_snoc by auto
  moreover have "distinct (map act_source_identity (source_decisions (ps_actions t)))"
    using idents dec unfolding acts decisions_snoc by auto
  moreover have "act_source_identity ` set (source_decisions (ps_actions t)) \<subseteq> Some ` ps_claimed_sources t"
    using idents(2) dec unfolding acts decisions_snoc srcs by (auto split: if_splits)
  moreover have "ps_claimed_entries t \<subseteq> action_key ` set (ps_actions t)"
    using inv ents unfolding plan_inv_def acts by auto
  ultimately show ?thesis unfolding plan_inv_def by blast
qed

lemma accounts_for_simps [simp]:
  "accounts_for (relocate_or_refresh e s b) s" "accounts_for (adopt_action u e s) s"
  "accounts_for (duplicate_locator_action k g s) s"
  by (simp_all add: accounts_for_def names_source_def)

lemma justifiedI:
  "e \<in> set (ix_entries ix) \<Longrightarrow> s \<in> set (ix_snapshots ix) \<Longrightarrow> evidence ix rn st b e s
    \<Longrightarrow> justified ix rn st (relocate_or_refresh e s b)"
  "e \<in> set (ix_entries ix) \<Longrightarrow> s \<in> set (ix_unscoped ix) \<Longrightarrow> evidence ix rn st DECLARED_UUID e s
    \<Longrightarrow> truthy (snap_source_uuid s) \<Longrightarrow> snap_artifact_type s = effective_type e
    \<Longrightarrow> justified ix rn st (adopt_action (snap_artifact_uuid s) e s)"
  "e \<in> set (ix_entries ix) \<Longrightarrow> idn \<in> set (ix_identities ix)
    \<Longrightarrow> ent_declared_uuid e = Some (idn_artifact_uuid idn) \<Longrightarrow> idn_source_count idn = 0
    \<Longrightarrow> idn_artifact_type idn = effective_type e
    \<Longrightarrow> justified ix rn st (attach_action (idn_artifact_uuid idn) e idn)"
  "e \<in> set (ix_entries ix) \<Longrightarrow> ent_metadata_errors e = [] \<Longrightarrow> effective_type e = Some ty
    \<Longrightarrow> planned_status e ty status \<Longrightarrow> justified ix rn st (register_action e ty status reason)"
  unfolding justified_def by (fastforce simp: justified_def)+

lemma plan_step_inv:
  assumes "plan_step ix rn st t" "plan_inv ix rn st"
    and inj: "inj_on identity (set (ix_snapshots ix @ ix_unscoped ix))"
  shows "plan_inv ix rn t"
  using assms(1)
proof cases
  case (conflict_step e a held)
  then show ?thesis
    by (intro plan_inv_append [OF assms(2) inj, of t a "{entry_key e}" "set held"])
      (auto simp: accounts_for_def)
next
  case (match_step e s b)
  then have "evidence ix rn t b e s" by (auto intro: evidence_mono)
  then show ?thesis using match_step
    by (intro plan_inv_append [OF assms(2) inj, of t "relocate_or_refresh e s b" "{entry_key e}" "{s}"])
      (auto simp: open_entry_def intro!: justifiedI)
next
  case (adopt_step e s)
  then have "evidence ix rn t DECLARED_UUID e s" by (auto intro: evidence_mono)
  then show ?thesis using adopt_step
    by (intro plan_inv_append [OF assms(2) inj, of t "adopt_action (snap_artifact_uuid s) e s"
          "{entry_key e}" "{s}"])
      (auto simp: open_entry_def intro!: justifiedI)
next
  case (attach_step e idn)
  then show ?thesis
    by (intro plan_inv_append [OF assms(2) inj, of t "attach_action (idn_artifact_uuid idn) e idn"
          "{entry_key e}" "{}"])
      (auto simp: open_entry_def intro!: justifiedI)
next
  case (register_step e ty status reason)
  then show ?thesis
    by (intro plan_inv_append [OF assms(2) inj, of t "register_action e ty status reason"
          "{entry_key e}" "{}"])
      (auto simp: open_entry_def intro!: justifiedI)
next
  case (hold_source_step s grp k)
  then show ?thesis
    by (intro plan_inv_append [OF assms(2) inj, of t "duplicate_locator_action k grp s" "{}" "{s}"])
      (auto simp: duplicate_locator_source_def append_action_def)
next
  case (hold_entry_step e)
  have "justified ix rn t d" if "justified ix rn st d" for d
    by (rule justified_mono [OF that]) (auto simp: hold_entry_step)
  moreover have "entry_key e \<in> action_key ` set (ps_actions st)"
    using hold_entry_step(3) by (metis image_eqI)
  ultimately show ?thesis using assms(2) hold_entry_step(1) unfolding plan_inv_def by auto
qed

lemma plan_steps_inv:
  assumes "(plan_step ix rn)\<^sup>*\<^sup>* plan_state_init t" "wf_index ix"
  shows "plan_inv ix rn t"
  using assms(1)
proof (induction rule: rtranclp_induct)
  case (step u v)
  then show ?case using plan_step_inv wf_indexD(4) [OF assms(2)] by blast
qed (rule plan_inv_init)

section \<open>The closing passes\<close>

definition unscoped_left_action :: "plan_index \<Rightarrow> source_snapshot \<Rightarrow> reconciliation_action" where
  "unscoped_left_action ix s =
     (action_of CONFLICT)
       \<lparr>act_conflict_kind := Some UNSCOPED_SOURCE_REPOSITORY,
        act_repository := ix_repository ix, act_medium := snap_medium s,
        act_old_path := snap_path s, act_source_uuid := snap_source_uuid s,
        act_source_identity := Some (identity s),
        act_artifact_uuid := Some (snap_artifact_uuid s),
        act_artifact_type := snap_artifact_type s,
        act_reason := Some ''unscoped_source_requires_repository_disposition''\<rparr>"

lemma unresolved_sources_exact:
  "plan_unresolved_sources ix st =
     st\<lparr>ps_actions := ps_actions st @ map unresolved_action
         (filter (\<lambda>s. snap_resolution_status s \<noteq> UNRESOLVED) (unclaimed_snapshots ix st))\<rparr>"
proof -
  have "fold unresolved_source xs u = u\<lparr>ps_actions := ps_actions u @ map unresolved_action
      (filter (\<lambda>s. snap_resolution_status s \<noteq> UNRESOLVED) xs)\<rparr>" for xs u
    by (induction xs arbitrary: u) (simp_all add: unresolved_source_def append_action_def)
  then show ?thesis by (simp add: plan_unresolved_sources_def)
qed

lemma remaining_unscoped_claims:
  "ps_claimed_entries (plan_remaining_unscoped_sources ix st) = ps_claimed_entries st"
  "ps_claimed_sources st \<subseteq> ps_claimed_sources (plan_remaining_unscoped_sources ix st)"
proof -
  have "ps_claimed_entries (fold (remaining_unscoped_source ix) xs u) = ps_claimed_entries u
      \<and> ps_claimed_sources u \<subseteq> ps_claimed_sources (fold (remaining_unscoped_source ix) xs u)" for xs u
  proof (induction xs arbitrary: u)
    case (Cons x xs)
    then show ?case
      using Cons.IH [of "remaining_unscoped_source ix x u"]
      by (simp add: remaining_unscoped_source_def append_action_def Let_def)
  qed simp
  then show "ps_claimed_entries (plan_remaining_unscoped_sources ix st) = ps_claimed_entries st"
    "ps_claimed_sources st \<subseteq> ps_claimed_sources (plan_remaining_unscoped_sources ix st)"
    by (auto simp: plan_remaining_unscoped_sources_def)
qed

lemma remaining_unscoped_exact:
  "ps_actions (plan_remaining_unscoped_sources ix st) =
     ps_actions st @ map (unscoped_left_action ix) (unclaimed_unscoped_snapshots ix st)"
proof -
  have "ps_actions (fold (remaining_unscoped_source ix) xs u) =
      ps_actions u @ map (unscoped_left_action ix) xs" for xs u
    by (induction xs arbitrary: u)
      (simp_all add: remaining_unscoped_source_def append_action_def unscoped_left_action_def Let_def)
  then show ?thesis by (simp add: plan_remaining_unscoped_sources_def)
qed

text \<open>After the registrations no scanned entry is left open.\<close>

lemma registration_claims:
  "registration_entry e st = Inr t \<Longrightarrow> ps_claimed_entries t = insert (entry_key e) (ps_claimed_entries st)"
  by (auto simp: registration_entry_def Let_def split: if_splits option.splits prod.splits)

lemma registrations_claim_all:
  assumes "plan_registrations ix st = Inr t"
  shows "entry_key ` set (ix_entries ix) \<subseteq> ps_claimed_entries t"
proof -
  have "foldM registration_entry xs u = Inr v
      \<Longrightarrow> ps_claimed_entries v = ps_claimed_entries u \<union> entry_key ` set xs" for xs u v
    by (induction xs arbitrary: u) (auto dest: registration_claims)
  from this [OF assms [unfolded plan_registrations_def]]
  show ?thesis by (auto simp: unclaimed_entries_def)
qed

section \<open>The whole run\<close>

lemma run_passes_decompose:
  assumes "wf_index ix" "run_passes ix renames repository = Inr t"
  obtains u where "(plan_step ix (scoped_renames repository renames))\<^sup>*\<^sup>* plan_state_init u"
    and "entry_key ` set (ix_entries ix) \<subseteq> ps_claimed_entries u"
    and "ps_actions t = ps_actions u
      @ map unresolved_action (filter (\<lambda>s. snap_resolution_status s \<noteq> UNRESOLVED) (unclaimed_snapshots ix u))
      @ map (unscoped_left_action ix) (unclaimed_unscoped_snapshots ix u)"
    and "ps_claimed_entries u \<subseteq> ps_claimed_entries t" "ps_claimed_sources u \<subseteq> ps_claimed_sources t"
proof -
  let ?step = "plan_step ix (scoped_renames repository renames)"
  note ix = wf_indexD(1,2) [OF assms(1)]
  let ?st1 = "plan_duplicate_locators ix plan_state_init"
  from assms(2) obtain st2 st3 st4 st7 where
    2: "plan_declared_uuids ix ?st1 = Inr st2" and
    3: "plan_unscoped_path_conflicts ix st2 = Inr st3" and
    4: "plan_git_renames ix renames repository st3 = Inr st4" and
    7: "plan_registrations ix (plan_hash_matches ix (plan_exact_locators ix st4)) = Inr st7" and
    t: "t = plan_remaining_unscoped_sources ix (plan_unresolved_sources ix st7)"
    unfolding run_passes_def by auto
  have "?step\<^sup>*\<^sup>* plan_state_init ?st1" by (rule duplicate_pass_steps [OF assms(1)])
  also have "?step\<^sup>*\<^sup>* ?st1 st2" by (rule declared_pass_steps [OF assms(1) 2])
  also have "?step\<^sup>*\<^sup>* st2 st3"
    by (rule unscoped_paths.pass_steps [OF ix 3 [unfolded plan_unscoped_path_conflicts_def]])
  also have "?step\<^sup>*\<^sup>* st3 st4"
    by (rule git_renames.pass_steps [OF ix 4 [unfolded plan_git_renames_def]])
  also have "?step\<^sup>*\<^sup>* st4 (plan_exact_locators ix st4)"
    by (rule exact_locators.pass_steps [OF ix]) (simp add: foldM_pure plan_exact_locators_def)
  also have "?step\<^sup>*\<^sup>* (plan_exact_locators ix st4) (plan_hash_matches ix (plan_exact_locators ix st4))"
    by (rule hash_pass_steps [OF assms(1)])
  also have "?step\<^sup>*\<^sup>* (plan_hash_matches ix (plan_exact_locators ix st4)) st7"
    by (rule registrations.pass_steps [OF ix 7 [unfolded plan_registrations_def]])
  finally have "?step\<^sup>*\<^sup>* plan_state_init st7" .
  moreover have "unclaimed_unscoped_snapshots ix (plan_unresolved_sources ix st7)
      = unclaimed_unscoped_snapshots ix st7"
    by (simp add: unresolved_sources_exact unclaimed_unscoped_snapshots_def)
  ultimately show ?thesis
    using that [of st7] registrations_claim_all [OF 7]
      remaining_unscoped_claims(2) [of "plan_unresolved_sources ix st7" ix]
    by (simp add: t remaining_unscoped_exact remaining_unscoped_claims(1))
      (simp add: unresolved_sources_exact)
qed

section \<open>The report\<close>

lemma unresolved_shapes [simp]:
  "act_kind (unresolved_action s) = MARK_SOURCE_UNRESOLVED"
  "act_source_identity (unresolved_action s) = Some (identity s)"
  "act_kind (unscoped_left_action ix s) = CONFLICT"
  "accounts_for (unresolved_action s) s" "accounts_for (unscoped_left_action ix s) s"
  by (simp_all add: unresolved_action_def unscoped_left_action_def accounts_for_def names_source_def)

lemma justified_kind: "justified ix rn st a \<Longrightarrow> act_kind a \<noteq> MARK_SOURCE_UNRESOLVED"
  by (auto simp: justified_def)

lemma plan_reconciliation_Inr:
  "plan_reconciliation digest_of q = Inr r \<longleftrightarrow>
     (\<exists>t. run_passes (request_index q) (req_renames q) (req_repository q) = Inr t
        \<and> rep_actions r = sort_key action_sort_key (ps_actions t)
        \<and> rep_contradictions r = lane_contradictions (request_index q) t
        \<and> plan_reconciliation digest_of q = Inr r)"
  unfolding plan_reconciliation_def Let_def by (auto simp: bind_result_def split: sum.splits)

lemma request_index_simps [simp]:
  "ix_entries (request_index q) = scoped_entries (req_repository q) (req_entries q)"
  "ix_snapshots (request_index q) = scoped_snapshots (req_repository q) (req_snapshots q)"
  "ix_unscoped (request_index q) = req_unscoped q"
  "ix_identities (request_index q) = req_identities q"
  by (simp_all add: request_index_def plan_index_of_def)

definition closing_actions :: "plan_index \<Rightarrow> plan_state \<Rightarrow> reconciliation_action list" where
  "closing_actions ix u =
     map unresolved_action (filter (\<lambda>s. snap_resolution_status s \<noteq> UNRESOLVED) (unclaimed_snapshots ix u))
     @ map (unscoped_left_action ix) (unclaimed_unscoped_snapshots ix u)"

lemma report_decompose:
  assumes "wf_index (request_index q)" "plan_reconciliation digest_of q = Inr r"
  obtains u t where "plan_inv (request_index q) (scoped_renames (req_repository q) (req_renames q)) u"
    and "entry_key ` set (ix_entries (request_index q)) \<subseteq> ps_claimed_entries u"
    and "rep_actions r = sort_key action_sort_key (ps_actions u @ closing_actions (request_index q) u)"
    and "run_passes (request_index q) (req_renames q) (req_repository q) = Inr t"
    and "ps_claimed_entries u \<subseteq> ps_claimed_entries t" "ps_claimed_sources u \<subseteq> ps_claimed_sources t"
proof -
  from assms(2) obtain t where t: "run_passes (request_index q) (req_renames q) (req_repository q) = Inr t"
    "rep_actions r = sort_key action_sort_key (ps_actions t)"
    by (subst (asm) plan_reconciliation_Inr) blast
  show ?thesis
    by (rule run_passes_decompose [OF assms(1) t(1)])
      (rule that, erule plan_steps_inv [OF _ assms(1)], assumption,
        simp add: t(2) closing_actions_def, rule t(1), assumption, assumption)
qed

lemma decisions_append [simp]:
  "decisions (as @ bs) = decisions as @ decisions bs"
  "source_decisions (as @ bs) = source_decisions as @ source_decisions bs"
  by (simp_all add: decisions_def source_decisions_def)

lemma decisions_closing [simp]:
  "decisions (map unresolved_action xs) = map unresolved_action xs"
  "source_decisions (map unresolved_action xs) = map unresolved_action xs"
  "decisions (map (unscoped_left_action ix) ys) = []"
  "source_decisions (map (unscoped_left_action ix) ys) = []"
  by (auto simp: decisions_def source_decisions_def filter_empty_conv filter_id_conv)

lemma distinct_map_filter_sort [simp]:
  "distinct (map f (decisions (sort_key g xs))) = distinct (map f (decisions xs))"
  "distinct (map f (source_decisions (sort_key g xs))) = distinct (map f (source_decisions xs))"
  by (auto simp: decisions_def source_decisions_def filter_sort simp flip: filter_filter)

lemma set_decisions [simp]:
  "set (decisions xs) = {a \<in> set xs. act_kind a \<noteq> CONFLICT}"
  by (auto simp: decisions_def)

lemma disjoint_claimed: "A \<subseteq> Some ` C \<Longrightarrow> (\<And>x. x \<in> L \<Longrightarrow> f x \<notin> C) \<Longrightarrow> A \<inter> Some ` f ` L = {}"
  by auto

lemma report_sources_once:
  assumes "wf_index (request_index q)" "plan_reconciliation digest_of q = Inr r"
  shows "distinct (map act_source_identity (source_decisions (rep_actions r)))"
proof (rule report_decompose [OF assms])
  fix u t
  assume inv: "plan_inv (request_index q) (scoped_renames (req_repository q) (req_renames q)) u"
    and r: "rep_actions r = sort_key action_sort_key (ps_actions u @ closing_actions (request_index q) u)"
  define left where "left = filter (\<lambda>s. snap_resolution_status s \<noteq> UNRESOLVED)
    (unclaimed_snapshots (request_index q) u)"
  let ?u = "source_decisions (ps_actions u)"
  have "distinct (map identity left)"
    unfolding left_def unclaimed_snapshots_def
    by (intro distinct_map_filter wf_indexD(3) [OF assms(1)])
  then have left: "distinct (map Some (map identity left))" by (subst distinct_map) auto
  have "act_source_identity ` set ?u \<inter> Some ` identity ` set left = {}"
    by (rule disjoint_claimed [OF plan_invD(4) [OF inv]]) (simp add: unclaimed_snapshots_def left_def)
  with left plan_invD(3) [OF inv] have "distinct (map act_source_identity ?u @ map Some (map identity left))"
    by (simp only: distinct_append set_map)
  also have "map act_source_identity ?u @ map Some (map identity left) =
      map act_source_identity (source_decisions (ps_actions u @ closing_actions (request_index q) u))"
    by (simp add: o_def closing_actions_def left_def)
  finally show ?thesis unfolding r distinct_map_filter_sort .
qed

text \<open>
  C2: no source is decided twice. In every report, at most one action that is not a conflict
  (a match, an adoption, or an unresolved mark) carries a given source identity.
\<close>

theorem plan_decides_each_source_once:
  assumes "wf_index (request_index q)" "plan_reconciliation digest_of q = Inr r"
  shows "distinct (map act_source_identity (source_decisions (rep_actions r)))"
  by (rule report_sources_once [OF assms])

lemma written_decisions:
  assumes "plan_inv ix rn u"
  shows "filter (\<lambda>a. act_kind a \<noteq> MARK_SOURCE_UNRESOLVED)
      (decisions (ps_actions u @ closing_actions ix u)) = decisions (ps_actions u)"
proof -
  have "filter (\<lambda>a. act_kind a \<noteq> MARK_SOURCE_UNRESOLVED) (decisions (ps_actions u))
      = decisions (ps_actions u)"
    using justified_kind [OF plan_invD(7) [OF assms]] by (simp add: filter_id_conv del: set_decisions)
  then show ?thesis by (simp add: closing_actions_def filter_empty_conv)
qed

text \<open>
  C8: no two decisions write the same document. Among the matches, adoptions, attachments
  and registrations of a report, each scanned locator is the destination of at most one.
\<close>

theorem plan_destinations_distinct:
  assumes "wf_index (request_index q)" "plan_reconciliation digest_of q = Inr r"
  shows "distinct (map action_key
      (filter (\<lambda>a. act_kind a \<noteq> MARK_SOURCE_UNRESOLVED) (decisions (rep_actions r))))"
proof (rule report_decompose [OF assms])
  fix u t
  assume inv: "plan_inv (request_index q) (scoped_renames (req_repository q) (req_renames q)) u"
    and r: "rep_actions r = sort_key action_sort_key (ps_actions u @ closing_actions (request_index q) u)"
  have "filter (\<lambda>a. act_kind a \<noteq> MARK_SOURCE_UNRESOLVED) (decisions (rep_actions r))
      = sort_key action_sort_key (decisions (ps_actions u))"
    unfolding r decisions_def filter_sort [symmetric]
    using written_decisions [OF inv] by (simp add: decisions_def filter_sort)
  then show ?thesis using plan_invD(1) [OF inv] by simp
qed

lemma report_settles_entry:
  assumes "wf_index (request_index q)" "plan_reconciliation digest_of q = Inr r"
    and "e \<in> set (req_entries q)" "ent_repository e = req_repository q"
  shows "\<exists>a \<in> set (rep_actions r). act_kind a \<noteq> MARK_SOURCE_UNRESOLVED \<and> action_key a = entry_key e"
proof (rule report_decompose [OF assms(1,2)])
  fix u t
  assume inv: "plan_inv (request_index q) (scoped_renames (req_repository q) (req_renames q)) u"
    and all: "entry_key ` set (ix_entries (request_index q)) \<subseteq> ps_claimed_entries u"
    and r: "rep_actions r = sort_key action_sort_key (ps_actions u @ closing_actions (request_index q) u)"
  have "e \<in> set (ix_entries (request_index q))" using assms(3,4) by (simp add: scoped_entries_def)
  then have "entry_key e \<in> action_key ` set (ps_actions u)"
    using all plan_invD(5) [OF inv] by blast
  then obtain a where a: "a \<in> set (ps_actions u)" "action_key a = entry_key e" by auto
  have "act_kind a \<noteq> MARK_SOURCE_UNRESOLVED"
  proof (cases "act_kind a = CONFLICT")
    case False
    then show ?thesis using a(1) by (intro justified_kind [OF plan_invD(7) [OF inv]]) simp
  qed simp
  then show ?thesis using a unfolding r by auto
qed

text \<open>
  C23: nothing the scan found is dropped. Every entry of the repository has an action at its
  locator: it was matched, adopted, attached or registered, or a conflict reports it.
\<close>

theorem plan_settles_every_entry:
  assumes "wf_index (request_index q)" "plan_reconciliation digest_of q = Inr r"
    and "e \<in> set (req_entries q)" "ent_repository e = req_repository q"
  shows "\<exists>a \<in> set (rep_actions r). act_kind a \<noteq> MARK_SOURCE_UNRESOLVED \<and> action_key a = entry_key e"
  by (rule report_settles_entry [OF assms])

text \<open>
  C29: no source record is dropped either. For every source of the repository, and every
  unscoped source under consideration, the report has a decision that carries its identity or
  a conflict that names it; the only sources it passes over are those already recorded as
  unresolved.
\<close>

theorem plan_accounts_for_every_source:
  assumes "wf_index (request_index q)" "plan_reconciliation digest_of q = Inr r"
    and "s \<in> set (scoped_snapshots (req_repository q) (req_snapshots q) @ req_unscoped q)"
    and "snap_resolution_status s \<noteq> UNRESOLVED"
  shows "\<exists>a \<in> set (rep_actions r). accounts_for a s"
proof (rule report_decompose [OF assms(1,2)])
  fix u t
  assume inv: "plan_inv (request_index q) (scoped_renames (req_repository q) (req_renames q)) u"
    and r: "rep_actions r = sort_key action_sort_key (ps_actions u @ closing_actions (request_index q) u)"
  show ?thesis
  proof (cases "identity s \<in> ps_claimed_sources u")
    case True
    then show ?thesis using plan_invD(6) [OF inv] assms(3) r by fastforce
  next
    case False
    then have "unresolved_action s \<in> set (closing_actions (request_index q) u)
        \<or> unscoped_left_action (request_index q) s \<in> set (closing_actions (request_index q) u)"
      using assms(3,4)
      by (auto simp: closing_actions_def unclaimed_snapshots_def unclaimed_unscoped_snapshots_def)
    then show ?thesis using r by (auto intro: rev_bexI)
  qed
qed

lemma report_justified:
  assumes "wf_index (request_index q)" "plan_reconciliation digest_of q = Inr r"
    and "a \<in> set (rep_actions r)" "act_kind a \<notin> {CONFLICT, MARK_SOURCE_UNRESOLVED}"
  shows "\<exists>st. run_passes (request_index q) (req_renames q) (req_repository q) = Inr st
    \<and> justified (request_index q) (scoped_renames (req_repository q) (req_renames q)) st a"
proof (rule report_decompose [OF assms(1,2)])
  fix u t
  assume inv: "plan_inv (request_index q) (scoped_renames (req_repository q) (req_renames q)) u"
    and r: "rep_actions r = sort_key action_sort_key (ps_actions u @ closing_actions (request_index q) u)"
    and t: "run_passes (request_index q) (req_renames q) (req_repository q) = Inr t"
    and grow: "ps_claimed_entries u \<subseteq> ps_claimed_entries t" "ps_claimed_sources u \<subseteq> ps_claimed_sources t"
  have "a \<in> set (filter (\<lambda>a. act_kind a \<noteq> MARK_SOURCE_UNRESOLVED)
      (decisions (ps_actions u @ closing_actions (request_index q) u)))"
    using assms(3,4) r by simp
  then have "a \<in> set (decisions (ps_actions u))" unfolding written_decisions [OF inv] .
  then show ?thesis using justified_mono [OF plan_invD(7) [OF inv] grow] t by blast
qed

text \<open>
  C16: a decision rests on the evidence its basis claims. A decision that ties a document to a
  source of the repository is \<open>relocate_or_refresh\<close> of that pair, and the pair satisfies the
  evidence of the basis: the same declared UUID and medium without metadata errors, the same
  locator, one recorded rename from the source's path to the document's that no other rename
  shares an end with, or the same content hash with the source's path gone from disk and no
  other such source or undeclared document left unsettled.
  Otherwise the decision adopts an unscoped source of the declared UUID, attaches a document
  to the source-less artifact it declares, or registers a document of known type
  in the status it declares, its header says, or its type starts in.
\<close>

theorem plan_decisions_justified:
  assumes "wf_index (request_index q)" "plan_reconciliation digest_of q = Inr r"
    and "a \<in> set (rep_actions r)" "act_kind a \<notin> {CONFLICT, MARK_SOURCE_UNRESOLVED}"
  shows "\<exists>st. run_passes (request_index q) (req_renames q) (req_repository q) = Inr st
    \<and> justified (request_index q) (scoped_renames (req_repository q) (req_renames q)) st a"
  by (rule report_justified [OF assms])

end
