(* ===== verification/Reconciliation_Report.thy ===== *)
theory Reconciliation_Report
  imports Reconciliation_Safety
begin

text \<open>
  What a caller can rely on besides safety: when the planner returns and the one way it
  raises, the conditions of a content match, independence of the order of its inputs, and
  examples that run the whole planner.
\<close>

section \<open>Returning and raising\<close>

lemma foldM_Inl:
  "foldM f xs s = Inl err \<Longrightarrow> \<exists>x \<in> set xs. \<exists>u. f x u = Inl err"
proof (induction xs arbitrary: s)
  case (Cons x xs)
  then show ?case by (cases "f x s") auto
qed simp

lemma reserve_conflict_total [simp]:
  "act_kind a = CONFLICT \<Longrightarrow> reserve_conflict a e xs st \<noteq> Inl err"
  by (simp add: reserve_conflict_def)

lemma unscoped_path_total [simp]: "unscoped_path_entry ix e st \<noteq> Inl err"
  by (simp add: unscoped_path_entry_def Let_def)

lemma git_rename_total [simp]: "git_rename_entry ix rn e st \<noteq> Inl err"
  by (simp add: git_rename_entry_def Let_def split: list.splits)

lemma adopt_unscoped_total [simp]: "adopt_unscoped ix uuid e s st \<noteq> Inl err"
  by (simp add: adopt_unscoped_def Let_def)

lemma declared_uuid_total [simp]: "declared_uuid_entry ix uuid e st \<noteq> Inl err"
  by (simp add: declared_uuid_entry_def Let_def split: list.splits)

lemma declared_uuid_group_total [simp]: "declared_uuid_group ix ug st \<noteq> Inl err"
  by (simp add: declared_uuid_group_def split: list.splits prod.splits)

lemma registration_raises:
  assumes "registration_entry e st = Inl err"
  obtains ty where "effective_type e = Some ty" "ty \<notin> set ARTIFACT_TYPES" "err = KeyError ty"
    "ent_metadata_errors e = []"
  using assms INITIAL_STATUS_eq_None_iff
  by (auto simp: registration_entry_def Let_def bind_result_def
      split: if_splits option.splits prod.splits sum.splits)

lemma run_passes_raises:
  assumes "run_passes ix renames repository = Inl err"
  obtains e ty where "e \<in> set (ix_entries ix)" "effective_type e = Some ty"
    "ty \<notin> set ARTIFACT_TYPES" "err = KeyError ty" "ent_metadata_errors e = []"
proof -
  have raises: "foldM f xs s \<noteq> Inl err" if "\<And>x u. f x u \<noteq> Inl err"
    for f :: "'i \<Rightarrow> plan_state \<Rightarrow> plan_state result" and xs s
    using that foldM_Inl by metis
  have quiet: "plan_declared_uuids ix st \<noteq> Inl err" "plan_unscoped_path_conflicts ix st \<noteq> Inl err"
    "plan_git_renames ix renames repository st \<noteq> Inl err" for st
    unfolding plan_declared_uuids_def plan_unscoped_path_conflicts_def plan_git_renames_def
    by (intro raises; simp)+
  from assms obtain st where "plan_registrations ix st = Inl err"
    unfolding run_passes_def bind_result_def using quiet by (auto split: sum.splits)
  then obtain e st' where e: "e \<in> set (unclaimed_entries ix st)" "registration_entry e st' = Inl err"
    unfolding plan_registrations_def by (blast dest: foldM_Inl)
  from e(1) have "e \<in> set (ix_entries ix)" by (simp add: unclaimed_entries_def)
  with registration_raises [OF e(2)] show ?thesis using that by blast
qed

text \<open>
  C34: the planner always returns a report, unless a scanned document without metadata errors
  has an artifact type outside the vocabulary, and then the only exception is the
  \<^verbatim>\<open>KeyError\<close> of the initial-status lookup for that type.
\<close>

theorem plan_returns_or_unknown_type:
  "(\<exists>r. plan_reconciliation digest_of q = Inr r)
   \<or> (\<exists>e \<in> set (req_entries q). \<exists>ty. ent_repository e = req_repository q
        \<and> effective_type e = Some ty \<and> ty \<notin> set ARTIFACT_TYPES \<and> ent_metadata_errors e = []
        \<and> plan_reconciliation digest_of q = Inl (KeyError ty))"
proof (cases "run_passes (request_index q) (req_renames q) (req_repository q)")
  case (Inl err)
  from run_passes_raises [OF this] obtain e ty where
    "e \<in> set (ix_entries (request_index q))" "effective_type e = Some ty"
    "ty \<notin> set ARTIFACT_TYPES" "err = KeyError ty" "ent_metadata_errors e = []" .
  then show ?thesis
    using Inl by (auto simp: plan_reconciliation_def scoped_entries_def)
qed (simp add: plan_reconciliation_def Let_def)

section \<open>Content matches\<close>

lemma hash_group_new_decisions:
  assumes "a \<in> set (ps_actions (hash_body ix st0 (d, g) st))" "act_kind a \<noteq> CONFLICT"
    and "g = filter (\<lambda>e. ent_integrity e = d) (hash_entries ix st0)"
  shows "a \<in> set (ps_actions st) \<or> (\<exists>e s. a = relocate_or_refresh e s UNIQUE_CONTENT_SHA256
    \<and> filter (\<lambda>e'. ent_integrity e' = d) (hash_entries ix st0) = [e]
    \<and> filter (\<lambda>s'. or_empty (snap_integrity s') = d) (hash_sources ix st0) = [s])"
proof -
  have conflicts: "a \<in> set (ps_actions (fold (\<lambda>e. claim (ambiguous_content_action g ss e) (Some e) None) xs u))
      \<Longrightarrow> a \<in> set (ps_actions u)" for ss xs u
  proof (induction xs arbitrary: u)
    case (Cons x xs)
    have "a \<in> set (ps_actions (claim (ambiguous_content_action g ss x) (Some x) None u))"
      by (rule Cons.IH) (use Cons.prems in simp)
    then show ?case using assms(2) by (auto simp: ambiguous_content_action_def)
  qed simp
  show ?thesis
  proof (cases rule: hash_body_cases [of ix st0 d g st])
    case (2 e s)
    then have "filter (\<lambda>e'. ent_integrity e' = d) (hash_entries ix st0) = [e]"
      using assms(3) by (simp only:)
    moreover have "a = relocate_or_refresh e s UNIQUE_CONTENT_SHA256 \<or> a \<in> set (ps_actions st)"
      using assms(1) unfolding 2(3) by auto
    ultimately show ?thesis using 2(2) by blast
  next
    case 3
    show ?thesis using conflicts [OF assms(1) [unfolded 3]] by blast
  qed (use assms(1) in simp)
qed

text \<open>
  C36: a content match is made only when it is unambiguous. If the hash pass takes a decision,
  it ties a document to a source with the same hash, exactly one unclaimed document without a
  declared UUID has that hash when the pass starts, and exactly one unclaimed source whose
  recorded path is gone from disk.
\<close>

theorem hash_match_unambiguous:
  assumes "a \<in> set (ps_actions (plan_hash_matches ix st))" "a \<notin> set (ps_actions st)"
    and "act_kind a \<noteq> CONFLICT"
  shows "\<exists>e s. a = relocate_or_refresh e s UNIQUE_CONTENT_SHA256
    \<and> snap_integrity s = Some (ent_integrity e) \<and> gone_from_disk ix s
    \<and> filter (\<lambda>e'. ent_integrity e' = ent_integrity e) (hash_entries ix st) = [e]
    \<and> filter (\<lambda>s'. snap_integrity s' = snap_integrity s) (hash_sources ix st) = [s]"
proof -
  have "a \<in> set (ps_actions u) \<or> (\<exists>d e s. a = relocate_or_refresh e s UNIQUE_CONTENT_SHA256
      \<and> filter (\<lambda>e'. ent_integrity e' = d) (hash_entries ix st) = [e]
      \<and> filter (\<lambda>s'. or_empty (snap_integrity s') = d) (hash_sources ix st) = [s])"
    if "a \<in> set (ps_actions (fold (hash_body ix st) gs u))"
      "set gs \<subseteq> set (group_by ent_integrity (hash_entries ix st))" for gs u
    using that
  proof (induction gs arbitrary: u)
    case (Cons dg gs)
    have "(fst dg, snd dg) \<in> set (group_by ent_integrity (hash_entries ix st))"
      using Cons.prems(2) by simp
    from in_group_by(1) [OF this]
    have g: "snd dg = filter (\<lambda>e. ent_integrity e = fst dg) (hash_entries ix st)" .
    show ?case
      using Cons.IH [of "hash_body ix st dg u"] Cons.prems
        hash_group_new_decisions [of a ix st "fst dg" "snd dg" u, OF _ assms(3) g] by auto
  qed simp
  from this [of "sort_key fst (group_by ent_integrity (hash_entries ix st))" st] assms(1,2)
  obtain d e s where a: "a = relocate_or_refresh e s UNIQUE_CONTENT_SHA256"
    and e: "filter (\<lambda>e'. ent_integrity e' = d) (hash_entries ix st) = [e]"
    and s: "filter (\<lambda>s'. or_empty (snap_integrity s') = d) (hash_sources ix st) = [s]"
    by (auto simp: plan_hash_matches_def)
  have d: "ent_integrity e = d" using filter_single [OF e] by simp
  have sin: "s \<in> set (hash_sources ix st)" "or_empty (snap_integrity s) = d"
    using filter_single [OF s] by auto
  have i: "snap_integrity s' = Some d \<longleftrightarrow> or_empty (snap_integrity s') = d"
    if "s' \<in> set (hash_sources ix st)" for s'
    using that by (auto simp: in_hash_sources dest: truthy_eq_or_empty)
  have "filter (\<lambda>s'. snap_integrity s' = Some d) (hash_sources ix st) = [s]"
    using s i by (metis (mono_tags, lifting) filter_cong)
  moreover have "snap_integrity s = Some d" using i sin by blast
  moreover have "gone_from_disk ix s" using sin(1) by (simp add: in_hash_sources)
  ultimately show ?thesis
    using a e d by (intro exI [of _ e] exI [of _ s]) simp
qed

section \<open>The order of the inputs does not matter\<close>

text \<open>
  the report does not depend on the order in which the scan lists documents and the graph
  lists sources, when no two scanned documents of the repository share a path and no two of
  its sources share a path and an owner.
\<close>

theorem plan_order_independent:
  assumes "mset (req_entries p) = mset (req_entries q)"
    and "mset (req_snapshots p) = mset (req_snapshots q)"
    and "inj_on ent_path {e \<in> set (req_entries p). ent_repository e = req_repository p}"
    and "inj_on (\<lambda>s. (or_empty (snap_path s), snap_artifact_uuid s))
      {s \<in> set (req_snapshots p). or_empty (snap_repository s) = req_repository p}"
    and "q = p\<lparr>req_entries := es, req_snapshots := ss\<rparr>"
  shows "plan_reconciliation digest_of p = plan_reconciliation digest_of q"
proof -
  have "scoped_entries (req_repository p) (req_entries p) = scoped_entries (req_repository p) (req_entries q)"
    unfolding scoped_entries_def
    by (rule sort_key_perm_eq) (use assms(1,3) in \<open>simp_all add: mset_filter\<close>)
  moreover have "scoped_snapshots (req_repository p) (req_snapshots p) =
      scoped_snapshots (req_repository p) (req_snapshots q)"
    unfolding scoped_snapshots_def
    by (rule sort_key_perm_eq) (use assms(2,4) in \<open>simp_all add: mset_filter\<close>)
  moreover have "req_repository q = req_repository p" "req_unscoped q = req_unscoped p"
    "req_identities q = req_identities p" "req_renames q = req_renames p"
    "req_observed_commit q = req_observed_commit p" "req_cursor_commit q = req_cursor_commit p"
    "req_evidence_from_commit q = req_evidence_from_commit p"
    "req_evidence_base_valid q = req_evidence_base_valid p"
    using assms(5) by simp_all
  ultimately show ?thesis by (simp add: plan_reconciliation_def request_index_def)
qed

section \<open>Examples\<close>

definition sample_entry :: "string \<Rightarrow> string \<Rightarrow> corpus_entry" where
  "sample_entry path digest =
     \<lparr>ent_repository = ''menhir'', ent_path = path, ent_medium = ''markdown'', ent_lane = ACTIVE,
      ent_integrity = digest, ent_size_bytes = 12, ent_route_type = Some PLAN,
      ent_preserve_existing_type = False, ent_requires_declared_type = False,
      ent_declared_uuid = None, ent_declared_type = None, ent_declared_status = None,
      ent_raw_status_header = None, ent_title = None, ent_title_from_h1 = False,
      ent_version = None, ent_version_kind = None, ent_metadata_errors = []\<rparr>"

definition sample_snapshot :: "string \<Rightarrow> string \<Rightarrow> string \<Rightarrow> source_snapshot" where
  "sample_snapshot uuid path digest =
     \<lparr>snap_artifact_uuid = uuid, snap_medium = ''markdown'', snap_source_uuid = Some (''s-'' @ uuid),
      snap_artifact_type = Some PLAN, snap_repository = Some ''menhir'', snap_path = Some path,
      snap_integrity = Some digest, snap_version = None, snap_version_kind = None,
      snap_lane = Some ACTIVE, snap_resolution_status = RESOLVED, snap_title = None,
      snap_status = Some PROPOSED, snap_schema_version = Some 2\<rparr>"

definition sample_request :: plan_request where
  "sample_request =
     \<lparr>req_repository = ''menhir'',
      req_entries = [sample_entry ''b.md'' ''h2'', sample_entry ''a.md'' ''h1'', sample_entry ''c.md'' ''h3''],
      req_snapshots = [sample_snapshot ''u1'' ''a.md'' ''h0'', sample_snapshot ''u2'' ''old.md'' ''h2'',
        sample_snapshot ''u4'' ''gone.md'' ''h4''],
      req_unscoped = [], req_identities = [], req_renames = [], req_observed_commit = None,
      req_cursor_commit = None, req_evidence_from_commit = None, req_evidence_base_valid = True\<rparr>"

lemma sample_run:
  "map_sum id (\<lambda>r. map (\<lambda>a. (act_kind a, act_basis a, act_path a)) (rep_actions r))
     (plan_reconciliation (\<lambda>_. []) sample_request) =
   Inr [(MARK_SOURCE_UNRESOLVED, BASIS_NONE, Some ''gone.md''),
        (REFRESH_SOURCE, EXACT_LOCATOR, Some ''a.md''),
        (REGISTER_ARTIFACT, BASIS_NONE, Some ''c.md''),
        (RELOCATE_SOURCE, UNIQUE_CONTENT_SHA256, Some ''b.md'')]"
  by code_simp

lemma sample_wf: "wf_index (request_index sample_request)"
  by code_simp

lemma sample_returns:
  obtains r where "plan_reconciliation (\<lambda>_. []) sample_request = Inr r"
    "map (\<lambda>a. (act_kind a, act_basis a, act_path a)) (rep_actions r) =
     [(MARK_SOURCE_UNRESOLVED, BASIS_NONE, Some ''gone.md''),
      (REFRESH_SOURCE, EXACT_LOCATOR, Some ''a.md''),
      (REGISTER_ARTIFACT, BASIS_NONE, Some ''c.md''),
      (RELOCATE_SOURCE, UNIQUE_CONTENT_SHA256, Some ''b.md'')]"
  using sample_run by (cases "plan_reconciliation (\<lambda>_. []) sample_request") auto

theorem plan_decides_each_source_once_witness:
  "\<exists>r. plan_reconciliation (\<lambda>_. []) sample_request = Inr r
     \<and> distinct (map act_source_identity (source_decisions (rep_actions r)))"
  using sample_returns plan_decides_each_source_once [OF sample_wf] by metis

theorem plan_destinations_distinct_witness:
  "\<exists>r. plan_reconciliation (\<lambda>_. []) sample_request = Inr r \<and> distinct (map action_key
      (filter (\<lambda>a. act_kind a \<noteq> MARK_SOURCE_UNRESOLVED) (decisions (rep_actions r))))"
  using sample_returns plan_destinations_distinct [OF sample_wf] by metis

theorem plan_settles_every_entry_witness:
  "\<exists>r. plan_reconciliation (\<lambda>_. []) sample_request = Inr r
     \<and> (\<exists>a \<in> set (rep_actions r). act_kind a \<noteq> MARK_SOURCE_UNRESOLVED
          \<and> action_key a = entry_key (sample_entry ''c.md'' ''h3''))"
proof -
  obtain r where r: "plan_reconciliation (\<lambda>_. []) sample_request = Inr r"
    using sample_returns by metis
  have "sample_entry ''c.md'' ''h3'' \<in> set (req_entries sample_request)"
    "ent_repository (sample_entry ''c.md'' ''h3'') = req_repository sample_request"
    by (simp_all add: sample_request_def sample_entry_def)
  from plan_settles_every_entry [OF sample_wf r this] r show ?thesis by blast
qed

theorem plan_accounts_for_every_source_witness:
  "\<exists>r. plan_reconciliation (\<lambda>_. []) sample_request = Inr r
     \<and> (\<exists>a \<in> set (rep_actions r). accounts_for a (sample_snapshot ''u4'' ''gone.md'' ''h4''))"
proof -
  obtain r where r: "plan_reconciliation (\<lambda>_. []) sample_request = Inr r"
    using sample_returns by metis
  have "sample_snapshot ''u4'' ''gone.md'' ''h4''
      \<in> set (scoped_snapshots (req_repository sample_request) (req_snapshots sample_request)
          @ req_unscoped sample_request)"
    "snap_resolution_status (sample_snapshot ''u4'' ''gone.md'' ''h4'') \<noteq> UNRESOLVED"
    by (simp_all add: sample_request_def sample_snapshot_def scoped_snapshots_def
        RESOLVED_def UNRESOLVED_def)
  from plan_accounts_for_every_source [OF sample_wf r this] r show ?thesis by blast
qed

theorem plan_decisions_justified_witness:
  "\<exists>r a st. plan_reconciliation (\<lambda>_. []) sample_request = Inr r \<and> a \<in> set (rep_actions r)
     \<and> act_basis a = UNIQUE_CONTENT_SHA256
     \<and> run_passes (request_index sample_request) [] ''menhir'' = Inr st
     \<and> justified (request_index sample_request) [] st a"
proof -
  obtain r where r: "plan_reconciliation (\<lambda>_. []) sample_request = Inr r"
    and acts: "map (\<lambda>a. (act_kind a, act_basis a, act_path a)) (rep_actions r) =
     [(MARK_SOURCE_UNRESOLVED, BASIS_NONE, Some ''gone.md''),
      (REFRESH_SOURCE, EXACT_LOCATOR, Some ''a.md''),
      (REGISTER_ARTIFACT, BASIS_NONE, Some ''c.md''),
      (RELOCATE_SOURCE, UNIQUE_CONTENT_SHA256, Some ''b.md'')]"
    by (rule sample_returns)
  from acts have "(RELOCATE_SOURCE, UNIQUE_CONTENT_SHA256, Some ''b.md'')
      \<in> set (map (\<lambda>a. (act_kind a, act_basis a, act_path a)) (rep_actions r))" by simp
  then obtain a where a: "a \<in> set (rep_actions r)" "act_kind a = RELOCATE_SOURCE"
    "act_basis a = UNIQUE_CONTENT_SHA256" by auto
  have "scoped_renames (req_repository sample_request) (req_renames sample_request) = []"
    "req_renames sample_request = []" "req_repository sample_request = ''menhir''"
    by (simp_all add: scoped_renames_def sample_request_def)
  then show ?thesis
    using plan_decisions_justified [OF sample_wf r a(1)] a r by auto
qed

theorem hash_match_unambiguous_witness:
  "\<exists>e s. snap_integrity s = Some (ent_integrity e)
     \<and> filter (\<lambda>e'. ent_integrity e' = ent_integrity e)
         (hash_entries (request_index sample_request) plan_state_init) = [e]
     \<and> filter (\<lambda>s'. snap_integrity s' = snap_integrity s)
         (hash_sources (request_index sample_request) plan_state_init) = [s]"
proof -
  let ?t = "plan_hash_matches (request_index sample_request) plan_state_init"
  have "\<exists>a \<in> set (ps_actions ?t). act_kind a \<noteq> CONFLICT" by code_simp
  then obtain a where a: "a \<in> set (ps_actions ?t)" "act_kind a \<noteq> CONFLICT" by (elim bexE)
  have "a \<notin> set (ps_actions plan_state_init)" by (simp add: plan_state_init_def)
  from hash_match_unambiguous [OF a(1) this a(2)] show ?thesis
    by (elim exE conjE) (rule exI, rule exI, rule conjI, assumption, rule conjI, assumption, assumption)
qed

theorem plan_order_independent_witness:
  "plan_reconciliation (\<lambda>_. []) sample_request =
   plan_reconciliation (\<lambda>_. []) (sample_request\<lparr>req_entries := rev (req_entries sample_request),
     req_snapshots := rev (req_snapshots sample_request)\<rparr>)"
  by (rule plan_order_independent [OF _ _ _ _ refl])
    (auto simp: sample_request_def sample_entry_def sample_snapshot_def inj_on_def)

section \<open>A document that contradicts its locator\<close>

text \<open>
  A document declares the UUID \<open>u9\<close>, which the graph knows for another path, while its own
  path is the current locator of a source of \<open>u1\<close>. The pass for declared UUIDs reports the
  disagreement by \<open>claim\<close>, which holds no source back.
\<close>

definition disagreement_request :: plan_request where
  "disagreement_request = sample_request
     \<lparr>req_entries := [(sample_entry ''a.md'' ''h1'')\<lparr>ent_declared_uuid := Some ''u9''\<rparr>],
      req_snapshots := [sample_snapshot ''u1'' ''a.md'' ''h1'', sample_snapshot ''u9'' ''b.md'' ''h9'']\<rparr>"

text \<open>
  the occupant of a contradicted locator is reported missing. The report holds the
  conflict, and besides it marks the source \<open>s-u1\<close> unresolved as not observed in the scan,
  although the document at its locator was scanned with the very hash the source records.
\<close>

theorem uuid_disagreement_marks_occupant:
  "map_sum id (\<lambda>r. map (\<lambda>a. (act_kind a, act_path a, act_source_identity a, act_reason a)) (rep_actions r))
     (plan_reconciliation (\<lambda>_. []) disagreement_request) =
   Inr [(CONFLICT, Some ''a.md'', None, Some ''declared_uuid_and_current_locator_name_different_artifacts''),
        (MARK_SOURCE_UNRESOLVED, Some ''a.md'', Some ''s-u1'', Some ''source_not_observed_in_corpus_scan''),
        (MARK_SOURCE_UNRESOLVED, Some ''b.md'', Some ''s-u9'', Some ''source_not_observed_in_corpus_scan'')]
   \<and> map ent_path (req_entries disagreement_request) = [''a.md'']"
  by code_simp

end
