(* ===== verification/Corpus_Metadata.thy ===== *)
theory Corpus_Metadata
  imports Reconciliation_Model
begin

text \<open>
  From a file to a corpus entry: the registration routes of
  \<^verbatim>\<open>domain/artifact_reconciliation_routing.py\<close>, the authored metadata of
  \<^verbatim>\<open>domain/artifact_reconciliation_metadata.py\<close>, and the entry builder and the rename parser of
  \<^verbatim>\<open>infrastructure/artifact_corpus_scanner.py\<close>.

  Reading a file is an argument: it yields the bytes and the text they decode to, or nothing
  when the file cannot be read; the digest of the bytes is an argument as well. The three
  regular expressions are written out as the matchers they describe.
\<close>

section \<open>Routes\<close>

record corpus_route =
  rt_directory :: string
  rt_artifact_type :: "string option"
  rt_lane :: string
  rt_preserve_existing_type :: bool
  rt_requires_declared_type :: bool

definition plain_route :: "string \<Rightarrow> string \<Rightarrow> string \<Rightarrow> corpus_route" where
  "plain_route directory artifact_type lane =
     \<lparr>rt_directory = directory, rt_artifact_type = Some artifact_type, rt_lane = lane,
      rt_preserve_existing_type = False, rt_requires_declared_type = False\<rparr>"

definition archive_route :: "string \<Rightarrow> string \<Rightarrow> corpus_route" where
  "archive_route directory artifact_type =
     (plain_route directory artifact_type ARCHIVE)\<lparr>rt_preserve_existing_type := True\<rparr>"

definition CORPUS_ROUTES :: "corpus_route list" where
  "CORPUS_ROUTES =
     [plain_route ''.agent/plans/backlog'' PLAN BACKLOG,
      plain_route ''.agent/plans'' PLAN ACTIVE,
      plain_route ''.agent/reviews'' REVIEW ACTIVE,
      plain_route ''.agent/handoffs'' HANDOFF ACTIVE,
      plain_route ''.agent/for-review'' IMPLEMENTATION_REPORT ACTIVE,
      archive_route ''.agent/archive/plans'' PLAN,
      archive_route ''.agent/archive/reviews'' REVIEW,
      archive_route ''.agent/archive/handoffs'' HANDOFF,
      archive_route ''.agent/archive/wrapups'' IMPLEMENTATION_REPORT,
      \<lparr>rt_directory = ''.agent/reference'', rt_artifact_type = None, rt_lane = REFERENCE,
       rt_preserve_existing_type = True, rt_requires_declared_type = True\<rparr>]"

definition INDEX_FILENAMES :: "string list" where
  "INDEX_FILENAMES = [''README.md'', ''index.md'']"

definition MEDIA_BY_SUFFIX :: "(string \<times> string) list" where
  "MEDIA_BY_SUFFIX = [(''.md'', ''markdown''), (''.pdf'', ''pdf''), (''.html'', ''html'')]"

definition backslash :: char where "backslash = CHR 0x5C"

definition normalize_path :: "string \<Rightarrow> string" where
  "normalize_path rel_path = replace_char backslash CHR ''/'' rel_path"

definition route_for_path :: "string \<Rightarrow> corpus_route option" where
  "route_for_path rel_path =
     (let normalized = strip_of ''/'' (normalize_path rel_path) in
      if normalized = [] then None
      else case rpartition CHR ''/'' normalized of
        (parent, _, filename) \<Rightarrow>
          if filename = [] then None
          else find (\<lambda>r. parent = rt_directory r) CORPUS_ROUTES)"

definition is_index_document :: "string \<Rightarrow> bool" where
  "is_index_document rel_path \<longleftrightarrow>
     (case rpartition CHR ''/'' (normalize_path rel_path) of (_, _, name) \<Rightarrow> name \<in> set INDEX_FILENAMES)"

definition medium_for_path :: "string \<Rightarrow> string option" where
  "medium_for_path rel_path =
     (case rpartition CHR ''.'' (lower (normalize_path rel_path)) of
        (_, dot, ext) \<Rightarrow> if \<not> dot then None else map_of MEDIA_BY_SUFFIX (CHR ''.'' # ext))"

section \<open>Frontmatter\<close>

definition newline_str :: string where
  "newline_str = [CHR 0x0A]"

datatype fm_value = Scalar string | Values "string list"

type_synonym fm_mapping = "(string \<times> fm_value) list"

record fm_state =
  fm_mapping :: fm_mapping
  fm_refused :: "string list"
  fm_current :: "string option"
  fm_errors :: "string list"

definition quotes :: string where
  "quotes = [CHR 0x27, CHR 0x22]"

fun dict_set :: "'k \<Rightarrow> 'v \<Rightarrow> ('k \<times> 'v) list \<Rightarrow> ('k \<times> 'v) list" where
  "dict_set k v [] = [(k, v)]"
| "dict_set k v ((k', w) # d) = (if k = k' then (k, v) # d else (k', w) # dict_set k v d)"

definition dict_pop :: "'k \<Rightarrow> ('k \<times> 'v) list \<Rightarrow> ('k \<times> 'v) list" where
  "dict_pop k d = filter (\<lambda>p. fst p \<noteq> k) d"

definition fm_error :: "string \<Rightarrow> fm_state \<Rightarrow> fm_state" where
  "fm_error e st = st\<lparr>fm_errors := fm_errors st @ [e]\<rparr>"

definition fm_list_item :: "string \<Rightarrow> fm_state \<Rightarrow> fm_state" where
  "fm_list_item line st =
     (case fm_current st of
        None \<Rightarrow> fm_error ''frontmatter_list_item_without_key'' st
      | Some key \<Rightarrow>
          if key \<in> set (fm_refused st) then st
          else
            (let item = strip_of quotes (strip (drop 2 (lstrip line)));
                 new = (case map_of (fm_mapping st) key of
                          Some (Values xs) \<Rightarrow> Values (xs @ [item])
                        | Some (Scalar x) \<Rightarrow> if x = [] then Values [item] else Values [x, item]
                        | None \<Rightarrow> Values [item])
             in st\<lparr>fm_mapping := dict_set key new (fm_mapping st)\<rparr>))"

definition fm_value_of :: "string \<Rightarrow> fm_value" where
  "fm_value_of value =
     (if starts_with ''['' value \<and> ends_with '']'' value then
        Values (map (\<lambda>p. strip_of quotes (strip p))
          (filter (\<lambda>p. strip p \<noteq> []) (split_char CHR '','' (butlast (tl value)))))
      else if value \<noteq> [] then Scalar (strip_of quotes value)
      else Scalar [])"

definition fm_key_of :: "string \<Rightarrow> string" where
  "fm_key_of line = lower (strip (fst (partition_at CHR '':'' line)))"

definition fm_key_line :: "string \<Rightarrow> fm_state \<Rightarrow> fm_state" where
  "fm_key_line line st =
     (let key = fm_key_of line;
          value = strip (snd (snd (partition_at CHR '':'' line)))
      in if key \<in> set (map fst (fm_mapping st)) \<or> key \<in> set (fm_refused st) then
           (fm_error (''duplicate_frontmatter_key:'' @ key) st)
             \<lparr>fm_mapping := dict_pop key (fm_mapping st),
              fm_refused := (if key \<in> set (fm_refused st) then fm_refused st else fm_refused st @ [key]),
              fm_current := Some key\<rparr>
         else st\<lparr>fm_mapping := dict_set key (fm_value_of value) (fm_mapping st), fm_current := Some key\<rparr>)"

text \<open>The kind of a line of the block, in the order the source tests.\<close>

datatype fm_line = Blank | ListItem | NoKey | Nested | KeyLine

definition fm_line_kind :: "string \<Rightarrow> fm_line" where
  "fm_line_kind line =
     (if strip line = [] \<or> starts_with ''#'' (lstrip line) then Blank
      else if starts_with ''- '' (lstrip line) then ListItem
      else if CHR '':'' \<notin> set line then NoKey
      else if hd line \<in> {CHR '' '', CHR 0x09} then Nested
      else KeyLine)"

definition fm_step :: "string \<Rightarrow> fm_state \<Rightarrow> fm_state" where
  "fm_step raw_line st =
     (let line = rstrip raw_line in
      case fm_line_kind line of
        Blank \<Rightarrow> st
      | ListItem \<Rightarrow> fm_list_item line st
      | NoKey \<Rightarrow> fm_error ''frontmatter_line_without_key'' st
      | Nested \<Rightarrow> fm_error ''frontmatter_nested_mapping_unsupported'' st
      | KeyLine \<Rightarrow> fm_key_line line st)"

definition fm_init :: fm_state where
  "fm_init = \<lparr>fm_mapping = [], fm_refused = [], fm_current = None, fm_errors = []\<rparr>"

definition fm_terminator :: "string \<Rightarrow> bool" where
  "fm_terminator line \<longleftrightarrow> strip line \<in> {''---'', ''...''}"

definition parse_frontmatter :: "string \<Rightarrow> fm_mapping \<times> string \<times> string list" where
  "parse_frontmatter text =
     (if \<not> starts_with ''---'' text then ([], text, [])
      else let lines = splitlines text in
        if strip (hd lines) \<noteq> ''---'' then ([], text, [])
        else let block = takeWhile (\<lambda>l. \<not> fm_terminator l) (tl lines);
                 rest = dropWhile (\<lambda>l. \<not> fm_terminator l) (tl lines)
             in if rest = [] then ([], text, [''frontmatter_not_terminated''])
                else let st = fold fm_step block fm_init
                     in (fm_mapping st, join newline_str (tl rest), fm_errors st))"

section \<open>Headers of the body\<close>

text \<open>
  \<^verbatim>\<open>^#\s+(.+?)\s*$\<close> on one line, with the group stripped: white space after the mark, then a
  title. A line of the mark and white space only matches from two white-space characters on,
  with one of them as the group, which strips to the empty title.
\<close>

definition h1_match :: "string \<Rightarrow> string option" where
  "h1_match line =
     (case line of
        [] \<Rightarrow> None
      | c # t \<Rightarrow>
          if c \<noteq> CHR ''#'' then None
          else if takeWhile is_space t = [] then None
          else if lstrip t \<noteq> [] then Some (strip t)
          else if length t \<ge> 2 then Some [] else None)"

definition is_star :: "char \<Rightarrow> bool" where
  "is_star c \<longleftrightarrow> c = CHR ''*''"

text \<open>At most two stars, or no match.\<close>

definition drop_stars :: "string \<Rightarrow> string option" where
  "drop_stars t = (if length (takeWhile is_star t) \<le> 2 then Some (dropWhile is_star t) else None)"

definition status_word :: "string \<Rightarrow> string option" where
  "status_word t =
     (case drop_stars t of
        None \<Rightarrow> None
      | Some u \<Rightarrow> if starts_with ''status'' (lower u) then Some (drop 6 u) else None)"

text \<open>
  \<^verbatim>\<open>^\s*[-*]?\s*\*{0,2}status\*{0,2}\s*:\s*(.+?)\s*$\<close>, ignoring case, with the group stripped. The
  bullet is optional, and both readings of a leading star are tried.
\<close>

definition status_match :: "string \<Rightarrow> string option" where
  "status_match line =
     (let t = lstrip line;
          bulleted = (case t of [] \<Rightarrow> None
                      | c # u \<Rightarrow> if c \<in> set ''-*'' then status_word (lstrip u) else None);
          after_word = (case bulleted of Some u \<Rightarrow> Some u | None \<Rightarrow> status_word t)
      in case after_word of
           None \<Rightarrow> None
         | Some u \<Rightarrow>
             (case drop_stars u of
                None \<Rightarrow> None
              | Some v \<Rightarrow>
                  (case lstrip v of
                     [] \<Rightarrow> None
                   | c # r \<Rightarrow> if c \<noteq> CHR '':'' \<or> r = [] then None else Some (strip r))))"

definition header_step :: "string \<Rightarrow> string option \<times> string option \<Rightarrow> string option \<times> string option" where
  "header_step line tr =
     (case tr of (title, raw_status) \<Rightarrow>
       (let status = (if raw_status = None then status_match line else raw_status)
        in if title = None then
             (case h1_match line of
                Some t \<Rightarrow> (Some t, raw_status)
              | None \<Rightarrow> (None, status))
           else (title, status)))"

definition read_headers :: "string \<Rightarrow> string option \<times> string option" where
  "read_headers body = fold header_step (take 40 (splitlines body)) (None, None)"

section \<open>Document metadata\<close>

definition DERIVED_KEYS :: "string list" where
  "DERIVED_KEYS =
     [''corpus_lane'', ''integrity'', ''integrity_algorithm'', ''version'', ''version_kind'',
      ''observed_commit'', ''size_bytes'', ''source_uuid'', ''resolution_status'',
      ''resolution_reason'', ''last_seen_at'', ''last_reconciled_at'', ''last_reconcile_basis'',
      ''schema_version'']"

record document_metadata =
  dm_artifact_uuid :: "string option"
  dm_artifact_type :: "string option"
  dm_artifact_status :: "string option"
  dm_schema :: "int option"
  dm_title :: "string option"
  dm_raw_status_header :: "string option"
  dm_has_frontmatter :: bool
  dm_errors :: "string list"

definition is_hex :: "char \<Rightarrow> bool" where
  "is_hex c \<longleftrightarrow>
     (let n = of_char c :: nat in 48 \<le> n \<and> n \<le> 57 \<or> 97 \<le> n \<and> n \<le> 102 \<or> 65 \<le> n \<and> n \<le> 70)"

text \<open>
  The UUID pattern: hexadecimal groups of 8, 4, 4, 4 and 12 digits. A declared value holds no
  newline, so \<^verbatim>\<open>$\<close> is the end of the string.
\<close>

definition uuid_shape :: "string \<Rightarrow> bool" where
  "uuid_shape s \<longleftrightarrow>
     (let parts = split_char CHR ''-'' s
      in map length parts = [8, 4, 4, 4, 12] \<and> list_all (list_all is_hex) parts)"

definition single_value :: "fm_value option \<Rightarrow> string option" where
  "single_value v =
     (case v of
        None \<Rightarrow> None
      | Some (Values xs) \<Rightarrow> (case xs of [] \<Rightarrow> None | x # _ \<Rightarrow> Some x)
      | Some (Scalar x) \<Rightarrow> (let t = strip x in if t = [] then None else Some t))"

text \<open>Each of the next four returns the value kept and the errors it adds.\<close>

definition read_uuid :: "fm_value option \<Rightarrow> string option \<times> string list" where
  "read_uuid raw =
     (case raw of
        Some (Values _) \<Rightarrow> (None, [''invalid_artifact_uuid''])
      | _ \<Rightarrow>
          (case single_value raw of
             None \<Rightarrow> (None, [])
           | Some u \<Rightarrow> if \<not> uuid_shape u then (None, [''invalid_artifact_uuid'']) else (Some (lower u), [])))"

definition read_type :: "string option \<Rightarrow> fm_value option \<Rightarrow> string option \<times> string list" where
  "read_type route_type raw =
     (case single_value raw of
        None \<Rightarrow> (None, [])
      | Some v \<Rightarrow>
          (let t = lower (strip v) in
           if t \<notin> set ARTIFACT_TYPES then (None, [''unknown_artifact_type''])
           else if route_type \<noteq> None \<and> route_type \<noteq> Some t then (Some t, [''route_type_disagreement''])
           else (Some t, [])))"

definition read_status :: "string option \<Rightarrow> fm_value option \<Rightarrow> string option \<times> string list" where
  "read_status effective raw =
     (case single_value raw of
        None \<Rightarrow> (None, [])
      | Some v \<Rightarrow>
          (let t = upper (strip v) in
           case effective of
             None \<Rightarrow> (None, [''status_without_type''])
           | Some ty \<Rightarrow> if t \<notin> set (valid_statuses ty) then (None, [''status_invalid_for_type'']) else (Some t, [])))"

definition read_schema :: "fm_value option \<Rightarrow> int option \<times> string list" where
  "read_schema raw =
     (case single_value raw of
        None \<Rightarrow> (None, [])
      | Some v \<Rightarrow>
          (case int_of_string v of None \<Rightarrow> (None, [''invalid_artifact_schema'']) | Some n \<Rightarrow> (Some n, [])))"

definition read_document_metadata :: "string \<Rightarrow> string option \<Rightarrow> document_metadata" where
  "read_document_metadata text route_type =
     (case parse_frontmatter text of (mapping, body, errors) \<Rightarrow>
       (let (title, raw_status) = read_headers body;
            derived = map (\<lambda>p. ''derived_key_declared:'' @ fst p)
              (filter (\<lambda>p. fst p \<in> set DERIVED_KEYS) mapping);
            (uuid, uuid_errors) = read_uuid (map_of mapping ''artifact_uuid'');
            (ty, type_errors) = read_type route_type (map_of mapping ''artifact_type'');
            (status, status_errors) =
              read_status (or_else ty route_type) (map_of mapping ''artifact_status'');
            (schema, schema_errors) = read_schema (map_of mapping ''artifact_schema'')
        in \<lparr>dm_artifact_uuid = uuid, dm_artifact_type = ty, dm_artifact_status = status,
            dm_schema = schema, dm_title = title, dm_raw_status_header = raw_status,
            dm_has_frontmatter = (mapping \<noteq> []),
            dm_errors = errors @ derived @ uuid_errors @ type_errors @ status_errors @ schema_errors\<rparr>))"

section \<open>Scanned entries\<close>

definition parse_rename_line :: "string \<Rightarrow> git_rename option" where
  "parse_rename_line line =
     (if line = [] \<or> hd line \<noteq> CHR ''R'' then None
      else case split_char (CHR 0x09) line of
             _ # old # new # _ \<Rightarrow>
               Some \<lparr>ren_old_path = strip old, ren_new_path = strip new, ren_repository = None\<rparr>
           | _ \<Rightarrow> None)"

definition parse_rename_status :: "string \<Rightarrow> git_rename list" where
  "parse_rename_status text = List.map_filter parse_rename_line (splitlines text)"

text \<open>\<^verbatim>\<open>Path(p).stem\<close>: the last component without its last suffix, unless it starts or ends with the dot.\<close>

definition path_stem :: "string \<Rightarrow> string" where
  "path_stem p =
     (case rpartition CHR ''/'' p of (_, _, name) \<Rightarrow>
       (case rpartition CHR ''.'' name of (before, dot, after) \<Rightarrow>
         if dot \<and> before \<noteq> [] \<and> after \<noteq> [] then before else name))"

definition no_metadata :: document_metadata where
  "no_metadata =
     \<lparr>dm_artifact_uuid = None, dm_artifact_type = None, dm_artifact_status = None, dm_schema = None,
      dm_title = None, dm_raw_status_header = None, dm_has_frontmatter = False, dm_errors = []\<rparr>"

definition build_entry ::
  "(string \<Rightarrow> (string \<times> string) option) \<Rightarrow> (string \<Rightarrow> string) \<Rightarrow> (string \<times> string) list
    \<Rightarrow> string \<Rightarrow> string \<Rightarrow> corpus_entry option" where
  "build_entry read_file sha256_bytes blob_oids rel_path repository =
     (case route_for_path rel_path of
        None \<Rightarrow> None
      | Some route \<Rightarrow>
          if is_index_document rel_path then None
          else case medium_for_path rel_path of
            None \<Rightarrow> None
          | Some medium \<Rightarrow>
              (case read_file rel_path of
                 None \<Rightarrow> None
               | Some (payload, text) \<Rightarrow>
                   (let blob_oid = map_of blob_oids rel_path;
                        m = (if medium = ''pdf'' then no_metadata
                             else read_document_metadata text (rt_artifact_type route))
                    in Some
                      \<lparr>ent_repository = repository, ent_path = rel_path, ent_medium = medium,
                       ent_lane = rt_lane route, ent_integrity = sha256_bytes payload,
                       ent_size_bytes = int (length payload), ent_route_type = rt_artifact_type route,
                       ent_preserve_existing_type = rt_preserve_existing_type route,
                       ent_requires_declared_type = rt_requires_declared_type route,
                       ent_declared_uuid = dm_artifact_uuid m, ent_declared_type = dm_artifact_type m,
                       ent_declared_status = dm_artifact_status m,
                       ent_raw_status_header = dm_raw_status_header m,
                       ent_title = or_else (dm_title m) (Some (path_stem rel_path)),
                       ent_title_from_h1 = truthy (dm_title m), ent_version = blob_oid,
                       ent_version_kind = (if truthy blob_oid then Some ''git_blob_oid'' else None),
                       ent_metadata_errors = dm_errors m\<rparr>)))"

text \<open>
  The scan of the routed directories. \<open>list_files\<close> gives the names of the regular files of a
  directory, or nothing when it is no directory.
\<close>

definition SKIP_PREFIXES :: "string list" where
  "SKIP_PREFIXES = [''.'', ''~'', ''#'']"

definition SKIP_SUFFIXES :: "string list" where
  "SKIP_SUFFIXES = [''.tmp'', ''.swp'', ''.bak'', ''.orig'', ''.rej'']"

definition is_scannable :: "string \<Rightarrow> bool" where
  "is_scannable name =
     (if list_ex (\<lambda>p. starts_with p name) SKIP_PREFIXES then False
      else if list_ex (\<lambda>x. ends_with x name) SKIP_SUFFIXES then False
      else True)"

definition scan_file ::
  "(string \<Rightarrow> corpus_entry option) \<Rightarrow> string \<Rightarrow> corpus_entry list \<times> string set \<Rightarrow> corpus_entry list \<times> string set" where
  "scan_file build rel acc =
     (case acc of (entries, seen) \<Rightarrow>
       if rel \<in> seen then (entries, seen)
       else case build rel of None \<Rightarrow> (entries, seen) | Some e \<Rightarrow> (entries @ [e], insert rel seen))"

definition routed_files :: "(string \<Rightarrow> string list option) \<Rightarrow> string list" where
  "routed_files list_files =
     concat (map (\<lambda>route. case list_files (rt_directory route) of
         None \<Rightarrow> []
       | Some names \<Rightarrow> map (\<lambda>n. rt_directory route @ ''/'' @ n) (filter is_scannable (sort names)))
       CORPUS_ROUTES)"

definition scan_corpus ::
  "(string \<Rightarrow> string list option) \<Rightarrow> (string \<Rightarrow> (string \<times> string) option) \<Rightarrow> (string \<Rightarrow> string)
    \<Rightarrow> (string \<times> string) list \<Rightarrow> string \<Rightarrow> corpus_entry list" where
  "scan_corpus list_files read_file sha256_bytes blob_oids repository =
     sort_key ent_path (fst (fold
       (scan_file (\<lambda>rel. build_entry read_file sha256_bytes blob_oids rel repository))
       (routed_files list_files) ([], {})))"

section \<open>Duplicate keys fail closed\<close>

definition declares :: "string \<Rightarrow> string \<Rightarrow> bool" where
  "declares k raw_line \<longleftrightarrow> fm_line_kind (rstrip raw_line) = KeyLine \<and> fm_key_of (rstrip raw_line) = k"

definition declarations :: "string \<Rightarrow> string list \<Rightarrow> nat" where
  "declarations k ls = length (filter (declares k) ls)"

text \<open>The lines between the opening mark and the first terminator, if the block is closed.\<close>

definition frontmatter_block :: "string \<Rightarrow> string list" where
  "frontmatter_block text =
     (let lines = splitlines text in
      if \<not> starts_with ''---'' text \<or> strip (hd lines) \<noteq> ''---''
         \<or> list_all (\<lambda>l. \<not> fm_terminator l) (tl lines) then []
      else takeWhile (\<lambda>l. \<not> fm_terminator l) (tl lines))"

lemma keys_dict_set [simp]: "fst ` set (dict_set k v d) = insert k (fst ` set d)"
  by (induction k v d rule: dict_set.induct) auto

lemma keys_dict_pop [simp]: "fst ` set (dict_pop k d) = fst ` set d - {k}"
  by (auto simp: dict_pop_def)

definition fm_inv :: "string list \<Rightarrow> fm_state \<Rightarrow> bool" where
  "fm_inv ls st \<longleftrightarrow>
     (\<forall>k. (k \<in> fst ` set (fm_mapping st) \<longleftrightarrow> declarations k ls = 1)
        \<and> (k \<in> set (fm_refused st) \<longleftrightarrow> 2 \<le> declarations k ls)
        \<and> (2 \<le> declarations k ls \<longrightarrow> ''duplicate_frontmatter_key:'' @ k \<in> set (fm_errors st)))
     \<and> (case fm_current st of None \<Rightarrow> True | Some k \<Rightarrow> 1 \<le> declarations k ls)"

lemma declarations_snoc:
  "declarations k (ls @ [l]) = declarations k ls + (if declares k l then 1 else 0)"
  by (simp add: declarations_def)

lemma fm_inv_other:
  assumes "fm_inv ls st" "\<And>k. \<not> declares k l"
    and "fst ` set (fm_mapping t) = fst ` set (fm_mapping st)" "fm_refused t = fm_refused st"
    and "set (fm_errors st) \<subseteq> set (fm_errors t)" "fm_current t = fm_current st"
  shows "fm_inv (ls @ [l]) t"
  using assms unfolding fm_inv_def declarations_snoc by (auto split: option.splits)

lemma fm_inv_list_item:
  assumes "fm_inv ls st" "\<And>k. \<not> declares k l"
  shows "fm_inv (ls @ [l]) (fm_list_item line st)"
proof (cases "fm_current st")
  case None
  then show ?thesis
    by (intro fm_inv_other [OF assms]) (auto simp: fm_list_item_def fm_error_def)
next
  case (Some k)
  show ?thesis
  proof (cases "k \<in> set (fm_refused st)")
    case True
    then show ?thesis
      using Some by (intro fm_inv_other [OF assms]) (auto simp: fm_list_item_def)
  next
    case False
    then have "declarations k ls = 1"
      using assms(1) Some unfolding fm_inv_def by (auto simp: not_le)
    then have "k \<in> fst ` set (fm_mapping st)" using assms(1) unfolding fm_inv_def by blast
    then show ?thesis
      using Some False by (intro fm_inv_other [OF assms]) (auto simp: fm_list_item_def Let_def insert_absorb)
  qed
qed

lemma fm_inv_key_line:
  assumes "fm_inv ls st" "fm_line_kind (rstrip l) = KeyLine"
  shows "fm_inv (ls @ [l]) (fm_key_line (rstrip l) st)"
proof -
  define key where "key = fm_key_of (rstrip l)"
  have d: "declares k l \<longleftrightarrow> k = key" for k using assms(2) by (auto simp: declares_def key_def)
  have inv: "k \<in> fst ` set (fm_mapping st) \<longleftrightarrow> declarations k ls = 1"
    "k \<in> set (fm_refused st) \<longleftrightarrow> 2 \<le> declarations k ls"
    "2 \<le> declarations k ls \<Longrightarrow> ''duplicate_frontmatter_key:'' @ k \<in> set (fm_errors st)" for k
    using assms(1) unfolding fm_inv_def by blast+
  show ?thesis
  proof (cases "key \<in> fst ` set (fm_mapping st) \<or> key \<in> set (fm_refused st)")
    case True
    then have "1 \<le> declarations key ls" using inv by auto
    then show ?thesis
      using True inv unfolding fm_inv_def declarations_snoc d fm_key_line_def Let_def key_def [symmetric]
      by (auto simp: fm_error_def)
  next
    case False
    then have "declarations key ls = 0" using inv by (metis One_nat_def less_2_cases_iff not_le)
    then show ?thesis
      using False inv unfolding fm_inv_def declarations_snoc d fm_key_line_def Let_def key_def [symmetric]
      by auto
  qed
qed

lemma fm_inv_step: "fm_inv ls st \<Longrightarrow> fm_inv (ls @ [l]) (fm_step l st)"
  unfolding fm_step_def Let_def
  by (cases "fm_line_kind (rstrip l)")
    (auto simp: declares_def fm_error_def intro!: fm_inv_list_item fm_inv_key_line
      elim!: fm_inv_other)

lemma fm_inv_fold: "fm_inv ls (fold fm_step ls fm_init)"
proof (induction ls rule: rev_induct)
  case Nil
  then show ?case by (simp add: fm_inv_def fm_init_def declarations_def)
qed (simp add: fm_inv_step)

text \<open>
  a frontmatter key is bound exactly when exactly one line of a closed block declares it;
  a key declared twice or more is bound to nothing, and the errors name it.
\<close>

theorem frontmatter_keys_bound_once:
  "case parse_frontmatter text of (mapping, body, errors) \<Rightarrow>
     (k \<in> fst ` set mapping \<longleftrightarrow> declarations k (frontmatter_block text) = 1)
     \<and> (2 \<le> declarations k (frontmatter_block text)
          \<longrightarrow> ''duplicate_frontmatter_key:'' @ k \<in> set errors)"
proof -
  let ?tl = "tl (splitlines text)"
  have empty: "dropWhile (\<lambda>l. \<not> fm_terminator l) ?tl = [] \<longleftrightarrow> list_all (\<lambda>l. \<not> fm_terminator l) ?tl"
    by (auto simp: dropWhile_eq_Nil_conv list_all_iff)
  show ?thesis
  proof (cases "starts_with ''---'' text \<and> strip (hd (splitlines text)) = ''---''
      \<and> \<not> list_all (\<lambda>l. \<not> fm_terminator l) ?tl")
    case False
    then have "fst (parse_frontmatter text) = []" "frontmatter_block text = []"
      by (auto simp: parse_frontmatter_def frontmatter_block_def Let_def list_all_iff)
    then show ?thesis by (auto simp: declarations_def split: prod.splits)
  next
    case True
    let ?block = "takeWhile (\<lambda>l. \<not> fm_terminator l) ?tl"
    have "frontmatter_block text = ?block" using True by (simp add: frontmatter_block_def Let_def)
    moreover have "fst (parse_frontmatter text) = fm_mapping (fold fm_step ?block fm_init)"
      "snd (snd (parse_frontmatter text)) = fm_errors (fold fm_step ?block fm_init)"
      using True by (auto simp: parse_frontmatter_def Let_def list_all_iff)
    ultimately show ?thesis
      using fm_inv_fold [of ?block] unfolding fm_inv_def by (cases "parse_frontmatter text") auto
  qed
qed

theorem frontmatter_keys_bound_once_witness:
  "let text = ''---'' @ newline_str @ ''a: 1'' @ newline_str @ ''a: 2'' @ newline_str @ ''---'' in
     2 \<le> declarations ''a'' (frontmatter_block text)
     \<and> ''duplicate_frontmatter_key:a'' \<in> set (snd (snd (parse_frontmatter text)))"
proof -
  let ?text = "''---'' @ newline_str @ ''a: 1'' @ newline_str @ ''a: 2'' @ newline_str @ ''---''"
  have "2 \<le> declarations ''a'' (frontmatter_block ?text)" by code_simp
  with frontmatter_keys_bound_once [of "''a''" ?text] show ?thesis
    unfolding Let_def by (simp split: prod.splits)
qed

section \<open>Declared metadata is valid or refused\<close>

lemma metadata_fields:
  "dm_artifact_uuid (read_document_metadata text route) =
     fst (read_uuid (map_of (fst (parse_frontmatter text)) ''artifact_uuid''))"
  "dm_artifact_type (read_document_metadata text route) =
     fst (read_type route (map_of (fst (parse_frontmatter text)) ''artifact_type''))"
  "dm_artifact_status (read_document_metadata text route) =
     fst (read_status (or_else (dm_artifact_type (read_document_metadata text route)) route)
       (map_of (fst (parse_frontmatter text)) ''artifact_status''))"
  by (simp_all add: read_document_metadata_def split: prod.splits)

lemma lower_hex: "is_hex c \<Longrightarrow> is_hex (lower_char c)"
  by (auto simp: is_hex_def lower_char_def Let_def)

lemma lower_char_dash_iff: "lower_char c = CHR ''-'' \<longleftrightarrow> c = CHR ''-''"
proof
  assume l: "lower_char c = CHR ''-''"
  show "c = CHR ''-''"
  proof (cases "lower_char c = c")
    case False
    then have "(of_char (lower_char c) :: nat) \<noteq> 45"
      by (auto simp: lower_char_def Let_def split: if_splits)
    then show ?thesis using l by simp
  qed (use l in simp)
qed (simp add: lower_char_def)

lemma split_char_lower_dash: "split_char CHR ''-'' (lower s) = map lower (split_char CHR ''-'' s)"
  unfolding lower_def by (induction s) (auto simp: lower_char_dash_iff split: list.splits)

lemma uuid_shape_lower: "uuid_shape s \<Longrightarrow> uuid_shape (lower s)"
proof -
  have "list_all is_hex w \<Longrightarrow> list_all is_hex (lower w)" for w
    by (auto simp: list_all_iff lower_def lower_hex)
  then show "uuid_shape s \<Longrightarrow> uuid_shape (lower s)"
    unfolding uuid_shape_def Let_def split_char_lower_dash
    by (simp add: o_def) (auto simp: list_all_iff)
qed

lemma read_type_known:
  "case fst (read_type route v) of None \<Rightarrow> True | Some t \<Rightarrow> t \<in> set ARTIFACT_TYPES"
  unfolding read_type_def by (auto split: option.splits simp: Let_def)

text \<open>
  what a document declares about itself is valid or refused. A UUID that the reader keeps
  has the shape of one and is in lower case, a type it keeps is in the vocabulary, and a status
  it keeps is valid for the declared type, or for the route's type when none is declared.
\<close>

theorem declared_metadata_valid:
  "(case dm_artifact_uuid (read_document_metadata text route) of None \<Rightarrow> True
     | Some u \<Rightarrow> uuid_shape u \<and> lower u = u)
   \<and> (case dm_artifact_type (read_document_metadata text route) of None \<Rightarrow> True
     | Some t \<Rightarrow> t \<in> set ARTIFACT_TYPES)
   \<and> (case dm_artifact_status (read_document_metadata text route) of None \<Rightarrow> True
     | Some s \<Rightarrow> (\<exists>t. or_else (dm_artifact_type (read_document_metadata text route)) route = Some t
                     \<and> s \<in> set (valid_statuses t)))"
proof (intro conjI)
  show "case dm_artifact_uuid (read_document_metadata text route) of None \<Rightarrow> True
     | Some u \<Rightarrow> uuid_shape u \<and> lower u = u"
    unfolding metadata_fields(1) read_uuid_def
    by (auto split: option.splits fm_value.splits simp: uuid_shape_lower)
  show "case dm_artifact_type (read_document_metadata text route) of None \<Rightarrow> True
     | Some t \<Rightarrow> t \<in> set ARTIFACT_TYPES"
    unfolding metadata_fields(2) by (rule read_type_known)
  show "case dm_artifact_status (read_document_metadata text route) of None \<Rightarrow> True
     | Some s \<Rightarrow> (\<exists>t. or_else (dm_artifact_type (read_document_metadata text route)) route = Some t
                     \<and> s \<in> set (valid_statuses t))"
    unfolding metadata_fields(3) read_status_def by (auto split: option.splits simp: Let_def)
qed

section \<open>Scanned entries are well formed\<close>

lemma route_types_known:
  "r \<in> set CORPUS_ROUTES \<Longrightarrow> rt_artifact_type r \<in> insert None (Some ` set ARTIFACT_TYPES)"
  by (auto simp: CORPUS_ROUTES_def plain_route_def archive_route_def ARTIFACT_TYPES_def)

lemma route_for_path_in: "route_for_path p = Some r \<Longrightarrow> r \<in> set CORPUS_ROUTES"
  by (auto simp: route_for_path_def Let_def find_Some_iff split: if_splits prod.splits)

lemma medium_known: "medium_for_path p = Some m \<Longrightarrow> m \<in> set ARTIFACT_MEDIA"
  by (auto simp: medium_for_path_def MEDIA_BY_SUFFIX_def ARTIFACT_MEDIA_def split: if_splits prod.splits)

lemma build_entry_facts:
  assumes "build_entry read_file sha oids rel repository = Some e"
  shows "ent_path e = rel" "ent_repository e = repository" "ent_medium e \<in> set ARTIFACT_MEDIA"
    "effective_type e \<in> insert None (Some ` set ARTIFACT_TYPES)"
proof -
  from assms obtain route medium payload doc where
    r: "route_for_path rel = Some route" and m: "medium_for_path rel = Some medium"
    and e: "ent_path e = rel" "ent_repository e = repository" "ent_medium e = medium"
      "ent_route_type e = rt_artifact_type route"
      "ent_declared_type e = dm_artifact_type (if medium = ''pdf'' then no_metadata
         else read_document_metadata doc (rt_artifact_type route))"
    unfolding build_entry_def Let_def by (auto split: option.splits if_splits)
  show "ent_path e = rel" "ent_repository e = repository" by (fact e)+
  show "ent_medium e \<in> set ARTIFACT_MEDIA" using medium_known [OF m] e(3) by simp
  have "ent_declared_type e \<in> insert None (Some ` set ARTIFACT_TYPES)"
    using read_type_known [of "rt_artifact_type route" "map_of (fst (parse_frontmatter doc)) ''artifact_type''"]
    unfolding e(5) by (auto simp: no_metadata_def metadata_fields(2) split: option.splits)
  then show "effective_type e \<in> insert None (Some ` set ARTIFACT_TYPES)"
    using route_types_known [OF route_for_path_in [OF r]] e(4)
    by (auto simp: effective_type_def or_else_def)
qed

lemma scan_fold:
  assumes "\<And>rel e. build rel = Some e \<Longrightarrow> ent_path e = rel"
  shows "case fold (scan_file build) rels (entries, seen) of (es, sn) \<Rightarrow>
    (distinct (map ent_path entries) \<and> set (map ent_path entries) \<subseteq> seen
      \<longrightarrow> distinct (map ent_path es) \<and> set (map ent_path es) \<subseteq> sn)
    \<and> set es \<subseteq> set entries \<union> {e. \<exists>rel \<in> set rels. build rel = Some e}"
proof (induction rels arbitrary: entries seen)
  case (Cons rel rels)
  show ?case
  proof (cases "rel \<in> seen \<or> build rel = None")
    case True
    then have "scan_file build rel (entries, seen) = (entries, seen)"
      by (auto simp: scan_file_def)
    then show ?thesis using Cons.IH [of entries seen] by (auto split: prod.splits)
  next
    case False
    then obtain e where e: "build rel = Some e" "rel \<notin> seen" by auto
    then have "scan_file build rel (entries, seen) = (entries @ [e], insert rel seen)"
      by (simp add: scan_file_def)
    then show ?thesis
      using Cons.IH [of "entries @ [e]" "insert rel seen"] e assms [OF e(1)] by (auto split: prod.splits)
  qed
qed simp

lemma scan_corpus_facts:
  shows "distinct (map ent_path (scan_corpus lf rf sha oids repository))"
    and "e \<in> set (scan_corpus lf rf sha oids repository) \<Longrightarrow> \<exists>rel. build_entry rf sha oids rel repository = Some e"
proof -
  let ?build = "\<lambda>rel. build_entry rf sha oids rel repository"
  have "ent_path e = rel" if "?build rel = Some e" for rel e using build_entry_facts(1) [OF that] .
  note scan_fold [of ?build "[]" "{}" "routed_files lf", OF this]
  then show "distinct (map ent_path (scan_corpus lf rf sha oids repository))"
    and "e \<in> set (scan_corpus lf rf sha oids repository) \<Longrightarrow> \<exists>rel. ?build rel = Some e"
    by (auto simp: scan_corpus_def split: prod.splits)
qed

lemma scan_corpus_keys: "distinct (map entry_key (scan_corpus lf rf sha oids repository))"
  using scan_corpus_facts(1) [of lf rf sha oids repository]
  by (auto simp: distinct_map entry_key_def inj_on_def)

text \<open>
  the scan lists each document once, sorted by path, and every entry belongs to the
  scanned repository, has a supported medium and no artifact type outside the vocabulary.
\<close>

theorem scan_corpus_well_formed:
  "let es = scan_corpus lf rf sha oids repository in
     distinct (map ent_path es) \<and> sorted (map ent_path es)
     \<and> list_all (\<lambda>e. ent_repository e = repository \<and> ent_medium e \<in> set ARTIFACT_MEDIA
          \<and> effective_type e \<in> insert None (Some ` set ARTIFACT_TYPES)) es"
proof -
  have "sorted (map ent_path (scan_corpus lf rf sha oids repository))"
    by (simp add: scan_corpus_def)
  moreover have "ent_repository e = repository \<and> ent_medium e \<in> set ARTIFACT_MEDIA
      \<and> effective_type e \<in> insert None (Some ` set ARTIFACT_TYPES)"
    if "e \<in> set (scan_corpus lf rf sha oids repository)" for e
    using scan_corpus_facts(2) [OF that] build_entry_facts(2-4) by metis
  ultimately show ?thesis
    using scan_corpus_facts(1) [of lf rf sha oids repository] unfolding Let_def list_all_iff by blast
qed

text \<open>
  A file directly in a routed directory gets that route; the filename may not hold a
  separator.
\<close>

lemma rpartition_last:
  assumes "c \<notin> set f" shows "rpartition c (d @ c # f) = (d, True, f)"
proof -
  have "takeWhile (\<lambda>x. x \<noteq> c) (rev f @ c # rev d) = rev f"
    "dropWhile (\<lambda>x. x \<noteq> c) (rev f @ c # rev d) = c # rev d"
    using assms by (simp_all add: takeWhile_append2 dropWhile_append2 takeWhile_append dropWhile_append)
  then show ?thesis by (simp add: rpartition_def)
qed

lemma strip_of_id:
  "s \<noteq> [] \<Longrightarrow> hd s \<notin> set cs \<Longrightarrow> last s \<notin> set cs \<Longrightarrow> strip_of cs s = s"
proof -
  assume s: "s \<noteq> []" "hd s \<notin> set cs" "last s \<notin> set cs"
  then have "dropWhile (\<lambda>c. c \<in> set cs) s = s" "dropWhile (\<lambda>c. c \<in> set cs) (rev s) = rev s"
    by (auto simp: dropWhile_eq_self_iff hd_rev)
  then show ?thesis by (simp add: strip_of_def)
qed

lemma find_by_key:
  "distinct (map f xs) \<Longrightarrow> find (\<lambda>r. d = f r) xs = Some r \<longleftrightarrow> r \<in> set xs \<and> f r = d"
  by (induction xs) (auto, metis image_eqI)

lemma routes_distinct: "distinct (map rt_directory CORPUS_ROUTES)"
  by code_simp

text \<open>
  routing is by the directory that directly holds the file, not by prefix. A relative path
  of a directory and a filename is routed to a route exactly when the route names that very
  directory, so a file in an undeclared subdirectory of a routed directory is outside the
  corpus.
\<close>

theorem route_for_path_exact:
  assumes "d \<noteq> []" "f \<noteq> []" "hd d \<noteq> CHR ''/''" "CHR ''/'' \<notin> set f"
    and "backslash \<notin> set d" "backslash \<notin> set f"
  shows "route_for_path (d @ ''/'' @ f) = Some r \<longleftrightarrow> r \<in> set CORPUS_ROUTES \<and> rt_directory r = d"
proof -
  have "normalize_path (d @ ''/'' @ f) = d @ ''/'' @ f"
    using assms(5,6) unfolding normalize_path_def replace_char_def
    by (intro map_idI) (auto simp: backslash_def)
  moreover have "strip_of ''/'' (d @ ''/'' @ f) = d @ ''/'' @ f"
    using assms(1-4) last_in_set [OF assms(2)] by (intro strip_of_id) (auto dest: sym)
  ultimately have "route_for_path (d @ ''/'' @ f) = find (\<lambda>r. d = rt_directory r) CORPUS_ROUTES"
    using assms rpartition_last [of "CHR ''/''" f d] by (simp add: route_for_path_def)
  also have "(\<dots> = Some r) \<longleftrightarrow> r \<in> set CORPUS_ROUTES \<and> rt_directory r = d"
    by (rule find_by_key [OF routes_distinct])
  finally show ?thesis .
qed

theorem route_for_path_exact_witness:
  "route_for_path (''.agent/plans'' @ ''/'' @ ''x.md'') = Some (plain_route ''.agent/plans'' PLAN ACTIVE)
   \<and> route_for_path (''.agent/plans/drafts'' @ ''/'' @ ''x.md'') \<noteq> Some (plain_route ''.agent/plans'' PLAN ACTIVE)"
  using route_for_path_exact [of "''.agent/plans''" "''x.md''" "plain_route ''.agent/plans'' PLAN ACTIVE"]
    route_for_path_exact [of "''.agent/plans/drafts''" "''x.md''" "plain_route ''.agent/plans'' PLAN ACTIVE"]
  by (simp add: backslash_def CORPUS_ROUTES_def plain_route_def)

end
