(* ===== verification/Reconciliation_Apply.thy ===== *)
theory Reconciliation_Apply
  imports Source_Registry Reconciliation_Report Corpus_Metadata
begin

text \<open>
  The reconciliation service, \<^verbatim>\<open>services/artifact_reconciliation_service.py\<close>, and the git
  evidence of \<^verbatim>\<open>infrastructure/artifact_corpus_scanner.py\<close>. The world outside, the file tree,
  git and SHA-256, is a record of functions. \<open>audit\<close> reads one state of the graph; \<open>apply\<close>
  re-audits a state and then writes into the state it finds when the audit is over, which need
  not be the same. Fresh identifiers come from a function of the action's position; an
  exception ends the run with the writes so far in place.
\<close>

section \<open>The world outside\<close>

record world =
  wd_root_available :: bool
  wd_list_files :: "string \<Rightarrow> string list option"
  wd_read_file :: "string \<Rightarrow> (string \<times> string) option"
  wd_sha256 :: "string \<Rightarrow> string"
  wd_run_git :: "string list \<Rightarrow> string option"
  wd_digest :: "plan_payload \<Rightarrow> string"

record git_evidence =
  ge_observed_commit :: "string option"
  ge_blob_oids :: "(string \<times> string) list"
  ge_renames :: "git_rename list"
  ge_available :: bool
  ge_rename_evidence_available :: bool

definition is_hex_digit :: "char \<Rightarrow> bool" where
  "is_hex_digit c \<longleftrightarrow> is_ascii_digit c \<or> lower_char c \<in> set ''abcdef''"

text \<open>\<^verbatim>\<open>$\<close> also matches before a newline at the end.\<close>

definition is_valid_commit_cursor :: "string \<Rightarrow> bool" where
  "is_valid_commit_cursor v =
     (let v = (if v \<noteq> [] \<and> last v = CHR 0x0A then butlast v else v)
      in 7 \<le> length v \<and> length v \<le> 40 \<and> list_all is_hex_digit v)"

definition blob_oid_line :: "string \<Rightarrow> (string \<times> string) list \<Rightarrow> (string \<times> string) list" where
  "blob_oid_line line oids =
     (case partition_at (CHR 0x09) line of (meta, tab, path) \<Rightarrow>
       if \<not> tab then oids
       else case split_ws meta of _ # oid # _ \<Rightarrow> dict_set (strip path) oid oids | _ \<Rightarrow> oids)"

definition collect_git_evidence :: "world \<Rightarrow> string option \<Rightarrow> git_evidence" where
  "collect_git_evidence wd from_commit =
     (case wd_run_git wd [''rev-parse'', ''HEAD''] of
        None \<Rightarrow> \<lparr>ge_observed_commit = None, ge_blob_oids = [], ge_renames = [], ge_available = False,
                 ge_rename_evidence_available = False\<rparr>
      | Some head \<Rightarrow>
          let listing = or_empty (wd_run_git wd [''ls-files'', ''-s'', ''--'', ''.'']);
              diff = (if truthy from_commit \<and> is_valid_commit_cursor (or_empty from_commit)
                      then wd_run_git wd [''diff'', ''--name-status'', ''-M'', ''--end-of-options'',
                             or_empty from_commit @ ''..HEAD'']
                      else None)
          in \<lparr>ge_observed_commit = or_else (Some (strip head)) None,
              ge_blob_oids = fold blob_oid_line (splitlines listing) [],
              ge_renames = (case diff of None \<Rightarrow> [] | Some d \<Rightarrow> parse_rename_status d),
              ge_available = True,
              ge_rename_evidence_available = (from_commit = None \<or> diff \<noteq> None)\<rparr>)"

section \<open>Audit\<close>

definition require_repository :: "string option \<Rightarrow> string result" where
  "require_repository repository =
     (let name = strip (or_empty repository)
      in if name = [] then Inl (ValueError ''repository is required'') else Inr name)"

definition declared_uuids_of :: "corpus_entry list \<Rightarrow> string list" where
  "declared_uuids_of entries =
     sort (remdups (List.map_filter (\<lambda>e. or_else (ent_declared_uuid e) None) entries))"

definition audit_request ::
  "world \<Rightarrow> string \<Rightarrow> string option \<Rightarrow> git_evidence option \<Rightarrow> git_rename list \<Rightarrow> string option
    \<Rightarrow> source_graph \<Rightarrow> plan_request" where
  "audit_request wd name from_commit git extra_renames namespace g =
     (let cursor_commit = get_artifact_reconciliation_cursor name g;
          evidence_from_commit = or_else from_commit cursor_commit;
          evidence = (case git of Some e \<Rightarrow> e | None \<Rightarrow> collect_git_evidence wd evidence_from_commit);
          entries = scan_corpus (wd_list_files wd) (wd_read_file wd) (wd_sha256 wd) (ge_blob_oids evidence) name;
          declared = declared_uuids_of entries
      in \<lparr>req_repository = name, req_entries = entries,
          req_snapshots = list_artifact_source_snapshots (Some name) namespace g,
          req_unscoped = list_unscoped_artifact_source_snapshots
            (sort (remdups (map ent_path entries))) declared namespace g,
          req_identities = (if declared = [] then [] else list_work_artifact_identities declared namespace g),
          req_renames = ge_renames evidence @ extra_renames,
          req_observed_commit = ge_observed_commit evidence, req_cursor_commit = cursor_commit,
          req_evidence_from_commit = evidence_from_commit,
          req_evidence_base_valid = (evidence_from_commit = None \<or> ge_rename_evidence_available evidence)\<rparr>)"

definition audit ::
  "world \<Rightarrow> string option \<Rightarrow> string option \<Rightarrow> git_evidence option \<Rightarrow> git_rename list \<Rightarrow> string option
    \<Rightarrow> source_graph \<Rightarrow> reconciliation_report result" where
  "audit wd repository from_commit git extra_renames namespace g =
     bind_result (require_repository repository) (\<lambda>name.
       if \<not> wd_root_available wd then Inl (ValueError ''corpus root is unavailable'')
       else plan_reconciliation (wd_digest wd)
              (audit_request wd name from_commit git extra_renames namespace g))"

section \<open>One action\<close>

definition locator_of :: "string \<Rightarrow> string option \<Rightarrow> string \<Rightarrow> locator" where
  "locator_of repository path medium =
     \<lparr>loc_repository = Some repository, loc_path = path, loc_medium = Some medium\<rparr>"

definition registration_of :: "reconciliation_action \<Rightarrow> registration" where
  "registration_of a =
     \<lparr>rg_artifact_type = or_empty (act_artifact_type a),
      rg_title = (if truthy (act_title a) then or_empty (act_title a) else path_stem (or_empty (act_path a))),
      rg_repository = act_repository a, rg_path = or_empty (act_path a), rg_medium = act_medium a,
      rg_namespace = None, rg_status = act_status a, rg_status_raw = act_raw_status_header a,
      rg_status_unresolved_reason = act_status_unresolved_reason a, rg_artifact_uuid = act_artifact_uuid a\<rparr>"

definition apply_one ::
  "string option \<Rightarrow> string \<Rightarrow> string \<Rightarrow> (nat \<Rightarrow> string \<times> string) \<Rightarrow> nat \<Rightarrow> reconciliation_action
    \<Rightarrow> source_graph \<Rightarrow> written" where
  "apply_one observed_commit now run_id fresh n a g =
     (let obs = observation_from_action a observed_commit now (Some run_id);
          uuid = or_empty (act_source_uuid a)
      in case act_kind a of
        REFRESH_SOURCE \<Rightarrow>
          if truthy (act_source_uuid a)
          then refresh_artifact_source uuid obs (act_expected_integrity a) g
          else refresh_artifact_source_by_locator (act_repository a) (act_medium a) (or_empty (act_path a)) obs g
      | RELOCATE_SOURCE \<Rightarrow>
          if truthy (act_source_uuid a)
          then relocate_artifact_source uuid (locator_of (act_repository a) (act_old_path a) (act_medium a))
                 (locator_of (act_repository a) (act_path a) (act_medium a)) obs (act_expected_integrity a) g
          else relocate_artifact_source_by_locator (act_repository a) (act_medium a)
                 (or_empty (act_old_path a)) (or_empty (act_path a)) obs g
      | ADOPT_SOURCE_REPOSITORY \<Rightarrow>
          if \<not> truthy (act_source_uuid a) then (g, Inr (Skipped ''source_uuid_not_backfilled''))
          else relocate_artifact_source uuid (locator_of [] (act_old_path a) (act_medium a))
                 (locator_of (act_repository a) (act_path a) (act_medium a)) obs (act_expected_integrity a) g
      | REGISTER_ARTIFACT \<Rightarrow>
          if act_status a = Some SUPERSEDED
          then (g, Inr (Skipped ''superseded_registration_requires_replacement''))
          else register_work_artifact (registration_of a) obs (fst (fresh n)) (snd (fresh n)) now g
      | ATTACH_SOURCE \<Rightarrow>
          attach_artifact_source (or_empty (act_artifact_uuid a)) (or_empty (act_artifact_type a))
            (act_repository a) (or_empty (act_path a)) (act_medium a) obs (snd (fresh n)) now g
      | MARK_SOURCE_UNRESOLVED \<Rightarrow>
          if \<not> truthy (act_source_uuid a) then (g, Inr (Skipped ''source_uuid_not_backfilled''))
          else mark_artifact_source_unresolved uuid
                 (or_empty (or_else (act_reason a) (Some ''source_not_observed''))) observed_commit now g
      | k \<Rightarrow> (g, Inr (Skipped (''unsupported_action:'' @ action_kind_value k))))"

section \<open>Apply\<close>

record apply_result =
  ar_run_id :: string
  ar_plan_digest :: string
  ar_applied :: "(reconciliation_action \<times> outcome) list"
  ar_skipped :: "(reconciliation_action \<times> outcome) list"
  ar_conflicted :: "reconciliation_action list"
  ar_refused_reason :: "string option"
  ar_cursor_advanced :: bool
  ar_cursor_reason :: "string option"

definition apply_result_init :: "string \<Rightarrow> string \<Rightarrow> apply_result" where
  "apply_result_init run_id digest =
     \<lparr>ar_run_id = run_id, ar_plan_digest = digest, ar_applied = [], ar_skipped = [], ar_conflicted = [],
      ar_refused_reason = None, ar_cursor_advanced = False, ar_cursor_reason = None\<rparr>"

definition apply_result_ok :: "apply_result \<Rightarrow> bool" where
  "apply_result_ok r \<longleftrightarrow> ar_refused_reason r = None"

text \<open>The loop over the actions of the report; the repository's write is its parameter.\<close>

fun apply_actions ::
  "(nat \<Rightarrow> reconciliation_action \<Rightarrow> 's \<Rightarrow> 's \<times> outcome result) \<Rightarrow> nat \<Rightarrow> reconciliation_action list
    \<Rightarrow> apply_result \<Rightarrow> 's \<Rightarrow> 's \<times> apply_result result" where
  "apply_actions wr n [] r g = (g, Inr r)"
| "apply_actions wr n (a # as) r g =
     (if act_kind a = CONFLICT then
        apply_actions wr (Suc n) as (r\<lparr>ar_conflicted := ar_conflicted r @ [a]\<rparr>) g
      else if act_kind a \<notin> set SAFE_ACTION_KINDS then apply_actions wr (Suc n) as r g
      else case wr n a g of
        (g', Inl err) \<Rightarrow> (g', Inl err)
      | (g', Inr (Applied u s)) \<Rightarrow>
          apply_actions wr (Suc n) as (r\<lparr>ar_applied := ar_applied r @ [(a, Applied u s)]\<rparr>) g'
      | (g', Inr (Skipped reason)) \<Rightarrow>
          apply_actions wr (Suc n) as (r\<lparr>ar_skipped := ar_skipped r @ [(a, Skipped reason)]\<rparr>) g')"

definition conflict_allows_cursor_advance :: "reconciliation_action \<Rightarrow> bool" where
  "conflict_allows_cursor_advance a \<longleftrightarrow>
     act_conflict_kind a = Some UNCLASSIFIED_NEW_SOURCE \<and> act_source_uuid a = None
     \<and> act_source_identity a = None \<and> act_artifact_uuid a = None \<and> act_old_path a = None"

definition blocking_conflicts :: "reconciliation_report \<Rightarrow> reconciliation_action list" where
  "blocking_conflicts rep =
     filter (\<lambda>a. act_kind a = CONFLICT \<and> \<not> conflict_allows_cursor_advance a) (rep_actions rep)"

definition finish_cursor ::
  "reconciliation_report \<Rightarrow> apply_result \<Rightarrow> source_graph \<Rightarrow> source_graph \<times> apply_result" where
  "finish_cursor rep r g =
     (let acknowledged = (ar_conflicted r \<noteq> [] \<and> blocking_conflicts rep = [])
      in if blocking_conflicts rep \<noteq> [] then (g, r\<lparr>ar_cursor_reason := Some ''conflicts_present''\<rparr>)
         else if ar_skipped r \<noteq> [] then (g, r\<lparr>ar_cursor_reason := Some ''writes_skipped''\<rparr>)
         else if \<not> truthy (rep_observed_commit rep)
         then (g, r\<lparr>ar_cursor_reason := Some ''observed_commit_unavailable''\<rparr>)
         else if rep_cursor_commit rep = rep_observed_commit rep
         then (g, r\<lparr>ar_cursor_advanced := True,
                    ar_cursor_reason := Some (if acknowledged
                      then ''already_current_with_acknowledged_conflicts'' else ''already_current'')\<rparr>)
         else case advance_artifact_reconciliation_cursor (rep_repository rep) (rep_cursor_commit rep)
                     (or_empty (rep_observed_commit rep)) g of
           (g', advanced, _) \<Rightarrow>
             (g', if \<not> advanced
                  then r\<lparr>ar_cursor_advanced := False,
                         ar_refused_reason := Some ''reconciliation_cursor_update_failed'',
                         ar_cursor_reason := Some ''compare_and_set_failed''\<rparr>
                  else if acknowledged
                  then r\<lparr>ar_cursor_advanced := True,
                         ar_cursor_reason := Some ''advanced_with_acknowledged_conflicts''\<rparr>
                  else r\<lparr>ar_cursor_advanced := True\<rparr>))"

definition refusal ::
  "reconciliation_report \<Rightarrow> string \<Rightarrow> bool \<Rightarrow> source_graph \<Rightarrow> (string \<times> string option) option" where
  "refusal rep expected_digest allow_new_repository g =
     (if rep_plan_digest rep \<noteq> expected_digest then Some (''plan_digest_mismatch'', None)
      else if get_artifact_reconciliation_cursor (rep_repository rep) g \<noteq> rep_cursor_commit rep
      then Some (''reconciliation_cursor_changed'', Some ''stale'')
      else if \<not> rep_evidence_base_valid rep
      then Some (''git_evidence_base_unavailable'', Some ''invalid_evidence_base'')
      else if filter (\<lambda>a. act_kind a = REGISTER_ARTIFACT) (rep_actions rep) \<noteq> []
              \<and> cnt_sources (rep_counts rep) = 0 \<and> \<not> allow_new_repository
      then Some (''new_repository_requires_explicit_allow'', None)
      else None)"

definition apply_report ::
  "reconciliation_report \<Rightarrow> string \<Rightarrow> bool \<Rightarrow> string \<Rightarrow> string \<Rightarrow> (nat \<Rightarrow> string \<times> string)
    \<Rightarrow> source_graph \<Rightarrow> source_graph \<times> apply_result result" where
  "apply_report rep expected_digest allow_new_repository run_id now fresh g =
     (let r0 = apply_result_init run_id (rep_plan_digest rep)
      in case refusal rep expected_digest allow_new_repository g of
           Some (reason, cursor_reason) \<Rightarrow>
             (g, Inr (r0\<lparr>ar_refused_reason := Some reason, ar_cursor_reason := cursor_reason\<rparr>))
         | None \<Rightarrow>
             (case apply_actions (apply_one (rep_observed_commit rep) now run_id fresh) 0 (rep_actions rep) r0 g of
                (g', Inl err) \<Rightarrow> (g', Inl err)
              | (g', Inr r) \<Rightarrow> (case finish_cursor rep r g' of (g'', r') \<Rightarrow> (g'', Inr r'))))"

definition apply_reconciliation ::
  "world \<Rightarrow> string option \<Rightarrow> string option \<Rightarrow> string \<Rightarrow> bool \<Rightarrow> string \<Rightarrow> string \<Rightarrow> (nat \<Rightarrow> string \<times> string)
    \<Rightarrow> source_graph \<Rightarrow> source_graph \<Rightarrow> source_graph \<times> apply_result result" where
  "apply_reconciliation wd repository from_commit expected_digest allow_new_repository run_id now fresh g0 g =
     (case audit wd repository from_commit None [] None g0 of
        Inl err \<Rightarrow> (g, Inl err)
      | Inr rep \<Rightarrow> apply_report rep expected_digest allow_new_repository run_id now fresh g)"

end
