(* ===== verification/Apply_Properties.thy ===== *)
theory Apply_Properties
  imports Reconciliation_Apply
begin

text \<open>
  What applying a plan guarantees: a refused plan writes nothing, every action of the report is
  accounted for, the cursor moves only over a clean run, and whatever the run does, also when it
  ends in an exception, refines the abstract registry of locators and loses nothing.
\<close>

section \<open>A loop of writes\<close>

text \<open>
  The contract the service relies on: the write of an admissible action makes at most one step
  of the store and re-establishes the invariant for the next position. A total writer does not
  raise.
\<close>

locale action_writer =
  fixes wr :: "nat \<Rightarrow> reconciliation_action \<Rightarrow> 's \<Rightarrow> 's \<times> outcome result"
    and inv :: "nat \<Rightarrow> 's \<Rightarrow> bool"
    and step :: "'s \<Rightarrow> 's \<Rightarrow> bool"
    and admissible :: "reconciliation_action \<Rightarrow> bool"
  assumes wr_step: "inv n g \<Longrightarrow> admissible a \<Longrightarrow> step\<^sup>=\<^sup>= g (fst (wr n a g))"
    and wr_inv: "inv n g \<Longrightarrow> admissible a \<Longrightarrow> inv (Suc n) (fst (wr n a g))"
    and skip_inv: "inv n g \<Longrightarrow> inv (Suc n) g"
begin

lemma loop_writes:
  "inv n g \<Longrightarrow> list_all admissible as \<Longrightarrow> step\<^sup>*\<^sup>* g (fst (apply_actions wr n as r g))
    \<and> (\<exists>m. inv m (fst (apply_actions wr n as r g)))"
proof (induction as arbitrary: n r g)
  case Nil
  then show ?case by auto
next
  case (Cons a as)
  obtain g' out where w: "wr n a g = (g', out)" by (cases "wr n a g")
  have a: "admissible a" "list_all admissible as" using Cons.prems by simp_all
  have s: "step\<^sup>*\<^sup>* g g'" "inv (Suc n) g'"
    using wr_step [OF Cons.prems(1) a(1)] wr_inv [OF Cons.prems(1) a(1)] w by auto
  show ?case
  proof (cases "act_kind a = CONFLICT \<or> act_kind a \<notin> set SAFE_ACTION_KINDS")
    case True
    then show ?thesis using Cons.IH [OF skip_inv [OF Cons.prems(1)] a(2)] by auto
  next
    case False
    then show ?thesis
      using s Cons.IH [OF s(2) a(2)] w
      by (auto split: sum.splits outcome.splits intro: rtranclp_trans)
  qed
qed

end

locale total_writer = action_writer +
  assumes wr_total: "inv n g \<Longrightarrow> admissible a \<Longrightarrow> \<exists>out. snd (wr n a g) = Inr out"
begin

lemma loop_returns:
  "inv n g \<Longrightarrow> list_all admissible as \<Longrightarrow> \<exists>r'. snd (apply_actions wr n as r g) = Inr r'"
proof (induction as arbitrary: n r g)
  case (Cons a as)
  have a: "admissible a" "list_all admissible as" using Cons.prems by simp_all
  obtain g' out where w: "wr n a g = (g', Inr out)"
    using wr_total [OF Cons.prems(1) a(1)] by (metis prod.collapse)
  have "inv (Suc n) g'" using wr_inv [OF Cons.prems(1) a(1)] w by simp
  then show ?case
    using Cons.IH [OF _ a(2)] skip_inv [OF Cons.prems(1)] w by (cases out) auto
qed simp

end

text \<open>
  Fresh identifiers: from position \<open>n\<close> on the drawn source UUIDs are nonempty, pairwise
  different and not in the store.
\<close>

definition fresh_from :: "(nat \<Rightarrow> string \<times> string) \<Rightarrow> nat \<Rightarrow> source_graph \<Rightarrow> bool" where
  "fresh_from fresh n g \<longleftrightarrow>
     (\<forall>m \<ge> n. snd (fresh m) \<noteq> [] \<and> snd (fresh m) \<notin> set (uuids (sg_sources g))
       \<and> (\<forall>k > m. snd (fresh k) \<noteq> snd (fresh m)))"

definition writer_inv :: "(nat \<Rightarrow> string \<times> string) \<Rightarrow> nat \<Rightarrow> source_graph \<Rightarrow> bool" where
  "writer_inv fresh n g \<longleftrightarrow> store_ok g \<and> fresh_from fresh n g"

lemma apply_one_step:
  assumes "writer_inv fresh n g"
  shows "source_step\<^sup>=\<^sup>= g (fst (apply_one c now rid fresh n a g))"
proof -
  have ok: "store_ok g" and fr: "snd (fresh n) \<noteq> []" "snd (fresh n) \<notin> set (uuids (sg_sources g))"
    using assms by (auto simp: writer_inv_def fresh_from_def)
  note steps = refresh_source_step [OF ok] relocate_source_step [OF ok] mark_source_step [OF ok] by_locator_steps [OF ok]
    attach_source_step [OF ok fr]
  have "source_step\<^sup>=\<^sup>= g (fst (attach_artifact_source au ty r q m obs (snd (fresh n)) now g))" for au ty r q m obs
    using steps(6) [of m au ty r q obs now]
    by (cases "m \<in> set ARTIFACT_MEDIA") (auto simp: returns_step_def attach_artifact_source_def)
  then show ?thesis
    using steps(1-5) register_source_step [OF ok fr]
    by (auto simp: apply_one_def Let_def returns_step_def split: action_kind.splits)
qed

text \<open>A write adds no source UUID but the one drawn for it.\<close>

lemma uuids_update_where: "(\<And>s. sn_source_uuid (f s) = sn_source_uuid s) \<Longrightarrow> uuids (update_where p f ss) = uuids ss"
  by (induction ss) (auto simp: update_where_def)

lemma statement_uuids:
  "(\<And>s. sn_source_uuid (f s) = sn_source_uuid s) \<Longrightarrow>
   uuids (sg_sources (fst (statement g (update_where p f (sg_sources g)) out))) = uuids (sg_sources g)"
  by (simp add: statement_def write_sources_def uuids_update_where)

lemma op_uuids:
  "uuids (sg_sources (fst (refresh_artifact_source u obs e g))) = uuids (sg_sources g)"
  "uuids (sg_sources (fst (relocate_artifact_source u old new obs e g))) = uuids (sg_sources g)"
  "uuids (sg_sources (fst (mark_artifact_source_unresolved u r c n g))) = uuids (sg_sources g)"
  unfolding refresh_artifact_source_def relocate_artifact_source_def mark_artifact_source_unresolved_def Let_def
  by (intro statement_uuids; simp)+

lemma by_locator_uuids:
  "uuids (sg_sources (fst (refresh_artifact_source_by_locator r m q obs g))) = uuids (sg_sources g)"
  "uuids (sg_sources (fst (relocate_artifact_source_by_locator r m q q' obs g))) = uuids (sg_sources g)"
  by (simp_all add: refresh_artifact_source_by_locator_def relocate_artifact_source_by_locator_def op_uuids
      split: sum.splits)

lemma attach_uuids:
  "set (uuids (sg_sources (fst (attach_artifact_source au ty r q m obs su now g))))
    \<subseteq> insert su (set (uuids (sg_sources g)))"
  by (auto simp: attach_artifact_source_def write_sources_def Let_def attach_node_def split: option.splits)

lemma register_uuids:
  assumes "store_ok g" "su \<noteq> []" "su \<notin> set (uuids (sg_sources g))"
  shows "set (uuids (sg_sources (fst (register_work_artifact rg obs nu su now g))))
    \<subseteq> insert su (set (uuids (sg_sources g)))"
  using assms
proof (cases rule: register_cases [of g su rg obs nu now])
qed auto

lemma apply_one_uuids:
  assumes "writer_inv fresh n g"
  shows "set (uuids (sg_sources (fst (apply_one c now rid fresh n a g))))
    \<subseteq> insert (snd (fresh n)) (set (uuids (sg_sources g)))"
proof -
  have ok: "store_ok g" and fr: "snd (fresh n) \<noteq> []" "snd (fresh n) \<notin> set (uuids (sg_sources g))"
    using assms by (auto simp: writer_inv_def fresh_from_def)
  note reg = register_uuids [OF ok fr, of "registration_of a" _ "fst (fresh n)" now]
  show ?thesis
    unfolding apply_one_def Let_def
    using reg attach_uuids [of "or_empty (act_artifact_uuid a)" "or_empty (act_artifact_type a)" "act_repository a"
      "or_empty (act_path a)" "act_medium a" _ "snd (fresh n)" now g]
    by (cases "act_kind a") (simp_all add: op_uuids by_locator_uuids subset_insertI)
qed

lemma source_steps_ok: "source_step\<^sup>=\<^sup>= g h \<Longrightarrow> store_ok g \<Longrightarrow> store_ok h"
  by (auto dest: step_store_ok)

interpretation writer: action_writer "apply_one c now rid fresh" "writer_inv fresh" source_step "\<lambda>_. True"
  for c now rid fresh
proof
  fix n g a
  assume inv: "writer_inv fresh n g"
  show "source_step\<^sup>=\<^sup>= g (fst (apply_one c now rid fresh n a g))" by (rule apply_one_step [OF inv])
  then have "store_ok (fst (apply_one c now rid fresh n a g))"
    using inv source_steps_ok unfolding writer_inv_def by blast
  moreover have "fresh_from fresh (Suc n) (fst (apply_one c now rid fresh n a g))"
    unfolding fresh_from_def
  proof (intro allI impI)
    fix m
    assume m: "Suc n \<le> m"
    have "snd (fresh m) \<noteq> snd (fresh n)" "snd (fresh m) \<noteq> []" "snd (fresh m) \<notin> set (uuids (sg_sources g))"
      "\<forall>k > m. snd (fresh k) \<noteq> snd (fresh m)"
      using inv m unfolding writer_inv_def fresh_from_def by auto
    then show "snd (fresh m) \<noteq> [] \<and> snd (fresh m) \<notin> set (uuids (sg_sources (fst (apply_one c now rid fresh n a g))))
        \<and> (\<forall>k > m. snd (fresh k) \<noteq> snd (fresh m))"
      using apply_one_uuids [OF inv, of c now rid a] by auto
  qed
  ultimately show "writer_inv fresh (Suc n) (fst (apply_one c now rid fresh n a g))"
    by (simp add: writer_inv_def)
  show "writer_inv fresh (Suc n) g" using inv by (auto simp: writer_inv_def fresh_from_def)
qed

section \<open>A run refines the registry\<close>

lemma cursors_self [simp]: "\<exists>c. g = g\<lparr>sg_cursors := c\<rparr>"
  by (rule exI [of _ "sg_cursors g"]) simp

lemma advance_frame: "\<exists>c. fst (advance_artifact_reconciliation_cursor repo e c0 g) = g\<lparr>sg_cursors := c\<rparr>"
  by (auto simp: advance_artifact_reconciliation_cursor_def Let_def split: option.splits)

lemma finish_cursor_frame: "\<exists>c. fst (finish_cursor rep r g) = g\<lparr>sg_cursors := c\<rparr>"
  using advance_frame [of "rep_repository rep" "rep_cursor_commit rep" "or_empty (rep_observed_commit rep)" g]
  by (simp add: finish_cursor_def Let_def prod.case_eq_if)

lemma apply_report_shape:
  assumes "store_ok g" "fresh_from fresh 0 g"
  obtains h c where "source_step\<^sup>*\<^sup>* g h" "fst (apply_report rep d allow rid now fresh g) = h\<lparr>sg_cursors := c\<rparr>"
proof (cases "refusal rep d allow g")
  case None
  let ?loop = "apply_actions (apply_one (rep_observed_commit rep) now rid fresh) 0 (rep_actions rep)
    (apply_result_init rid (rep_plan_digest rep)) g"
  have "source_step\<^sup>*\<^sup>* g (fst ?loop)"
    using writer.loop_writes [of fresh 0 g "rep_actions rep"] assms by (simp add: writer_inv_def list_all_iff)
  moreover have "\<exists>c. fst (apply_report rep d allow rid now fresh g) = (fst ?loop)\<lparr>sg_cursors := c\<rparr>"
  proof (cases "snd ?loop")
    case (Inl err)
    then have "fst (apply_report rep d allow rid now fresh g) = fst ?loop"
      by (simp add: apply_report_def None Let_def prod.case_eq_if)
    then show ?thesis by (metis source_graph.surjective source_graph.update_convs(3))
  next
    case (Inr r)
    then show ?thesis
      using finish_cursor_frame [of rep r "fst ?loop"] by (simp add: apply_report_def None Let_def prod.case_eq_if)
  qed
  ultimately show ?thesis using that by blast
next
  case (Some x)
  then have "fst (apply_report rep d allow rid now fresh g) = g\<lparr>sg_cursors := sg_cursors g\<rparr>"
    by (simp add: apply_report_def prod.case_eq_if)
  then show ?thesis using that by blast
qed

lemma cursors_frame [simp]:
  "holder (g\<lparr>sg_cursors := c\<rparr>) = holder g" "store_ok (g\<lparr>sg_cursors := c\<rparr>) = store_ok g"
  "keeps h (g\<lparr>sg_cursors := c\<rparr>) = keeps h g"
  by (auto simp: holder_def store_ok_def keeps_def list_all_iff owned_def)

lemma source_steps_facts:
  assumes "source_step\<^sup>*\<^sup>* g h" "store_ok g"
  shows "store_ok h \<and> keeps g h \<and> registry_step\<^sup>*\<^sup>* (holder g) (holder h) \<and> sg_cursors h = sg_cursors g"
  using assms(1)
proof (induction rule: rtranclp_induct)
  case base
  then show ?case using assms(2) by simp
next
  case (step h k)
  then have ih: "store_ok h" "keeps g h" "registry_step\<^sup>*\<^sup>* (holder g) (holder h)" "sg_cursors h = sg_cursors g"
    by auto
  have "registry_step\<^sup>*\<^sup>* (holder h) (holder k)" using step_refines [OF step(2) ih(1)] by auto
  then have "registry_step\<^sup>*\<^sup>* (holder g) (holder k)" using ih(3) by (rule rtranclp_trans [rotated])
  moreover have "sg_cursors k = sg_cursors h" using step(2) by (auto elim: source_step.cases)
  moreover have "keeps g k" using keeps_trans [OF ih(2) step_keeps [OF step(2)]] .
  ultimately show ?case using step_store_ok [OF step(2) ih(1)] ih(4) by simp
qed

text \<open>
  C3: applying a report refines the abstract registry of locators. Seen through \<open>holder\<close>, the
  map from locators to the artifacts that hold them, a run is a sequence of abstract steps: a
  free locator is claimed, or a holder moves to a free locator. This also holds when the run
  ends in an exception.
\<close>

theorem apply_refines_registry:
  assumes "store_ok g" "fresh_from fresh 0 g"
  shows "registry_step\<^sup>*\<^sup>* (holder g) (holder (fst (apply_report rep d allow rid now fresh g)))"
proof -
  obtain h c where "source_step\<^sup>*\<^sup>* g h" "fst (apply_report rep d allow rid now fresh g) = h\<lparr>sg_cursors := c\<rparr>"
    using apply_report_shape [OF assms] .
  then show ?thesis using source_steps_facts assms(1) by simp
qed

text \<open>
  C13: applying a report preserves the store and loses nothing. No two sources share a UUID or
  a locator afterwards and every source has its owner; every artifact is as it was, every
  source is still there with its owner, UUID and medium, and every artifact that held a
  locator still holds one. This also holds when the run ends in an exception.
\<close>

theorem apply_preserves_store:
  assumes "store_ok g" "fresh_from fresh 0 g"
  shows "let g' = fst (apply_report rep d allow rid now fresh g)
    in store_ok g' \<and> keeps g g' \<and> ran (holder g) \<subseteq> ran (holder g')"
proof -
  obtain h c where "source_step\<^sup>*\<^sup>* g h" "fst (apply_report rep d allow rid now fresh g) = h\<lparr>sg_cursors := c\<rparr>"
    using apply_report_shape [OF assms] .
  then show ?thesis using source_steps_facts [of g h] assms(1) registry_steps_ran by (simp add: Let_def)
qed

section \<open>Refusal, accounting, cursor\<close>

text \<open>
  C20: a refused plan writes nothing. If the re-derived digest is not the approved one, the
  cursor moved since the audit, the rename evidence is missing, or documents of a repository
  without sources would be registered without permission, the graph is returned untouched and
  the result reports the refusal and no action.
\<close>

theorem refused_plan_writes_nothing:
  assumes "audit wd repository from_commit None [] None g0 = Inr rep"
    and "rep_plan_digest rep \<noteq> expected
      \<or> get_artifact_reconciliation_cursor (rep_repository rep) g \<noteq> rep_cursor_commit rep
      \<or> \<not> rep_evidence_base_valid rep
      \<or> (\<exists>a \<in> set (rep_actions rep). act_kind a = REGISTER_ARTIFACT)
          \<and> cnt_sources (rep_counts rep) = 0 \<and> \<not> allow"
  shows "\<exists>r. apply_reconciliation wd repository from_commit expected allow rid now fresh g0 g = (g, Inr r)
    \<and> \<not> apply_result_ok r \<and> ar_applied r = [] \<and> ar_skipped r = [] \<and> ar_conflicted r = []
    \<and> \<not> ar_cursor_advanced r"
proof -
  have "refusal rep expected allow g \<noteq> None"
    using assms(2) by (auto simp: refusal_def filter_empty_conv)
  then obtain reason c where "refusal rep expected allow g = Some (reason, c)" by auto
  then show ?thesis
    by (simp add: apply_reconciliation_def assms(1) apply_report_def apply_result_init_def apply_result_ok_def)
qed

lemma loop_accounts:
  assumes "apply_actions wr n as r g = (g', Inr r')"
  shows "ar_conflicted r' = ar_conflicted r @ filter (\<lambda>a. act_kind a = CONFLICT) as
    \<and> mset (map fst (ar_applied r') @ map fst (ar_skipped r')) = mset (map fst (ar_applied r) @ map fst (ar_skipped r))
        + mset (filter (\<lambda>a. act_kind a \<in> set SAFE_ACTION_KINDS) as)
    \<and> ar_refused_reason r' = ar_refused_reason r \<and> ar_cursor_advanced r' = ar_cursor_advanced r"
  using assms
proof (induction as arbitrary: n r g)
  case (Cons a as)
  have "CONFLICT \<notin> set SAFE_ACTION_KINDS" by (simp add: SAFE_ACTION_KINDS_def)
  then consider "act_kind a = CONFLICT" "act_kind a \<notin> set SAFE_ACTION_KINDS"
    | "act_kind a \<noteq> CONFLICT" "act_kind a \<notin> set SAFE_ACTION_KINDS"
    | "act_kind a \<noteq> CONFLICT" "act_kind a \<in> set SAFE_ACTION_KINDS" by auto
  then show ?case
  proof cases
    case 1
    then show ?thesis using Cons.IH [of "Suc n" "r\<lparr>ar_conflicted := ar_conflicted r @ [a]\<rparr>" g] Cons.prems by simp
  next
    case 2
    then show ?thesis using Cons.IH [of "Suc n" r g] Cons.prems by simp
  next
    case 3
    obtain h out where w: "wr n a g = (h, out)" by (cases "wr n a g")
    show ?thesis
    proof (cases out)
      case (Inr x)
      then show ?thesis
        using 3 w Cons.prems Cons.IH [of "Suc n" "r\<lparr>ar_applied := ar_applied r @ [(a, x)]\<rparr>" h]
          Cons.IH [of "Suc n" "r\<lparr>ar_skipped := ar_skipped r @ [(a, x)]\<rparr>" h]
        by (cases x) simp_all
    qed (use 3 w Cons.prems in simp)
  qed
qed simp

lemma finish_cursor_lists:
  "finish_cursor rep r g = (g', r') \<Longrightarrow> ar_applied r' = ar_applied r \<and> ar_skipped r' = ar_skipped r
    \<and> ar_conflicted r' = ar_conflicted r"
  by (auto simp: finish_cursor_def Let_def split: if_splits prod.splits)

lemma apply_report_returns:
  assumes "refusal rep d allow g = None" "apply_report rep d allow rid now fresh g = (g', Inr r)"
  obtains h r1 where "apply_actions (apply_one (rep_observed_commit rep) now rid fresh) 0 (rep_actions rep)
      (apply_result_init rid (rep_plan_digest rep)) g = (h, Inr r1)" "finish_cursor rep r1 h = (g', r)"
  using assms by (auto simp: apply_report_def Let_def split: prod.splits sum.splits)

text \<open>
  C30: a run accounts for every action. If the plan is not refused and the run returns, the
  conflicts of the report are listed as conflicted, in order, and every safe action of the
  report is listed exactly once, as applied or as skipped; nothing else is listed.
\<close>

theorem apply_accounts_for_every_action:
  assumes "refusal rep d allow g = None" "apply_report rep d allow rid now fresh g = (g', Inr r)"
  shows "ar_conflicted r = report_conflicts rep
    \<and> mset (map fst (ar_applied r) @ map fst (ar_skipped r)) = mset (report_safe_actions rep)"
proof (rule apply_report_returns [OF assms])
  fix h r1
  assume "apply_actions (apply_one (rep_observed_commit rep) now rid fresh) 0 (rep_actions rep)
      (apply_result_init rid (rep_plan_digest rep)) g = (h, Inr r1)" and f: "finish_cursor rep r1 h = (g', r)"
  from loop_accounts [OF this(1)] finish_cursor_lists [OF f] show ?thesis
    by (simp add: apply_result_init_def report_conflicts_def report_safe_actions_def)
qed

lemma finish_cursor_moves:
  assumes "finish_cursor rep r h = (g', r')" "\<not> ar_cursor_advanced r" "sg_cursors h (rep_repository rep) = rep_cursor_commit rep"
  shows "if ar_cursor_advanced r'
     then blocking_conflicts rep = [] \<and> ar_skipped r' = [] \<and> truthy (rep_observed_commit rep)
       \<and> sg_cursors g' = (sg_cursors h)(rep_repository rep := rep_observed_commit rep)
     else sg_cursors g' = sg_cursors h"
  using assms truthy_eq_or_empty [of "rep_observed_commit rep"]
  unfolding finish_cursor_def Let_def advance_artifact_reconciliation_cursor_def
  by (cases "rep_cursor_commit rep") (auto split: if_splits simp: fun_eq_iff)

text \<open>
  C26: the cursor moves over clean runs only. After a run that is not refused, the cursor of
  the repository is the observed commit if the result says it advanced, and then no conflict
  that bears on an identity is in the report and no write was skipped; otherwise, and when the
  run raises, every cursor is as it was. No other repository's cursor ever moves.
\<close>

theorem cursor_moves_over_clean_runs:
  assumes "store_ok g" "fresh_from fresh 0 g" "refusal rep d allow g = None"
    and "apply_report rep d allow rid now fresh g = (g', res)"
  shows "case res of
      Inl _ \<Rightarrow> sg_cursors g' = sg_cursors g
    | Inr r \<Rightarrow>
        if ar_cursor_advanced r
        then blocking_conflicts rep = [] \<and> ar_skipped r = [] \<and> truthy (rep_observed_commit rep)
          \<and> sg_cursors g' = (sg_cursors g)(rep_repository rep := rep_observed_commit rep)
        else sg_cursors g' = sg_cursors g"
proof -
  let ?loop = "apply_actions (apply_one (rep_observed_commit rep) now rid fresh) 0 (rep_actions rep)
    (apply_result_init rid (rep_plan_digest rep)) g"
  obtain h out where l: "?loop = (h, out)" by (cases ?loop)
  have "source_step\<^sup>*\<^sup>* g h"
    using writer.loop_writes [of fresh 0 g "rep_actions rep" "rep_observed_commit rep" now rid] assms(1,2) l
    by (simp add: writer_inv_def list_all_iff) (metis fst_conv)
  then have h: "sg_cursors h = sg_cursors g" using source_steps_facts assms(1) by blast
  show ?thesis
  proof (cases out)
    case (Inl err)
    then show ?thesis using assms(3,4) l h by (auto simp: apply_report_def)
  next
    case (Inr r1)
    then obtain r where f: "finish_cursor rep r1 h = (g', r)" "res = Inr r"
      using assms(3,4) l by (auto simp: apply_report_def split: prod.splits)
    have "sg_cursors h (rep_repository rep) = rep_cursor_commit rep"
      using assms(3) h by (auto simp: refusal_def get_artifact_reconciliation_cursor_def split: if_splits)
    moreover have "\<not> ar_cursor_advanced r1"
      using loop_accounts [OF l [unfolded Inr]] by (simp add: apply_result_init_def)
    ultimately show ?thesis using finish_cursor_moves [OF f(1)] f(2) h by simp
  qed
qed

end
