(* ===== verification/Audit_Composition.thy ===== *)
theory Audit_Composition
  imports Apply_Properties
begin

text \<open>
  The components put together: an audit reads the scanned corpus and the source store and
  hands both to the planner, and apply writes the planner's actions back. This theory shows
  that the scanner and the store meet the planner's assumptions, and that the planner's actions
  meet those of the store.
\<close>

section \<open>The audit meets the planner's assumptions\<close>

text \<open>Every source carries a UUID, which is what the preparation step establishes.\<close>

definition backfilled :: "source_graph \<Rightarrow> bool" where
  "backfilled g \<longleftrightarrow> list_all (\<lambda>s. sn_source_uuid s \<noteq> None) (sg_sources g)"

lemma require_repository_Inr:
  "require_repository repository = Inr name \<longleftrightarrow> name = strip (or_empty repository) \<and> name \<noteq> []"
  by (auto simp: require_repository_def Let_def)

lemma distinct_backfilled:
  assumes "store_ok g" "backfilled g"
  shows "distinct (map (\<lambda>s. or_empty (sn_source_uuid s)) (sg_sources g))"
proof -
  have "list_all (\<lambda>s. sn_source_uuid s \<noteq> None) ss \<Longrightarrow> map (\<lambda>s. or_empty (sn_source_uuid s)) ss = uuids ss" for ss
    by (induction ss) auto
  then show ?thesis using assms store_okD(2) by (simp add: backfilled_def)
qed

lemma identity_of_node:
  assumes "store_ok g" "backfilled g" "s \<in> set (sg_sources g)"
  shows "identity (snapshot_of_node g s) = or_empty (sn_source_uuid s)"
proof -
  obtain u where u: "sn_source_uuid s = Some u" using assms(2,3) by (auto simp: backfilled_def list_all_iff)
  then have "u \<noteq> []" using store_okD(3) [OF assms(1)] assms(3) in_uuids by metis
  then show ?thesis using u by (simp add: identity_def snapshot_of_node_def Let_def)
qed

lemma source_rows_subset: "set (source_rows p ns g) \<subseteq> {s \<in> set (sg_sources g). p s}"
  by (auto simp: source_rows_def)

lemma distinct_map_rows: "distinct (map f (sg_sources g)) \<Longrightarrow> distinct (map f (source_rows p ns g))"
  by (simp add: source_rows_def distinct_map_filter)

lemma distinct_map_map_cong:
  "(\<And>x. x \<in> set xs \<Longrightarrow> f (h x) = k x) \<Longrightarrow> distinct (map k xs) \<Longrightarrow> distinct (map f (map h xs))"
proof -
  assume "\<And>x. x \<in> set xs \<Longrightarrow> f (h x) = k x" "distinct (map k xs)"
  moreover from this(1) have "map f (map h xs) = map k xs" by simp
  ultimately show ?thesis by (simp only:)
qed

lemma audit_request_rows:
  obtains q where
    "req_snapshots (audit_request wd name fc git xr ns g) =
       map (snapshot_of_node g) (source_rows (\<lambda>s. not_null_eq (sn_repository s) (Some name)) ns g)"
    "req_unscoped (audit_request wd name fc git xr ns g) = []
     \<or> req_unscoped (audit_request wd name fc git xr ns g) =
         map (snapshot_of_node g) (source_rows (\<lambda>s. is_unscoped s \<and> q s) ns g)"
proof -
  have "\<exists>q. list_unscoped_artifact_source_snapshots ps us ns g = []
      \<or> list_unscoped_artifact_source_snapshots ps us ns g =
         map (snapshot_of_node g) (source_rows (\<lambda>s. is_unscoped s \<and> q s) ns g)" for ps us
    unfolding list_unscoped_artifact_source_snapshots_def by auto
  moreover have "req_snapshots (audit_request wd name fc git xr ns g) =
       map (snapshot_of_node g) (source_rows (\<lambda>s. not_null_eq (sn_repository s) (Some name)) ns g)"
    by (simp add: audit_request_def Let_def list_artifact_source_snapshots_def)
  ultimately show ?thesis using that by (simp add: audit_request_def Let_def) blast
qed

lemma audit_rows_disjoint:
  assumes "name \<noteq> []" "strip name = name"
  shows "set (source_rows (\<lambda>s. not_null_eq (sn_repository s) (Some name)) ns g)
    \<inter> set (source_rows (\<lambda>s. is_unscoped s \<and> q s) ns g) = {}"
  using assms by (auto simp: source_rows_def not_null_eq_def is_unscoped_def)

lemma audit_wf:
  assumes "store_ok g" "backfilled g" "name \<noteq> []" "strip name = name"
  shows "wf_index (request_index (audit_request wd name fc git xr ns g))"
proof -
  let ?q = "audit_request wd name fc git xr ns g"
  let ?f = "\<lambda>s. or_empty (sn_source_uuid s)"
  have entries: "distinct (map entry_key (scoped_entries name (req_entries ?q)))"
    unfolding scoped_entries_def audit_request_def Let_def
    by (simp add: distinct_map_filter scan_corpus_keys)
  obtain p1 p2 where
    rows: "req_snapshots ?q = map (snapshot_of_node g) (source_rows p1 ns g)"
      "req_unscoped ?q = [] \<or> req_unscoped ?q = map (snapshot_of_node g) (source_rows p2 ns g)"
    and disjoint: "set (source_rows p1 ns g) \<inter> set (source_rows p2 ns g) = {}"
    using audit_request_rows [of wd name fc git xr ns g] audit_rows_disjoint [OF assms(3,4)] by metis
  have id: "identity (snapshot_of_node g s) = ?f s" if "s \<in> set (source_rows p ns g)" for s p
    using identity_of_node [OF assms(1,2)] source_rows_subset that by blast
  have inj: "inj_on ?f (set (sg_sources g))" using distinct_backfilled [OF assms(1,2)] by (simp add: distinct_map)
  have once: "distinct (map identity (map (snapshot_of_node g) (source_rows p ns g)))" for p
    by (rule distinct_map_map_cong [of _ _ _ ?f])
      (use id distinct_map_rows [OF distinct_backfilled [OF assms(1,2)]] in auto)
  have "identity x \<noteq> identity y" if x: "x \<in> set (req_snapshots ?q)" and y: "y \<in> set (req_unscoped ?q)" for x y
  proof -
    obtain s where s: "s \<in> set (source_rows p1 ns g)" "x = snapshot_of_node g s" using x rows(1) by auto
    obtain t where t: "t \<in> set (source_rows p2 ns g)" "y = snapshot_of_node g t" using y rows(2) by auto
    have "s \<noteq> t" using s(1) t(1) disjoint by blast
    then show ?thesis
      using id [OF s(1)] id [OF t(1)] s t source_rows_subset inj by (metis (mono_tags, lifting) inj_on_eq_iff mem_Collect_eq subsetD)
  qed
  then have "distinct (map identity (scoped_snapshots name (req_snapshots ?q) @ req_unscoped ?q))"
    using once [of p1] once [of p2] rows
    by (auto simp: scoped_snapshots_def distinct_map_filter)
  moreover have "req_repository ?q = name" by (simp add: audit_request_def Let_def)
  moreover have "indexed (request_index ?q)" by (simp add: request_index_def)
  ultimately show ?thesis
    using entries unfolding wf_index_def request_index_simps by simp
qed

lemma audit_Inr:
  "audit wd repository fc git xr ns g = Inr rep \<longleftrightarrow>
     strip (or_empty repository) \<noteq> [] \<and> wd_root_available wd \<and>
     plan_reconciliation (wd_digest wd) (audit_request wd (strip (or_empty repository)) fc git xr ns g) = Inr rep"
  by (auto simp: audit_def require_repository_Inr split: if_splits)

lemma audit_request_simps [simp]:
  "req_repository (audit_request wd name fc git xr ns g) = name"
  by (simp add: audit_request_def Let_def)

lemma audit_request_scanned:
  "\<exists>oids. req_entries (audit_request wd name fc git xr ns g) =
     scan_corpus (wd_list_files wd) (wd_read_file wd) (wd_sha256 wd) oids name"
  by (simp add: audit_request_def Let_def) blast

lemma scanned_entry_facts:
  assumes "e \<in> set (req_entries (audit_request wd name fc git xr ns g))"
  shows "ent_repository e = name" "ent_medium e \<in> set ARTIFACT_MEDIA"
    "effective_type e \<in> insert None (Some ` set ARTIFACT_TYPES)"
proof -
  obtain oids where "e \<in> set (scan_corpus (wd_list_files wd) (wd_read_file wd) (wd_sha256 wd) oids name)"
    using assms audit_request_scanned [of wd name fc git xr ns g] by auto
  then obtain rel where "build_entry (wd_read_file wd) (wd_sha256 wd) oids rel name = Some e"
    using scan_corpus_facts(2) by metis
  from build_entry_facts(2-4) [OF this]
  show "ent_repository e = name" "ent_medium e \<in> set ARTIFACT_MEDIA"
    "effective_type e \<in> insert None (Some ` set ARTIFACT_TYPES)" .
qed

lemma audit_returns_report:
  assumes "strip (or_empty repository) \<noteq> []" "wd_root_available wd"
  shows "\<exists>rep. audit wd repository fc git xr ns g = Inr rep"
proof -
  let ?q = "audit_request wd (strip (or_empty repository)) fc git xr ns g"
  have "\<exists>t. run_passes (request_index ?q) (req_renames ?q) (req_repository ?q) = Inr t"
  proof (cases "run_passes (request_index ?q) (req_renames ?q) (req_repository ?q)")
    case (Inl err)
    from run_passes_raises [OF this] obtain e ty where
      e: "e \<in> set (ix_entries (request_index ?q))" "effective_type e = Some ty" "ty \<notin> set ARTIFACT_TYPES" .
    from e(1) have "e \<in> set (req_entries ?q)" by (simp add: scoped_entries_def)
    from scanned_entry_facts(3) [OF this] e(2,3) show ?thesis by auto
  qed auto
  then have "\<exists>rep. plan_reconciliation (wd_digest wd) ?q = Inr rep"
    by (auto simp: plan_reconciliation_def Let_def)
  then show ?thesis using assms audit_Inr by metis
qed

section \<open>The actions meet the store's assumptions\<close>

lemma status_from_header_valid:
  "fst (status_from_header raw ty) = Some st \<Longrightarrow> st \<in> set (valid_statuses ty)"
  by (auto simp: status_from_header_def Let_def split: option.splits if_splits)

lemma declared_status_valid:
  assumes "build_entry rf sha oids rel name = Some e" "ent_declared_status e = Some st"
  shows "\<exists>t. effective_type e = Some t \<and> st \<in> set (valid_statuses t)"
proof -
  from assms(1) obtain route medium payload doc where
    "route_for_path rel = Some route" "medium_for_path rel = Some medium" "rf rel = Some (payload, doc)"
    and e: "ent_route_type e = rt_artifact_type route"
      "ent_declared_type e = dm_artifact_type (if medium = ''pdf'' then no_metadata
         else read_document_metadata doc (rt_artifact_type route))"
      "ent_declared_status e = dm_artifact_status (if medium = ''pdf'' then no_metadata
         else read_document_metadata doc (rt_artifact_type route))"
    unfolding build_entry_def Let_def by (auto split: option.splits if_splits)
  have m: "medium \<noteq> ''pdf''" using e(3) assms(2) by (auto simp: no_metadata_def)
  then have "Some st = fst (read_status (or_else (dm_artifact_type (read_document_metadata doc (rt_artifact_type route)))
      (rt_artifact_type route)) (map_of (fst (parse_frontmatter doc)) ''artifact_status''))"
    using e(3) assms(2) by (simp add: metadata_fields(3))
  then show ?thesis
    using e(1,2) m unfolding read_status_def effective_type_def
    by (auto simp: Let_def split: option.splits if_splits)
qed

lemma planned_status_registers:
  assumes "build_entry rf sha oids rel name = Some e" "effective_type e = Some ty"
    and "planned_status e ty status" "status \<noteq> SUPERSEDED"
  shows "resolve_registration ty (Some status) = Inr status"
proof -
  have ty: "ty \<in> set ARTIFACT_TYPES" using build_entry_facts(4) [OF assms(1)] assms(2) by auto
  have "status \<in> set (valid_statuses ty) \<and> (status = [] \<longrightarrow> map_of INITIAL_STATUS ty = Some [])"
  proof (cases "ent_declared_status e")
    case None
    then show ?thesis
      using assms(3) status_from_header_valid initial_valid
      by (auto simp: planned_status_def Let_def split: if_splits)
  next
    case (Some st)
    then have "st \<in> set (valid_statuses ty)" using declared_status_valid [OF assms(1)] assms(2) by auto
    then show ?thesis
      using Some assms(3) initial_valid by (auto simp: planned_status_def Let_def split: if_splits)
  qed
  then show ?thesis using ty assms(4) by (auto simp: resolve_registration_Inr)
qed

text \<open>
  An action the store accepts without raising: it names a supported medium, a registration
  carries a legal type and status, and no declared UUID is one of the drawn ones.
\<close>

definition admissible_action :: "(nat \<Rightarrow> string \<times> string) \<Rightarrow> reconciliation_action \<Rightarrow> bool" where
  "admissible_action fresh a \<longleftrightarrow>
     (act_kind a \<in> {ATTACH_SOURCE, REGISTER_ARTIFACT} \<longrightarrow> act_medium a \<in> set ARTIFACT_MEDIA)
     \<and> (act_kind a = REGISTER_ARTIFACT \<longrightarrow> act_status a \<noteq> Some SUPERSEDED
          \<longrightarrow> (\<exists>st. resolve_registration (or_empty (act_artifact_type a)) (act_status a) = Inr st))
     \<and> (\<forall>n. act_artifact_uuid a \<noteq> Some (fst (fresh n)))"

definition fresh_artifacts_from :: "(nat \<Rightarrow> string \<times> string) \<Rightarrow> nat \<Rightarrow> source_graph \<Rightarrow> bool" where
  "fresh_artifacts_from fresh n g \<longleftrightarrow>
     (\<forall>m \<ge> n. fst (fresh m) \<noteq> [] \<and> gr_artifacts (sg_graph g) (fst (fresh m)) = None
       \<and> (\<forall>k > m. fst (fresh k) \<noteq> fst (fresh m)))"

lemma justified_admissible:
  assumes "e \<in> set (req_entries (audit_request wd name fc git xr ns g))"
    and "act_kind a \<in> {ATTACH_SOURCE, REGISTER_ARTIFACT}" "action_key a = entry_key e"
    and "act_kind a = REGISTER_ARTIFACT \<Longrightarrow> \<exists>ty status reason. a = register_action e ty status reason
      \<and> effective_type e = Some ty \<and> planned_status e ty status"
    and "\<forall>n. act_artifact_uuid a \<noteq> Some (fst (fresh n))"
  shows "admissible_action fresh a"
proof -
  obtain oids where "e \<in> set (scan_corpus (wd_list_files wd) (wd_read_file wd) (wd_sha256 wd) oids name)"
    using assms(1) audit_request_scanned [of wd name fc git xr ns g] by auto
  then obtain rel where b: "build_entry (wd_read_file wd) (wd_sha256 wd) oids rel name = Some e"
    using scan_corpus_facts(2) by metis
  have "act_medium a \<in> set ARTIFACT_MEDIA"
    using build_entry_facts(3) [OF b] assms(3) by (simp add: action_key_def entry_key_def)
  moreover have "\<exists>st. resolve_registration (or_empty (act_artifact_type a)) (act_status a) = Inr st"
    if "act_kind a = REGISTER_ARTIFACT" "act_status a \<noteq> Some SUPERSEDED"
    using assms(4) [OF that(1)] that(2) planned_status_registers [OF b]
    by (auto simp: register_action_def)
  ultimately show ?thesis using assms(5) by (simp add: admissible_action_def)
qed

lemma report_admissible:
  assumes "store_ok g0" "backfilled g0" "audit wd repository fc git xr ns g0 = Inr rep"
    and "\<forall>a \<in> set (rep_actions rep). \<forall>n. act_artifact_uuid a \<noteq> Some (fst (fresh n))"
  shows "list_all (admissible_action fresh) (rep_actions rep)"
  unfolding list_all_iff
proof
  fix a
  assume a: "a \<in> set (rep_actions rep)"
  let ?name = "strip (or_empty repository)"
  let ?q = "audit_request wd ?name fc git xr ns g0"
  have plan: "?name \<noteq> []" "plan_reconciliation (wd_digest wd) ?q = Inr rep" using assms(3) audit_Inr by metis+
  note wf = audit_wf [OF assms(1,2) plan(1) strip_idem, of wd fc git xr ns]
  show "admissible_action fresh a"
  proof (cases "act_kind a \<in> {ATTACH_SOURCE, REGISTER_ARTIFACT}")
    case True
    then have "act_kind a \<notin> {CONFLICT, MARK_SOURCE_UNRESOLVED}" by auto
    from report_justified [OF wf plan(2) a this] obtain st where
      "justified (request_index ?q) (scoped_renames (req_repository ?q) (req_renames ?q)) st a" by blast
    then consider
        (attach) e i where "e \<in> set (ix_entries (request_index ?q))" "a = attach_action (idn_artifact_uuid i) e i"
      | (register) e ty status reason where "e \<in> set (ix_entries (request_index ?q))"
          "a = register_action e ty status reason" "effective_type e = Some ty" "planned_status e ty status"
      unfolding justified_def using True by auto
    then obtain e where e: "e \<in> set (ix_entries (request_index ?q))" "action_key a = entry_key e"
      "act_kind a = REGISTER_ARTIFACT \<Longrightarrow> \<exists>ty status reason. a = register_action e ty status reason
        \<and> effective_type e = Some ty \<and> planned_status e ty status"
    proof cases
      case (attach e i)
      then show ?thesis using that [of e] by simp
    next
      case (register e ty status reason)
      have "action_key a = entry_key e" using register(2) by simp
      then show ?thesis using that [of e] register by blast
    qed
    from e(1) have "e \<in> set (req_entries ?q)" by (simp add: scoped_entries_def)
    then show ?thesis using justified_admissible [OF _ True e(2,3)] assms(4) a by blast
  qed (use assms(4) a in \<open>auto simp: admissible_action_def\<close>)
qed

definition total_inv :: "(nat \<Rightarrow> string \<times> string) \<Rightarrow> nat \<Rightarrow> source_graph \<Rightarrow> bool" where
  "total_inv fresh n g \<longleftrightarrow> writer_inv fresh n g \<and> fresh_artifacts_from fresh n g"

lemma written_artifacts:
  "sg_graph (fst (refresh_artifact_source u obs e g)) = sg_graph g"
  "sg_graph (fst (relocate_artifact_source u old new obs e g)) = sg_graph g"
  "sg_graph (fst (mark_artifact_source_unresolved u r c n g)) = sg_graph g"
  "sg_graph (fst (refresh_artifact_source_by_locator rp m q obs g)) = sg_graph g"
  "sg_graph (fst (relocate_artifact_source_by_locator rp m q q' obs g)) = sg_graph g"
  "sg_graph (fst (attach_artifact_source au ty rp q m obs su now g)) = sg_graph g"
  by (auto simp: refresh_artifact_source_def relocate_artifact_source_def mark_artifact_source_unresolved_def
      refresh_artifact_source_by_locator_def relocate_artifact_source_by_locator_def
      attach_artifact_source_def statement_def write_sources_def Let_def split: option.splits sum.splits)

lemma create_artifact_dom:
  "create_artifact u ty ti ns st raw reason g = Inr h \<Longrightarrow> v \<noteq> u \<Longrightarrow> gr_artifacts h v = gr_artifacts g v"
  by (auto simp: create_artifact_def split: sum.splits if_splits)

lemma statement_graph:
  "sg_graph (fst (statement g ss out)) = sg_graph g" "sg_graph (fst (write_source t g)) = sg_graph g"
  by (simp_all add: statement_def write_sources_def write_source_def split: sum.splits)

lemma register_artifacts:
  assumes "v \<noteq> chosen_uuid rg nu"
  shows "gr_artifacts (sg_graph (fst (register_work_artifact rg obs nu su now g))) v = gr_artifacts (sg_graph g) v"
proof (cases "register_refusal rg g")
  case None
  define w where "w = create_with_source (chosen_uuid rg nu) (rg_artifact_type rg) (rg_title rg)
    (spec_node (chosen_uuid rg nu) (rg_medium rg) (rg_repository rg) (rg_path rg) (obs_version obs) (obs_integrity obs) now)
    (rg_namespace rg) (rg_status rg) (rg_status_raw rg) (rg_status_unresolved_reason rg) g"
  have "gr_artifacts (sg_graph (fst w)) v = gr_artifacts (sg_graph g) v"
    unfolding w_def create_with_source_def using assms create_artifact_dom
    by (auto simp: statement_graph split: sum.splits)
  moreover have "sg_graph (fst (register_work_artifact rg obs nu su now g)) = sg_graph (fst w)"
    unfolding register_work_artifact_def None option.case Let_def chosen_uuid_def [symmetric] w_def [symmetric]
    by (auto simp: register_stamp_def statement_graph split: prod.splits sum.splits)
  ultimately show ?thesis by simp
qed (simp add: register_work_artifact_def)

lemma apply_one_artifacts:
  assumes "total_inv fresh n g" "admissible_action fresh a" "Suc n \<le> m"
  shows "gr_artifacts (sg_graph (fst (apply_one c now rid fresh n a g))) (fst (fresh m)) = None"
proof -
  have m: "fst (fresh m) \<noteq> fst (fresh n)" "fst (fresh m) \<noteq> []" "gr_artifacts (sg_graph g) (fst (fresh m)) = None"
    using assms(1,3) unfolding total_inv_def fresh_artifacts_from_def by auto
  have "fst (fresh m) \<noteq> chosen_uuid (registration_of a) (fst (fresh n))"
  proof (cases "truthy (act_artifact_uuid a)")
    case True
    have "act_artifact_uuid a \<noteq> Some (fst (fresh m))" using assms(2) by (simp add: admissible_action_def)
    then have "fst (fresh m) \<noteq> or_empty (act_artifact_uuid a)" using truthy_eq_or_empty [OF True] by metis
    then show ?thesis using True by (simp add: chosen_uuid_def registration_of_def)
  qed (use m(1) in \<open>simp add: chosen_uuid_def registration_of_def\<close>)
  then show ?thesis
    using m(3) register_artifacts by (cases "act_kind a") (simp_all add: apply_one_def Let_def written_artifacts)
qed

lemma register_total:
  assumes "total_inv fresh n g" "admissible_action fresh a" "act_kind a = REGISTER_ARTIFACT"
    and "act_status a \<noteq> Some SUPERSEDED"
  shows "\<exists>out. snd (register_work_artifact (registration_of a) obs (fst (fresh n)) (snd (fresh n)) now g) = Inr out"
proof -
  have ok: "store_ok g" and fr: "snd (fresh n) \<noteq> []" "snd (fresh n) \<notin> set (uuids (sg_sources g))"
    and new: "gr_artifacts (sg_graph g) (fst (fresh n)) = None"
    using assms(1) by (auto simp: total_inv_def writer_inv_def fresh_from_def fresh_artifacts_from_def)
  let ?rg = "registration_of a"
  have medium: "rg_medium ?rg \<in> set ARTIFACT_MEDIA" and
    "\<exists>st. resolve_registration (rg_artifact_type ?rg) (rg_status ?rg) = Inr st"
    using assms(2-4) by (auto simp: admissible_action_def registration_of_def)
  then obtain st where st: "resolve_registration (rg_artifact_type ?rg) (rg_status ?rg) = Inr st" by blast
  have "gr_artifacts (sg_graph g) (chosen_uuid ?rg (fst (fresh n))) = None" if "register_refusal ?rg g = None"
    using that new by (auto simp: register_refusal_def chosen_uuid_def Let_def split: if_splits)
  then have created: "register_refusal ?rg g = None \<Longrightarrow>
      create_artifact (chosen_uuid ?rg (fst (fresh n))) (rg_artifact_type ?rg) (rg_title ?rg) (rg_namespace ?rg)
        (rg_status ?rg) (rg_status_raw ?rg) (rg_status_unresolved_reason ?rg) (sg_graph g) \<noteq> Inl err" for err
    using st by (simp add: create_artifact_def)
  show ?thesis
  proof (cases "register_refusal ?rg g")
    case None
    show ?thesis
      using ok fr medium created [OF None]
      by (cases rule: register_cases [of g "snd (fresh n)" ?rg obs "fst (fresh n)" now]) auto
  qed (simp add: register_work_artifact_def)
qed

interpretation total: total_writer "apply_one c now rid fresh" "total_inv fresh" source_step
  "admissible_action fresh" for c now rid fresh
proof
  fix n g a
  assume inv: "total_inv fresh n g"
  show "total_inv fresh (Suc n) g"
    using inv by (auto simp: total_inv_def writer.skip_inv fresh_artifacts_from_def)
  assume a: "admissible_action fresh a"
  have w: "writer_inv fresh n g" using inv by (simp add: total_inv_def)
  then have ok: "store_ok g" and fr: "snd (fresh n) \<noteq> []" "snd (fresh n) \<notin> set (uuids (sg_sources g))"
    by (auto simp: writer_inv_def fresh_from_def)
  show "source_step\<^sup>=\<^sup>= g (fst (apply_one c now rid fresh n a g))" by (rule apply_one_step [OF w])
  have "fresh_artifacts_from fresh (Suc n) (fst (apply_one c now rid fresh n a g))"
    using apply_one_artifacts [OF inv a] inv unfolding total_inv_def fresh_artifacts_from_def by auto
  then show "total_inv fresh (Suc n) (fst (apply_one c now rid fresh n a g))"
    using writer.wr_inv [OF w] by (simp add: total_inv_def)
  note returns = refresh_source_step [OF ok] relocate_source_step [OF ok] mark_source_step [OF ok]
    by_locator_steps [OF ok] attach_source_step [OF ok fr]
  show "\<exists>out. snd (apply_one c now rid fresh n a g) = Inr out"
    using returns [unfolded returns_step_def] register_total [OF inv a] a
    by (cases "act_kind a") (auto simp: apply_one_def Let_def admissible_action_def)
qed

lemma apply_report_total:
  assumes "store_ok g" "fresh_from fresh 0 g" "fresh_artifacts_from fresh 0 g"
    and "list_all (admissible_action fresh) (rep_actions rep)"
  shows "\<exists>r. snd (apply_report rep d allow rid now fresh g) = Inr r"
proof -
  have "total_inv fresh 0 g" using assms(1-3) by (simp add: total_inv_def writer_inv_def)
  from total.loop_returns [OF this assms(4)]
  obtain r' where "snd (apply_actions (apply_one (rep_observed_commit rep) now rid fresh) 0 (rep_actions rep)
      (apply_result_init rid (rep_plan_digest rep)) g) = Inr r'" by blast
  then show ?thesis by (auto simp: apply_report_def Let_def prod.case_eq_if split: option.splits)
qed

section \<open>What was written is read back\<close>

lemma same_uuid:
  assumes "store_ok g" "s \<in> set (sg_sources g)" "t \<in> set (sg_sources g)"
    and "sn_source_uuid s = Some u" "sn_source_uuid t = Some u"
  shows "s = t"
proof -
  obtain xs ys where xs: "sg_sources g = xs @ s # ys" using assms(2) by (meson split_list)
  then have "t \<in> set xs \<union> {s} \<union> set ys" using assms(3) by auto
  moreover have "u \<notin> set (uuids xs) \<union> set (uuids ys)" using store_okD(2) [OF assms(1)] assms(4) xs by auto
  ultimately show ?thesis using assms(5) in_uuids by (metis UnE UnI1 UnI2 singletonD)
qed

lemma snapshot_rows:
  "x \<in> set (list_artifact_source_snapshots (Some r) ns g) \<longleftrightarrow>
     (\<exists>s a. s \<in> set (sg_sources g) \<and> x = snapshot_of_node g s \<and> sn_repository s = Some r \<and> sn_owner s \<noteq> []
        \<and> gr_artifacts (sg_graph g) (sn_owner s) = Some a \<and> in_namespace ns a)"
  by (auto simp: list_artifact_source_snapshots_def source_rows_def not_null_eq_def split: option.splits)

lemma snapshot_simps [simp]:
  "snap_source_uuid (snapshot_of_node g s) = sn_source_uuid s" "snap_path (snapshot_of_node g s) = sn_path s"
  "snap_integrity (snapshot_of_node g s) = sn_integrity s" "snap_lane (snapshot_of_node g s) = sn_lane s"
  "snap_artifact_uuid (snapshot_of_node g s) = sn_owner s"
  "snap_resolution_status (snapshot_of_node g s) = or_empty (or_else (sn_resolution_status s) (Some RESOLVED))"
  "snap_schema_version (snapshot_of_node g s) = sn_schema_version s"
  by (simp_all add: snapshot_of_node_def Let_def)

text \<open>An entry matches a source that records its path, content and lane.\<close>

lemma noop_iff_recorded:
  assumes "or_empty (snap_path y) = ent_path e" "snap_integrity y = Some (ent_integrity e)"
    "snap_lane y = Some (ent_lane e)" "ent_lane e \<noteq> []" "snap_resolution_status y = RESOLVED"
    "snap_schema_version y = Some ARTIFACT_SOURCE_SCHEMA_VERSION"
  shows "act_kind (relocate_or_refresh e y b) = NOOP"
  using assms
  by (simp add: relocate_or_refresh_def Let_def RESOLVED_def UNRESOLVED_def ARTIFACT_SOURCE_SCHEMA_VERSION_def)

lemma written_node_settles:
  assumes "t = source_write_props obs s \<and> or_empty (sn_path s) = ent_path e \<or> t = locator_props obs (Some r) (Some (ent_path e)) k s"
    and "obs_integrity obs = Some (ent_integrity e)" "obs_lane obs = Some (ent_lane e)" "ent_lane e \<noteq> []"
  shows "act_kind (relocate_or_refresh e (snapshot_of_node g t) b) = NOOP"
proof (rule noop_iff_recorded)
  show "or_empty (snap_path (snapshot_of_node g t)) = ent_path e"
    using assms(1) by (auto simp: source_write_props_def locator_props_def)
qed (use assms in \<open>auto simp: source_write_props_def locator_props_def coalesce_opt_def RESOLVED_def\<close>)

lemma applied_row:
  assumes "store_ok g" "s \<in> set (sg_sources g)" "sn_source_uuid s = Some u"
    and "(case filter (match_uuid g u) (sg_sources g) of [] \<Rightarrow> Skipped x | row # _ \<Rightarrow> f row) = Applied o1 o2"
  shows "f s = Applied o1 o2"
proof -
  obtain row rest where r: "filter (match_uuid g u) (sg_sources g) = row # rest"
    using assms(4) by (cases "filter (match_uuid g u) (sg_sources g)") auto
  have "row \<in> set (sg_sources g)" "sn_source_uuid row = Some u"
    using filter_first [OF r] by (auto simp: match_uuid_def)
  then have "row = s" using same_uuid [OF assms(1) _ assms(2) _ assms(3)] by blast
  then show ?thesis using assms(4) r by simp
qed

lemma match_uuidI: "store_ok g \<Longrightarrow> s \<in> set (sg_sources g) \<Longrightarrow> sn_source_uuid s = Some u \<Longrightarrow> match_uuid g u s"
  by (simp add: match_uuid_def store_okD(5))

lemma statement_Inr:
  "statement g ss out = (g', Inr out') \<Longrightarrow> g' = g\<lparr>sg_sources := ss\<rparr> \<and> out = out'"
  by (auto simp: statement_def write_sources_def split: sum.splits if_splits)

lemma refresh_writes:
  assumes ok: "store_ok g" and s: "s \<in> set (sg_sources g)" "sn_source_uuid s = Some u"
    and w: "refresh_artifact_source u obs e g = (g', Inr (Applied o1 o2))"
  shows "source_write_props obs s \<in> set (sg_sources g')" "sg_graph g' = sg_graph g"
proof -
  from statement_Inr [OF w [unfolded refresh_artifact_source_def Let_def]]
  have g': "g' = g\<lparr>sg_sources := update_where (\<lambda>z. match_uuid g u z \<and> is_fresh e z) (source_write_props obs) (sg_sources g)\<rparr>"
    and out: "(case filter (match_uuid g u) (sg_sources g) of [] \<Rightarrow> Skipped ''source_not_found''
      | row # _ \<Rightarrow> if \<not> is_fresh e row then Skipped ''stale_expected_integrity''
          else Applied (sn_owner row) (Some u)) = Applied o1 o2"
    by auto
  have "is_fresh e s" using applied_row [OF ok s out] by (auto split: if_splits)
  then show "source_write_props obs s \<in> set (sg_sources g')"
    using s match_uuidI [OF ok s] g' by (force simp: update_where_def)
  show "sg_graph g' = sg_graph g" using g' by simp
qed

lemma relocate_writes:
  assumes ok: "store_ok g" and s: "s \<in> set (sg_sources g)" "sn_source_uuid s = Some u"
    and w: "relocate_artifact_source u old new obs e g = (g', Inr (Applied o1 o2))"
  shows "\<exists>k. locator_props obs (or_else (loc_repository new) (loc_repository old)) (loc_path new) k s \<in> set (sg_sources g')"
    and "sg_graph g' = sg_graph g"
proof -
  define m where "m = or_empty (or_else (loc_medium new) (or_else (loc_medium old) (Some ''markdown'')))"
  define r where "r = or_else (loc_repository new) (loc_repository old)"
  define k where "k = locator_key r m (loc_path new)"
  define blockers where "blockers = filter (\<lambda>z. blocks k m (loc_path new) z
    \<and> or_empty (sn_source_uuid z) \<noteq> u) (sg_sources g)"
  define at_old where "at_old = (\<lambda>z. effective_key z = locator_key (loc_repository old) m (loc_path old)
    \<or> strip (or_empty (loc_repository old)) = [] \<and> unscoped_at m (loc_path old) z)"
  note defs = m_def [symmetric] r_def [symmetric] k_def [symmetric] blockers_def [symmetric] at_old_def [symmetric]
  from statement_Inr [OF w [unfolded relocate_artifact_source_def Let_def defs]]
  have g': "g' = g\<lparr>sg_sources := update_where
      (\<lambda>z. match_uuid g u z \<and> blockers = [] \<and> at_old z \<and> is_fresh e z) (locator_props obs r (loc_path new) k) (sg_sources g)\<rparr>"
    and out: "(case filter (match_uuid g u) (sg_sources g) of [] \<Rightarrow> Skipped ''source_not_found''
      | row # _ \<Rightarrow> if filter is_unscoped blockers \<noteq> [] then Skipped ''unscoped_source_claims_destination''
          else if blockers \<noteq> [] then Skipped ''destination_already_claimed''
          else if \<not> at_old row then Skipped ''stale_old_locator''
          else if \<not> is_fresh e row then Skipped ''stale_expected_integrity''
          else Applied (sn_owner row) (Some u)) = Applied o1 o2"
    unfolding at_old_def by auto
  have "blockers = [] \<and> at_old s \<and> is_fresh e s" using applied_row [OF ok s out] by (auto split: if_splits)
  then have "locator_props obs r (loc_path new) k s \<in> set (sg_sources g')"
    using s match_uuidI [OF ok s] g' by (force simp: update_where_def)
  then show "\<exists>k. locator_props obs (or_else (loc_repository new) (loc_repository old)) (loc_path new) k s \<in> set (sg_sources g')"
    unfolding r_def by blast
  show "sg_graph g' = sg_graph g" using g' by simp
qed

text \<open>
  C11: what apply writes, the next audit reads back as settled. If the planner ties a document
  to a source of the store by a refresh or a relocation and the write is applied, then the next
  read of the repository's sources lists the source with its identity and owner, and the
  document and that source now call for no action, whatever the basis of the match.
\<close>

theorem applied_match_settles:
  assumes "store_ok g" "x \<in> set (list_artifact_source_snapshots (Some (ent_repository e)) ns g)"
    and "truthy (snap_source_uuid x)" "ent_repository e \<noteq> []" "ent_lane e \<noteq> []"
    and "act_kind (relocate_or_refresh e x b) \<noteq> NOOP"
    and "apply_one c now rid fresh n (relocate_or_refresh e x b) g = (g', Inr (Applied owner su))"
  shows "\<exists>y \<in> set (list_artifact_source_snapshots (Some (ent_repository e)) ns g').
    identity y = identity x \<and> snap_artifact_uuid y = snap_artifact_uuid x
    \<and> act_kind (relocate_or_refresh e y b') = NOOP"
proof -
  let ?a = "relocate_or_refresh e x b"
  let ?obs = "observation_from_action ?a c now (Some rid)"
  obtain s a where s: "s \<in> set (sg_sources g)" "x = snapshot_of_node g s" "sn_repository s = Some (ent_repository e)"
    "sn_owner s \<noteq> []" "gr_artifacts (sg_graph g) (sn_owner s) = Some a" "in_namespace ns a"
    using assms(2) by (auto simp: snapshot_rows)
  obtain u where u: "sn_source_uuid s = Some u" "u \<noteq> []"
    using assms(3) s(2) by (cases "sn_source_uuid s") auto
  have fields: "act_source_uuid ?a = Some u" "act_integrity ?a = Some (ent_integrity e)" "act_lane ?a = Some (ent_lane e)"
    using s(2) u by (simp_all add: relocate_or_refresh_def Let_def)
  have obs: "obs_integrity ?obs = Some (ent_integrity e)" "obs_lane ?obs = Some (ent_lane e)"
    using fields by (simp_all add: observation_from_action_def)
  have "\<exists>t k. t \<in> set (sg_sources g') \<and> sg_graph g' = sg_graph g
    \<and> (t = source_write_props ?obs s \<and> or_empty (sn_path s) = ent_path e
      \<or> t = locator_props ?obs (Some (ent_repository e)) (Some (ent_path e)) k s)"
  proof (cases "act_kind ?a = REFRESH_SOURCE")
    case True
    then have "refresh_artifact_source u ?obs (act_expected_integrity ?a) g = (g', Inr (Applied owner su))"
      using assms(7) fields(1) u(2) by (simp add: apply_one_def Let_def)
    from refresh_writes [OF assms(1) s(1) u(1) this]
    moreover have "or_empty (sn_path s) = ent_path e"
      using True s(2) by (auto simp: relocate_or_refresh_def Let_def split: if_splits)
    ultimately show ?thesis by blast
  next
    case False
    then have "act_kind ?a = RELOCATE_SOURCE" using relocate_or_refresh_kind [of e x b] assms(6) by auto
    then have "relocate_artifact_source u (locator_of (ent_repository e) (act_old_path ?a) (ent_medium e))
        (locator_of (ent_repository e) (Some (ent_path e)) (ent_medium e)) ?obs (act_expected_integrity ?a) g
      = (g', Inr (Applied owner su))"
      using assms(7) fields(1) u(2) by (simp add: apply_one_def Let_def)
    from relocate_writes [OF assms(1) s(1) u(1) this] show ?thesis
      using assms(4) by (auto simp: locator_of_def)
  qed
  then obtain t k where t: "t \<in> set (sg_sources g')" "sg_graph g' = sg_graph g"
    "t = source_write_props ?obs s \<and> or_empty (sn_path s) = ent_path e
      \<or> t = locator_props ?obs (Some (ent_repository e)) (Some (ent_path e)) k s" by blast
  have frame: "sn_owner t = sn_owner s" "sn_source_uuid t = Some u" "sn_repository t = Some (ent_repository e)"
    using t(3) u(1) s(3) by (auto simp: source_write_props_def locator_props_def)
  let ?y = "snapshot_of_node g' t"
  have "?y \<in> set (list_artifact_source_snapshots (Some (ent_repository e)) ns g')"
    using t(1,2) s(4-6) frame by (auto simp: snapshot_rows)
  moreover have "identity ?y = identity x" using u frame s(2) by (simp add: identity_def)
  moreover have "snap_artifact_uuid ?y = snap_artifact_uuid x" using frame s(2) by simp
  moreover have "act_kind (relocate_or_refresh e ?y b') = NOOP"
    by (rule written_node_settles [OF t(3) obs assms(5)])
  ultimately show ?thesis by blast
qed

end
