(* ===== verification/Source_Preparation.thy ===== *)
theory Source_Preparation
  imports Reconciliation_Apply
begin

text \<open>
  The migration of sources to the addressable schema and the operator's escape hatches:
  the backfills and the preflight of \<^verbatim>\<open>work_artifact_repository.py\<close>, and \<^verbatim>\<open>prepare_sources\<close>,
  \<^verbatim>\<open>validate\<close> and the manual repairs of \<^verbatim>\<open>artifact_reconciliation_service.py\<close>. A row of a read
  is addressed by its position in the list of sources, which stands for its element id; the
  fresh UUIDs and the names of the constraints the database reports online are arguments.
\<close>

section \<open>Backfills\<close>

fun run_rows ::
  "('i \<Rightarrow> source_graph \<Rightarrow> source_graph result) \<Rightarrow> 'i list \<Rightarrow> source_graph \<Rightarrow> source_graph \<times> unit result" where
  "run_rows f [] g = (g, Inr ())"
| "run_rows f (i # is) g = (case f i g of Inl err \<Rightarrow> (g, Inl err) | Inr g' \<Rightarrow> run_rows f is g')"

definition set_row :: "(source_node \<Rightarrow> source_node) \<Rightarrow> nat \<Rightarrow> source_graph \<Rightarrow> source_graph result" where
  "set_row f i g =
     write_sources (if i < length (sg_sources g) then (sg_sources g)[i := f (sg_sources g ! i)] else sg_sources g) g"

definition rows_where :: "(source_node \<Rightarrow> bool) \<Rightarrow> source_graph \<Rightarrow> nat list" where
  "rows_where p g = filter (\<lambda>i. p (sg_sources g ! i)) [0..<length (sg_sources g)]"

definition backfill_source_uuids :: "(nat \<Rightarrow> string) \<Rightarrow> source_graph \<Rightarrow> source_graph \<times> nat result" where
  "backfill_source_uuids fresh g =
     (let rows = rows_where (\<lambda>s. sn_source_uuid s = None) g
      in case run_rows (\<lambda>i. set_row (\<lambda>s. s\<lparr>sn_source_uuid := coalesce_opt (sn_source_uuid s) (Some (fresh i))\<rparr>) i) rows g of
           (g', Inl err) \<Rightarrow> (g', Inl err)
         | (g', Inr _) \<Rightarrow> (g', Inr (length rows)))"

definition LEGACY_COMMIT_SHA :: string where "LEGACY_COMMIT_SHA = ''legacy_commit_sha''"

definition needs_key_backfill :: "source_node \<Rightarrow> bool" where
  "needs_key_backfill s \<longleftrightarrow>
     (case sn_schema_version s of None \<Rightarrow> 1 | Some v \<Rightarrow> v) < ARTIFACT_SOURCE_SCHEMA_VERSION
     \<or> sn_resolution_status s = None
     \<or> sn_version s \<noteq> None \<and> sn_version_kind s = None
     \<or> sn_integrity s \<noteq> None \<and> sn_integrity_algorithm s = None
     \<or> coalesce_opt (sn_resolution_status s) (Some RESOLVED) = Some RESOLVED \<and> sn_current_locator_key s = None"

definition backfill_key_props :: "source_node \<Rightarrow> source_node" where
  "backfill_key_props s =
     (let status = or_empty (or_else (sn_resolution_status s) (Some RESOLVED));
          key = (if status = UNRESOLVED then None
                 else Some (locator_key (sn_repository s)
                        (or_empty (or_else (sn_medium s) (Some ''markdown''))) (sn_path s)));
          kind = (if sn_version_kind s = None \<and> truthy (sn_version s) then Some LEGACY_COMMIT_SHA
                  else sn_version_kind s)
      in s\<lparr>sn_current_locator_key := key,
           sn_version_kind := coalesce_opt (sn_version_kind s) kind,
           sn_resolution_status := coalesce_opt (sn_resolution_status s) (Some RESOLVED),
           sn_integrity_algorithm := (if sn_integrity s = None then sn_integrity_algorithm s
             else coalesce_opt (sn_integrity_algorithm s) (Some INTEGRITY_ALGORITHM)),
           sn_schema_version := Some ARTIFACT_SOURCE_SCHEMA_VERSION\<rparr>)"

definition backfill_current_locator_keys :: "source_graph \<Rightarrow> source_graph \<times> nat result" where
  "backfill_current_locator_keys g =
     (let rows = rows_where needs_key_backfill g
      in case run_rows (set_row backfill_key_props) rows g of
           (g', Inl err) \<Rightarrow> (g', Inl err)
         | (g', Inr _) \<Rightarrow> (g', Inr (length rows)))"

section \<open>Preflight and preparation\<close>

record preflight =
  pf_sources :: nat
  pf_missing_source_uuids :: nat
  pf_missing_locator_keys :: nat
  pf_duplicate_source_uuids :: nat
  pf_duplicate_raw_locators :: nat
  pf_duplicate_locator_keys :: nat

definition duplicate_values :: "'a list \<Rightarrow> nat" where
  "duplicate_values xs = length (filter (\<lambda>x. 1 < count_list xs x) (remdups xs))"

definition not_unresolved :: "source_node \<Rightarrow> bool" where
  "not_unresolved s \<longleftrightarrow> or_empty (coalesce_opt (sn_resolution_status s) (Some RESOLVED)) \<noteq> UNRESOLVED"

definition raw_locator :: "source_node \<Rightarrow> string" where
  "raw_locator s =
     strip (or_empty (sn_repository s)) @ ''|'' @ or_empty (coalesce_opt (sn_medium s) (Some ''markdown''))
       @ ''|'' @ strip (or_empty (sn_path s))"

text \<open>
  Artifacts and cursors are maps here, so the counts of duplicate artifact UUIDs and of duplicate
  cursor repositories are zero and left out.
\<close>

definition artifact_reconciliation_preflight :: "source_graph \<Rightarrow> preflight" where
  "artifact_reconciliation_preflight g =
     (let ss = sg_sources g in
      \<lparr>pf_sources = length ss,
       pf_missing_source_uuids = length (filter (\<lambda>s. sn_source_uuid s = None) ss),
       pf_missing_locator_keys = length (filter (\<lambda>s. sn_current_locator_key s = None \<and> not_unresolved s) ss),
       pf_duplicate_source_uuids = duplicate_values (List.map_filter sn_source_uuid ss),
       pf_duplicate_raw_locators = duplicate_values (map raw_locator (filter not_unresolved ss)),
       pf_duplicate_locator_keys = duplicate_values (List.map_filter sn_current_locator_key ss)\<rparr>)"

definition REQUIRED_CONSTRAINTS :: "string list" where
  "REQUIRED_CONSTRAINTS =
     [''work_artifact_uuid_unique'', ''artifact_source_uuid_unique'', ''artifact_source_locator_unique'',
      ''artifact_reconcile_cursor_repository_unique'']"

text \<open>Creating a constraint over data that breaks it raises.\<close>

definition activate_artifact_reconciliation_schema ::
  "string list \<Rightarrow> source_graph \<Rightarrow> source_graph \<times> string list result" where
  "activate_artifact_reconciliation_schema online g =
     (if \<not> sources_constrained (sg_sources g) then (g, Inl (ConstraintError ''ArtifactSource''))
      else (g\<lparr>sg_constraints := True\<rparr>,
            Inr (sort (filter (\<lambda>c. c \<notin> set online) REQUIRED_CONSTRAINTS))))"

definition preflight_blocked :: "preflight \<Rightarrow> bool" where
  "preflight_blocked pf \<longleftrightarrow>
     pf_duplicate_source_uuids pf \<noteq> 0 \<or> pf_duplicate_raw_locators pf \<noteq> 0 \<or> pf_duplicate_locator_keys pf \<noteq> 0"

definition prepare_sources ::
  "(nat \<Rightarrow> string) \<Rightarrow> string list \<Rightarrow> int \<Rightarrow> source_graph \<Rightarrow> source_graph \<times> (nat \<times> nat) result" where
  "prepare_sources fresh online expected_source_count g =
     (let pf = artifact_reconciliation_preflight g in
      if expected_source_count < 0 \<or> int (pf_sources pf) \<noteq> expected_source_count
      then (g, Inl (ValueError ''source count changed''))
      else if preflight_blocked pf
      then (g, Inl (ValueError ''artifact reconciliation preparation blocked''))
      else case backfill_source_uuids fresh g of
        (g1, Inl err) \<Rightarrow> (g1, Inl err)
      | (g1, Inr stamped) \<Rightarrow>
          (case backfill_current_locator_keys g1 of
             (g2, Inl err) \<Rightarrow> (g2, Inl err)
           | (g2, Inr keyed) \<Rightarrow>
               (case activate_artifact_reconciliation_schema online g2 of
                  (g3, Inl err) \<Rightarrow> (g3, Inl err)
                | (g3, Inr missing) \<Rightarrow>
                    if missing \<noteq> [] then (g3, Inl (RuntimeError ''constraints are not ONLINE''))
                    else let after = artifact_reconciliation_preflight g3 in
                      if pf_missing_source_uuids after \<noteq> 0 \<or> pf_missing_locator_keys after \<noteq> 0
                      then (g3, Inl (RuntimeError ''preparation incomplete''))
                      else (g3, Inr (stamped, keyed)))))"

section \<open>Manual repairs\<close>

definition manual_observation ::
  "world \<Rightarrow> string \<Rightarrow> string option \<Rightarrow> string \<Rightarrow> source_observation" where
  "manual_observation wd new_path lane now =
     (let payload = map_option fst (wd_read_file wd new_path) in
      \<lparr>obs_integrity = map_option (wd_sha256 wd) payload,
       obs_size_bytes = map_option (\<lambda>b. int (length b)) payload, obs_lane = lane, obs_version = None,
       obs_version_kind = None, obs_observed_commit = None, obs_observed_at = Some now,
       obs_basis = BASIS_NONE, obs_run_id = None\<rparr>)"

definition relocate_manually ::
  "world \<Rightarrow> string \<Rightarrow> string \<Rightarrow> string \<Rightarrow> string \<Rightarrow> string option \<Rightarrow> string \<Rightarrow> source_graph \<Rightarrow> written" where
  "relocate_manually wd repository medium old_path new_path expected_old_integrity now g =
     (let obs = manual_observation wd new_path None now
      in case source_uuid_at_locator repository medium old_path g of
           Inl reason \<Rightarrow> (g, Inr (Skipped reason))
         | Inr u \<Rightarrow> relocate_artifact_source u (locator_of repository (Some old_path) medium)
             (locator_of repository (Some new_path) medium) obs expected_old_integrity g)"

definition adopt_source_repository_manually ::
  "world \<Rightarrow> string \<Rightarrow> string option \<Rightarrow> string \<Rightarrow> string \<Rightarrow> string \<Rightarrow> string option \<Rightarrow> string
    \<Rightarrow> source_graph \<Rightarrow> written" where
  "adopt_source_repository_manually wd source_uuid repository medium old_path new_path expected_old_integrity now g =
     (case require_repository repository of
        Inl err \<Rightarrow> (g, Inl err)
      | Inr name \<Rightarrow>
          relocate_artifact_source source_uuid (locator_of [] (Some old_path) medium)
            (locator_of name (Some new_path) medium)
            (manual_observation wd new_path (map_option rt_lane (route_for_path new_path)) now)
            expected_old_integrity g)"

section \<open>Validation\<close>

record validation_finding =
  vf_path :: string
  vf_code :: string
  vf_detail :: string

definition entry_findings :: "corpus_entry \<Rightarrow> validation_finding list" where
  "entry_findings e =
     map (\<lambda>c. case partition_at CHR '':'' c of (base, _, detail) \<Rightarrow>
            \<lparr>vf_path = ent_path e, vf_code = base, vf_detail = detail\<rparr>) (ent_metadata_errors e)
     @ (if \<not> ent_title_from_h1 e \<and> ent_medium e \<noteq> ''pdf''
        then [\<lparr>vf_path = ent_path e, vf_code = ''missing_h1_title'', vf_detail = []\<rparr>] else [])
     @ (if ent_requires_declared_type e \<and> \<not> truthy (ent_declared_type e)
        then [\<lparr>vf_path = ent_path e, vf_code = ''reference_record_without_declared_type'', vf_detail = []\<rparr>] else [])"

definition duplicate_uuid_findings :: "corpus_entry list \<Rightarrow> validation_finding list" where
  "duplicate_uuid_findings entries =
     concat (map (\<lambda>(u, grp). if 1 < length grp
         then map (\<lambda>e. \<lparr>vf_path = ent_path e, vf_code = ''duplicate_artifact_uuid'',
                vf_detail = join '', '' (sort (map ent_path grp))\<rparr>) grp
         else [])
       (sort_key fst (group_by (\<lambda>e. or_empty (ent_declared_uuid e))
          (filter (\<lambda>e. truthy (ent_declared_uuid e)) entries))))"

text \<open>\<open>links\<close> is \<^verbatim>\<open>read_index_links\<close> of the scanned tree: the file names an index mentions.\<close>

definition path_name :: "string \<Rightarrow> string" where
  "path_name p = (case rpartition CHR ''/'' p of (_, _, name) \<Rightarrow> name)"

definition index_finding :: "(string \<Rightarrow> string list) \<Rightarrow> corpus_entry \<Rightarrow> validation_finding list" where
  "index_finding links e =
     (if ent_lane e = ARCHIVE then []
      else case route_for_path (ent_path e) of
        None \<Rightarrow> []
      | Some route \<Rightarrow>
          if links (rt_directory route) = [] then []
          else if path_name (ent_path e) \<in> set (links (rt_directory route)) then []
          else [\<lparr>vf_path = ent_path e, vf_code = ''not_listed_in_corpus_index'',
                 vf_detail = rt_directory route\<rparr>])"

definition index_membership_findings :: "(string \<Rightarrow> string list) \<Rightarrow> corpus_entry list \<Rightarrow> validation_finding list" where
  "index_membership_findings links entries = concat (map (index_finding links) entries)"

definition validate :: "world \<Rightarrow> (string \<Rightarrow> string list) \<Rightarrow> string \<Rightarrow> validation_finding list" where
  "validate wd links name =
     (let entries = scan_corpus (wd_list_files wd) (wd_read_file wd) (wd_sha256 wd) [] name
      in sort_key (\<lambda>f. (vf_path f, vf_code f))
           (concat (map entry_findings entries) @ duplicate_uuid_findings entries
            @ index_membership_findings links entries))"

section \<open>What preparation establishes\<close>

lemma write_sources_Inr:
  "write_sources ss g = Inr h \<longleftrightarrow> h = g\<lparr>sg_sources := ss\<rparr> \<and> (sg_constraints g \<longrightarrow> sources_constrained ss)"
  by (auto simp: write_sources_def)

definition same_place :: "source_node \<Rightarrow> source_node \<Rightarrow> bool" where
  "same_place s t \<longleftrightarrow> sn_owner t = sn_owner s \<and> sn_repository t = sn_repository s \<and> sn_path t = sn_path s
     \<and> sn_medium t = sn_medium s"

definition rows_kept :: "source_graph \<Rightarrow> source_graph \<Rightarrow> bool" where
  "rows_kept g h \<longleftrightarrow> sg_graph h = sg_graph g \<and> sg_cursors h = sg_cursors g
     \<and> list_all2 same_place (sg_sources g) (sg_sources h)"

lemma rows_kept_refl [simp]: "rows_kept g g"
  by (simp add: rows_kept_def list_all2_refl same_place_def)

lemma rows_kept_trans: "rows_kept g h \<Longrightarrow> rows_kept h k \<Longrightarrow> rows_kept g k"
  unfolding rows_kept_def
  by (auto intro: list_all2_trans [of same_place same_place same_place] simp: same_place_def)

lemma run_rows_kept:
  assumes "\<And>i s. same_place s (f i s)"
  shows "rows_kept g (fst (run_rows (\<lambda>i. set_row (f i) i) is g))"
proof (induction "is" arbitrary: g)
  case (Cons i "is")
  show ?case
  proof (cases "set_row (f i) i g")
    case (Inr h)
    have "rows_kept g h"
      using Inr assms by (auto simp: set_row_def write_sources_Inr rows_kept_def list_all2_conv_all_nth nth_list_update
          same_place_def split: if_splits)
    then show ?thesis using Cons.IH [of h] Inr by (auto intro: rows_kept_trans)
  qed simp
qed simp

lemma fst_run_rows:
  "fst (case run_rows f is g of (g', Inl err) \<Rightarrow> (g', Inl err) | (g', Inr _) \<Rightarrow> (g', Inr n)) = fst (run_rows f is g)"
  by (simp add: prod.case_eq_if split: sum.splits)

lemma backfills_kept:
  "rows_kept g (fst (backfill_source_uuids fresh g))" "rows_kept g (fst (backfill_current_locator_keys g))"
proof -
  show "rows_kept g (fst (backfill_source_uuids fresh g))"
    unfolding backfill_source_uuids_def Let_def fst_run_rows
    by (rule run_rows_kept) (simp add: same_place_def)
  show "rows_kept g (fst (backfill_current_locator_keys g))"
    unfolding backfill_current_locator_keys_def Let_def fst_run_rows
    by (rule run_rows_kept) (simp add: same_place_def backfill_key_props_def Let_def)
qed

lemma prepare_sources_run:
  assumes "prepare_sources fresh online n g = (g', Inr k)"
  obtains g1 g2 where "g1 = fst (backfill_source_uuids fresh g)" "g2 = fst (backfill_current_locator_keys g1)"
    "g' = g2\<lparr>sg_constraints := True\<rparr>" "sources_constrained (sg_sources g2)"
    "pf_missing_source_uuids (artifact_reconciliation_preflight g') = 0"
    "pf_missing_locator_keys (artifact_reconciliation_preflight g') = 0"
  using assms
  by (auto simp: prepare_sources_def activate_artifact_reconciliation_schema_def Let_def
      split: if_splits prod.splits sum.splits)

text \<open>
  preparation establishes what reconciliation writes rely on. If it returns, the uniqueness
  constraints are active and hold, every source has a UUID and every source that is not
  unresolved has its locator key; the artifacts and the cursors are untouched and no source is
  added, removed or given another owner or locator.
\<close>

theorem prepare_establishes:
  assumes "prepare_sources fresh online n g = (g', Inr k)"
  shows "sg_constraints g' \<and> sources_constrained (sg_sources g')
    \<and> list_all (\<lambda>s. sn_source_uuid s \<noteq> None \<and> (not_unresolved s \<longrightarrow> sn_current_locator_key s \<noteq> None)) (sg_sources g')
    \<and> rows_kept g g'"
proof (rule prepare_sources_run [OF assms])
  fix g1 g2
  assume g: "g1 = fst (backfill_source_uuids fresh g)" "g2 = fst (backfill_current_locator_keys g1)"
    "g' = g2\<lparr>sg_constraints := True\<rparr>" "sources_constrained (sg_sources g2)"
    and none: "pf_missing_source_uuids (artifact_reconciliation_preflight g') = 0"
    "pf_missing_locator_keys (artifact_reconciliation_preflight g') = 0"
  have "rows_kept g g2" unfolding g(1,2) using backfills_kept rows_kept_trans by blast
  then have "rows_kept g g'" using g(3) by (simp add: rows_kept_def)
  moreover have "list_all (\<lambda>s. sn_source_uuid s \<noteq> None \<and> (not_unresolved s \<longrightarrow> sn_current_locator_key s \<noteq> None)) (sg_sources g')"
    using none by (auto simp: artifact_reconciliation_preflight_def Let_def filter_empty_conv list_all_iff)
  ultimately show ?thesis using g(3,4) by simp
qed

text \<open>
  preparation that does not fit the store writes nothing: if the expected number of sources
  is off, or a UUID, a locator or a locator key occurs twice, it raises and the graph is as it
  was.
\<close>

theorem prepare_refuses_without_writing:
  assumes "int (length (sg_sources g)) \<noteq> n \<or> \<not> distinct (List.map_filter sn_source_uuid (sg_sources g))
    \<or> \<not> distinct (List.map_filter sn_current_locator_key (sg_sources g))
    \<or> \<not> distinct (map raw_locator (filter not_unresolved (sg_sources g)))"
  shows "\<exists>msg. prepare_sources fresh online n g = (g, Inl (ValueError msg))"
proof -
  have dup: "duplicate_values xs \<noteq> 0" if d: "\<not> distinct xs" for xs :: "string list"
  proof -
    obtain as x bs cs where "xs = as @ [x] @ bs @ [x] @ cs" using not_distinct_decomp [OF d] by blast
    then have "x \<in> set (filter (\<lambda>x. 1 < count_list xs x) (remdups xs))" by (simp add: count_list_append)
    then show ?thesis unfolding duplicate_values_def by (metis length_0_conv list.set_cases neq_Nil_conv)
  qed
  show ?thesis
  proof (cases "int (length (sg_sources g)) = n")
    case False
    then show ?thesis by (simp add: prepare_sources_def artifact_reconciliation_preflight_def Let_def)
  next
    case True
    then have "preflight_blocked (artifact_reconciliation_preflight g)"
      unfolding preflight_blocked_def artifact_reconciliation_preflight_def Let_def preflight.simps
      using assms dup by blast
    then show ?thesis using True by (auto simp: prepare_sources_def Let_def)
  qed
qed

section \<open>What a clean validation says\<close>

lemma group_lengths:
  "list_all (\<lambda>(k, grp). length grp \<le> 1) (group_by f xs) \<longleftrightarrow> distinct (map f xs)"
proof -
  have count: "length (filter (\<lambda>x. f x = k) xs) = count (mset (map f xs)) k" for k
    by (induction xs) auto
  have member: "(k, filter (\<lambda>x. f x = k) xs) \<in> set (group_by f xs)" if "k \<in> f ` set xs" for k
  proof -
    have "k \<in> fst ` set (group_by f xs)" using that set_keys_group_by [of f xs] by simp
    then obtain grp where grp: "(k, grp) \<in> set (group_by f xs)" by auto
    then show ?thesis using in_group_by(1) [OF grp] by simp
  qed
  have "list_all (\<lambda>(k, grp). length grp \<le> 1) (group_by f xs)
      \<longleftrightarrow> (\<forall>k \<in> f ` set xs. length (filter (\<lambda>x. f x = k) xs) \<le> 1)" (is "?l \<longleftrightarrow> ?r")
  proof
    assume ?l
    then show ?r using member by (fastforce simp: list_all_iff)
  next
    assume r: ?r
    show ?l unfolding list_all_iff
    proof (rule ballI, clarify)
      fix k grp
      assume "(k, grp) \<in> set (group_by f xs)"
      from in_group_by [OF this] r show "length grp \<le> 1" by blast
    qed
  qed
  also have "\<dots> \<longleftrightarrow> (\<forall>k \<in> set (map f xs). count (mset (map f xs)) k = 1)"
  proof -
    have "1 \<le> count (mset (map f xs)) k" if "k \<in> f ` set xs" for k
      using that by (metis One_nat_def Suc_leI count_greater_zero_iff list.set_map set_mset_mset)
    then show ?thesis unfolding count by (auto simp: le_antisym)
  qed
  also have "\<dots> \<longleftrightarrow> distinct (map f xs)"
    unfolding distinct_count_atmost_1 by (auto simp: count_eq_zero_iff)
  finally show ?thesis .
qed

lemma entry_findings_Nil:
  "entry_findings e = [] \<longleftrightarrow> ent_metadata_errors e = [] \<and> (ent_title_from_h1 e \<or> ent_medium e = ''pdf'')
     \<and> (ent_requires_declared_type e \<longrightarrow> truthy (ent_declared_type e))"
  by (auto simp: entry_findings_def)

lemma duplicate_uuid_findings_Nil:
  "duplicate_uuid_findings es = [] \<longleftrightarrow> distinct (map ent_declared_uuid (filter (\<lambda>e. truthy (ent_declared_uuid e)) es))"
proof -
  let ?ds = "filter (\<lambda>e. truthy (ent_declared_uuid e)) es"
  let ?f = "\<lambda>e. or_empty (ent_declared_uuid e)"
  have "duplicate_uuid_findings es = [] \<longleftrightarrow> (\<forall>p \<in> set (group_by ?f ?ds). \<not> 1 < length (snd p))"
    using in_group_by_nonempty [of _ _ ?f ?ds]
    by (auto simp: duplicate_uuid_findings_def concat_eq_Nil_conv split: prod.splits)
  also have "\<dots> \<longleftrightarrow> list_all (\<lambda>(k, grp). length grp \<le> 1) (group_by ?f ?ds)"
    by (auto simp: list_all_iff)
  also have "\<dots> \<longleftrightarrow> distinct (map ?f ?ds)" by (rule group_lengths)
  also have "map ent_declared_uuid ?ds = map Some (map ?f ?ds)"
    by (simp add: truthy_eq_or_empty)
  then have "distinct (map ?f ?ds) \<longleftrightarrow> distinct (map ent_declared_uuid ?ds)"
    by (metis distinct_map inj_Some inj_on_subset subset_UNIV)
  finally show ?thesis .
qed

text \<open>The index of a document's directory mentions it, if there is one.\<close>

definition indexed_in :: "(string \<Rightarrow> string list) \<Rightarrow> corpus_entry \<Rightarrow> bool" where
  "indexed_in links e \<longleftrightarrow> ent_lane e = ARCHIVE \<or>
     (case route_for_path (ent_path e) of None \<Rightarrow> True
      | Some route \<Rightarrow> links (rt_directory route) = [] \<or> path_name (ent_path e) \<in> set (links (rt_directory route)))"

lemma index_membership_findings_Nil:
  "index_membership_findings links es = [] \<longleftrightarrow> list_all (indexed_in links) es"
proof -
  have "index_finding links e = [] \<longleftrightarrow> indexed_in links e" for e
    by (simp add: index_finding_def indexed_in_def split: option.splits)
  then show ?thesis by (auto simp: index_membership_findings_def list_all_iff)
qed

text \<open>
  validation is clean exactly when the corpus keeps the authoring contract: no scanned
  document has a metadata error, each has an H1 title unless it is a PDF, each in a route that
  demands one declares its type, no UUID is declared twice, and each document that is not
  archived is mentioned by the index of its directory, where there is one.
\<close>

theorem validate_clean_exact:
  "let es = scan_corpus (wd_list_files wd) (wd_read_file wd) (wd_sha256 wd) [] name in
     validate wd links name = [] \<longleftrightarrow>
       list_all (\<lambda>e. ent_metadata_errors e = [] \<and> (ent_title_from_h1 e \<or> ent_medium e = ''pdf'')
         \<and> (ent_requires_declared_type e \<longrightarrow> truthy (ent_declared_type e))) es
       \<and> distinct (map ent_declared_uuid (filter (\<lambda>e. truthy (ent_declared_uuid e)) es))
       \<and> list_all (indexed_in links) es"
proof -
  have sorted: "sort_key k xs = [] \<longleftrightarrow> xs = []" for k :: "validation_finding \<Rightarrow> string \<times> string" and xs
    by (metis length_0_conv length_sort)
  show ?thesis
    unfolding validate_def Let_def sorted append_is_Nil_conv duplicate_uuid_findings_Nil
      index_membership_findings_Nil concat_eq_Nil_conv
    by (simp add: entry_findings_Nil list_all_iff)
qed

end
