(* ===== verification/Apply_Examples.thy ===== *)
theory Apply_Examples
  imports Audit_Composition Source_Preparation
begin

text \<open>
  Runs of the service on small stores: examples at which the theorems apply, and two runs that
  show where the code departs from what it documents.
\<close>

section \<open>A store, a corpus\<close>

definition empty_store :: source_graph where
  "empty_store = \<lparr>sg_graph = empty_graph, sg_sources = [], sg_cursors = Map.empty, sg_constraints = True\<rparr>"

definition sample_registration :: "string \<Rightarrow> registration" where
  "sample_registration path =
     \<lparr>rg_artifact_type = PLAN, rg_title = ''t'', rg_repository = ''m'', rg_path = path,
      rg_medium = ''markdown'', rg_namespace = None, rg_status = None, rg_status_raw = None,
      rg_status_unresolved_reason = None, rg_artifact_uuid = None\<rparr>"

definition sample_observation :: source_observation where
  "sample_observation =
     \<lparr>obs_integrity = Some ''h0'', obs_size_bytes = Some 2, obs_lane = Some ACTIVE, obs_version = None,
      obs_version_kind = None, obs_observed_commit = None, obs_observed_at = Some ''t0'',
      obs_basis = BASIS_NONE, obs_run_id = None\<rparr>"

definition sample_store :: source_graph where
  "sample_store =
     fst (register_work_artifact (sample_registration ''.agent/plans/a.md'') sample_observation ''u1'' ''s1'' ''t0'' empty_store)"

definition sample_fresh :: "nat \<Rightarrow> string \<times> string" where
  "sample_fresh n = (''f'' @ replicate n CHR ''x'', ''g'' @ replicate n CHR ''x'')"

lemma sample_store_ok: "store_ok sample_store" "backfilled sample_store"
  by code_simp+

lemma sample_store_uuids:
  "uuids (sg_sources sample_store) = [''s1'']" "length (sg_sources sample_store) = 1"
  by code_simp+

lemma sample_fresh_from: "fresh_from sample_fresh 0 sample_store"
  by (auto simp: fresh_from_def sample_fresh_def sample_store_uuids)

definition sample_world :: world where
  "sample_world =
     \<lparr>wd_root_available = True,
      wd_list_files = (\<lambda>d. if d = ''.agent/plans'' then Some [''b.md'', ''a.md''] else None),
      wd_read_file = (\<lambda>p. Some (p, ''text'')), wd_sha256 = id,
      wd_run_git = (\<lambda>args. if args = [''rev-parse'', ''HEAD''] then Some ''c1'' else None),
      wd_digest = (\<lambda>_. ''d'')\<rparr>"

definition sample_plan_request :: plan_request where
  "sample_plan_request = audit_request sample_world ''m'' None None [] None sample_store"

lemma sample_audit: "audit sample_world (Some ''m'') None None [] None sample_store
    = plan_reconciliation (wd_digest sample_world) sample_plan_request"
proof -
  have "require_repository (Some ''m'') = Inr ''m''" "wd_root_available sample_world" by code_simp+
  then show ?thesis by (simp add: audit_def sample_plan_request_def)
qed

lemma sample_audit_run:
  "map_sum id (\<lambda>rep. (rep_plan_digest rep, rep_repository rep, rep_cursor_commit rep, rep_evidence_base_valid rep,
       map (\<lambda>a. (act_kind a, act_path a, act_artifact_uuid a)) (rep_actions rep)))
     (plan_reconciliation (wd_digest sample_world) sample_plan_request) =
   Inr (''d'', ''m'', None, True,
        [(REFRESH_SOURCE, Some ''.agent/plans/a.md'', Some ''u1''), (REGISTER_ARTIFACT, Some ''.agent/plans/b.md'', None)])"
  by code_simp

lemma sample_audit_returns:
  obtains rep where "audit sample_world (Some ''m'') None None [] None sample_store = Inr rep"
    "rep_plan_digest rep = ''d''" "rep_repository rep = ''m''" "rep_cursor_commit rep = None" "rep_evidence_base_valid rep"
    "map (\<lambda>a. (act_kind a, act_path a, act_artifact_uuid a)) (rep_actions rep) =
      [(REFRESH_SOURCE, Some ''.agent/plans/a.md'', Some ''u1''), (REGISTER_ARTIFACT, Some ''.agent/plans/b.md'', None)]"
  using sample_audit_run sample_audit
  by (cases "plan_reconciliation (wd_digest sample_world) sample_plan_request") auto

lemma sample_refusal_None:
  assumes "rep_plan_digest rep = ''d''" "rep_repository rep = ''m''" "rep_cursor_commit rep = None" "rep_evidence_base_valid rep"
  shows "refusal rep ''d'' True sample_store = None"
proof -
  have "get_artifact_reconciliation_cursor ''m'' sample_store = None" by code_simp
  then show ?thesis using assms by (simp add: refusal_def)
qed

lemma sample_fresh_artifacts: "fresh_artifacts_from sample_fresh 0 sample_store"
proof -
  have "chosen_uuid (sample_registration ''.agent/plans/a.md'') ''u1'' = ''u1''" by code_simp
  then have "gr_artifacts (sg_graph sample_store) v = None" if "v \<noteq> ''u1''" for v
    using that register_artifacts [of v "sample_registration ''.agent/plans/a.md''" "''u1''" sample_observation
        "''s1''" "''t0''" empty_store]
    by (simp add: sample_store_def) (simp add: empty_store_def empty_graph_def)
  then show ?thesis by (auto simp: fresh_artifacts_from_def sample_fresh_def)
qed

lemma sample_report_admissible:
  assumes "audit sample_world (Some ''m'') None None [] None sample_store = Inr rep"
    and "map (\<lambda>a. (act_kind a, act_path a, act_artifact_uuid a)) (rep_actions rep) =
      [(REFRESH_SOURCE, Some ''.agent/plans/a.md'', Some ''u1''), (REGISTER_ARTIFACT, Some ''.agent/plans/b.md'', None)]"
  shows "\<forall>a \<in> set (rep_actions rep). \<forall>n. act_artifact_uuid a \<noteq> Some (fst (sample_fresh n))"
  using assms(2) by (auto simp: sample_fresh_def)

lemma sample_apply_returns:
  obtains rep g' r where "audit sample_world (Some ''m'') None None [] None sample_store = Inr rep"
    "refusal rep ''d'' True sample_store = None"
    "apply_report rep ''d'' True ''r'' ''t1'' sample_fresh sample_store = (g', Inr r)"
proof -
  obtain rep where rep: "audit sample_world (Some ''m'') None None [] None sample_store = Inr rep"
    "rep_plan_digest rep = ''d''" "rep_repository rep = ''m''" "rep_cursor_commit rep = None" "rep_evidence_base_valid rep"
    "map (\<lambda>a. (act_kind a, act_path a, act_artifact_uuid a)) (rep_actions rep) =
      [(REFRESH_SOURCE, Some ''.agent/plans/a.md'', Some ''u1''), (REGISTER_ARTIFACT, Some ''.agent/plans/b.md'', None)]"
    using sample_audit_returns .
  have "list_all (admissible_action sample_fresh) (rep_actions rep)"
    by (rule report_admissible [OF sample_store_ok rep(1) sample_report_admissible [OF rep(1,6)]])
  then have "\<exists>r. snd (apply_report rep ''d'' True ''r'' ''t1'' sample_fresh sample_store) = Inr r"
    by (rule apply_report_total [OF sample_store_ok(1) sample_fresh_from sample_fresh_artifacts])
  then show ?thesis using that [OF rep(1) sample_refusal_None [OF rep(2-5)]] by (metis prod.collapse)
qed

theorem apply_refines_registry_witness:
  "\<exists>rep. audit sample_world (Some ''m'') None None [] None sample_store = Inr rep
     \<and> registry_step\<^sup>*\<^sup>* (holder sample_store)
         (holder (fst (apply_report rep ''d'' True ''r'' ''t1'' sample_fresh sample_store)))"
  using sample_apply_returns apply_refines_registry [OF sample_store_ok(1) sample_fresh_from] by metis

theorem apply_preserves_store_witness:
  "\<exists>rep. audit sample_world (Some ''m'') None None [] None sample_store = Inr rep
     \<and> store_ok (fst (apply_report rep ''d'' True ''r'' ''t1'' sample_fresh sample_store))"
  using sample_apply_returns apply_preserves_store [OF sample_store_ok(1) sample_fresh_from] by (metis (no_types, lifting))

theorem refused_plan_writes_nothing_witness:
  "\<exists>r. apply_reconciliation sample_world (Some ''m'') None ''other'' True ''r'' ''t1'' sample_fresh
       sample_store sample_store = (sample_store, Inr r) \<and> \<not> apply_result_ok r"
proof (rule sample_audit_returns)
  fix rep
  assume "audit sample_world (Some ''m'') None None [] None sample_store = Inr rep" "rep_plan_digest rep = ''d''"
  then show ?thesis
    using refused_plan_writes_nothing [of sample_world "Some ''m''" None sample_store rep "''other''" sample_store True
        "''r''" "''t1''" sample_fresh] by auto
qed

theorem apply_accounts_for_every_action_witness:
  "\<exists>rep g' r. audit sample_world (Some ''m'') None None [] None sample_store = Inr rep
     \<and> apply_report rep ''d'' True ''r'' ''t1'' sample_fresh sample_store = (g', Inr r)
     \<and> ar_conflicted r = report_conflicts rep"
  using sample_apply_returns apply_accounts_for_every_action by metis

theorem cursor_moves_over_clean_runs_witness:
  "\<exists>rep g' r. audit sample_world (Some ''m'') None None [] None sample_store = Inr rep
     \<and> apply_report rep ''d'' True ''r'' ''t1'' sample_fresh sample_store = (g', Inr r)
     \<and> (ar_cursor_advanced r \<longrightarrow> blocking_conflicts rep = [] \<and> ar_skipped r = [])"
proof (rule sample_apply_returns)
  fix rep g' r
  assume rep: "audit sample_world (Some ''m'') None None [] None sample_store = Inr rep"
    "refusal rep ''d'' True sample_store = None"
    "apply_report rep ''d'' True ''r'' ''t1'' sample_fresh sample_store = (g', Inr r)"
  from cursor_moves_over_clean_runs [OF sample_store_ok(1) sample_fresh_from rep(2,3)]
  have "ar_cursor_advanced r \<longrightarrow> blocking_conflicts rep = [] \<and> ar_skipped r = []" by (simp split: if_splits)
  then show ?thesis using rep(1,3) by blast
qed

definition moved_entry :: corpus_entry where
  "moved_entry = (sample_entry ''.agent/plans/c.md'' ''h0'')\<lparr>ent_repository := ''m''\<rparr>"

theorem applied_match_settles_witness:
  "\<exists>g' y. act_kind (relocate_or_refresh moved_entry
        (hd (list_artifact_source_snapshots (Some ''m'') None sample_store)) UNIQUE_CONTENT_SHA256) = RELOCATE_SOURCE
     \<and> y \<in> set (list_artifact_source_snapshots (Some ''m'') None g')
     \<and> act_kind (relocate_or_refresh moved_entry y EXACT_LOCATOR) = NOOP"
proof -
  let ?xs = "list_artifact_source_snapshots (Some ''m'') None sample_store"
  let ?a = "relocate_or_refresh moved_entry (hd ?xs) UNIQUE_CONTENT_SHA256"
  let ?w = "apply_one None ''t1'' ''r'' sample_fresh 0 ?a sample_store"
  have facts: "length ?xs = 1" "truthy (snap_source_uuid (hd ?xs))" "ent_repository moved_entry = ''m''"
    "ent_lane moved_entry \<noteq> []" "act_kind ?a = RELOCATE_SOURCE" "snd ?w = Inr (Applied ''u1'' (Some ''s1''))"
    by code_simp+
  have x: "hd ?xs \<in> set (list_artifact_source_snapshots (Some (ent_repository moved_entry)) None sample_store)"
    using facts(1,3) by (cases ?xs) auto
  have w: "?w = (fst ?w, Inr (Applied ''u1'' (Some ''s1'')))" using facts(6) by (metis prod.collapse)
  have "ent_repository moved_entry \<noteq> []" "act_kind ?a \<noteq> NOOP" using facts(3,5) by simp_all
  from applied_match_settles [OF sample_store_ok(1) x facts(2) this(1) facts(4) this(2) w, of EXACT_LOCATOR]
  show ?thesis using facts(3,5) by auto
qed

section \<open>Preparation and validation\<close>

definition legacy_store :: source_graph where
  "legacy_store = sample_store\<lparr>sg_constraints := False,
     sg_sources := map (\<lambda>s. s\<lparr>sn_source_uuid := None, sn_current_locator_key := None, sn_schema_version := Some 1\<rparr>)
       (sg_sources sample_store)\<rparr>"

theorem prepare_establishes_witness:
  "\<exists>g'. prepare_sources (\<lambda>_. ''n'') REQUIRED_CONSTRAINTS 1 legacy_store = (g', Inr (1, 1))
     \<and> sg_constraints g' \<and> sources_constrained (sg_sources g') \<and> rows_kept legacy_store g'"
proof -
  have "snd (prepare_sources (\<lambda>_. ''n'') REQUIRED_CONSTRAINTS 1 legacy_store) = Inr (1, 1)" by code_simp
  then obtain g' where g: "prepare_sources (\<lambda>_. ''n'') REQUIRED_CONSTRAINTS 1 legacy_store = (g', Inr (1, 1))"
    by (metis prod.collapse)
  show ?thesis using prepare_establishes [OF g] g by blast
qed

theorem prepare_refuses_without_writing_witness:
  "\<exists>msg. prepare_sources (\<lambda>_. ''n'') REQUIRED_CONSTRAINTS 2 legacy_store = (legacy_store, Inl (ValueError msg))"
proof -
  have "int (length (sg_sources legacy_store)) \<noteq> 2" by code_simp
  then show ?thesis using prepare_refuses_without_writing [of legacy_store 2] by blast
qed

definition titled_world :: world where
  "titled_world = sample_world\<lparr>wd_read_file := (\<lambda>p. Some (p, ''# Title''))\<rparr>"

theorem validate_clean_exact_witness:
  "validate titled_world (\<lambda>_. []) ''m'' = []"
proof -
  let ?es = "scan_corpus (wd_list_files titled_world) (wd_read_file titled_world) (wd_sha256 titled_world) [] ''m''"
  have "list_all (\<lambda>e. ent_metadata_errors e = [] \<and> (ent_title_from_h1 e \<or> ent_medium e = ''pdf'')
      \<and> (ent_requires_declared_type e \<longrightarrow> truthy (ent_declared_type e))) ?es"
    by code_simp
  moreover have "distinct (map ent_declared_uuid (filter (\<lambda>e. truthy (ent_declared_uuid e)) ?es))"
    by code_simp
  moreover have "list_all (indexed_in (\<lambda>_. [])) ?es"
    by code_simp
  ultimately show ?thesis
    using validate_clean_exact [of titled_world "''m''" "\<lambda>_. []"] unfolding Let_def by blast
qed

section \<open>An unresolved source still occupies its locator\<close>

definition two_sources :: source_graph where
  "two_sources =
     fst (register_work_artifact (sample_registration ''.agent/plans/b.md'') sample_observation ''u2'' ''s2'' ''t0'' sample_store)"

text \<open>
  a source that was marked unresolved blocks its old destination. After \<open>s1\<close> is marked
  unresolved, the move of \<open>s2\<close> to the path \<open>s1\<close> was last seen at is refused as already claimed:
  marking clears neither the key nor the locator, and the destination check looks at both.
\<close>

theorem unresolved_source_blocks_destination:
  "snd (mark_artifact_source_unresolved ''s1'' ''gone'' None ''t1'' two_sources) = Inr (Applied ''u1'' None)
   \<and> snd (relocate_artifact_source ''s2'' (locator_of ''m'' (Some ''.agent/plans/b.md'') ''markdown'')
         (locator_of ''m'' (Some ''.agent/plans/a.md'') ''markdown'') sample_observation None
         (fst (mark_artifact_source_unresolved ''s1'' ''gone'' None ''t1'' two_sources)))
     = Inr (Skipped ''destination_already_claimed'')"
  by code_simp

section \<open>Two registrations of one document\<close>

text \<open>
  registration checks first and writes in three later statements. Two callers that both
  pass the check for one document both create an artifact with a source; the stamp of the
  second raises, and its artifact stays in the graph with an unstamped source at the same
  locator.
\<close>

theorem concurrent_registration_leaves_orphan:
  "let rg = sample_registration ''.agent/plans/a.md'';
       source = spec_node ''u2'' ''markdown'' ''m'' ''.agent/plans/a.md'' None (Some ''h0'') ''t0'';
       second = create_with_source ''u2'' PLAN ''t'' source None None None None sample_store;
       stamped = register_stamp rg sample_observation ''u2'' ''s2'' (fst second)
   in register_refusal rg empty_store = None \<and> snd second = Inr ()
     \<and> snd stamped = Inl (ConstraintError ''ArtifactSource'')
     \<and> map (\<lambda>s. (sn_owner s, sn_source_uuid s, effective_key s)) (sg_sources (fst stamped)) =
         [(''u1'', Some ''s1'', ''m|markdown|.agent/plans/a.md''), (''u2'', None, ''m|markdown|.agent/plans/a.md'')]"
  by code_simp

end
