(* ===== verification/Provider_Errors.thy ===== *)
theory Provider_Errors
  imports Python_Text
begin

text \<open>
  Provider failures, \<^verbatim>\<open>infrastructure/openai_rate_limit.py\<close>: which exception in a chain says the
  provider refused for billing, the labels telemetry keeps of a failure, and the clock that
  pauses a deadline while calls sleep in backoff.

  An exception object is a record in a heap, its \<^verbatim>\<open>__cause__\<close> and \<^verbatim>\<open>__context__\<close> are addresses, and
  a chain may be cyclic. Attributes that the source tests with \<^verbatim>\<open>isinstance(value, str)\<close> are
  optional strings; \<^verbatim>\<open>None\<close> stands for an absent attribute. The classes of the
  OpenAI client are named as its documentation has them: \<^verbatim>\<open>RateLimitError\<close> is an
  \<^verbatim>\<open>APIStatusError\<close>. Clock readings are integers.
\<close>

section \<open>Exceptions\<close>

datatype exc_class =
  ProviderQuotaExhaustedError
| TimeoutErr
| HttpxTransportError
| HttpxStatusError int
| OsOrConnectionError
| OpenAIRateLimitError
| OpenAIStatusError
| OtherException

record exc_object =
  ex_class :: exc_class
  ex_type_name :: string
  ex_code :: "string option"
  ex_type :: "string option"
  ex_message :: "string option"
  ex_status_code :: "int option"
  ex_cause :: "nat option"
  ex_context :: "nat option"

type_synonym exc_heap = "exc_object list"

definition is_rate_limit_error :: "exc_object \<Rightarrow> bool" where
  "is_rate_limit_error x \<longleftrightarrow> ex_class x = OpenAIRateLimitError"

definition is_api_status_error :: "exc_object \<Rightarrow> bool" where
  "is_api_status_error x \<longleftrightarrow> ex_class x \<in> {OpenAIRateLimitError, OpenAIStatusError}"

definition NOT_RETRYABLE_CODES :: "string list" where
  "NOT_RETRYABLE_CODES = [''insufficient_quota'', ''billing_hard_limit_reached'']"

definition NOT_RETRYABLE_CODE_PREFIXES :: "string list" where
  "NOT_RETRYABLE_CODE_PREFIXES = [''credit_balance_'']"

definition NOT_RETRYABLE_MESSAGE_MARKERS :: "string list" where
  "NOT_RETRYABLE_MESSAGE_MARKERS = [''exceeded your current quota'']"

definition is_billing_value :: "string option \<Rightarrow> bool" where
  "is_billing_value v =
     (case v of None \<Rightarrow> False
      | Some s \<Rightarrow> s \<in> set NOT_RETRYABLE_CODES
          \<or> list_ex (\<lambda>p. starts_with p s) NOT_RETRYABLE_CODE_PREFIXES)"

definition is_billing_state :: "exc_object \<Rightarrow> bool" where
  "is_billing_state x =
     (if is_billing_value (ex_code x) \<or> is_billing_value (ex_type x) then True
      else list_ex (\<lambda>m. contains m (lower (or_empty (ex_message x)))) NOT_RETRYABLE_MESSAGE_MARKERS)"

definition is_retryable_rate_limit :: "exc_object \<Rightarrow> bool" where
  "is_retryable_rate_limit x = (if \<not> is_rate_limit_error x then False else \<not> is_billing_state x)"

section \<open>Walking the chain\<close>

definition next_exc :: "exc_heap \<Rightarrow> nat \<Rightarrow> nat option" where
  "next_exc h i = (case ex_cause (h ! i) of Some j \<Rightarrow> Some j | None \<Rightarrow> ex_context (h ! i))"

text \<open>
  The loop \<^verbatim>\<open>while exc is not None and id(exc) not in seen\<close>. An address outside the heap is no
  object and ends the walk, as \<open>None\<close> does.
\<close>

function walk_chain :: "(exc_object \<Rightarrow> bool) \<Rightarrow> exc_heap \<Rightarrow> nat set \<Rightarrow> nat option \<Rightarrow> nat option" where
  "walk_chain P h seen None = None"
| "walk_chain P h seen (Some i) =
     (if i \<in> seen \<or> length h \<le> i then None
      else if P (h ! i) then Some i
      else walk_chain P h (insert i seen) (next_exc h i))"
  by pat_completeness auto
termination
proof (relation "measure (\<lambda>(P, h, seen, cur). card ({..<length h} - seen))", goal_cases)
  case (2 P h seen i)
  then have "i \<in> {..<length h} - seen" by simp
  then have "{..<length h} - insert i seen \<subset> {..<length h} - seen" by blast
  then have "card ({..<length h} - insert i seen) < card ({..<length h} - seen)"
    by (rule psubset_card_mono [rotated]) simp
  then show ?case by (simp only: in_measure prod.case)
qed simp

definition says_billing :: "exc_object \<Rightarrow> bool" where
  "says_billing x \<longleftrightarrow>
     is_rate_limit_error x \<and> is_billing_state x
     \<or> is_api_status_error x \<and> (ex_status_code x = Some 402 \<or> is_billing_state x)"

definition find_quota_exhaustion :: "exc_heap \<Rightarrow> nat option \<Rightarrow> nat option" where
  "find_quota_exhaustion h exc = walk_chain says_billing h {} exc"

definition find_provider_status_error :: "exc_heap \<Rightarrow> nat option \<Rightarrow> nat option" where
  "find_provider_status_error h exc = walk_chain is_api_status_error h {} exc"

text \<open>
  \<^verbatim>\<open>quota_exhausted_error\<close> returns an exception object; its callers only test whether there is
  one, and whether it is the exception they passed in. \<open>Some True\<close> is the latter.
\<close>

definition quota_exhausted_error :: "exc_heap \<Rightarrow> nat option \<Rightarrow> bool option" where
  "quota_exhausted_error h exc =
     (case exc of
        Some i \<Rightarrow>
          if i < length h \<and> ex_class (h ! i) = ProviderQuotaExhaustedError then Some True
          else if find_quota_exhaustion h exc = None then None else Some False
      | None \<Rightarrow> None)"

section \<open>Labels\<close>

definition is_safe_char :: "char \<Rightarrow> bool" where
  "is_safe_char c \<longleftrightarrow>
     (let n = of_char c :: nat
      in 65 \<le> n \<and> n \<le> 90 \<or> 97 \<le> n \<and> n \<le> 122 \<or> 48 \<le> n \<and> n \<le> 57
         \<or> c \<in> set ''_.:-'')"

definition safe_token :: "string option \<Rightarrow> string option" where
  "safe_token v =
     (let t = or_empty v
      in if 1 \<le> length t \<and> length t \<le> 64 \<and> list_all is_safe_char t then Some t else None)"

definition FLEX_CAPACITY_CODES :: "string list" where
  "FLEX_CAPACITY_CODES = [''resource_unavailable'']"

definition rate_limit_category :: "exc_heap \<Rightarrow> nat option \<Rightarrow> string option" where
  "rate_limit_category h exc =
     (case find_provider_status_error h exc of
        None \<Rightarrow> None
      | Some i \<Rightarrow>
          (let x = h ! i in
           if ex_status_code x \<noteq> Some 429 then None
           else if is_billing_state x then Some ''quota''
           else if list_ex (\<lambda>c. ex_code x = Some c \<or> ex_type x = Some c) FLEX_CAPACITY_CODES
           then Some ''flex_capacity''
           else Some ''rate_limit''))"

definition status_label :: "int option \<Rightarrow> string" where
  "status_label status =
     (case status of Some n \<Rightarrow> if 0 \<le> n \<and> n \<le> 999 then str_of_int n else ''0'' | None \<Rightarrow> ''0'')"

definition provider_error_code :: "exc_heap \<Rightarrow> nat option \<Rightarrow> string option" where
  "provider_error_code h exc =
     (case exc of
        None \<Rightarrow> None
      | Some e \<Rightarrow>
          (case find_provider_status_error h exc of
             None \<Rightarrow> Some (or_empty (or_else (safe_token (Some (ex_type_name (h ! e)))) (Some ''Exception'')))
           | Some i \<Rightarrow>
               (let x = h ! i;
                    code = or_else (safe_token (ex_code x)) (safe_token (ex_type x))
                in Some (join '':''
                     ([or_empty (or_else (safe_token (Some (ex_type_name x))) (Some ''APIStatusError'')),
                       status_label (ex_status_code x)]
                      @ (if truthy code then [or_empty code] else []))))))"

section \<open>The chain is searched completely\<close>

primrec chain_at :: "exc_heap \<Rightarrow> nat option \<Rightarrow> nat \<Rightarrow> nat option" where
  "chain_at h start 0 = (case start of Some i \<Rightarrow> if i < length h then Some i else None | None \<Rightarrow> None)"
| "chain_at h start (Suc n) =
     (case chain_at h start n of
        None \<Rightarrow> None
      | Some i \<Rightarrow> (case next_exc h i of Some j \<Rightarrow> if j < length h then Some j else None | None \<Rightarrow> None))"

lemma chain_at_shift:
  "i < length h \<Longrightarrow> chain_at h (Some i) (Suc n) = chain_at h (next_exc h i) n"
  by (induction n) (auto split: option.splits)

lemma chain_at_bound: "chain_at h start n = Some i \<Longrightarrow> i < length h"
  by (cases n) (auto split: option.splits if_splits)

lemma chain_at_cong:
  "chain_at h start m = chain_at h start m' \<Longrightarrow> chain_at h start (m + d) = chain_at h start (m' + d)"
  by (induction d) auto

lemma walk_chain_sound:
  "walk_chain P h seen cur = Some j \<Longrightarrow>
     P (h ! j) \<and> (\<exists>n. chain_at h cur n = Some j
       \<and> (\<forall>m < n. \<forall>k. chain_at h cur m = Some k \<longrightarrow> \<not> P (h ! k)))"
proof (induction P h seen cur rule: walk_chain.induct)
  case (2 P h seen i)
  show ?case
  proof (cases "P (h ! i)")
    case True
    then show ?thesis using 2(2) by (auto split: if_splits intro!: exI [of _ 0])
  next
    case False
    then have i: "i \<notin> seen" "i < length h" and rec: "walk_chain P h (insert i seen) (next_exc h i) = Some j"
      using 2(2) by (auto split: if_splits)
    from 2(1) [OF _ False rec] i obtain n where n: "P (h ! j)" "chain_at h (next_exc h i) n = Some j"
      "\<forall>m < n. \<forall>k. chain_at h (next_exc h i) m = Some k \<longrightarrow> \<not> P (h ! k)" by auto
    have "\<not> P (h ! k)" if "m < Suc n" "chain_at h (Some i) m = Some k" for m k
      using that n(3) False i by (cases m) (auto simp: chain_at_shift simp del: chain_at.simps(2))
    then show ?thesis
      using n i by (intro conjI exI [of _ "Suc n"]) (auto simp: chain_at_shift simp del: chain_at.simps(2))
  qed
qed simp

lemma walk_chain_reaches:
  assumes "chain_at h cur n = Some k" "P (h ! k)"
    and "\<forall>m < n. \<forall>x. chain_at h cur m = Some x \<longrightarrow> \<not> P (h ! x)"
    and "\<forall>m \<le> n. \<forall>x. chain_at h cur m = Some x \<longrightarrow> x \<notin> seen"
    and "inj_on (chain_at h cur) {..n}"
  shows "walk_chain P h seen cur = Some k"
  using assms
proof (induction n arbitrary: cur seen)
  case 0
  then show ?case by (auto split: option.splits if_splits)
next
  case (Suc n)
  obtain i where i: "cur = Some i" "i < length h"
    using Suc.prems(1) by (induction n arbitrary: k) (auto split: option.splits if_splits)
  have at: "chain_at h (next_exc h i) m = chain_at h cur (Suc m)" for m
    using i by (simp add: chain_at_shift del: chain_at.simps(2))
  have zero: "chain_at h cur 0 = Some i" using i by simp
  have "walk_chain P h (insert i seen) (next_exc h i) = Some k"
  proof (rule Suc.IH)
    show "\<forall>m \<le> n. \<forall>x. chain_at h (next_exc h i) m = Some x \<longrightarrow> x \<notin> insert i seen"
    proof (intro allI impI)
      fix m x
      assume m: "m \<le> n" "chain_at h (next_exc h i) m = Some x"
      have "chain_at h cur (Suc m) \<noteq> chain_at h cur 0"
        using Suc.prems(5) m(1) inj_on_contraD [of "chain_at h cur" "{..Suc n}" "Suc m" 0] by auto
      then show "x \<notin> insert i seen" using m Suc.prems(4) at zero by auto
    qed
    show "inj_on (chain_at h (next_exc h i)) {..n}"
      using Suc.prems(5) unfolding inj_on_def at by fastforce
  qed (use Suc.prems at in auto)
  moreover have "i \<notin> seen" "\<not> P (h ! i)"
    using Suc.prems(3,4) zero by blast+
  ultimately show ?case using i by simp
qed

lemma walk_chain_complete:
  assumes "chain_at h cur n = Some k" "P (h ! k)"
  shows "walk_chain P h {} cur \<noteq> None"
proof -
  define N where "N = (LEAST n. \<exists>k. chain_at h cur n = Some k \<and> P (h ! k))"
  have "\<exists>k. chain_at h cur N = Some k \<and> P (h ! k)"
    unfolding N_def by (rule LeastI [of _ n]) (use assms in blast)
  then obtain x where x: "chain_at h cur N = Some x" "P (h ! x)" by blast
  have least: "\<not> P (h ! y)" if "m < N" "chain_at h cur m = Some y" for m y
    using not_less_Least [of m "\<lambda>n. \<exists>k. chain_at h cur n = Some k \<and> P (h ! k)"] that
    unfolding N_def by blast
  have "chain_at h cur m \<noteq> chain_at h cur m'" if "m < m'" "m' \<le> N" for m m'
  proof
    assume "chain_at h cur m = chain_at h cur m'"
    from chain_at_cong [OF this, of "N - m'"] that
    have "chain_at h cur (m + (N - m')) = Some x" using x by simp
    moreover have "m + (N - m') < N" using that by linarith
    ultimately show False using least x(2) by blast
  qed
  then have "inj_on (chain_at h cur) {..N}"
    by (intro inj_onI) (metis atMost_iff linorder_neqE_nat)
  then have "walk_chain P h {} cur = Some x"
    using x least by (intro walk_chain_reaches [of h cur N]) auto
  then show ?thesis by simp
qed

text \<open>
  the search for a billing refusal terminates on every exception chain, cyclic ones too,
  and finds the first one: it returns an exception exactly when some exception of the chain
  says billing, and no exception before the returned one does.
\<close>

theorem find_quota_exhaustion_exact:
  "(find_quota_exhaustion h exc = None \<longleftrightarrow>
      \<not> (\<exists>n k. chain_at h exc n = Some k \<and> says_billing (h ! k)))
   \<and> (find_quota_exhaustion h exc = Some j \<longleftrightarrow>
      (\<exists>n. chain_at h exc n = Some j \<and> says_billing (h ! j)
         \<and> \<not> (\<exists>m < n. \<exists>k. chain_at h exc m = Some k \<and> says_billing (h ! k))))"
proof (intro conjI iffI)
  assume "find_quota_exhaustion h exc = None"
  then show "\<not> (\<exists>n k. chain_at h exc n = Some k \<and> says_billing (h ! k))"
    using walk_chain_complete [of h exc _ _ says_billing] unfolding find_quota_exhaustion_def by metis
next
  assume "\<not> (\<exists>n k. chain_at h exc n = Some k \<and> says_billing (h ! k))"
  then show "find_quota_exhaustion h exc = None"
    using walk_chain_sound [of says_billing h "{}" exc] unfolding find_quota_exhaustion_def
    by (metis not_None_eq)
next
  assume "find_quota_exhaustion h exc = Some j"
  from walk_chain_sound [OF this [unfolded find_quota_exhaustion_def]]
  show "\<exists>n. chain_at h exc n = Some j \<and> says_billing (h ! j)
      \<and> \<not> (\<exists>m < n. \<exists>k. chain_at h exc m = Some k \<and> says_billing (h ! k))" by blast
next
  assume "\<exists>n. chain_at h exc n = Some j \<and> says_billing (h ! j)
      \<and> \<not> (\<exists>m < n. \<exists>k. chain_at h exc m = Some k \<and> says_billing (h ! k))"
  then obtain n where n: "chain_at h exc n = Some j" "says_billing (h ! j)"
    "\<not> (\<exists>m < n. \<exists>k. chain_at h exc m = Some k \<and> says_billing (h ! k))" by blast
  then obtain i where i: "walk_chain says_billing h {} exc = Some i"
    using walk_chain_complete [of h exc n j says_billing] by blast
  from walk_chain_sound [OF this] obtain m where m: "chain_at h exc m = Some i" "says_billing (h ! i)"
    "\<forall>l < m. \<forall>k. chain_at h exc l = Some k \<longrightarrow> \<not> says_billing (h ! k)" by blast
  have "m = n" using n m by (metis linorder_neqE_nat)
  then show "find_quota_exhaustion h exc = Some j"
    using i m(1) n(1) by (simp add: find_quota_exhaustion_def)
qed

section \<open>Labels carry no content\<close>

lemma safe_token_safe: "safe_token v = Some t \<Longrightarrow> list_all is_safe_char t \<and> t \<noteq> []"
  by (auto simp: safe_token_def Let_def split: if_splits)

lemma digits_safe: "list_all is_safe_char (digits_aux f n)"
  by (induction f n rule: digits_aux.induct) (auto simp: is_safe_char_def Let_def)

lemma status_label_safe: "list_all is_safe_char (status_label s)"
  by (auto simp: status_label_def str_of_int_def digits_safe is_safe_char_def [of "CHR ''0''"]
      simp del: digits_aux.simps split: option.splits)

lemma or_safe:
  "list_all is_safe_char d \<Longrightarrow> list_all is_safe_char (or_empty (or_else (safe_token v) (Some d)))"
  by (cases "safe_token v") (auto dest: safe_token_safe)

lemma or_safe2:
  "list_all is_safe_char (or_empty (or_else (safe_token v) (safe_token w)))"
  by (cases "safe_token v"; cases "safe_token w") (auto dest: safe_token_safe)

text \<open>
  the label kept of a provider failure is made of letters, digits and \<^verbatim>\<open>_ . : -\<close> only,
  whatever text the provider put into its error fields.
\<close>

theorem provider_error_code_content_free:
  "case provider_error_code h exc of None \<Rightarrow> exc = None | Some label \<Rightarrow> list_all is_safe_char label"
proof (cases exc)
  case (Some e)
  have names: "list_all is_safe_char ''Exception''" "list_all is_safe_char ''APIStatusError''"
    "list_all is_safe_char '':''"
    by (simp_all add: is_safe_char_def)
  show ?thesis
    using Some or_safe [OF names(1)] or_safe [OF names(2)] or_safe2 status_label_safe names(3)
    by (auto simp: provider_error_code_def Let_def split: option.splits)
qed (simp add: provider_error_code_def)

section \<open>The backoff clock\<close>

record backoff_clock =
  bc_sleepers :: int
  bc_since :: int
  bc_total :: int

definition clock_init :: backoff_clock where
  "clock_init = \<lparr>bc_sleepers = 0, bc_since = 0, bc_total = 0\<rparr>"

definition clock_snapshot :: "int \<Rightarrow> backoff_clock \<Rightarrow> bool \<times> int" where
  "clock_snapshot now c =
     (bc_sleepers c > 0, bc_total c + (if bc_sleepers c \<noteq> 0 then now - bc_since c else 0))"

definition clock_enter :: "int \<Rightarrow> backoff_clock \<Rightarrow> backoff_clock" where
  "clock_enter now c =
     (let c1 = (if bc_sleepers c = 0 then c\<lparr>bc_since := now\<rparr> else c)
      in c1\<lparr>bc_sleepers := bc_sleepers c1 + 1\<rparr>)"

definition clock_exit :: "int \<Rightarrow> backoff_clock \<Rightarrow> backoff_clock" where
  "clock_exit now c =
     (let c1 = c\<lparr>bc_sleepers := bc_sleepers c - 1\<rparr>
      in if bc_sleepers c1 = 0 then c1\<lparr>bc_total := bc_total c1 + (now - bc_since c1)\<rparr> else c1)"

text \<open>
  A clock with its ancestors, innermost first: an enter and an exit reach all of them, each
  read at its own \<^verbatim>\<open>_now()\<close>.
\<close>

definition chain_enter :: "int list \<Rightarrow> backoff_clock list \<Rightarrow> backoff_clock list" where
  "chain_enter nows cs = map2 clock_enter nows cs"

definition chain_exit :: "int list \<Rightarrow> backoff_clock list \<Rightarrow> backoff_clock list" where
  "chain_exit nows cs = map2 clock_exit nows cs"

datatype clock_event = Enter | Exit

fun run_clock :: "(int \<times> clock_event) list \<Rightarrow> backoff_clock \<Rightarrow> backoff_clock" where
  "run_clock [] c = c"
| "run_clock ((t, Enter) # es) c = run_clock es (clock_enter t c)"
| "run_clock ((t, Exit) # es) c = run_clock es (clock_exit t c)"

text \<open>The reference: the time between consecutive events counts when some call sleeps then.\<close>

fun slept :: "int \<Rightarrow> int \<Rightarrow> (int \<times> clock_event) list \<Rightarrow> int \<Rightarrow> int" where
  "slept depth prev [] now = (if depth > 0 then now - prev else 0)"
| "slept depth prev ((t, e) # es) now =
     (if depth > 0 then t - prev else 0)
       + slept (case e of Enter \<Rightarrow> depth + 1 | Exit \<Rightarrow> depth - 1) t es now"

fun balanced :: "int \<Rightarrow> (int \<times> clock_event) list \<Rightarrow> bool" where
  "balanced depth [] \<longleftrightarrow> 0 \<le> depth"
| "balanced depth ((t, Enter) # es) \<longleftrightarrow> balanced (depth + 1) es"
| "balanced depth ((t, Exit) # es) \<longleftrightarrow> 0 < depth \<and> balanced (depth - 1) es"

lemma run_clock_slept:
  assumes "balanced (bc_sleepers c) es" "0 \<le> bc_sleepers c"
  shows "snd (clock_snapshot now (run_clock es c)) =
    bc_total c + (if bc_sleepers c > 0 then prev - bc_since c else 0) + slept (bc_sleepers c) prev es now"
  using assms
proof (induction es c arbitrary: prev rule: run_clock.induct)
  case (2 t es c)
  from "2.IH" [of t] "2.prems" show ?case by (auto simp: clock_enter_def Let_def)
next
  case (3 t es c)
  from "3.IH" [of t] "3.prems" show ?case by (auto simp: clock_exit_def Let_def)
qed (auto simp: clock_snapshot_def)

text \<open>
  overlapping backoff sleeps count once. For any interleaving of sleeps in which no call
  leaves a sleep it did not enter, the paused time of the clock is the time during which at
  least one call slept.
\<close>

theorem backoff_clock_counts_overlap_once:
  assumes "balanced 0 es"
  shows "snd (clock_snapshot now (run_clock es clock_init)) = slept 0 start es now"
  using run_clock_slept [of clock_init es now start] assms by (simp add: clock_init_def)

theorem backoff_clock_counts_overlap_once_witness:
  "snd (clock_snapshot 20 (run_clock [(1, Enter), (3, Enter), (6, Exit), (10, Exit)] clock_init)) = 9"
  using backoff_clock_counts_overlap_once [of "[(1, Enter), (3, Enter), (6, Exit), (10, Exit)]" 20 0]
  by simp

text \<open>
  The deadline of \<^verbatim>\<open>await_with_backoff_aware_timeout\<close>: \<open>_reschedule\<close> recomputes it after each
  enter and exit.
\<close>

definition hard_deadline :: "int \<Rightarrow> int \<Rightarrow> int \<Rightarrow> int" where
  "hard_deadline start timeout_s max_extension = start + timeout_s * (1 + max_extension)"

definition reschedule :: "int \<Rightarrow> int \<Rightarrow> int \<Rightarrow> bool \<times> int \<Rightarrow> int" where
  "reschedule start timeout_s max_extension snapshot =
     (case snapshot of (sleeping, paused_s) \<Rightarrow>
       (let hard = hard_deadline start timeout_s max_extension;
            when = (if sleeping then hard else start + timeout_s + paused_s)
        in min when hard))"

end
