(* ===== verification/Circuit_Breaker.thy ===== *)
theory Circuit_Breaker
  imports Provider_Errors
begin

text \<open>
  The circuit breaker, \<^verbatim>\<open>infrastructure/circuit_breaker.py\<close>. The coroutine \<^verbatim>\<open>call\<close> gives up control
  only at its awaits: it runs its admission under the lock, awaits the wrapped function, and
  settles the outcome, under the lock or, when it is cancelled, without it. Each of these
  stretches is one atomic operation here, and a run of the system is any interleaving of the
  stretches of any number of calls with operator resets and the passing of time. Telemetry
  writes follow the state writes of their stretch and are left out. Clock readings are integer
  seconds.
\<close>

section \<open>The breaker\<close>

datatype circuit_state = CLOSED | OPENED | HALF_OPEN

definition QUOTA_COOLDOWN_SECONDS :: int where
  "QUOTA_COOLDOWN_SECONDS = 3600"

definition QUOTA_REASON_CODE :: string where
  "QUOTA_REASON_CODE = ''provider_quota_exhausted''"

record breaker =
  cb_failure_threshold :: int
  cb_cooldown_seconds :: int
  cb_state :: circuit_state
  cb_failures :: int
  cb_opened_at :: "int option"
  cb_probe_in_flight :: bool
  cb_hard_open_reason :: "string option"

definition new_breaker :: "int \<Rightarrow> int \<Rightarrow> breaker" where
  "new_breaker failure_threshold cooldown_seconds =
     \<lparr>cb_failure_threshold = failure_threshold, cb_cooldown_seconds = cooldown_seconds,
      cb_state = CLOSED, cb_failures = 0, cb_opened_at = None, cb_probe_in_flight = False,
      cb_hard_open_reason = None\<rparr>"

definition should_trip_circuit :: "exc_object \<Rightarrow> bool" where
  "should_trip_circuit x =
     (case ex_class x of
        ProviderQuotaExhaustedError \<Rightarrow> True
      | TimeoutErr \<Rightarrow> True
      | HttpxTransportError \<Rightarrow> True
      | HttpxStatusError code \<Rightarrow> code = 429 \<or> code \<ge> 500
      | OsOrConnectionError \<Rightarrow> True
      | _ \<Rightarrow>
          (case ex_status_code x of Some n \<Rightarrow> n = 429 \<or> n \<ge> 500 | None \<Rightarrow> False)
          \<or> ex_type_name x \<in> {''APIConnectionError'', ''APITimeoutError''}
          \<or> ex_type_name x \<in> {''RateLimitError'', ''InternalServerError''})"

definition effective_cooldown :: "breaker \<Rightarrow> int" where
  "effective_cooldown b =
     (if truthy (cb_hard_open_reason b) then QUOTA_COOLDOWN_SECONDS else cb_cooldown_seconds b)"

definition cooldown_remaining :: "int \<Rightarrow> breaker \<Rightarrow> int" where
  "cooldown_remaining now b =
     (case cb_opened_at b of
        None \<Rightarrow> 0
      | Some t \<Rightarrow> if cb_state b \<in> {OPENED, HALF_OPEN} then max 0 (effective_cooldown b - (now - t)) else 0)"

definition reset :: "breaker \<Rightarrow> breaker" where
  "reset b = b\<lparr>cb_state := CLOSED, cb_failures := 0, cb_opened_at := None,
     cb_probe_in_flight := False, cb_hard_open_reason := None\<rparr>"

definition abandon_probe :: "int \<Rightarrow> bool \<Rightarrow> breaker \<Rightarrow> breaker" where
  "abandon_probe now healthy b =
     (let b1 = b\<lparr>cb_probe_in_flight := False\<rparr>
      in if healthy then b1\<lparr>cb_state := CLOSED, cb_failures := 0, cb_opened_at := None\<rparr>
         else b1\<lparr>cb_state := OPENED, cb_opened_at := Some now\<rparr>)"

text \<open>
  The admission of a call. \<^verbatim>\<open>self._opened_at or now\<close> reads a stored zero as absent. \<open>Inl\<close> is the
  \<^verbatim>\<open>CircuitOpenError\<close>; \<open>Inr\<close> carries the new state and whether the caller is the probe.
\<close>

datatype circuit_open_error = CircuitOpenError circuit_state int

definition elapsed_since_open :: "int \<Rightarrow> breaker \<Rightarrow> int" where
  "elapsed_since_open now b =
     now - (case cb_opened_at b of None \<Rightarrow> now | Some t \<Rightarrow> if t = 0 then now else t)"

definition admit :: "int \<Rightarrow> breaker \<Rightarrow> circuit_open_error + breaker \<times> bool" where
  "admit now b =
     (case cb_state b of
        OPENED \<Rightarrow>
          if elapsed_since_open now b \<ge> effective_cooldown b
          then Inr (b\<lparr>cb_state := HALF_OPEN, cb_probe_in_flight := True\<rparr>, True)
          else Inl (CircuitOpenError OPENED (cooldown_remaining now b))
      | HALF_OPEN \<Rightarrow>
          if cb_probe_in_flight b then Inl (CircuitOpenError HALF_OPEN (cooldown_remaining now b))
          else Inr (b\<lparr>cb_probe_in_flight := True\<rparr>, True)
      | CLOSED \<Rightarrow> Inr (b, False))"

definition settle_failure :: "int \<Rightarrow> bool \<Rightarrow> exc_heap \<Rightarrow> nat \<Rightarrow> breaker \<Rightarrow> breaker" where
  "settle_failure now is_probe h exc b =
     (if quota_exhausted_error h (Some exc) \<noteq> None then
        b\<lparr>cb_failures := cb_failures b + 1, cb_state := OPENED, cb_opened_at := Some now,
          cb_probe_in_flight := False, cb_hard_open_reason := Some QUOTA_REASON_CODE\<rparr>
      else if should_trip_circuit (h ! exc) then
        (let b1 = b\<lparr>cb_failures := cb_failures b + 1\<rparr>
         in if is_probe then
              b1\<lparr>cb_state := OPENED, cb_opened_at := Some now, cb_probe_in_flight := False\<rparr>
            else if cb_state b1 = CLOSED \<and> cb_failures b1 \<ge> cb_failure_threshold b1 then
              b1\<lparr>cb_state := OPENED, cb_opened_at := Some now\<rparr>
            else b1)
      else if is_probe then
        b\<lparr>cb_state := CLOSED, cb_failures := 0, cb_opened_at := None, cb_probe_in_flight := False,
          cb_hard_open_reason := None\<rparr>
      else b)"

definition settle_success :: "bool \<Rightarrow> breaker \<Rightarrow> breaker" where
  "settle_success is_probe b =
     (if is_probe then
        b\<lparr>cb_state := CLOSED, cb_failures := 0, cb_opened_at := None, cb_probe_in_flight := False,
          cb_hard_open_reason := None\<rparr>
      else if cb_state b = CLOSED then b\<lparr>cb_failures := 0\<rparr>
      else b)"

text \<open>
  A cancellation settles only a probe: while the function runs, and on the wait for the lock
  after it failed, the probe counts as not healthy; on the wait after it returned, as healthy.
\<close>

definition settle_cancelled :: "int \<Rightarrow> bool \<Rightarrow> bool \<Rightarrow> breaker \<Rightarrow> breaker" where
  "settle_cancelled now is_probe healthy b = (if is_probe then abandon_probe now healthy b else b)"

section \<open>Interleaved calls\<close>

record breaker_system =
  sys_now :: int
  sys_breaker :: breaker
  sys_probes :: nat
  sys_plain :: nat

datatype event =
  Call
| Succeed bool
| Fail bool exc_heap nat
| Cancel bool bool
| Reset
| Tick nat

definition leaves :: "bool \<Rightarrow> breaker_system \<Rightarrow> breaker_system option" where
  "leaves is_probe s =
     (if is_probe then (if sys_probes s = 0 then None else Some (s\<lparr>sys_probes := sys_probes s - 1\<rparr>))
      else (if sys_plain s = 0 then None else Some (s\<lparr>sys_plain := sys_plain s - 1\<rparr>)))"

text \<open>An event that needs a call in flight which is not there is no event: \<open>None\<close>.\<close>

fun deliver :: "event \<Rightarrow> breaker_system \<Rightarrow> breaker_system option" where
  "deliver Call s =
     (case admit (sys_now s) (sys_breaker s) of
        Inl _ \<Rightarrow> Some s
      | Inr (b, True) \<Rightarrow> Some (s\<lparr>sys_breaker := b, sys_probes := sys_probes s + 1\<rparr>)
      | Inr (b, False) \<Rightarrow> Some (s\<lparr>sys_breaker := b, sys_plain := sys_plain s + 1\<rparr>))"
| "deliver (Succeed p) s =
     map_option (\<lambda>t. t\<lparr>sys_breaker := settle_success p (sys_breaker t)\<rparr>) (leaves p s)"
| "deliver (Fail p h e) s =
     map_option (\<lambda>t. t\<lparr>sys_breaker := settle_failure (sys_now t) p h e (sys_breaker t)\<rparr>) (leaves p s)"
| "deliver (Cancel p healthy) s =
     map_option (\<lambda>t. t\<lparr>sys_breaker := settle_cancelled (sys_now t) p healthy (sys_breaker t)\<rparr>) (leaves p s)"
| "deliver Reset s = Some (s\<lparr>sys_breaker := reset (sys_breaker s)\<rparr>)"
| "deliver (Tick n) s = Some (s\<lparr>sys_now := sys_now s + int n\<rparr>)"

fun deliver_all :: "event list \<Rightarrow> breaker_system \<Rightarrow> breaker_system option" where
  "deliver_all [] s = Some s"
| "deliver_all (e # es) s = (case deliver e s of None \<Rightarrow> None | Some t \<Rightarrow> deliver_all es t)"

definition start_system :: "int \<Rightarrow> int \<Rightarrow> int \<Rightarrow> breaker_system" where
  "start_system now failure_threshold cooldown_seconds =
     \<lparr>sys_now = now, sys_breaker = new_breaker failure_threshold cooldown_seconds,
      sys_probes = 0, sys_plain = 0\<rparr>"

inductive reachable :: "int \<Rightarrow> int \<Rightarrow> int \<Rightarrow> breaker_system \<Rightarrow> bool" for now0 threshold cooldown where
  start: "reachable now0 threshold cooldown (start_system now0 threshold cooldown)"
| event: "reachable now0 threshold cooldown s \<Longrightarrow> deliver ev s = Some t
    \<Longrightarrow> reachable now0 threshold cooldown t"

lemma reachable_deliver_all:
  "reachable n k c s \<Longrightarrow> deliver_all es s = Some t \<Longrightarrow> reachable n k c t"
  by (induction es arbitrary: s) (auto split: option.splits intro: reachable.event)

section \<open>Invariants\<close>

definition breaker_ok :: "int \<Rightarrow> breaker_system \<Rightarrow> bool" where
  "breaker_ok now0 s \<longleftrightarrow>
     (let b = sys_breaker s in
       (cb_state b = HALF_OPEN \<longleftrightarrow> cb_probe_in_flight b)
       \<and> (cb_state b = CLOSED \<longleftrightarrow> cb_opened_at b = None)
       \<and> (cb_state b = HALF_OPEN \<longrightarrow> 0 < sys_probes s)
       \<and> (case cb_opened_at b of None \<Rightarrow> True | Some t \<Rightarrow> now0 \<le> t \<and> t \<le> sys_now s)
       \<and> now0 \<le> sys_now s \<and> 0 \<le> cb_failures b)"

lemmas breaker_op_defs = settle_success_def settle_failure_def settle_cancelled_def abandon_probe_def
  reset_def admit_def leaves_def

lemma deliver_ok:
  assumes "breaker_ok now0 s" "deliver ev s = Some t"
  shows "breaker_ok now0 t"
proof (cases ev)
  case Call
  then show ?thesis
    using assms by (auto simp: breaker_ok_def Let_def admit_def
        split: circuit_state.splits if_splits sum.splits prod.splits bool.splits option.splits)
next
  case (Succeed p)
  then show ?thesis
    using assms by (cases "cb_opened_at (sys_breaker s)")
      (auto simp: breaker_ok_def Let_def settle_success_def leaves_def split: if_splits)
next
  case (Fail p h e)
  then show ?thesis
    using assms by (cases "cb_opened_at (sys_breaker s)")
      (auto simp: breaker_ok_def Let_def settle_failure_def leaves_def split: if_splits)
next
  case (Cancel p healthy)
  then show ?thesis
    using assms by (cases "cb_opened_at (sys_breaker s)")
      (auto simp: breaker_ok_def Let_def settle_cancelled_def abandon_probe_def leaves_def split: if_splits)
next
  case Reset
  then show ?thesis using assms by (auto simp: breaker_ok_def Let_def reset_def)
next
  case (Tick n)
  then show ?thesis using assms by (auto simp: breaker_ok_def Let_def split: option.splits)
qed

lemma start_ok: "breaker_ok now0 (start_system now0 k c)"
  by (simp add: breaker_ok_def start_system_def new_breaker_def)

lemma reachable_ok: "reachable now0 k c s \<Longrightarrow> breaker_ok now0 s"
  by (induction rule: reachable.induct) (auto intro: start_ok deliver_ok)

lemma deliver_config:
  "deliver ev s = Some t \<Longrightarrow> cb_failure_threshold (sys_breaker t) = cb_failure_threshold (sys_breaker s)
     \<and> cb_cooldown_seconds (sys_breaker t) = cb_cooldown_seconds (sys_breaker s)"
  by (cases ev) (auto simp: breaker_op_defs Let_def
      split: circuit_state.splits if_splits sum.splits prod.splits bool.splits)

lemma reachable_config:
  "reachable now0 k c s \<Longrightarrow> cb_failure_threshold (sys_breaker s) = k \<and> cb_cooldown_seconds (sys_breaker s) = c"
  by (induction rule: reachable.induct)
    (auto simp: start_system_def new_breaker_def dest: deliver_config)

text \<open>
  C39: in every state that any interleaving of calls, outcomes, cancellations and resets can
  reach, the in-flight flag is set exactly in HALF\_OPEN, the opening time is absent exactly in
  CLOSED and never lies in the future, and HALF\_OPEN means that a probe really is in flight.
\<close>

theorem breaker_invariant:
  assumes "reachable now0 k c s"
  shows "(cb_state (sys_breaker s) = HALF_OPEN \<longleftrightarrow> cb_probe_in_flight (sys_breaker s))
    \<and> (cb_state (sys_breaker s) = CLOSED \<longleftrightarrow> cb_opened_at (sys_breaker s) = None)
    \<and> (cb_state (sys_breaker s) = HALF_OPEN \<longrightarrow> 0 < sys_probes s)
    \<and> (\<forall>t. cb_opened_at (sys_breaker s) = Some t \<longrightarrow> t \<le> sys_now s)"
  using reachable_ok [OF assms] by (auto simp: breaker_ok_def Let_def split: option.splits)

definition timeout_heap :: exc_heap where
  "timeout_heap =
     [\<lparr>ex_class = TimeoutErr, ex_type_name = ''TimeoutError'', ex_code = None, ex_type = None,
       ex_message = None, ex_status_code = None, ex_cause = None, ex_context = None\<rparr>]"

definition quota_heap :: exc_heap where
  "quota_heap =
     [\<lparr>ex_class = OtherException, ex_type_name = ''RateLimitError'', ex_code = None, ex_type = None,
       ex_message = None, ex_status_code = None, ex_cause = Some 1, ex_context = None\<rparr>,
      \<lparr>ex_class = OpenAIRateLimitError, ex_type_name = ''RateLimitError'',
       ex_code = Some ''insufficient_quota'', ex_type = None, ex_message = None,
       ex_status_code = Some 429, ex_cause = None, ex_context = Some 0\<rparr>]"

definition probing_system :: "breaker_system option" where
  "probing_system = deliver_all [Call, Fail False timeout_heap 0, Tick 30, Call] (start_system 5 1 30)"

lemma probing_system_reachable:
  "\<exists>s. probing_system = Some s \<and> reachable 5 1 30 s \<and> cb_state (sys_breaker s) = HALF_OPEN"
proof -
  have "map_option (\<lambda>s. cb_state (sys_breaker s)) probing_system = Some HALF_OPEN" by code_simp
  then obtain s where s: "probing_system = Some s" "cb_state (sys_breaker s) = HALF_OPEN" by auto
  then show ?thesis
    using reachable_deliver_all [OF reachable.start] unfolding probing_system_def by blast
qed

theorem breaker_invariant_witness:
  "\<exists>s. reachable 5 1 30 s \<and> cb_state (sys_breaker s) = HALF_OPEN
     \<and> cb_probe_in_flight (sys_breaker s) \<and> 0 < sys_probes s"
  using probing_system_reachable breaker_invariant by blast

text \<open>
  the breaker cannot stay half open. From every reachable HALF\_OPEN state a probe is in
  flight, and whichever way a probe ends (success, any failure, cancellation at any of its
  awaits) the breaker leaves HALF\_OPEN.
\<close>

theorem probe_outcome_leaves_half_open:
  assumes "reachable now0 k c s" "cb_state (sys_breaker s) = HALF_OPEN"
  shows "deliver (Succeed True) s \<noteq> None \<and>
    (\<forall>ev t. ev \<in> {Succeed True, Fail True h e, Cancel True healthy} \<and> deliver ev s = Some t
      \<longrightarrow> cb_state (sys_breaker t) \<noteq> HALF_OPEN \<and> \<not> cb_probe_in_flight (sys_breaker t))"
proof -
  have "0 < sys_probes s" using reachable_ok [OF assms(1)] assms(2) by (simp add: breaker_ok_def Let_def)
  then show ?thesis by (auto simp: breaker_op_defs Let_def split: if_splits)
qed

theorem probe_outcome_leaves_half_open_witness:
  "\<exists>s t. probing_system = Some s \<and> deliver (Cancel True False) s = Some t
     \<and> cb_state (sys_breaker t) \<noteq> HALF_OPEN"
proof -
  obtain s where s: "probing_system = Some s" "reachable 5 1 30 s" "cb_state (sys_breaker s) = HALF_OPEN"
    using probing_system_reachable by blast
  from probe_outcome_leaves_half_open [OF s(2,3), of "[]" 0 False]
  have "\<forall>t. deliver (Cancel True False) s = Some t \<longrightarrow> cb_state (sys_breaker t) \<noteq> HALF_OPEN" by blast
  moreover have "\<exists>t. deliver (Cancel True False) s = Some t"
    using breaker_invariant_witness reachable_ok [OF s(2)] s(3)
    by (auto simp: breaker_ok_def Let_def leaves_def)
  ultimately show ?thesis using s(1) by blast
qed

text \<open>
  an open breaker recovers. In every reachable OPEN state, once the effective cooldown has
  passed since the opening time, the next call is admitted as the probe; the wait is at most
  the larger of the configured cooldown and the quota cooldown.
\<close>

theorem open_breaker_admits_probe:
  assumes "reachable now0 k c s" "0 < now0" "cb_state (sys_breaker s) = OPENED"
    and "max c QUOTA_COOLDOWN_SECONDS \<le> wait"
  shows "\<exists>b. admit (sys_now s + wait) (sys_breaker s) = Inr (b, True) \<and> cb_state b = HALF_OPEN"
proof -
  obtain t where t: "cb_opened_at (sys_breaker s) = Some t" "now0 \<le> t" "t \<le> sys_now s"
    using reachable_ok [OF assms(1)] assms(3) by (auto simp: breaker_ok_def Let_def split: option.splits)
  have "effective_cooldown (sys_breaker s) \<le> wait"
    using assms(4) reachable_config [OF assms(1)] by (auto simp: effective_cooldown_def)
  then show ?thesis
    using t assms(2,3) by (simp add: admit_def elapsed_since_open_def)
qed

theorem open_breaker_admits_probe_witness:
  "\<exists>s b. deliver_all [Call, Fail False timeout_heap 0] (start_system 5 1 30) = Some s
     \<and> admit (sys_now s + 3600) (sys_breaker s) = Inr (b, True) \<and> cb_state b = HALF_OPEN"
proof -
  have "map_option (\<lambda>s. cb_state (sys_breaker s))
      (deliver_all [Call, Fail False timeout_heap 0] (start_system 5 1 30)) = Some OPENED" by code_simp
  then obtain s where s: "deliver_all [Call, Fail False timeout_heap 0] (start_system 5 1 30) = Some s"
    "cb_state (sys_breaker s) = OPENED" by auto
  have "reachable 5 1 30 s" by (rule reachable_deliver_all [OF reachable.start s(1)])
  from open_breaker_admits_probe [OF this _ s(2), of 3600] s(1) show ?thesis
    by (auto simp: QUOTA_COOLDOWN_SECONDS_def)
qed

text \<open>
  a call is rejected exactly when the breaker is open and its cooldown has not elapsed, or
  a probe is in flight; a rejection changes nothing, and a call admitted by a closed breaker
  is never the probe.
\<close>

theorem admit_exact:
  assumes "reachable now0 k c s" "0 < now0"
  shows "(\<exists>err. admit (sys_now s) (sys_breaker s) = Inl err) \<longleftrightarrow>
    cb_state (sys_breaker s) = HALF_OPEN
    \<or> (\<exists>t. cb_state (sys_breaker s) = OPENED \<and> cb_opened_at (sys_breaker s) = Some t
         \<and> sys_now s - t < effective_cooldown (sys_breaker s))"
  using reachable_ok [OF assms(1)] assms(2)
  by (auto simp: admit_def elapsed_since_open_def breaker_ok_def Let_def
      split: circuit_state.splits option.splits)

theorem admit_exact_witness:
  "\<exists>s. probing_system = Some s \<and> (\<exists>err. admit (sys_now s) (sys_breaker s) = Inl err)"
  using probing_system_reachable admit_exact [of 5 1 30] by (metis zero_less_numeral)

text \<open>
  the failure threshold is exact. From a closed breaker with no recorded failure, plain
  calls that fail one after another with trip-worthy, non-billing errors leave it closed with
  the failures counted while they are fewer than the threshold, and the one that reaches the
  threshold opens it at its own time.
\<close>

theorem failure_threshold_exact:
  assumes "cb_state b = CLOSED" "cb_failures b = 0" "0 < cb_failure_threshold b"
    and "should_trip_circuit (h ! e)" "quota_exhausted_error h (Some e) = None"
    and "int n \<le> cb_failure_threshold b"
  shows "let t = ((settle_failure now False h e) ^^ n) b in
    cb_failures t = int n
    \<and> cb_state t = (if int n < cb_failure_threshold b then CLOSED else OPENED)
    \<and> (int n = cb_failure_threshold b \<longrightarrow> cb_opened_at t = Some now)"
proof -
  have "int n \<le> cb_failure_threshold b \<Longrightarrow>
    (let t = ((settle_failure now False h e) ^^ n) b in
      cb_failures t = int n \<and> cb_failure_threshold t = cb_failure_threshold b
      \<and> cb_state t = (if int n < cb_failure_threshold b then CLOSED else OPENED)
      \<and> (int n = cb_failure_threshold b \<longrightarrow> cb_opened_at t = Some now))"
  proof (induction n)
    case (Suc n)
    then show ?case using assms(4,5) by (auto simp: Let_def settle_failure_def)
  qed (use assms in simp)
  then show ?thesis using assms(6) by (simp add: Let_def)
qed

theorem failure_threshold_exact_witness:
  "cb_state (((settle_failure 7 False timeout_heap 0) ^^ 3) (new_breaker 3 30)) = OPENED"
proof -
  have "quota_exhausted_error timeout_heap (Some 0) = None" by code_simp
  moreover have "should_trip_circuit (timeout_heap ! 0)"
    by (simp add: timeout_heap_def should_trip_circuit_def)
  ultimately show ?thesis
    using failure_threshold_exact [of "new_breaker 3 30" timeout_heap 0 3 7]
    by (simp add: new_breaker_def Let_def)
qed

text \<open>
  a billing refusal opens the breaker at once, whatever its state and whoever the caller,
  and for the whole quota cooldown every call is rejected.
\<close>

theorem quota_refusal_opens_for_an_hour:
  assumes "quota_exhausted_error h (Some e) \<noteq> None" "now \<noteq> 0"
    and "0 \<le> wait" "wait < QUOTA_COOLDOWN_SECONDS"
  shows "\<exists>err. admit (now + wait) (settle_failure now is_probe h e b) = Inl err"
  using assms by (simp add: settle_failure_def admit_def elapsed_since_open_def effective_cooldown_def
      QUOTA_REASON_CODE_def)

theorem quota_refusal_opens_for_an_hour_witness:
  "\<exists>err. admit (5 + 3599) (settle_failure 5 False quota_heap 0 (new_breaker 3 30)) = Inl err"
proof -
  have "quota_exhausted_error quota_heap (Some 0) = Some False" by code_simp
  then show ?thesis
    using quota_refusal_opens_for_an_hour [of quota_heap 0 5 3599] by (simp add: QUOTA_COOLDOWN_SECONDS_def)
qed

section \<open>What the comments claim\<close>

text \<open>
  a billing reason outlives the outage it describes. A probe that returned and was
  cancelled on its wait for the lock closes the breaker but keeps the hard-open reason, so the
  next ordinary trip, of a breaker configured for a cooldown of 30 seconds, blocks callers for
  the quota cooldown: a call 1000 seconds later is still rejected.
\<close>

theorem cancelled_healthy_probe_keeps_quota_reason:
  "map_option (\<lambda>s. (cb_state (sys_breaker s), cb_hard_open_reason (sys_breaker s)))
     (deliver_all [Call, Fail False quota_heap 0, Tick 3600, Call, Cancel True True]
        (start_system 5 1 30)) = Some (CLOSED, Some QUOTA_REASON_CODE)
   \<and> map_option (\<lambda>s. admit (sys_now s) (sys_breaker s))
     (deliver_all [Call, Fail False quota_heap 0, Tick 3600, Call, Cancel True True,
        Call, Fail False timeout_heap 0, Tick 1000] (start_system 5 1 30))
     = Some (Inl (CircuitOpenError OPENED 2600))"
  by code_simp

text \<open>
  two probes can be in flight at once. A plain call admitted before the outage that fails
  with a billing refusal reopens the breaker under a running probe, and the next cooldown
  admits a second probe.
\<close>

theorem two_probes_in_flight:
  "map_option (\<lambda>s. (sys_probes s, cb_state (sys_breaker s)))
     (deliver_all [Call, Call, Fail False timeout_heap 0, Tick 30, Call,
        Fail False quota_heap 0, Tick 3600, Call] (start_system 5 1 30)) = Some (2, HALF_OPEN)"
  by code_simp

text \<open>Without resets and billing refusals of plain calls the claim of the comment holds.\<close>

definition quiet_event :: "event \<Rightarrow> bool" where
  "quiet_event ev =
     (case ev of Reset \<Rightarrow> False | Fail p h e \<Rightarrow> p \<or> quota_exhausted_error h (Some e) = None | _ \<Rightarrow> True)"

lemma quiet_single_probe:
  assumes "deliver ev s = Some t" "quiet_event ev" "breaker_ok now0 s"
    and "sys_probes s = (if cb_state (sys_breaker s) = HALF_OPEN then 1 else 0)"
  shows "sys_probes t = (if cb_state (sys_breaker t) = HALF_OPEN then 1 else 0)"
  using assms
  by (cases ev) (auto simp: breaker_op_defs breaker_ok_def quiet_event_def Let_def
      split: if_splits circuit_state.splits sum.splits prod.splits bool.splits)

text \<open>
  as long as the operator does not reset the breaker and no call admitted as a plain call
  meets a billing refusal, at most one probe is in flight, and exactly in HALF\_OPEN.
\<close>

theorem single_probe_in_quiet_runs:
  assumes "list_all quiet_event es" "deliver_all es (start_system now0 k c) = Some t"
  shows "sys_probes t = (if cb_state (sys_breaker t) = HALF_OPEN then 1 else 0)"
proof -
  have "list_all quiet_event es \<Longrightarrow> deliver_all es s = Some t \<Longrightarrow> breaker_ok now0 s
      \<Longrightarrow> sys_probes s = (if cb_state (sys_breaker s) = HALF_OPEN then 1 else 0)
      \<Longrightarrow> sys_probes t = (if cb_state (sys_breaker t) = HALF_OPEN then 1 else 0)" for s
  proof (induction es arbitrary: s)
    case (Cons e es)
    then obtain u where u: "deliver e s = Some u" "deliver_all es u = Some t"
      by (auto split: option.splits)
    then show ?case
      using Cons.IH [of u] Cons.prems quiet_single_probe [of e s u now0] deliver_ok [of now0 s e u] by auto
  qed simp
  from this [OF assms start_ok] show ?thesis by (simp add: start_system_def new_breaker_def)
qed

theorem single_probe_in_quiet_runs_witness:
  "map_option sys_probes probing_system = Some 1"
proof -
  obtain s where s: "probing_system = Some s" "cb_state (sys_breaker s) = HALF_OPEN"
    using probing_system_reachable by blast
  have "list_all quiet_event [Call, Fail False timeout_heap 0, Tick 30, Call]" by code_simp
  from single_probe_in_quiet_runs [OF this s(1) [unfolded probing_system_def]] s show ?thesis by auto
qed

end
