(* ===== verification/Python_Values.thy ===== *)
theory Python_Values
  imports Python_Text Complex_Main
begin

text \<open>
  The values a node property or a JSON document holds. A Python float is a rational or one of the
  three values that are not finite; every finite double is a rational, and the sources modelled
  here only compare, negate and take minima of the floats they read, so no rounding enters.
  \<^verbatim>\<open>str()\<close> of a value that is not a string, and \<^verbatim>\<open>float()\<close> of a string, belong to the interpreter:
  they are the fields of \<open>py_runtime\<close>, the argument of the definitions that call them.
\<close>

datatype pyfloat = Finite rat | PosInf | NegInf | NaN

datatype py_value =
    PNone
  | PBool bool
  | PInt int
  | PFloat pyfloat
  | PStr string
  | PList "py_value list"
  | PMap "(string \<times> py_value) list"

type_synonym py_dict = "(string \<times> py_value) list"

definition dict_get :: "string \<Rightarrow> py_dict \<Rightarrow> py_value" where
  "dict_get k d = (case map_of d k of None \<Rightarrow> PNone | Some v \<Rightarrow> v)"

record py_runtime =
  rt_str :: "py_value \<Rightarrow> string"
  rt_float_of_str :: "string \<Rightarrow> pyfloat option"

definition py_str :: "py_runtime \<Rightarrow> py_value \<Rightarrow> string" where
  "py_str rt v = (case v of PStr s \<Rightarrow> s | _ \<Rightarrow> rt_str rt v)"

text \<open>\<^verbatim>\<open>float(v)\<close>: numbers convert, a bool is 0 or 1, a string is parsed, the rest raises.\<close>

definition py_float :: "py_runtime \<Rightarrow> py_value \<Rightarrow> pyfloat result" where
  "py_float rt v =
     (case v of
        PBool b \<Rightarrow> Inr (Finite (if b then 1 else 0))
      | PInt i \<Rightarrow> Inr (Finite (of_int i))
      | PFloat f \<Rightarrow> Inr f
      | PStr s \<Rightarrow> (case rt_float_of_str rt s of
                    None \<Rightarrow> Inl (ValueError ''could not convert string to float'')
                  | Some f \<Rightarrow> Inr f)
      | _ \<Rightarrow> Inl (ValueError ''float() argument must be a string or a real number''))"

text \<open>\<^verbatim>\<open>abs(a - b) > t\<close>: the difference of equal infinities and every difference with NaN is NaN,
  and a comparison with NaN is false.\<close>

fun differs_by_more :: "rat \<Rightarrow> pyfloat \<Rightarrow> pyfloat \<Rightarrow> bool" where
  "differs_by_more t (Finite a) (Finite b) \<longleftrightarrow> t < \<bar>a - b\<bar>"
| "differs_by_more t NaN _ \<longleftrightarrow> False"
| "differs_by_more t _ NaN \<longleftrightarrow> False"
| "differs_by_more t a b \<longleftrightarrow> a \<noteq> b"

lemma dict_get_append:
  "dict_get k (xs @ ys) = (if k \<in> fst ` set xs then dict_get k xs else dict_get k ys)"
  by (auto simp: dict_get_def map_add_def dom_map_of_conv_image_fst [symmetric] split: option.split)

lemma dict_get_Cons [simp]: "dict_get k ((k', v) # xs) = (if k' = k then v else dict_get k xs)"
  by (simp add: dict_get_def)

lemma dict_get_Nil [simp]: "dict_get k [] = PNone"
  by (simp add: dict_get_def)

section \<open>Ordered de-duplication and first minima\<close>

text \<open>The first-seen order of a list with later repetitions dropped, as a loop over a seen set.\<close>

fun dedup_aux :: "'a list \<Rightarrow> 'a list \<Rightarrow> 'a list" where
  "dedup_aux seen [] = []"
| "dedup_aux seen (x # xs) =
     (if x \<in> set seen then dedup_aux seen xs else x # dedup_aux (x # seen) xs)"

definition dedup :: "'a list \<Rightarrow> 'a list" where
  "dedup xs = dedup_aux [] xs"

lemma set_dedup_aux: "set (dedup_aux seen xs) = set xs - set seen"
  by (induction seen xs rule: dedup_aux.induct) auto

lemma distinct_dedup_aux: "distinct (dedup_aux seen xs)"
  by (induction seen xs rule: dedup_aux.induct) (auto simp: set_dedup_aux)

lemma set_dedup [simp]: "set (dedup xs) = set xs"
  by (simp add: dedup_def set_dedup_aux)

lemma distinct_dedup [simp]: "distinct (dedup xs)"
  by (simp add: dedup_def distinct_dedup_aux)

lemma dedup_aux_distinct:
  "distinct xs \<Longrightarrow> set xs \<inter> set seen = {} \<Longrightarrow> dedup_aux seen xs = xs"
  by (induction seen xs rule: dedup_aux.induct) auto

lemma dedup_distinct [simp]: "distinct xs \<Longrightarrow> dedup xs = xs"
  by (simp add: dedup_def dedup_aux_distinct)

text \<open>\<^verbatim>\<open>min(x, *xs, key=k)\<close>: the first element whose key is least.\<close>

fun first_min :: "('a \<Rightarrow> 'k :: linorder) \<Rightarrow> 'a \<Rightarrow> 'a list \<Rightarrow> 'a" where
  "first_min k x [] = x"
| "first_min k x (y # ys) = first_min k (if k y < k x then y else x) ys"

lemma first_min_in: "first_min k x xs \<in> set (x # xs)"
  by (induction k x xs rule: first_min.induct) (auto split: if_splits)

lemma first_min_le: "y \<in> set (x # xs) \<Longrightarrow> k (first_min k x xs) \<le> k y"
proof (induction k x xs arbitrary: y rule: first_min.induct)
  case (2 k x z zs)
  have "k (first_min k (if k z < k x then z else x) zs) \<le> k (if k z < k x then z else x)"
    by (rule 2) simp
  moreover have "k (first_min k (if k z < k x then z else x) zs) \<le> k y" if "y \<in> set zs"
    by (rule 2) (simp add: that)
  ultimately show ?case
    using 2(2) by (fastforce split: if_splits)
qed simp

lemma first_min_key: "k (first_min k x xs) = Min (k ` set (x # xs))"
  by (rule Min_eqI [symmetric]) (use first_min_in [of k x xs] first_min_le [of _ x xs k] in auto)

end
