(* ===== verification/Merge_Snapshot.thy ===== *)
theory Merge_Snapshot
  imports Python_Values
begin

text \<open>
  The lossless snapshot of a merge, \<^verbatim>\<open>domain/merge_snapshot.py\<close>: driver values encoded as JSON
  documents and back, node states, and the versioned, checksummed envelope. A temporal value of the
  driver is an element of the type parameter; its ISO text, base64, the normalising constructor of
  durations, the two point classes (true for \<^verbatim>\<open>WGS84Point\<close>) and the digest of a document are fields of
  \<open>driver\<close>, which stands for the packages the codec calls. A schema error is a \<open>ValueError\<close>, of which \<^verbatim>\<open>SnapshotSchemaError\<close> is a subclass.
\<close>

section \<open>Driver values and documents\<close>

datatype temporal_kind = DateTime | Date | Time

datatype 't neo_value =
    NNone
  | NBool bool
  | NInt int
  | NFloat pyfloat
  | NStr string
  | NBytes "nat list"
  | NTemporal temporal_kind 't
  | NDuration int int int int
  | NPoint int "pyfloat list"
  | NList "'t neo_value list"
  | NMap "(string \<times> 't neo_value) list"

record 't driver =
  dr_iso :: "temporal_kind \<Rightarrow> 't \<Rightarrow> string"
  dr_from_iso :: "temporal_kind \<Rightarrow> string \<Rightarrow> 't option"
  dr_b64encode :: "nat list \<Rightarrow> string"
  dr_b64decode :: "string \<Rightarrow> nat list option"
  dr_duration :: "int \<Rightarrow> int \<Rightarrow> int \<Rightarrow> int \<Rightarrow> int \<times> int \<times> int \<times> int"
  dr_point :: "bool \<Rightarrow> pyfloat list \<Rightarrow> (int \<times> pyfloat list) option"
  dr_sha256 :: "string \<Rightarrow> string"
  dr_runtime :: py_runtime

definition tag_key :: string where
  "tag_key = ''$type''"

fun kind_tag :: "temporal_kind \<Rightarrow> string" where
  "kind_tag DateTime = ''DateTime''"
| "kind_tag Date = ''Date''"
| "kind_tag Time = ''Time''"

definition tagged :: "string \<Rightarrow> py_dict \<Rightarrow> py_value" where
  "tagged t d = PMap ((tag_key, PStr t) # d)"

section \<open>The value codec\<close>

fun encode_value :: "'t driver \<Rightarrow> 't neo_value \<Rightarrow> py_value"
  and encode_list :: "'t driver \<Rightarrow> 't neo_value list \<Rightarrow> py_value list"
  and encode_map :: "'t driver \<Rightarrow> (string \<times> 't neo_value) list \<Rightarrow> py_dict" where
  "encode_value dr NNone = PNone"
| "encode_value dr (NBool b) = PBool b"
| "encode_value dr (NInt i) = PInt i"
| "encode_value dr (NFloat f) = PFloat f"
| "encode_value dr (NStr s) = PStr s"
| "encode_value dr (NBytes bs) = tagged ''bytes'' [(''value'', PStr (dr_b64encode dr bs))]"
| "encode_value dr (NTemporal k t) = tagged (kind_tag k) [(''value'', PStr (dr_iso dr k t))]"
| "encode_value dr (NDuration m d s n) =
     tagged ''Duration'' [(''months'', PInt m), (''days'', PInt d), (''seconds'', PInt s), (''nanoseconds'', PInt n)]"
| "encode_value dr (NPoint srid cs) =
     tagged ''Point'' [(''srid'', PInt srid), (''coordinates'', PList (map PFloat cs))]"
| "encode_value dr (NList vs) = PList (encode_list dr vs)"
| "encode_value dr (NMap kvs) = tagged ''map'' [(''value'', PMap (encode_map dr kvs))]"
| "encode_list dr [] = []"
| "encode_list dr (v # vs) = encode_value dr v # encode_list dr vs"
| "encode_map dr [] = []"
| "encode_map dr ((k, v) # kvs) = (k, encode_value dr v) # encode_map dr kvs"

definition schema_error :: "'a result" where
  "schema_error = Inl (ValueError ''merge snapshot'')"

text \<open>\<^verbatim>\<open>d[k]\<close>, \<^verbatim>\<open>int(v)\<close>, truth of a value, iteration over one, and \<^verbatim>\<open>(v or {}).items()\<close>.\<close>

definition subscript :: "string \<Rightarrow> py_dict \<Rightarrow> py_value result" where
  "subscript k d = (case map_of d k of None \<Rightarrow> Inl (KeyError k) | Some v \<Rightarrow> Inr v)"

definition py_int :: "py_value \<Rightarrow> int result" where
  "py_int v =
     (case v of
        PInt i \<Rightarrow> Inr i
      | PBool b \<Rightarrow> Inr (if b then 1 else 0)
      | PFloat f \<Rightarrow> (case f of Finite q \<Rightarrow> Inr (if 0 \<le> q then \<lfloor>q\<rfloor> else \<lceil>q\<rceil>) | _ \<Rightarrow> Inl (ValueError ''int''))
      | PStr s \<Rightarrow> (case int_of_string s of None \<Rightarrow> Inl (ValueError ''int'') | Some i \<Rightarrow> Inr i)
      | _ \<Rightarrow> Inl (ValueError ''int''))"

definition falsy :: "py_value \<Rightarrow> bool" where
  "falsy v \<longleftrightarrow> v \<in> {PNone, PBool False, PInt 0, PFloat (Finite 0), PStr [], PList [], PMap []}"

definition py_iter :: "py_value \<Rightarrow> py_value list result" where
  "py_iter v =
     (case v of
        PList vs \<Rightarrow> Inr vs
      | PStr s \<Rightarrow> Inr (map (\<lambda>c. PStr [c]) s)
      | PMap d \<Rightarrow> Inr (map (PStr \<circ> fst) d)
      | _ \<Rightarrow> Inl (ValueError ''not iterable''))"

definition get_int :: "string \<Rightarrow> py_dict \<Rightarrow> int result" where
  "get_int k d = (case map_of d k of None \<Rightarrow> Inr 0 | Some v \<Rightarrow> py_int v)"

fun map_result :: "('a \<Rightarrow> 'b result) \<Rightarrow> 'a list \<Rightarrow> 'b list result" where
  "map_result f [] = Inr []"
| "map_result f (x # xs) = bind_result (f x) (\<lambda>y. bind_result (map_result f xs) (\<lambda>ys. Inr (y # ys)))"

definition point_of :: "(int \<times> pyfloat list) option \<Rightarrow> 't neo_value result" where
  "point_of r = (case r of None \<Rightarrow> Inl (ValueError ''point'') | Some (srid, cs) \<Rightarrow> Inr (NPoint srid cs))"

definition decode_point :: "'t driver \<Rightarrow> py_dict \<Rightarrow> 't neo_value result" where
  "decode_point dr d =
     bind_result (bind_result (subscript ''srid'' d) py_int) (\<lambda>srid.
     bind_result (bind_result (subscript ''coordinates'' d) py_iter) (\<lambda>vs.
     bind_result (map_result (py_float (dr_runtime dr)) vs) (\<lambda>coords.
       if srid = 4326 \<or> srid = 4979 then point_of (dr_point dr True coords)
       else if srid = 7203 \<or> srid = 9157 then point_of (dr_point dr False coords)
       else schema_error)))"

definition decode_scalar :: "'t driver \<Rightarrow> string \<Rightarrow> py_dict \<Rightarrow> 't neo_value result" where
  "decode_scalar dr t d =
     (if t = ''bytes'' then
        bind_result (subscript ''value'' d) (\<lambda>v.
          case dr_b64decode dr (py_str (dr_runtime dr) v) of None \<Rightarrow> Inl (ValueError ''base64'') | Some bs \<Rightarrow> Inr (NBytes bs))
      else if t = ''Duration'' then
        bind_result (get_int ''months'' d) (\<lambda>m. bind_result (get_int ''days'' d) (\<lambda>dd.
        bind_result (get_int ''seconds'' d) (\<lambda>s. bind_result (get_int ''nanoseconds'' d) (\<lambda>n.
          Inr (case dr_duration dr m dd s n of (m', d', s', n') \<Rightarrow> NDuration m' d' s' n')))))
      else if t = ''Point'' then decode_point dr d
      else case filter (\<lambda>k. kind_tag k = t) [DateTime, Date, Time] of
        k # _ \<Rightarrow> bind_result (subscript ''value'' d) (\<lambda>v.
          case dr_from_iso dr k (py_str (dr_runtime dr) v) of None \<Rightarrow> Inl (ValueError ''iso'') | Some x \<Rightarrow> Inr (NTemporal k x))
      | [] \<Rightarrow> schema_error)"

text \<open>
  Decoding recurses into the members of an array and of the map under \<^verbatim>\<open>value\<close>; the recursion is on
  the size of the document.
\<close>

function (sequential) decode_value :: "'t driver \<Rightarrow> py_value \<Rightarrow> 't neo_value result"
  and decode_list :: "'t driver \<Rightarrow> py_value list \<Rightarrow> 't neo_value list result"
  and decode_map :: "'t driver \<Rightarrow> py_dict \<Rightarrow> (string \<times> 't neo_value) list result"
  and decode_tagged_map :: "'t driver \<Rightarrow> py_dict \<Rightarrow> (string \<times> 't neo_value) list result" where
  "decode_value dr PNone = Inr NNone"
| "decode_value dr (PBool b) = Inr (NBool b)"
| "decode_value dr (PInt i) = Inr (NInt i)"
| "decode_value dr (PFloat f) = Inr (NFloat f)"
| "decode_value dr (PStr s) = Inr (NStr s)"
| "decode_value dr (PList vs) = bind_result (decode_list dr vs) (Inr \<circ> NList)"
| "decode_value dr (PMap d) =
     (case dict_get tag_key d of
        PStr t \<Rightarrow> if t = ''map'' then bind_result (decode_tagged_map dr d) (Inr \<circ> NMap) else decode_scalar dr t d
      | _ \<Rightarrow> schema_error)"
| "decode_list dr [] = Inr []"
| "decode_list dr (v # vs) =
     bind_result (decode_value dr v) (\<lambda>x. bind_result (decode_list dr vs) (\<lambda>xs. Inr (x # xs)))"
| "decode_map dr [] = Inr []"
| "decode_map dr ((k, v) # kvs) =
     bind_result (decode_value dr v) (\<lambda>x. bind_result (decode_map dr kvs) (\<lambda>xs. Inr ((k, x) # xs)))"
| "decode_tagged_map dr [] = Inr []"
| "decode_tagged_map dr ((k, v) # kvs) =
     (if k = ''value'' then
        (case v of PMap d \<Rightarrow> decode_map dr d | _ \<Rightarrow> if falsy v then Inr [] else Inl (ValueError ''not a dict''))
      else decode_tagged_map dr kvs)"
  by pat_completeness auto

termination
  by (relation "measure (\<lambda>s. case s of Inl (Inl (_, v)) \<Rightarrow> size v | Inl (Inr (_, vs)) \<Rightarrow> size_list size vs
       | Inr (Inl (_, d)) \<Rightarrow> size_list (size_prod (\<lambda>_. 0) size) d
       | Inr (Inr (_, d)) \<Rightarrow> size_list (size_prod (\<lambda>_. 0) size) d)") auto

section \<open>Nodes\<close>

record 't rel_state =
  rs_type :: string
  rs_direction :: string
  rs_properties :: "(string \<times> 't neo_value) list"
  rs_peer_uuid :: "string option"
  rs_peer_labels :: "string list"
  rs_peer_identity :: "string option"

record 't node_state =
  nst_uuid :: string
  nst_labels :: "string list"
  nst_properties :: "(string \<times> 't neo_value) list"
  nst_relationships :: "'t rel_state list"

definition opt_str :: "string option \<Rightarrow> py_value" where
  "opt_str v = (case v of None \<Rightarrow> PNone | Some s \<Rightarrow> PStr s)"

definition encode_rel :: "'t driver \<Rightarrow> 't rel_state \<Rightarrow> py_value" where
  "encode_rel dr r = PMap
     [(''type'', PStr (rs_type r)), (''direction'', PStr (rs_direction r)),
      (''properties'', PMap (encode_map dr (rs_properties r))),
      (''peer_uuid'', opt_str (rs_peer_uuid r)),
      (''peer_labels'', PList (map PStr (sort (rs_peer_labels r)))),
      (''peer_identity'', opt_str (rs_peer_identity r))]"

definition encode_node :: "'t driver \<Rightarrow> 't node_state \<Rightarrow> py_value" where
  "encode_node dr n = PMap
     [(''uuid'', PStr (nst_uuid n)), (''labels'', PList (map PStr (sort (nst_labels n)))),
      (''properties'', PMap (encode_map dr (nst_properties n))),
      (''relationships'', PList (map (encode_rel dr) (nst_relationships n)))]"

text \<open>
  The members a reader takes with \<^verbatim>\<open>get\<close> and \<^verbatim>\<open>or\<close>. Labels, peers and identities of a document are
  strings or null, which is how the encoder writes them.
\<close>

definition as_dict :: "py_value \<Rightarrow> py_dict result" where
  "as_dict v = (case v of PMap d \<Rightarrow> Inr d | _ \<Rightarrow> Inl (ValueError ''not a dict''))"

definition value_list :: "py_value \<Rightarrow> py_value list result" where
  "value_list v = (if falsy v then Inr [] else py_iter v)"

definition value_dict :: "py_value \<Rightarrow> py_dict result" where
  "value_dict v = (if falsy v then Inr [] else as_dict v)"

definition value_opt :: "py_runtime \<Rightarrow> py_value \<Rightarrow> string option" where
  "value_opt rt v = (if v = PNone then None else Some (py_str rt v))"

definition decode_rel :: "'t driver \<Rightarrow> py_value \<Rightarrow> 't rel_state result" where
  "decode_rel dr v =
     bind_result (as_dict v) (\<lambda>r.
     bind_result (subscript ''type'' r) (\<lambda>ty.
     bind_result (subscript ''direction'' r) (\<lambda>dir.
     bind_result (value_dict (dict_get ''properties'' r)) (\<lambda>pd.
     bind_result (decode_map dr pd) (\<lambda>props.
     bind_result (value_list (dict_get ''peer_labels'' r)) (\<lambda>ls.
       Inr \<lparr>rs_type = py_str (dr_runtime dr) ty, rs_direction = py_str (dr_runtime dr) dir,
            rs_properties = props, rs_peer_uuid = value_opt (dr_runtime dr) (dict_get ''peer_uuid'' r),
            rs_peer_labels = map (py_str (dr_runtime dr)) ls,
            rs_peer_identity = value_opt (dr_runtime dr) (dict_get ''peer_identity'' r)\<rparr>))))))"

definition decode_node :: "'t driver \<Rightarrow> py_value \<Rightarrow> 't node_state result" where
  "decode_node dr v =
     bind_result (as_dict v) (\<lambda>node.
     bind_result (subscript ''uuid'' node) (\<lambda>u.
     bind_result (value_list (dict_get ''labels'' node)) (\<lambda>ls.
     bind_result (value_dict (dict_get ''properties'' node)) (\<lambda>pd.
     bind_result (decode_map dr pd) (\<lambda>props.
     bind_result (value_list (dict_get ''relationships'' node)) (\<lambda>rs.
     bind_result (map_result (decode_rel dr) rs) (\<lambda>rels.
       Inr \<lparr>nst_uuid = py_str (dr_runtime dr) u, nst_labels = map (py_str (dr_runtime dr)) ls,
            nst_properties = props, nst_relationships = rels\<rparr>)))))))"

section \<open>The envelope\<close>

definition SCHEMA_VERSION :: int where
  "SCHEMA_VERSION = 1"

text \<open>Membership in \<^verbatim>\<open>frozenset({1})\<close>: true and 1.0 are equal to 1.\<close>

definition supported_version :: "py_value \<Rightarrow> bool" where
  "supported_version v \<longleftrightarrow> v = PInt 1 \<or> v = PBool True \<or> v = PFloat (Finite 1)"

definition SYSTEM_MANAGED_PROPERTIES :: "string list" where
  "SYSTEM_MANAGED_PROPERTIES = [''last_accessed'']"

definition MAX_SNAPSHOT_BYTES :: nat where
  "MAX_SNAPSHOT_BYTES = 8 * 1024 * 1024"

record json_text =
  js_canonical :: "py_value \<Rightarrow> string"
  js_loads :: "string \<Rightarrow> py_value option"
  js_utf8_size :: "string \<Rightarrow> nat"

definition compute_checksum :: "'t driver \<Rightarrow> json_text \<Rightarrow> py_value \<Rightarrow> string" where
  "compute_checksum dr js body = dr_sha256 dr (js_canonical js body)"

definition build_snapshot :: "'t driver \<Rightarrow> json_text \<Rightarrow> py_value \<Rightarrow> py_value \<Rightarrow> pyfloat option \<Rightarrow> py_value" where
  "build_snapshot dr js survivor absorbed similarity =
     (let body = PMap [(''survivor'', survivor), (''absorbed'', absorbed),
                       (''similarity'', (case similarity of None \<Rightarrow> PNone | Some f \<Rightarrow> PFloat f))]
      in PMap [(''schema_version'', PInt SCHEMA_VERSION), (''checksum'', PStr (compute_checksum dr js body)),
               (''body'', body)])"

definition load_snapshot :: "'t driver \<Rightarrow> json_text \<Rightarrow> py_value \<Rightarrow> py_dict result" where
  "load_snapshot dr js v =
     (case v of
        PMap snapshot \<Rightarrow>
          if \<not> supported_version (dict_get ''schema_version'' snapshot) then schema_error
          else (case dict_get ''body'' snapshot of
                  PMap body \<Rightarrow>
                    if dict_get ''checksum'' snapshot \<noteq> PStr (compute_checksum dr js (PMap body)) then schema_error
                    else Inr body
                | _ \<Rightarrow> schema_error)
      | _ \<Rightarrow> Inl (ValueError ''get''))"

definition snapshot_size_bytes :: "json_text \<Rightarrow> py_value \<Rightarrow> nat" where
  "snapshot_size_bytes js snapshot = js_utf8_size js (js_canonical js snapshot)"

definition snapshot_dumps :: "json_text \<Rightarrow> py_value \<Rightarrow> bool \<Rightarrow> string result" where
  "snapshot_dumps js snapshot enforce_size_limit =
     (if enforce_size_limit \<and> MAX_SNAPSHOT_BYTES < snapshot_size_bytes js snapshot
      then Inl (ValueError ''SnapshotTooLargeError'')
      else Inr (js_canonical js snapshot))"

definition snapshot_loads :: "json_text \<Rightarrow> string \<Rightarrow> py_value result" where
  "snapshot_loads js t = (case js_loads js t of None \<Rightarrow> schema_error | Some v \<Rightarrow> Inr v)"

text \<open>How a reader of a stored snapshot reaches one participant.\<close>

definition stored_node :: "'t driver \<Rightarrow> json_text \<Rightarrow> string \<Rightarrow> string \<Rightarrow> 't node_state result" where
  "stored_node dr js who raw =
     bind_result (snapshot_loads js raw) (\<lambda>v.
     bind_result (load_snapshot dr js v) (\<lambda>body.
     bind_result (subscript who body) (decode_node dr)))"

section \<open>Moved facts\<close>

definition neo_get :: "string \<Rightarrow> (string \<times> 't neo_value) list \<Rightarrow> 't neo_value" where
  "neo_get k d = (case map_of d k of None \<Rightarrow> NNone | Some v \<Rightarrow> v)"

definition fact_uuid :: "'t rel_state \<Rightarrow> string" where
  "fact_uuid r = (case neo_get ''uuid'' (rs_properties r) of NStr u \<Rightarrow> u | _ \<Rightarrow> [])"

definition is_moved_fact :: "string \<Rightarrow> string option \<Rightarrow> 't rel_state \<Rightarrow> bool" where
  "is_moved_fact survivor_uuid absorbed_uuid r \<longleftrightarrow>
     rs_type r = ''RELATES_TO'' \<and> neo_get ''fact'' (rs_properties r) \<noteq> NNone
     \<and> fact_uuid r \<noteq> [] \<and> ''Entity'' \<in> set (rs_peer_labels r)
     \<and> (case rs_peer_uuid r of None \<Rightarrow> False | Some p \<Rightarrow> p \<noteq> survivor_uuid \<and> Some p \<noteq> absorbed_uuid)"

text \<open>\<^verbatim>\<open>absorbed.get("uuid") or properties.get("uuid")\<close>, compared with the uuid of a peer.\<close>

definition absorbed_id :: "'t node_state \<Rightarrow> string option" where
  "absorbed_id n =
     (if nst_uuid n \<noteq> [] then Some (nst_uuid n)
      else case neo_get ''uuid'' (nst_properties n) of NStr u \<Rightarrow> Some u | _ \<Rightarrow> None)"

definition moved_fact_uuids :: "string \<Rightarrow> 't node_state \<Rightarrow> string list" where
  "moved_fact_uuids survivor_uuid absorbed =
     sort (map fact_uuid (filter (is_moved_fact survivor_uuid (absorbed_id absorbed)) (nst_relationships absorbed)))"

definition restorable_properties :: "(string \<times> 't neo_value) list \<Rightarrow> (string \<times> 't neo_value) list" where
  "restorable_properties props = filter (\<lambda>(k, v). k \<notin> set SYSTEM_MANAGED_PROPERTIES) props"

section \<open>Round trips\<close>

text \<open>
  What the packages promise. The canonical text of a document lists the members of every object by
  key, so reading it gives the document with its objects in that order, and two documents that
  differ only in the order of members have one text.
\<close>

fun sort_doc :: "py_value \<Rightarrow> py_value" where
  "sort_doc (PList vs) = PList (map sort_doc vs)"
| "sort_doc (PMap d) = PMap (sort_key fst (map (\<lambda>kv. (fst kv, sort_doc (snd kv))) d))"
| "sort_doc v = v"

fun sort_neo :: "'t neo_value \<Rightarrow> 't neo_value" where
  "sort_neo (NList vs) = NList (map sort_neo vs)"
| "sort_neo (NMap d) = NMap (sort_key fst (map (\<lambda>kv. (fst kv, sort_neo (snd kv))) d))"
| "sort_neo v = v"

definition json_ok :: "json_text \<Rightarrow> bool" where
  "json_ok js \<longleftrightarrow>
     (\<forall>d. js_loads js (js_canonical js d) = Some (sort_doc d))
     \<and> (\<forall>d. js_canonical js (sort_doc d) = js_canonical js d)"

definition driver_ok :: "'t driver \<Rightarrow> bool" where
  "driver_ok dr \<longleftrightarrow>
     (\<forall>k t. dr_from_iso dr k (dr_iso dr k t) = Some t)
     \<and> (\<forall>bs. dr_b64decode dr (dr_b64encode dr bs) = Some bs)"

fun value_ok :: "'t driver \<Rightarrow> 't neo_value \<Rightarrow> bool" where
  "value_ok dr (NDuration m d s n) \<longleftrightarrow> dr_duration dr m d s n = (m, d, s, n)"
| "value_ok dr (NPoint srid cs) \<longleftrightarrow>
     srid \<in> {4326, 4979, 7203, 9157} \<and> dr_point dr (srid \<in> {4326, 4979}) cs = Some (srid, cs)"
| "value_ok dr (NList vs) \<longleftrightarrow> list_all (value_ok dr) vs"
| "value_ok dr (NMap kvs) \<longleftrightarrow> list_all (\<lambda>kv. value_ok dr (snd kv)) kvs"
| "value_ok dr _ \<longleftrightarrow> True"

definition sort_props :: "(string \<times> 't neo_value) list \<Rightarrow> (string \<times> 't neo_value) list" where
  "sort_props d = sort_key fst (map (\<lambda>kv. (fst kv, sort_neo (snd kv))) d)"

definition sort_members :: "py_dict \<Rightarrow> py_dict" where
  "sort_members d = sort_key fst (map (\<lambda>kv. (fst kv, sort_doc (snd kv))) d)"

lemma sort_doc_PMap: "sort_doc (PMap d) = PMap (sort_members d)"
  by (simp add: sort_members_def)

lemma sort_neo_NMap: "sort_neo (NMap d) = NMap (sort_props d)"
  by (simp add: sort_props_def)

subsection \<open>Order of members\<close>

lemma map_of_first: "map_of d k = (case filter (\<lambda>kv. fst kv = k) d of [] \<Rightarrow> None | kv # _ \<Rightarrow> Some (snd kv))"
  by (induction d) auto

lemma map_of_sort_key: "map_of (sort_key fst d) k = map_of d k"
  unfolding map_of_first by (simp add: sort_key_stable)

lemma map_of_map_snd: "map_of (map (\<lambda>kv. (fst kv, f (snd kv))) d) k = map_option f (map_of d k)"
  by (induction d) auto

lemma map_of_sort_members: "map_of (sort_members d) k = map_option sort_doc (map_of d k)"
  by (simp add: sort_members_def map_of_sort_key map_of_map_snd)

lemma dict_get_sort_members: "dict_get k (sort_members d) = sort_doc (dict_get k d)"
  by (simp add: dict_get_def map_of_sort_members split: option.split)

lemma insort_key_map: "insort_key f (g x) (map g xs) = map g (insort_key (\<lambda>y. f (g y)) x xs)"
  by (induction xs) auto

lemma sort_key_map: "sort_key f (map g xs) = map g (sort_key (\<lambda>y. f (g y)) xs)"
  by (induction xs) (simp_all add: insort_key_map)

lemma decode_tagged_map_get:
  "decode_tagged_map dr d = bind_result (value_dict (dict_get ''value'' d)) (decode_map dr)"
proof (induction d)
  case (Cons kv d)
  obtain k v where [simp]: "kv = (k, v)"
    by (cases kv)
  show ?case
    using Cons by (cases "k = ''value''"; cases v) (simp_all add: value_dict_def as_dict_def falsy_def)
qed (simp add: value_dict_def falsy_def)

lemma value_dict_PMap [simp]: "value_dict (PMap d) = Inr d"
  by (auto simp: value_dict_def as_dict_def falsy_def)

lemma value_list_PList [simp]: "value_list (PList vs) = Inr vs"
  by (auto simp: value_list_def py_iter_def falsy_def)

lemma decode_map_all2:
  "list_all2 (\<lambda>kv kx. fst kv = fst kx \<and> decode_value dr (snd kv) = Inr (snd kx)) d kvs \<Longrightarrow> decode_map dr d = Inr kvs"
  by (induction d kvs rule: list_all2_induct) auto

subsection \<open>Values\<close>

lemma encode_list_map: "encode_list dr vs = map (encode_value dr) vs"
  by (induction vs) auto

lemma encode_map_map: "encode_map dr kvs = map (\<lambda>kv. (fst kv, encode_value dr (snd kv))) kvs"
  by (induction kvs) auto

lemma decode_list_map:
  "(\<And>v. v \<in> set vs \<Longrightarrow> decode_value dr (f v) = Inr (g v)) \<Longrightarrow> decode_list dr (map f vs) = Inr (map g vs)"
  by (induction vs) auto

lemma decode_members:
  assumes "\<And>kv. kv \<in> set kvs \<Longrightarrow> decode_value dr (sort_doc (encode_value dr (snd kv))) = Inr (sort_neo (snd kv))"
  shows "decode_map dr (sort_members (encode_map dr kvs)) = Inr (sort_props kvs)"
proof -
  have "sort_members (encode_map dr kvs)
      = map (\<lambda>kv. (fst kv, sort_doc (encode_value dr (snd kv)))) (sort_key fst kvs)"
    by (simp add: sort_members_def encode_map_map sort_key_map comp_def)
  moreover have "sort_props kvs = map (\<lambda>kv. (fst kv, sort_neo (snd kv))) (sort_key fst kvs)"
    by (simp add: sort_props_def sort_key_map comp_def)
  ultimately show ?thesis
    using assms by (auto simp: list_all2_map1 list_all2_map2 list_all2_same intro!: decode_map_all2)
qed

lemma map_result_floats: "map_result (py_float rt) (map (sort_doc \<circ> PFloat) cs) = Inr cs"
  by (induction cs) (simp_all add: py_float_def)

lemma tags_distinct:
  "kind_tag k \<noteq> ''map''" "kind_tag k \<noteq> ''bytes''" "kind_tag k \<noteq> ''Duration''" "kind_tag k \<noteq> ''Point''"
  "filter (\<lambda>k'. kind_tag k' = kind_tag k) [DateTime, Date, Time] = [k]"
  by (cases k; simp)+

lemmas tagged_reads = tagged_def sort_doc_PMap dict_get_sort_members decode_scalar_def subscript_def
  map_of_sort_members get_int_def py_int_def py_str_def py_iter_def as_dict_def tag_key_def

lemma value_roundtrip:
  assumes dr: "driver_ok dr"
  shows "value_ok dr v \<Longrightarrow> decode_value dr (sort_doc (encode_value dr v)) = Inr (sort_neo v)"
proof (induction v)
  case (NPoint srid cs)
  then show ?case
    by (auto simp: tagged_reads decode_point_def map_result_floats point_of_def simp del: sort_doc.simps(2))
next
  case (NList vs)
  then show ?case
    by (auto simp: encode_list_map list_all_iff comp_def intro!: decode_list_map)
next
  case (NMap kvs)
  then have "decode_map dr (sort_members (encode_map dr kvs)) = Inr (sort_props kvs)"
    by (intro decode_members) (force simp: list_all_iff)
  then show ?case
    by (simp add: tagged_reads decode_tagged_map_get sort_neo_NMap del: sort_doc.simps(2) sort_neo.simps(2))
qed (use dr in \<open>auto simp: tagged_reads tags_distinct driver_ok_def simp del: filter.simps sort_doc.simps(2)\<close>)

subsection \<open>Nodes\<close>

text \<open>The canonical form of a node: what is ordered only by the writer is in the order of its keys.\<close>

definition sort_rel :: "'t rel_state \<Rightarrow> 't rel_state" where
  "sort_rel r = r\<lparr>rs_properties := sort_props (rs_properties r), rs_peer_labels := sort (rs_peer_labels r)\<rparr>"

definition sort_node :: "'t node_state \<Rightarrow> 't node_state" where
  "sort_node n = n\<lparr>nst_labels := sort (nst_labels n), nst_properties := sort_props (nst_properties n),
                   nst_relationships := map sort_rel (nst_relationships n)\<rparr>"

definition props_ok :: "'t driver \<Rightarrow> (string \<times> 't neo_value) list \<Rightarrow> bool" where
  "props_ok dr d \<longleftrightarrow> list_all (\<lambda>kv. value_ok dr (snd kv)) d"

definition node_ok :: "'t driver \<Rightarrow> 't node_state \<Rightarrow> bool" where
  "node_ok dr n \<longleftrightarrow> props_ok dr (nst_properties n)
     \<and> list_all (\<lambda>r. props_ok dr (rs_properties r)) (nst_relationships n)"

lemma props_roundtrip:
  "driver_ok dr \<Longrightarrow> props_ok dr d \<Longrightarrow> decode_map dr (sort_members (encode_map dr d)) = Inr (sort_props d)"
  by (intro decode_members value_roundtrip) (auto simp: props_ok_def list_all_iff)

lemma map_result_map:
  "(\<And>x. x \<in> set xs \<Longrightarrow> f (g x) = Inr (h x)) \<Longrightarrow> map_result f (map g xs) = Inr (map h xs)"
  by (induction xs) auto

lemma map_result_strings [simp]: "map (py_str rt) (map (sort_doc \<circ> PStr) ls) = ls"
  by (induction ls) (simp_all add: py_str_def)

lemma value_opt_opt_str [simp]: "value_opt rt (sort_doc (opt_str x)) = x"
  by (cases x) (simp_all add: value_opt_def opt_str_def py_str_def)

lemmas node_reads = sort_doc_PMap dict_get_sort_members map_of_sort_members subscript_def as_dict_def py_str_def

lemma rel_roundtrip:
  assumes "driver_ok dr" "props_ok dr (rs_properties r)"
  shows "decode_rel dr (sort_doc (encode_rel dr r)) = Inr (sort_rel r)"
  using props_roundtrip [OF assms]
  by (simp add: decode_rel_def encode_rel_def sort_rel_def node_reads comp_def del: sort_doc.simps(2))

lemma node_roundtrip:
  assumes dr: "driver_ok dr" and ok: "node_ok dr n"
  shows "decode_node dr (sort_doc (encode_node dr n)) = Inr (sort_node n)"
proof -
  have "map_result (decode_rel dr) (map (\<lambda>r. sort_doc (encode_rel dr r)) (nst_relationships n))
      = Inr (map sort_rel (nst_relationships n))"
    using ok by (intro map_result_map rel_roundtrip [OF dr]) (auto simp: node_ok_def list_all_iff)
  then show ?thesis
    using props_roundtrip [OF dr, of "nst_properties n"] ok
    by (simp add: decode_node_def encode_node_def sort_node_def node_ok_def node_reads comp_def del: sort_doc.simps(2))
qed

lemma neo_get_sort_props: "neo_get k (sort_props d) = sort_neo (neo_get k d)"
  by (simp add: neo_get_def sort_props_def map_of_sort_key map_of_map_snd split: option.split)

lemma sort_neo_leaf [simp]:
  "sort_neo v = NNone \<longleftrightarrow> v = NNone" "(case sort_neo v of NStr u \<Rightarrow> f u | _ \<Rightarrow> y) = (case v of NStr u \<Rightarrow> f u | _ \<Rightarrow> y)"
  by (cases v; simp)+

lemma is_moved_fact_sort_rel: "is_moved_fact s a (sort_rel r) = is_moved_fact s a r"
  by (simp add: is_moved_fact_def fact_uuid_def sort_rel_def neo_get_sort_props)

lemma fact_uuid_sort_rel: "fact_uuid (sort_rel r) = fact_uuid r"
  by (simp add: fact_uuid_def sort_rel_def neo_get_sort_props)

lemma absorbed_id_sort_node: "absorbed_id (sort_node n) = absorbed_id n"
  by (simp add: absorbed_id_def sort_node_def neo_get_sort_props)

lemma moved_fact_uuids_sort_node: "moved_fact_uuids s (sort_node n) = moved_fact_uuids s n"
  by (simp add: moved_fact_uuids_def absorbed_id_sort_node filter_map comp_def is_moved_fact_sort_rel fact_uuid_sort_rel
      sort_node_def [THEN arg_cong, of nst_relationships])

subsection \<open>Stored snapshots\<close>

lemma load_built:
  assumes js: "json_ok js"
  shows "load_snapshot dr js (sort_doc (build_snapshot dr js s a sim))
       = Inr (sort_members [(''survivor'', s), (''absorbed'', a),
           (''similarity'', (case sim of None \<Rightarrow> PNone | Some f \<Rightarrow> PFloat f))])"
proof -
  have "js_canonical js (PMap (sort_members d)) = js_canonical js (PMap d)" for d
    using js by (metis json_ok_def sort_doc_PMap)
  then show ?thesis
    by (simp add: load_snapshot_def build_snapshot_def compute_checksum_def SCHEMA_VERSION_def supported_version_def
        sort_doc_PMap dict_get_sort_members Let_def del: sort_doc.simps(2))
qed

lemma stored_node_build:
  assumes js: "json_ok js"
    and raw: "snapshot_dumps js (build_snapshot dr js s a sim) e = Inr raw"
    and who: "(who, x) \<in> {(''survivor'', s), (''absorbed'', a)}"
  shows "stored_node dr js who raw = decode_node dr (sort_doc x)"
proof -
  have "js_loads js raw = Some (sort_doc (build_snapshot dr js s a sim))"
    using raw js by (auto simp: snapshot_dumps_def json_ok_def split: if_splits)
  then show ?thesis
    using who by (auto simp: stored_node_def snapshot_loads_def load_built [OF js] subscript_def map_of_sort_members)
qed

end
