(* ===== verification/Count_Match.thy ===== *)
theory Count_Match
  imports Merge_Snapshot
begin

text \<open>
  Related counts, \<^verbatim>\<open>domain/count_match.py\<close>: the family of a counted happening, which stored rows a new
  one may repeat, and the decisions that need no model. A row is a dictionary; the cosines of the
  embeddings are finite floats, hence rationals, and the two bounds are not negative.
\<close>

section \<open>Rows and statuses\<close>

definition COUNTED :: string where "COUNTED = ''counted''"
definition REPEAT :: string where "REPEAT = ''repeat''"
definition SAME_EVENT :: string where "SAME_EVENT = ''same_event''"
definition UNCERTAIN :: string where "UNCERTAIN = ''uncertain''"

definition COUNT_STATUSES :: "string list" where
  "COUNT_STATUSES = [COUNTED, REPEAT, SAME_EVENT, UNCERTAIN]"

definition TARGETED_STATUSES :: "string list" where
  "TARGETED_STATUSES = [REPEAT, SAME_EVENT]"

lemmas status_names = COUNTED_def REPEAT_def SAME_EVENT_def UNCERTAIN_def

lemma statuses_distinct [simp]:
  "COUNTED \<notin> set TARGETED_STATUSES" "UNCERTAIN \<notin> set TARGETED_STATUSES" "COUNTED \<noteq> UNCERTAIN" "UNCERTAIN \<noteq> COUNTED"
  by (simp_all add: status_names TARGETED_STATUSES_def)

definition MATCH_VERSION_SUFFIX :: string where "MATCH_VERSION_SUFFIX = ''+m''"
definition RELATED_PER_CANDIDATE :: nat where "RELATED_PER_CANDIDATE = 50"
definition RELATED_PER_PAGE :: nat where "RELATED_PER_PAGE = 200"

text \<open>\<^verbatim>\<open>str(row.get(k) or "")\<close>.\<close>

definition row_text :: "py_runtime \<Rightarrow> string \<Rightarrow> py_dict \<Rightarrow> string" where
  "row_text rt k row = (if falsy (dict_get k row) then [] else py_str rt (dict_get k row))"

definition row_put :: "string \<Rightarrow> py_value \<Rightarrow> py_dict \<Rightarrow> py_dict" where
  "row_put k v d =
     (if k \<in> fst ` set d then map (\<lambda>kv. if fst kv = k then (k, v) else kv) d else d @ [(k, v)])"

section \<open>Families\<close>

definition ACTION_WORDS :: "string list" where
  "ACTION_WORDS =
     [''bought'', ''buy'', ''buying'', ''purchased'', ''purchase'', ''finished'', ''finish'', ''finishing'',
      ''started'', ''start'', ''starting'', ''visited'', ''visit'', ''visiting'', ''completed'', ''complete'',
      ''made'', ''make'', ''built'', ''build'', ''did'', ''do'', ''went'', ''go'', ''got'', ''get'', ''attended'',
      ''attend'', ''watched'', ''watch'', ''read'', ''played'', ''play'', ''took'', ''take'', ''worked'', ''work'']"

definition STOP_WORDS :: "string list" where
  "STOP_WORDS = [''a'', ''an'', ''the'', ''of'', ''my'', ''some'', ''another'', ''new'']"

text \<open>\<^verbatim>\<open>re.compile(r"[a-z0-9]+").findall\<close>: the maximal runs.\<close>

definition is_token_char :: "char \<Rightarrow> bool" where
  "is_token_char c \<longleftrightarrow> (let n = of_char c :: nat in (97 \<le> n \<and> n \<le> 122) \<or> (48 \<le> n \<and> n \<le> 57))"

fun token_runs :: "string \<Rightarrow> string \<Rightarrow> string list" where
  "token_runs w [] = (if w = [] then [] else [w])"
| "token_runs w (c # s) =
     (if is_token_char c then token_runs (w @ [c]) s
      else if w = [] then token_runs [] s else w # token_runs [] s)"

definition singular :: "string \<Rightarrow> string" where
  "singular token =
     (if 4 < length token \<and> ends_with ''ies'' token then take (length token - 3) token @ ''y''
      else if 3 < length token \<and> ends_with ''s'' token \<and> \<not> (ends_with ''ss'' token \<or> ends_with ''us'' token \<or> ends_with ''is'' token)
      then butlast token else token)"

definition family_tokens :: "string \<Rightarrow> string list" where
  "family_tokens s =
     dedup (filter (\<lambda>t. t \<noteq> []) (map singular
       (filter (\<lambda>w. w \<notin> set ACTION_WORDS \<and> w \<notin> set STOP_WORDS) (token_runs [] (lower s)))))"

definition normalize_family :: "string \<Rightarrow> string" where
  "normalize_family s = join '' '' (family_tokens s)"

definition family_attribute :: "string \<Rightarrow> string \<Rightarrow> string" where
  "family_attribute family value_kind =
     (if family_tokens family = [] then []
      else join ''_'' (family_tokens family) @ (if lower (strip value_kind) = ''money'' then ''_spend'' else ''_count''))"

definition related_score :: "string list \<Rightarrow> string list \<Rightarrow> nat" where
  "related_score as bs = length (dedup (filter (\<lambda>t. t \<in> set bs) as))"

definition row_family :: "py_runtime \<Rightarrow> py_dict \<Rightarrow> string" where
  "row_family rt row =
     (if strip (row_text rt ''count_family'' row) \<noteq> [] then strip (row_text rt ''count_family'' row)
      else strip (row_text rt ''count_object'' row))"

definition match_slot_row :: "py_runtime \<Rightarrow> py_dict \<Rightarrow> py_dict" where
  "match_slot_row rt row =
     (let attribute = family_attribute (row_family rt row) (row_text rt ''value_kind'' row)
      in if attribute = [] then row
         else row_put ''scope'' (PStr []) (row_put ''attribute'' (PStr attribute)
                (row_put ''count_source_attribute'' (dict_get ''attribute'' row) row)))"

definition status_of :: "py_runtime \<Rightarrow> py_dict \<Rightarrow> string" where
  "status_of rt row =
     (let status = lower (strip (row_text rt ''count_status'' row)); version = row_text rt ''perceiver_version'' row
      in if status \<in> set COUNT_STATUSES then status
         else if status = [] \<and> version \<noteq> [] \<and> \<not> ends_with MATCH_VERSION_SUFFIX version then COUNTED
         else UNCERTAIN)"

definition strip_suffix :: "string \<Rightarrow> string \<Rightarrow> string" where
  "strip_suffix p s = (if ends_with p s then take (length s - length p) s else s)"

definition relation_tokens :: "py_runtime \<Rightarrow> py_dict \<Rightarrow> string list" where
  "relation_tokens rt row =
     (let tokens = family_tokens (row_family rt row)
      in if tokens \<noteq> [] then tokens
         else family_tokens (replace_char (CHR ''_'') (CHR '' '')
                (strip_suffix ''_spend'' (strip_suffix ''_count'' (row_text rt ''attribute'' row)))))"

definition needle :: "string \<Rightarrow> string" where
  "needle t = (if ends_with ''y'' t \<and> 1 < length t then butlast t else t)"

definition relation_needles :: "py_runtime \<Rightarrow> py_dict \<Rightarrow> string list" where
  "relation_needles rt row = dedup (filter (\<lambda>n. n \<noteq> []) (map needle (relation_tokens rt row)))"

section \<open>Related sets\<close>

definition order_key :: "py_runtime \<Rightarrow> py_dict \<Rightarrow> string \<times> string \<times> string" where
  "order_key rt row = (row_text rt ''valid_at'' row, row_text rt ''episode_uuid'' row, row_text rt ''assertion_id'' row)"

definition row_id :: "py_runtime \<Rightarrow> py_dict \<Rightarrow> string" where
  "row_id rt row = row_text rt ''assertion_id'' row"

definition value_kind :: "py_runtime \<Rightarrow> py_dict \<Rightarrow> string" where
  "value_kind rt row = lower (strip (row_text rt ''value_kind'' row))"

record related_set =
  rset_candidate :: py_dict
  rset_related :: "py_dict list"
  rset_truncated :: bool

record match_input =
  mi_runtime :: py_runtime
  mi_pool :: "py_dict list"
  mi_pool_truncated :: bool
  mi_truncated_ids :: "string list"
  mi_per_candidate :: nat
  mi_cosine :: "string \<times> string \<Rightarrow> rat option"
  mi_min_cosine :: rat

definition cosine_of :: "match_input \<Rightarrow> py_dict \<Rightarrow> py_dict \<Rightarrow> rat" where
  "cosine_of mi cand other =
     (case mi_cosine mi (row_id (mi_runtime mi) cand, row_id (mi_runtime mi) other) of None \<Rightarrow> 0 | Some c \<Rightarrow> c)"

definition score_of :: "match_input \<Rightarrow> py_dict \<Rightarrow> py_dict \<Rightarrow> nat" where
  "score_of mi cand other =
     related_score (relation_tokens (mi_runtime mi) cand) (relation_tokens (mi_runtime mi) other)"

definition related_to :: "match_input \<Rightarrow> py_dict \<Rightarrow> py_dict \<Rightarrow> bool" where
  "related_to mi cand other \<longleftrightarrow>
     row_text (mi_runtime mi) ''subject_uuid'' other = row_text (mi_runtime mi) ''subject_uuid'' cand
     \<and> value_kind (mi_runtime mi) other = value_kind (mi_runtime mi) cand
     \<and> (0 < score_of mi cand other \<or> mi_min_cosine mi \<le> cosine_of mi cand other)"

text \<open>The loop over the other rows: an id is looked at once, and never the candidate's own.\<close>

fun scored_rows :: "match_input \<Rightarrow> py_dict \<Rightarrow> string list \<Rightarrow> py_dict list \<Rightarrow> py_dict list" where
  "scored_rows mi cand seen [] = []"
| "scored_rows mi cand seen (other # others) =
     (let i = row_id (mi_runtime mi) other
      in if i \<in> set seen then scored_rows mi cand seen others
         else if related_to mi cand other then other # scored_rows mi cand (i # seen) others
         else scored_rows mi cand (i # seen) others)"

definition rank_key :: "match_input \<Rightarrow> py_dict \<Rightarrow> py_dict \<Rightarrow> int \<times> rat \<times> string" where
  "rank_key mi cand other = (- int (score_of mi cand other), - cosine_of mi cand other, row_id (mi_runtime mi) other)"

definition relate_one :: "match_input \<Rightarrow> py_dict list \<Rightarrow> nat \<Rightarrow> py_dict \<Rightarrow> related_set" where
  "relate_one mi earlier remaining cand =
     (let scored = sort_key (rank_key mi cand) (scored_rows mi cand [row_id (mi_runtime mi) cand] (mi_pool mi @ earlier));
          truncated = mi_pool_truncated mi \<or> row_id (mi_runtime mi) cand \<in> set (mi_truncated_ids mi)
            \<or> mi_per_candidate mi < length scored;
          sent = take (mi_per_candidate mi) scored
      in \<lparr>rset_candidate = cand, rset_related = take remaining sent,
          rset_truncated = (truncated \<or> remaining < length sent)\<rparr>)"

fun relate_all :: "match_input \<Rightarrow> py_dict list \<Rightarrow> nat \<Rightarrow> py_dict list \<Rightarrow> related_set list" where
  "relate_all mi earlier remaining [] = []"
| "relate_all mi earlier remaining (cand # cands) =
     (let rs = relate_one mi earlier remaining cand
      in rs # relate_all mi (earlier @ [cand]) (remaining - length (rset_related rs)) cands)"

definition related_sets :: "match_input \<Rightarrow> nat \<Rightarrow> py_dict list \<Rightarrow> related_set list" where
  "related_sets mi per_page candidates = relate_all mi [] per_page (sort_key (order_key (mi_runtime mi)) candidates)"

section \<open>Decisions without a model\<close>

record count_decision =
  cd_assertion_id :: string
  cd_status :: string
  cd_target_id :: string
  cd_family :: string
  cd_vote :: string
  cd_reason :: string
  cd_truncated :: bool

definition conservative_decision :: "py_runtime \<Rightarrow> related_set \<Rightarrow> count_decision" where
  "conservative_decision rt rs =
     (let cand = rset_candidate rs;
          (status, reason) =
            (if relation_tokens rt cand = [] then (UNCERTAIN, ''no_family'')
             else if rset_truncated rs then (UNCERTAIN, ''truncated'')
             else if rset_related rs \<noteq> [] then (UNCERTAIN, ''related_undecided'')
             else (COUNTED, ''no_related''))
      in \<lparr>cd_assertion_id = row_id rt cand, cd_status = status, cd_target_id = [],
          cd_family = normalize_family (row_text rt ''count_object'' cand), cd_vote = [], cd_reason = reason,
          cd_truncated = rset_truncated rs\<rparr>)"

definition conservative_decisions :: "py_runtime \<Rightarrow> related_set list \<Rightarrow> count_decision list" where
  "conservative_decisions rt sets = map (conservative_decision rt) sets"

end
