(* ===== verification/Count_Needles.thy ===== *)
theory Count_Needles
  imports Count_Match
begin

text \<open>
  The prefilter of the counted pool: the needles of a candidate occur in every row that shares one of its
  relation tokens, so a database that selects rows by needle misses none.
\<close>

lemma contains_iff: "contains p s \<longleftrightarrow> (\<exists>u v. s = u @ p @ v)"
proof (induction s)
  case (Cons c s)
  have "starts_with p (c # s) \<longleftrightarrow> (\<exists>v. c # s = p @ v)"
    by (auto simp: starts_with_def append_eq_conv_conj) (metis append_take_drop_id)
  then show ?case
    using Cons by (auto simp: Cons_eq_append_conv)
qed simp

lemma contains_refl [simp]: "contains p p"
  unfolding contains_iff by (metis append_Nil append_Nil2)

lemma contains_trans: "contains p q \<Longrightarrow> contains q s \<Longrightarrow> contains p s"
  unfolding contains_iff by (metis append.assoc)

lemma contains_lower: "contains p s \<Longrightarrow> contains (lower p) (lower s)"
  unfolding contains_iff lower_def by (metis map_append)

lemma contains_strip: "contains (strip s) s"
proof -
  have "s = takeWhile P s @ dropWhile P s" for P and s :: string
    by simp
  then show ?thesis
    unfolding contains_iff strip_def rstrip_def lstrip_def by (metis rev_append rev_rev_ident)
qed

lemma contains_take: "contains (take n s) s"
  unfolding contains_iff by (metis append_Nil append_take_drop_id)

lemma token_runs_contained:
  "w \<in> set (token_runs acc s) \<Longrightarrow> contains w (acc @ s) \<and> ((\<forall>c\<in>set acc. is_token_char c) \<longrightarrow> (\<forall>c\<in>set w. is_token_char c))"
proof (induction acc s rule: token_runs.induct)
  case (1 w)
  then show ?case by (auto split: if_splits)
next
  case (2 acc c s)
  have "contains s (acc @ c # s)"
    unfolding contains_iff by (rule exI [of _ "acc @ [c]"]) simp
  then have tail: "contains v s \<Longrightarrow> contains v (acc @ c # s)" for v
    by (rule contains_trans [rotated])
  have first: "contains acc (acc @ c # s)"
    unfolding contains_iff by (rule exI [of _ "[]"]) simp
  show ?case
  proof (cases "is_token_char c")
    case True
    then show ?thesis using 2(1,4) by simp
  next
    case False
    then have "token_runs acc (c # s) = (if acc = [] then token_runs [] s else acc # token_runs [] s)"
      by simp
    then have "w = acc \<or> w \<in> set (token_runs [] s)"
      using 2(4) by (metis set_ConsD)
    moreover have "contains w ([] @ s) \<and> (\<forall>c\<in>set w. is_token_char c)" if "w \<in> set (token_runs [] s)"
    proof (cases "acc = []")
      case True
      then show ?thesis using 2(2) [OF False True that] by simp
    next
      case acc: False
      then show ?thesis using 2(3) [OF False acc that] by simp
    qed
    ultimately show ?thesis
      using first tail [of w] unfolding append_Nil by blast
  qed
qed

lemma contains_butlast: "contains (butlast t) t"
  by (simp add: butlast_conv_take contains_take)

lemma needle_of_word: "contains (needle (singular w)) w"
proof (cases "4 < length w \<and> ends_with ''ies'' w")
  case True
  then have "needle (singular w) = take (length w - 3) w"
    by (simp add: needle_def singular_def ends_with_def)
  then show ?thesis by (simp add: contains_take)
next
  case False
  then have "contains (singular w) w"
    unfolding singular_def using contains_take [of "length w" w] contains_butlast by auto
  moreover have "contains (needle t) t" for t
    unfolding needle_def using contains_take [of "length t" t] contains_butlast by auto
  ultimately show ?thesis using contains_trans by blast
qed

lemma family_token_word:
  assumes "t \<in> set (family_tokens s)"
  obtains w where "t = singular w" "contains w (lower s)" "\<forall>c\<in>set w. is_token_char c"
  using assms token_runs_contained [of _ "[]" "lower s"] by (auto simp: family_tokens_def)

lemma family_token_nonempty: "t \<in> set (family_tokens s) \<Longrightarrow> t \<noteq> []"
  by (simp add: family_tokens_def)

lemma family_token_found: "t \<in> set (family_tokens s) \<Longrightarrow> contains (needle t) (lower s)"
  by (metis family_token_word needle_of_word contains_trans)

lemma contains_unreplaced:
  assumes "contains w (lower (replace_char (CHR ''_'') (CHR '' '') s))" "\<forall>c\<in>set w. is_token_char c"
  shows "contains w (lower s)"
proof -
  obtain u v where "map (\<lambda>c. lower_char (if c = CHR ''_'' then CHR '' '' else c)) s = u @ w @ v"
    using assms(1) by (auto simp: contains_iff lower_def replace_char_def comp_def)
  then obtain a m b where s: "s = a @ m @ b" and w: "w = map (\<lambda>c. lower_char (if c = CHR ''_'' then CHR '' '' else c)) m"
    by (auto simp: map_eq_append_conv append_eq_map_conv)
  have "\<not> is_token_char (lower_char CHR '' '')"
    by (simp add: is_token_char_def lower_char_def)
  then have "w = map lower_char m"
    using assms(2) unfolding w by (auto split: if_splits)
  then show ?thesis
    unfolding contains_iff s lower_def by (metis map_append)
qed

text \<open>The fields in which the database looks for a needle.\<close>

definition needle_fields :: "py_runtime \<Rightarrow> py_dict \<Rightarrow> string list" where
  "needle_fields rt row = map (\<lambda>k. lower (row_text rt k row)) [''count_family'', ''count_object'', ''attribute'']"

lemma row_family_found: "contains p (lower (row_family rt row)) \<Longrightarrow> \<exists>f\<in>set (needle_fields rt row). contains p f"
  unfolding row_family_def needle_fields_def
  using contains_trans [OF _ contains_lower [OF contains_strip]] by (auto split: if_splits)

lemma contains_strip_suffix: "contains (strip_suffix p s) s"
  unfolding strip_suffix_def using contains_take [of _ s] contains_take [of "length s" s] by auto

lemma relation_token_found:
  assumes "t \<in> set (relation_tokens rt row)"
  shows "\<exists>f\<in>set (needle_fields rt row). contains (needle t) f"
proof (cases "family_tokens (row_family rt row) = []")
  case False
  then show ?thesis
    using assms family_token_found row_family_found by (auto simp: relation_tokens_def Let_def)
next
  case True
  let ?s = "strip_suffix ''_spend'' (strip_suffix ''_count'' (row_text rt ''attribute'' row))"
  obtain w where w: "t = singular w" "contains w (lower (replace_char (CHR ''_'') (CHR '' '') ?s))" "\<forall>c\<in>set w. is_token_char c"
    using assms True by (auto simp: relation_tokens_def elim: family_token_word)
  have "contains (needle t) (lower ?s)"
    using contains_trans [OF needle_of_word contains_unreplaced [OF w(2,3)]] unfolding w(1) .
  then have "contains (needle t) (lower (row_text rt ''attribute'' row))"
    by (rule contains_trans) (intro contains_lower contains_trans [OF contains_strip_suffix contains_strip_suffix])
  then show ?thesis by (simp add: needle_fields_def)
qed

lemma relation_token_nonempty: "t \<in> set (relation_tokens rt row) \<Longrightarrow> t \<noteq> []"
  using family_token_nonempty by (auto simp: relation_tokens_def Let_def split: if_splits)

text \<open>
  C32: The prefilter is a superset of the relation: when two rows share a relation token, one of the needles of
  the first occurs in the stored family, object or attribute of the second. No needle is empty, so the
  prefilter does not select every row either.
\<close>

theorem needles_cover_relation:
  "(0 < related_score (relation_tokens rt cand) (relation_tokens rt row)
     \<longrightarrow> list_ex (\<lambda>n. list_ex (contains n) (needle_fields rt row)) (relation_needles rt cand))
   \<and> [] \<notin> set (relation_needles rt cand)"
proof (intro conjI impI)
  assume "0 < related_score (relation_tokens rt cand) (relation_tokens rt row)"
  then have "set (dedup (filter (\<lambda>t. t \<in> set (relation_tokens rt row)) (relation_tokens rt cand))) \<noteq> {}"
    unfolding related_score_def by fastforce
  then obtain t where t: "t \<in> set (relation_tokens rt cand)" "t \<in> set (relation_tokens rt row)"
    by auto
  have "needle t \<noteq> []"
    using relation_token_nonempty [OF t(1)] by (cases t rule: rev_cases) (auto simp: needle_def)
  then have "needle t \<in> set (relation_needles rt cand)"
    using t(1) by (auto simp: relation_needles_def)
  then show "list_ex (\<lambda>n. list_ex (contains n) (needle_fields rt row)) (relation_needles rt cand)"
    using relation_token_found [OF t(2)] by (auto simp: list_ex_iff)
qed (simp add: relation_needles_def)

end
