(* ===== verification/Count_Decide.thy ===== *)
theory Count_Decide
  imports Count_Match
begin

text \<open>
  The decide step of related counts, \<^verbatim>\<open>domain/count_decide.py\<close>: the prompt with its short handles, the
  reading of an answer, the vote over the samples and the rules that turn votes into stored decisions.
  The prose of the prompt is a constant of the caller; \<^verbatim>\<open>json.dumps\<close> and \<^verbatim>\<open>json.loads\<close> are parameters.
\<close>

definition DECIDE_K :: int where "DECIDE_K = 3"
definition DECIDE_THRESHOLD :: rat where "DECIDE_THRESHOLD = 2 / 3"

definition key_text :: "py_runtime \<Rightarrow> py_dict \<Rightarrow> string" where
  "key_text rt row =
     join '' '' (filter (\<lambda>p. p \<noteq> []) (map (\<lambda>k. strip (row_text rt k row)) [''count_object'', ''count_action'', ''count_item'']))"

section \<open>The prompt\<close>

record decide_prompt =
  dp_user :: string
  dp_handles :: "string \<rightharpoonup> string"
  dp_candidate_handles :: "string \<rightharpoonup> string"

definition describe :: "py_runtime \<Rightarrow> (string \<Rightarrow> string) \<Rightarrow> py_dict \<Rightarrow> string" where
  "describe rt dumps row =
     (let date = take 10 (row_text rt ''valid_at'' row); object = row_text rt ''count_object'' row
      in ''date='' @ (if date = [] then ''unknown'' else date)
         @ '' object='' @ dumps (if object = [] then row_family rt row else object)
         @ '' action='' @ dumps (row_text rt ''count_action'' row)
         @ '' item='' @ dumps (row_text rt ''count_item'' row)
         @ '' quote='' @ dumps (row_text rt ''stated_span'' row))"

fun number_candidates :: "py_runtime \<Rightarrow> nat \<Rightarrow> related_set list \<Rightarrow> decide_prompt \<Rightarrow> decide_prompt" where
  "number_candidates rt i [] p = p"
| "number_candidates rt i (rs # sets) p =
     (let cid = row_id rt (rset_candidate rs); h = CHR ''N'' # str_of_int (int i)
      in number_candidates rt (Suc i) sets
           (p\<lparr>dp_handles := (dp_handles p)(h \<mapsto> cid), dp_candidate_handles := (dp_candidate_handles p)(cid \<mapsto> h)\<rparr>))"

record prompt_state =
  pr_prompt :: decide_prompt
  pr_related :: "(string \<times> string) list"
  pr_rows :: "(string \<times> py_dict) list"
  pr_lines :: "string list"

definition refer :: "py_runtime \<Rightarrow> py_dict \<Rightarrow> prompt_state \<times> string list \<Rightarrow> prompt_state \<times> string list" where
  "refer rt row st =
     (case st of (ps, refs) \<Rightarrow>
       (let rid = row_id rt row in
        case dp_candidate_handles (pr_prompt ps) rid of
          Some h \<Rightarrow> (ps, refs @ [h])
        | None \<Rightarrow>
            (case map_of (pr_related ps) rid of
               Some h \<Rightarrow> (ps, refs @ [h])
             | None \<Rightarrow>
                 (let h = CHR ''R'' # str_of_int (int (length (pr_related ps) + 1))
                  in (ps\<lparr>pr_related := pr_related ps @ [(rid, h)],
                         pr_prompt := (pr_prompt ps)\<lparr>dp_handles := (dp_handles (pr_prompt ps))(h \<mapsto> rid)\<rparr>,
                         pr_rows := pr_rows ps @ [(h, row)]\<rparr>, refs @ [h])))))"

definition prompt_candidate :: "py_runtime \<Rightarrow> (string \<Rightarrow> string) \<Rightarrow> related_set \<Rightarrow> prompt_state \<Rightarrow> prompt_state" where
  "prompt_candidate rt dumps rs ps =
     (case fold (refer rt) (rset_related rs) (ps, []) of
        (ps', refs) \<Rightarrow>
          ps'\<lparr>pr_lines := pr_lines ps'
            @ [''NEW '' @ (case dp_candidate_handles (pr_prompt ps') (row_id rt (rset_candidate rs)) of None \<Rightarrow> [] | Some h \<Rightarrow> h)
                 @ '': '' @ describe rt dumps (rset_candidate rs),
               ''  related: '' @ join '', '' refs]\<rparr>)"

definition build_decide_prompt :: "py_runtime \<Rightarrow> (string \<Rightarrow> string) \<Rightarrow> related_set list \<Rightarrow> decide_prompt" where
  "build_decide_prompt rt dumps sets =
     (let p = number_candidates rt 1 sets \<lparr>dp_user = [], dp_handles = Map.empty, dp_candidate_handles = Map.empty\<rparr>;
          ps = fold (prompt_candidate rt dumps) sets \<lparr>pr_prompt = p, pr_related = [], pr_rows = [], pr_lines = []\<rparr>
      in (pr_prompt ps)\<lparr>dp_user := join [CHR 0x0A]
            (pr_lines ps @ map (\<lambda>(h, row). ''RELATED '' @ h @ '': '' @ describe rt dumps row) (pr_rows ps))\<rparr>)"

section \<open>Reading an answer\<close>

type_synonym pick = "string \<times> string \<times> string"

text \<open>The part from the first opening to the last closing bracket, where there is one.\<close>

definition json_array_part :: "string \<Rightarrow> string option" where
  "json_array_part raw =
     (if CHR ''['' \<notin> set raw \<or> CHR '']'' \<notin> set raw then None
      else (let first = length (takeWhile (\<lambda>c. c \<noteq> CHR ''['') raw);
                final = length raw - 1 - length (takeWhile (\<lambda>c. c \<noteq> CHR '']'') (rev raw))
            in if final \<le> first then None else Some (take (final + 1 - first) (drop first raw))))"

definition read_item :: "py_runtime \<Rightarrow> decide_prompt \<Rightarrow> py_value \<Rightarrow> (string \<rightharpoonup> pick) \<Rightarrow> (string \<rightharpoonup> pick)" where
  "read_item rt p item out =
     (case item of
        PMap d \<Rightarrow>
          (case dp_handles p (strip (row_text rt ''new'' d)) of
             None \<Rightarrow> out
           | Some cid \<Rightarrow>
               if cid = [] \<or> dp_candidate_handles p cid = None \<or> out cid \<noteq> None then out
               else
                 (let decision = lower (strip (row_text rt ''decision'' d));
                      target = (case dp_handles p (strip (row_text rt ''target'' d)) of None \<Rightarrow> [] | Some t \<Rightarrow> t);
                      family = (case dict_get ''family'' d of PStr f \<Rightarrow> f | _ \<Rightarrow> [])
                  in if decision \<in> set TARGETED_STATUSES then
                       (if target = [] \<or> target = cid then out else out(cid \<mapsto> (decision, target, family)))
                     else if decision = COUNTED then out(cid \<mapsto> (decision, [], family))
                     else out))
      | _ \<Rightarrow> out)"

definition parse_decide_response ::
  "py_runtime \<Rightarrow> (string \<Rightarrow> py_value option) \<Rightarrow> string \<Rightarrow> decide_prompt \<Rightarrow> (string \<rightharpoonup> pick)" where
  "parse_decide_response rt loads raw p =
     (case json_array_part raw of
        None \<Rightarrow> Map.empty
      | Some doc \<Rightarrow>
          (case loads doc of
             Some (PList items) \<Rightarrow> fold (read_item rt p) items Map.empty
           | _ \<Rightarrow> Map.empty))"

section \<open>The vote\<close>

text \<open>
  \<^verbatim>\<open>max(1, ceil(threshold * k - 1e-9))\<close>, with exact arithmetic: the tolerance exceeds the rounding of the
  product by orders of magnitude.
\<close>

definition votes_needed :: "rat \<Rightarrow> int \<Rightarrow> int" where
  "votes_needed threshold k = max 1 \<lceil>threshold * of_int k - 1 / 10 ^ 9\<rceil>"

text \<open>A \<^verbatim>\<open>Counter\<close> lists its keys in first-seen order; \<^verbatim>\<open>max\<close> keeps the first of several maxima.\<close>

definition most_common :: "'a list \<Rightarrow> 'a option" where
  "most_common xs =
     (case dedup xs of [] \<Rightarrow> None | y # ys \<Rightarrow> Some (first_min (\<lambda>x. - int (count_list xs x)) y ys))"

definition vote_one :: "(string \<rightharpoonup> pick) list \<Rightarrow> int \<Rightarrow> rat \<Rightarrow> string \<Rightarrow> (string \<times> string \<times> string \<times> string) option" where
  "vote_one samples k threshold cid =
     (let picks = List.map_filter (\<lambda>s. s cid) samples; choices = map (\<lambda>(d, t, f). (d, t)) picks
      in case most_common choices of
           None \<Rightarrow> None
         | Some (decision, target) \<Rightarrow>
             (let n = count_list choices (decision, target);
                  fams = map (\<lambda>(d, t, f). f) (filter (\<lambda>(d, t, f). (d, t) = (decision, target) \<and> strip f \<noteq> []) picks)
              in if int n < votes_needed threshold k then None
                 else Some (decision, target, (case most_common fams of None \<Rightarrow> [] | Some f \<Rightarrow> f),
                        str_of_int (int n) @ ''/'' @ str_of_int k)))"

definition vote ::
  "(string \<rightharpoonup> pick) list \<Rightarrow> string list \<Rightarrow> int \<Rightarrow> rat \<Rightarrow> (string \<rightharpoonup> string \<times> string \<times> string \<times> string)" where
  "vote samples candidate_ids k threshold cid =
     (if cid \<in> set candidate_ids then vote_one samples k threshold cid else None)"

section \<open>The rules\<close>

record count_swap =
  cs_candidate_id :: string
  cs_target_id :: string
  cs_status :: string
  cs_family :: string
  cs_vote :: string
  cs_reason :: string

record decide_outcome =
  do_decisions :: "count_decision list"
  do_swaps :: "count_swap list"
  do_skipped :: "string list"

record decide_state =
  ds_outcome :: decide_outcome
  ds_final :: "string \<rightharpoonup> string \<times> string"

definition decision_of :: "string \<Rightarrow> string \<Rightarrow> string \<Rightarrow> string \<Rightarrow> string \<Rightarrow> string \<Rightarrow> bool \<Rightarrow> count_decision" where
  "decision_of cid status target family v reason truncated =
     \<lparr>cd_assertion_id = cid, cd_status = status, cd_target_id = target, cd_family = family, cd_vote = v,
      cd_reason = reason, cd_truncated = truncated\<rparr>"

definition base_family :: "py_runtime \<Rightarrow> related_set \<Rightarrow> string" where
  "base_family rt rs = normalize_family (row_text rt ''count_object'' (rset_candidate rs))"

definition chosen_family :: "py_runtime \<Rightarrow> related_set \<Rightarrow> string \<Rightarrow> string" where
  "chosen_family rt rs raw =
     (let choices = base_family rt rs # map (\<lambda>r. normalize_family (row_family rt r)) (rset_related rs);
          family = normalize_family raw
      in if family \<noteq> [] \<and> family \<in> set choices then family else base_family rt rs)"

text \<open>A dictionary comprehension over pairs: the last binding of a key wins.\<close>

definition lookup_final :: "('k \<times> 'v) list \<Rightarrow> 'k \<Rightarrow> 'v option" where
  "lookup_final kvs k = map_of (rev kvs) k"

definition related_row :: "py_runtime \<Rightarrow> related_set \<Rightarrow> string \<Rightarrow> py_dict option" where
  "related_row rt rs target = lookup_final (map (\<lambda>r. (row_id rt r, r)) (rset_related rs)) target"

definition swapped_to :: "count_swap list \<Rightarrow> string \<Rightarrow> string option" where
  "swapped_to swaps target = lookup_final (map (\<lambda>s. (cs_target_id s, cs_candidate_id s)) swaps) target"

text \<open>Whether a repeat of a pool row is stored the other way round.\<close>

definition swaps_earlier :: "py_runtime \<Rightarrow> string \<Rightarrow> related_set \<Rightarrow> py_dict \<Rightarrow> bool" where
  "swaps_earlier rt current_version rs row \<longleftrightarrow>
     (let cand_at = row_text rt ''valid_at'' (rset_candidate rs); target_at = row_text rt ''valid_at'' row
      in cand_at \<noteq> [] \<and> target_at \<noteq> [] \<and> cand_at < target_at \<and> \<not> rset_truncated rs
         \<and> row_text rt ''perceiver_version'' row = current_version)"

definition rule_target ::
  "py_runtime \<Rightarrow> string \<Rightarrow> related_set \<Rightarrow> string \<Rightarrow> string \<Rightarrow> string \<Rightarrow> string \<Rightarrow> decide_state \<Rightarrow> count_decision + count_swap" where
  "rule_target rt current_version rs decision target family tally st =
     (let cand = rset_candidate rs; cid = row_id rt cand; tr = rset_truncated rs;
          uncertain = (\<lambda>reason. Inl (decision_of cid UNCERTAIN [] family tally reason tr));
          points_at = (\<lambda>base. Inl (decision_of cid decision base family tally (''decided_'' @ decision) tr))
      in case related_row rt rs target of
           None \<Rightarrow> uncertain ''target_not_related''
         | Some row \<Rightarrow>
             if row_text rt ''subject_uuid'' row \<noteq> row_text rt ''subject_uuid'' cand then uncertain ''target_not_related''
             else case ds_final st target of
               Some (status, root_of) \<Rightarrow>
                 if status = COUNTED then points_at target
                 else if status \<in> set TARGETED_STATUSES \<and> root_of \<noteq> [] then points_at root_of
                 else uncertain ''target_uncertain''
             | None \<Rightarrow>
                 (case swapped_to (do_swaps (ds_outcome st)) target of
                    Some base \<Rightarrow> points_at base
                  | None \<Rightarrow>
                      if status_of rt row \<noteq> COUNTED then uncertain ''target_uncertain''
                      else if swaps_earlier rt current_version rs row then
                        Inr \<lparr>cs_candidate_id = cid, cs_target_id = target, cs_status = decision, cs_family = family,
                             cs_vote = tally, cs_reason = ''swap_earlier''\<rparr>
                      else points_at target))"

definition rule_one ::
  "py_runtime \<Rightarrow> string \<Rightarrow> related_set \<Rightarrow> (string \<times> string \<times> string \<times> string) option \<Rightarrow> decide_state \<Rightarrow> count_decision + count_swap" where
  "rule_one rt current_version rs v st =
     (let cid = row_id rt (rset_candidate rs) in
      case v of
        None \<Rightarrow> Inl (decision_of cid UNCERTAIN [] (base_family rt rs) [] ''no_agreement'' (rset_truncated rs))
      | Some (decision, target, raw_family, tally) \<Rightarrow>
          (let family = chosen_family rt rs raw_family in
           if decision = COUNTED then
             (if rset_truncated rs then Inl (decision_of cid UNCERTAIN [] family tally ''truncated'' True)
              else Inl (decision_of cid COUNTED [] family tally ''decided_new'' False))
           else rule_target rt current_version rs decision target family tally st))"

definition record_decision :: "count_decision \<Rightarrow> decide_state \<Rightarrow> decide_state" where
  "record_decision d st =
     st\<lparr>ds_outcome := (ds_outcome st)\<lparr>do_decisions := do_decisions (ds_outcome st) @ [d]\<rparr>,
        ds_final := (ds_final st)(cd_assertion_id d \<mapsto> (cd_status d, cd_target_id d))\<rparr>"

definition record_swap :: "count_swap \<Rightarrow> decide_state \<Rightarrow> decide_state" where
  "record_swap s st =
     st\<lparr>ds_outcome := (ds_outcome st)\<lparr>do_swaps := do_swaps (ds_outcome st) @ [s]\<rparr>,
        ds_final := (ds_final st)(cs_candidate_id s \<mapsto> (COUNTED, []))\<rparr>"

definition decide_one ::
  "py_runtime \<Rightarrow> (string \<rightharpoonup> string \<times> string \<times> string \<times> string) \<Rightarrow> bool \<Rightarrow> string \<Rightarrow> related_set \<Rightarrow> decide_state \<Rightarrow> decide_state" where
  "decide_one rt voted decided current_version rs st =
     (let cand = rset_candidate rs; cid = row_id rt cand; tr = rset_truncated rs in
      if relation_tokens rt cand = [] then
        record_decision (decision_of cid UNCERTAIN [] (base_family rt rs) [] ''no_family'' tr) st
      else if rset_related rs = [] then
        record_decision (decision_of cid (if tr then UNCERTAIN else COUNTED) [] (base_family rt rs) []
          (if tr then ''truncated'' else ''no_related'') tr) st
      else if \<not> decided then
        st\<lparr>ds_outcome := (ds_outcome st)\<lparr>do_skipped := do_skipped (ds_outcome st) @ [cid]\<rparr>\<rparr>
      else case rule_one rt current_version rs (voted cid) st of
             Inl d \<Rightarrow> record_decision d st
           | Inr s \<Rightarrow> record_swap s st)"

definition apply_decide_rules ::
  "py_runtime \<Rightarrow> related_set list \<Rightarrow> (string \<rightharpoonup> string \<times> string \<times> string \<times> string) \<Rightarrow> bool \<Rightarrow> string \<Rightarrow> decide_outcome" where
  "apply_decide_rules rt sets voted decided current_version =
     ds_outcome (fold (decide_one rt voted decided current_version) sets
       \<lparr>ds_outcome = \<lparr>do_decisions = [], do_swaps = [], do_skipped = []\<rparr>, ds_final = Map.empty\<rparr>)"

end
