(* ===== verification/Count_Properties.thy ===== *)
theory Count_Properties
  imports Count_Decide
begin

text \<open>
  The rules over the candidates of a page: the ways a candidate is settled, the two paths without a model,
  and the vote over the samples.
\<close>

section \<open>Every candidate gets one outcome\<close>

definition candidate_id :: "py_runtime \<Rightarrow> related_set \<Rightarrow> string" where
  "candidate_id rt rs = row_id rt (rset_candidate rs)"

definition outcome_ids :: "decide_outcome \<Rightarrow> string multiset" where
  "outcome_ids out = mset (map cd_assertion_id (do_decisions out)) + mset (map cs_candidate_id (do_swaps out)) + mset (do_skipped out)"

lemma decision_of_simps [simp]:
  "cd_assertion_id (decision_of c s t f v r tr) = c" "cd_status (decision_of c s t f v r tr) = s"
  "cd_target_id (decision_of c s t f v r tr) = t" "cd_truncated (decision_of c s t f v r tr) = tr"
  by (simp_all add: decision_of_def)

lemma rule_target_id:
  "rule_target rt ver rs d t f v st = Inl x \<Longrightarrow> cd_assertion_id x = candidate_id rt rs"
  "rule_target rt ver rs d t f v st = Inr s \<Longrightarrow> cs_candidate_id s = candidate_id rt rs"
  by (auto simp: rule_target_def candidate_id_def Let_def split: option.splits if_splits prod.splits)

lemma rule_one_id:
  "rule_one rt ver rs v st = Inl x \<Longrightarrow> cd_assertion_id x = candidate_id rt rs"
  "rule_one rt ver rs v st = Inr s \<Longrightarrow> cs_candidate_id s = candidate_id rt rs"
  by (auto simp: rule_one_def candidate_id_def [symmetric] Let_def split: option.splits if_splits prod.splits dest: rule_target_id)

text \<open>The four ways a candidate is settled.\<close>

lemma decide_one_cases:
  obtains (decided_) d where "decide_one rt voted b ver rs st = record_decision d st" "cd_assertion_id d = candidate_id rt rs"
      "cd_status d \<notin> set TARGETED_STATUSES" "cd_status d \<noteq> COUNTED \<or> \<not> rset_truncated rs"
  | (ruled) d where "decide_one rt voted b ver rs st = record_decision d st" "b" "rule_one rt ver rs (voted (candidate_id rt rs)) st = Inl d"
  | (swapped) s where "decide_one rt voted b ver rs st = record_swap s st" "b" "rule_one rt ver rs (voted (candidate_id rt rs)) st = Inr s"
  | (skipped) "\<not> b" "decide_one rt voted b ver rs st
      = st\<lparr>ds_outcome := (ds_outcome st)\<lparr>do_skipped := do_skipped (ds_outcome st) @ [candidate_id rt rs]\<rparr>\<rparr>"
proof -
  consider "relation_tokens rt (rset_candidate rs) = [] \<or> rset_related rs = []"
    | "relation_tokens rt (rset_candidate rs) \<noteq> []" "rset_related rs \<noteq> []" "\<not> b"
    | "relation_tokens rt (rset_candidate rs) \<noteq> []" "rset_related rs \<noteq> []" "b" by blast
  then show thesis
  proof cases
    case 1
    then show thesis
      by (intro decided_ [of "if relation_tokens rt (rset_candidate rs) = []
            then decision_of (candidate_id rt rs) UNCERTAIN [] (base_family rt rs) [] ''no_family'' (rset_truncated rs)
            else decision_of (candidate_id rt rs) (if rset_truncated rs then UNCERTAIN else COUNTED) [] (base_family rt rs) []
              (if rset_truncated rs then ''truncated'' else ''no_related'') (rset_truncated rs)"])
        (auto simp: decide_one_def Let_def candidate_id_def)
  next
    case 2
    then show thesis by (intro skipped) (simp_all add: decide_one_def Let_def candidate_id_def)
  next
    case 3
    then show thesis
      by (cases "rule_one rt ver rs (voted (candidate_id rt rs)) st")
        (auto intro: ruled swapped simp: decide_one_def Let_def candidate_id_def)
  qed
qed

lemma decide_one_ids:
  "outcome_ids (ds_outcome (decide_one rt voted b ver rs st)) = add_mset (candidate_id rt rs) (outcome_ids (ds_outcome st))"
  by (cases rule: decide_one_cases [of rt voted b ver rs st])
    (auto simp: outcome_ids_def record_decision_def record_swap_def dest: rule_one_id)

lemma decide_all_ids:
  "outcome_ids (ds_outcome (fold (decide_one rt voted b ver) sets st))
     = mset (map (candidate_id rt) sets) + outcome_ids (ds_outcome st)"
  by (induction sets arbitrary: st) (simp_all add: decide_one_ids)

lemma decide_all_skips: "do_skipped (ds_outcome (fold (decide_one rt voted True ver) sets st)) = do_skipped (ds_outcome st)"
proof (induction sets arbitrary: st)
  case (Cons rs sets)
  have "do_skipped (ds_outcome (decide_one rt voted True ver rs st)) = do_skipped (ds_outcome st)"
    by (cases rule: decide_one_cases [of rt voted True ver rs st]) (auto simp: record_decision_def record_swap_def)
  with Cons show ?case by simp
qed simp

definition initial_state :: decide_state where
  "initial_state = \<lparr>ds_outcome = \<lparr>do_decisions = [], do_swaps = [], do_skipped = []\<rparr>, ds_final = Map.empty\<rparr>"

lemma apply_decide_fold: "apply_decide_rules rt sets voted b ver = ds_outcome (fold (decide_one rt voted b ver) sets initial_state)"
  by (simp add: apply_decide_rules_def initial_state_def)

section \<open>Decisions with and without a model\<close>

definition unrelated :: "py_runtime \<Rightarrow> related_set \<Rightarrow> bool" where
  "unrelated rt rs \<longleftrightarrow> relation_tokens rt (rset_candidate rs) = [] \<or> rset_related rs = []"

lemma decide_one_skipping:
  "decide_one rt voted False ver rs st =
     (if unrelated rt rs then record_decision (conservative_decision rt rs) st
      else st\<lparr>ds_outcome := (ds_outcome st)\<lparr>do_skipped := do_skipped (ds_outcome st) @ [candidate_id rt rs]\<rparr>\<rparr>)"
  by (simp add: decide_one_def unrelated_def conservative_decision_def decision_of_def base_family_def candidate_id_def Let_def)

lemma decide_all_skipping:
  "do_decisions (ds_outcome (fold (decide_one rt voted False ver) sets st))
     = do_decisions (ds_outcome st) @ conservative_decisions rt (filter (unrelated rt) sets)"
  "do_skipped (ds_outcome (fold (decide_one rt voted False ver) sets st))
     = do_skipped (ds_outcome st) @ map (candidate_id rt) (filter (\<lambda>rs. \<not> unrelated rt rs) sets)"
  "do_swaps (ds_outcome (fold (decide_one rt voted False ver) sets st)) = do_swaps (ds_outcome st)"
  by (induction sets arbitrary: st) (simp_all add: decide_one_skipping record_decision_def conservative_decisions_def)

text \<open>
  The two code paths without a model agree: when the decide call did not run, the rules decide exactly
  the candidates without related counts, as the conservative decisions do, and skip the others.
\<close>

theorem undecided_page_is_conservative:
  "do_decisions (apply_decide_rules rt sets voted False ver) = conservative_decisions rt (filter (unrelated rt) sets)
   \<and> do_skipped (apply_decide_rules rt sets voted False ver) = map (candidate_id rt) (filter (\<lambda>rs. \<not> unrelated rt rs) sets)
   \<and> do_swaps (apply_decide_rules rt sets voted False ver) = []"
  unfolding apply_decide_fold decide_all_skipping by (simp add: initial_state_def)

section \<open>The vote\<close>

lemma most_common_max:
  assumes "most_common xs = Some x"
  shows "x \<in> set xs" "count_list xs y \<le> count_list xs x"
proof -
  obtain z zs where d: "dedup xs = z # zs" "x = first_min (\<lambda>x. - int (count_list xs x)) z zs"
    using assms by (auto simp: most_common_def split: list.splits)
  then have set: "set (z # zs) = set xs"
    using set_dedup [of xs] by simp
  show "x \<in> set xs"
    using first_min_in [of "\<lambda>x. - int (count_list xs x)" z zs] unfolding d(2) set .
  show "count_list xs y \<le> count_list xs x"
  proof (cases "y \<in> set xs")
    case True
    then show ?thesis
      using first_min_le [of y z zs "\<lambda>x. - int (count_list xs x)"] unfolding d(2) set by simp
  qed simp
qed

lemma most_common_None: "most_common xs = None \<longleftrightarrow> xs = []"
proof -
  have "dedup xs = [] \<longleftrightarrow> xs = []"
    using set_dedup [of xs] by (metis set_empty)
  then show ?thesis by (cases "dedup xs") (auto simp: most_common_def)
qed

lemma count_two_le: "x \<noteq> y \<Longrightarrow> count_list xs x + count_list xs y \<le> length xs"
  by (induction xs) auto

definition choices_for :: "(string \<rightharpoonup> pick) list \<Rightarrow> string \<Rightarrow> (string \<times> string) list" where
  "choices_for samples cid = map (\<lambda>(d, t, f). (d, t)) (List.map_filter (\<lambda>s. s cid) samples)"

lemma length_choices_for: "length (choices_for samples cid) \<le> length samples"
  unfolding choices_for_def by (induction samples) (auto simp: map_filter_simps split: option.split)

text \<open>
  The vote is a threshold, not a tie-break: with more than half of the \<open>k\<close> samples needed, a candidate gets
  the decision and target that reach the threshold, whichever sample came first, and no answer otherwise.
\<close>

theorem vote_is_a_threshold:
  assumes "length samples \<le> nat k" "k < 2 * votes_needed threshold k"
  shows "(\<exists>f v. vote_one samples k threshold cid = Some (d, t, f, v))
    \<longleftrightarrow> votes_needed threshold k \<le> int (count_list (choices_for samples cid) (d, t))"
proof -
  let ?cs = "choices_for samples cid" and ?need = "votes_needed threshold k"
  have one: "(\<exists>f v. vote_one samples k threshold cid = Some (d, t, f, v))
      \<longleftrightarrow> most_common ?cs = Some (d, t) \<and> ?need \<le> int (count_list ?cs (d, t))"
    unfolding vote_one_def choices_for_def Let_def
    by (cases "most_common (map (\<lambda>(d, t, f). (d, t)) (List.map_filter (\<lambda>s. s cid) samples))") (auto split: if_splits)
  have need: "1 \<le> ?need"
    by (simp add: votes_needed_def)
  show ?thesis
  proof
    assume "\<exists>f v. vote_one samples k threshold cid = Some (d, t, f, v)"
    then show "?need \<le> int (count_list ?cs (d, t))"
      unfolding one ..
  next
    assume reach: "?need \<le> int (count_list ?cs (d, t))"
    then have "?cs \<noteq> []"
      using need by auto
    then obtain x where x: "most_common ?cs = Some x"
      using most_common_None by blast
    have "x = (d, t)"
    proof (rule ccontr)
      assume "x \<noteq> (d, t)"
      then have "count_list ?cs x + count_list ?cs (d, t) \<le> length samples"
        using count_two_le [of x "(d, t)" ?cs] length_choices_for [of samples cid] by linarith
      moreover from this have "int (length samples) \<le> k"
        using assms(1) reach need by (cases "0 \<le> k") auto
      ultimately show False
        using most_common_max(2) [OF x, of "(d, t)"] reach assms(2) by linarith
    qed
    then show "\<exists>f v. vote_one samples k threshold cid = Some (d, t, f, v)"
      unfolding one using x reach by simp
  qed
qed

theorem vote_is_a_threshold_witness:
  "(\<exists>f v. vote_one [Map.empty(''c'' \<mapsto> (REPEAT, ''t'', [])), Map.empty(''c'' \<mapsto> (COUNTED, [], [])),
      Map.empty(''c'' \<mapsto> (REPEAT, ''t'', []))] DECIDE_K DECIDE_THRESHOLD ''c'' = Some (REPEAT, ''t'', f, v))"
proof -
  let ?samples = "[Map.empty(''c'' \<mapsto> (REPEAT, ''t'', [])), Map.empty(''c'' \<mapsto> (COUNTED, [], [])), Map.empty(''c'' \<mapsto> (REPEAT, ''t'', []))]"
  have need: "votes_needed DECIDE_THRESHOLD DECIDE_K = 2"
    by (simp add: votes_needed_def DECIDE_K_def DECIDE_THRESHOLD_def ceiling_unique)
  have "count_list (choices_for ?samples ''c'') (REPEAT, ''t'') = 2"
    by (simp add: choices_for_def map_filter_simps status_names)
  then show ?thesis
    using vote_is_a_threshold [of ?samples DECIDE_K DECIDE_THRESHOLD "''c''" REPEAT "''t''"] need by (simp add: DECIDE_K_def)
qed

end
