(* ===== verification/Count_Targets.thy ===== *)
theory Count_Targets
  imports Count_Properties
begin

text \<open>
  Where a repeat points: the related rows of a page, the invariant of the rules over its candidates, and
  the one case in which a repeat is left pointing at a happening that is itself a repeat.
\<close>

section \<open>The related rows of a page\<close>

lemma relate_all_candidates: "map rset_candidate (relate_all mi earlier n cands) = cands"
  by (induction mi earlier n cands rule: relate_all.induct) (simp_all add: Let_def relate_one_def)

lemma relate_all_split:
  assumes "relate_all mi earlier n cands = pre @ rs # post"
  shows "\<exists>m. rs = relate_one mi (earlier @ map rset_candidate pre) m (rset_candidate rs)"
  using assms
proof (induction pre arbitrary: earlier n cands)
  case Nil
  then show ?case by (cases cands) (auto simp: Let_def relate_one_def)
next
  case (Cons p pre)
  then obtain c cs where c: "cands = c # cs" by (cases cands) (auto simp: Let_def)
  then have "rset_candidate p = c" "relate_all mi (earlier @ [c]) (n - length (rset_related p)) cs = pre @ rs # post"
    using Cons.prems by (auto simp: Let_def relate_one_def)
  then show ?case
    using Cons.IH [of "earlier @ [c]"] by simp
qed

lemma relate_all_budget: "sum_list (map (\<lambda>rs. length (rset_related rs)) (relate_all mi earlier n cands)) \<le> n"
proof (induction mi earlier n cands rule: relate_all.induct)
  case (2 mi earlier n cand cands)
  have "length (rset_related (relate_one mi earlier n cand)) \<le> n"
    by (simp add: relate_one_def Let_def)
  then show ?case
    using 2 [OF refl] by (simp add: Let_def)
qed simp

lemma scored_rows_distinct:
  "distinct (map (row_id (mi_runtime mi)) os) \<Longrightarrow>
     scored_rows mi cand seen os = filter (\<lambda>r. row_id (mi_runtime mi) r \<notin> set seen \<and> related_to mi cand r) os"
proof (induction mi cand seen os rule: scored_rows.induct)
  case (2 mi cand seen r rs)
  have "filter (\<lambda>q. row_id (mi_runtime mi) q \<notin> set (row_id (mi_runtime mi) r # seen) \<and> related_to mi cand q) rs
      = filter (\<lambda>q. row_id (mi_runtime mi) q \<notin> set seen \<and> related_to mi cand q) rs"
    using 2(4) by (intro filter_cong refl) (force simp: image_iff)
  then show ?case
    using 2 by (simp add: Let_def)
qed simp

lemma relate_one_rows:
  assumes "distinct (map (row_id (mi_runtime mi)) (mi_pool mi @ earlier))" "row_id (mi_runtime mi) cand \<notin> row_id (mi_runtime mi) ` set (mi_pool mi @ earlier)"
  shows "set (rset_related (relate_one mi earlier n cand)) \<subseteq> {r \<in> set (mi_pool mi @ earlier). related_to mi cand r}"
    "rset_truncated (relate_one mi earlier n cand)
      \<or> set (rset_related (relate_one mi earlier n cand)) = {r \<in> set (mi_pool mi @ earlier). related_to mi cand r}"
    "length (rset_related (relate_one mi earlier n cand)) \<le> mi_per_candidate mi"
    "sorted (map (rank_key mi cand) (rset_related (relate_one mi earlier n cand)))"
proof -
  let ?scored = "sort_key (rank_key mi cand) (scored_rows mi cand [row_id (mi_runtime mi) cand] (mi_pool mi @ earlier))"
  have other: "row_id (mi_runtime mi) r \<noteq> row_id (mi_runtime mi) cand" if "r \<in> set (mi_pool mi @ earlier)" for r
    using assms(2) that by (metis image_eqI)
  have rows: "set ?scored = {r \<in> set (mi_pool mi @ earlier). related_to mi cand r}"
    using other unfolding set_sort scored_rows_distinct [OF assms(1)] by auto
  have related: "rset_related (relate_one mi earlier n cand) = take n (take (mi_per_candidate mi) ?scored)"
    by (simp add: relate_one_def Let_def)
  show "set (rset_related (relate_one mi earlier n cand)) \<subseteq> {r \<in> set (mi_pool mi @ earlier). related_to mi cand r}"
    unfolding related rows [symmetric] by (meson set_take_subset subset_trans)
  show "rset_truncated (relate_one mi earlier n cand)
      \<or> set (rset_related (relate_one mi earlier n cand)) = {r \<in> set (mi_pool mi @ earlier). related_to mi cand r}"
  proof (cases "rset_truncated (relate_one mi earlier n cand)")
    case False
    then have "length ?scored \<le> mi_per_candidate mi" "length (take (mi_per_candidate mi) ?scored) \<le> n"
      by (auto simp: relate_one_def Let_def not_less)
    then have "rset_related (relate_one mi earlier n cand) = ?scored"
      unfolding related by simp
    then show ?thesis using rows by simp
  qed simp
  show "length (rset_related (relate_one mi earlier n cand)) \<le> mi_per_candidate mi"
    by (simp add: relate_one_def Let_def)
  show "sorted (map (rank_key mi cand) (rset_related (relate_one mi earlier n cand)))"
    unfolding related take_map [symmetric] by (intro sorted_wrt_take) simp
qed

lemma related_sets_split:
  assumes ids: "distinct (map (row_id (mi_runtime mi)) (mi_pool mi @ candidates))"
    and split: "related_sets mi n candidates = pre @ rs # post"
  shows "\<exists>m. rs = relate_one mi (map rset_candidate pre) m (rset_candidate rs)"
    "distinct (map (row_id (mi_runtime mi)) (mi_pool mi @ map rset_candidate pre))"
    "row_id (mi_runtime mi) (rset_candidate rs) \<notin> row_id (mi_runtime mi) ` set (mi_pool mi @ map rset_candidate pre)"
proof -
  let ?sorted = "sort_key (order_key (mi_runtime mi)) candidates"
  show "\<exists>m. rs = relate_one mi (map rset_candidate pre) m (rset_candidate rs)"
    using relate_all_split [of mi "[]" n ?sorted pre rs post] split by (simp add: related_sets_def)
  have "?sorted = map rset_candidate (pre @ rs # post)"
    using relate_all_candidates [of mi "[]" n ?sorted] split by (simp add: related_sets_def)
  moreover have "distinct (map (row_id (mi_runtime mi)) (mi_pool mi @ ?sorted))"
    using ids by (simp add: comp_def)
  ultimately show "distinct (map (row_id (mi_runtime mi)) (mi_pool mi @ map rset_candidate pre))"
    "row_id (mi_runtime mi) (rset_candidate rs) \<notin> row_id (mi_runtime mi) ` set (mi_pool mi @ map rset_candidate pre)"
    by auto
qed

text \<open>
  A page's related sets are what they claim to be. When the rows have different ids, each candidate gets
  rows of the pool and earlier candidates only, all of them related to it, the best first, within both
  bounds; and a set that is not marked as cut holds every row the candidate may repeat.
\<close>

theorem related_sets_complete:
  assumes "distinct (map (row_id (mi_runtime mi)) (mi_pool mi @ candidates))"
    and "related_sets mi n candidates = pre @ rs # post"
  shows "set (rset_related rs) \<subseteq> {r \<in> set (mi_pool mi @ map rset_candidate pre). related_to mi (rset_candidate rs) r}
    \<and> (rset_truncated rs \<or> set (rset_related rs) = {r \<in> set (mi_pool mi @ map rset_candidate pre). related_to mi (rset_candidate rs) r})
    \<and> sorted (map (rank_key mi (rset_candidate rs)) (rset_related rs))
    \<and> length (rset_related rs) \<le> mi_per_candidate mi
    \<and> sum_list (map (\<lambda>rs. length (rset_related rs)) (related_sets mi n candidates)) \<le> n"
proof -
  obtain m where rs: "rs = relate_one mi (map rset_candidate pre) m (rset_candidate rs)"
    using related_sets_split(1) [OF assms] by blast
  note rows = relate_one_rows [OF related_sets_split(2,3) [OF assms], of m]
  show ?thesis
    using rows relate_all_budget [of mi "[]" n] unfolding rs [symmetric] related_sets_def by blast
qed

section \<open>Where a repeat points\<close>

lemma lookup_final_SomeD: "lookup_final kvs k = Some v \<Longrightarrow> (k, v) \<in> set kvs"
  unfolding lookup_final_def by (drule map_of_SomeD) simp

lemma lookup_final_None: "lookup_final kvs k = None \<longleftrightarrow> k \<notin> fst ` set kvs"
  unfolding lookup_final_def map_of_eq_None_iff by simp

lemma related_rowD: "related_row rt rs t = Some row \<Longrightarrow> row \<in> set (rset_related rs) \<and> row_id rt row = t"
  by (auto simp: related_row_def dest!: lookup_final_SomeD)

lemma swapped_to_SomeD: "swapped_to swaps t = Some c \<Longrightarrow> \<exists>s\<in>set swaps. cs_target_id s = t \<and> cs_candidate_id s = c"
  by (auto simp: swapped_to_def dest!: lookup_final_SomeD)

lemma swapped_to_None: "swapped_to swaps t = None \<longleftrightarrow> t \<notin> cs_target_id ` set swaps"
  by (simp add: swapped_to_def lookup_final_None image_image)

lemma rule_one_swap:
  assumes "rule_one rt ver rs v st = Inr s"
  obtains row where "related_row rt rs (cs_target_id s) = Some row" "ds_final st (cs_target_id s) = None"
    "swapped_to (do_swaps (ds_outcome st)) (cs_target_id s) = None" "swaps_earlier rt ver rs row"
  using assms by (auto simp: rule_one_def rule_target_def Let_def split: option.splits if_splits prod.splits)

lemma rule_one_targeted:
  assumes "rule_one rt ver rs v st = Inl d" "cd_status d \<in> set TARGETED_STATUSES"
  obtains (page) x where "ds_final st (cd_target_id d) = Some (COUNTED, x)"
  | (chain) t s where "ds_final st t = Some (s, cd_target_id d)" "s \<in> set TARGETED_STATUSES"
  | (swap) t where "swapped_to (do_swaps (ds_outcome st)) t = Some (cd_target_id d)"
  | (pool) row where "related_row rt rs (cd_target_id d) = Some row" "ds_final st (cd_target_id d) = None"
      "swapped_to (do_swaps (ds_outcome st)) (cd_target_id d) = None" "status_of rt row = COUNTED" "\<not> swaps_earlier rt ver rs row"
  using assms
  by (auto simp: rule_one_def rule_target_def Let_def split: option.splits if_splits prod.splits)

text \<open>The happenings that are counted once an outcome is stored.\<close>

definition counted_in :: "decide_outcome \<Rightarrow> string \<Rightarrow> bool" where
  "counted_in out t \<longleftrightarrow>
     list_ex (\<lambda>d. cd_assertion_id d = t \<and> cd_status d = COUNTED) (do_decisions out) \<or> t \<in> set (map cs_candidate_id (do_swaps out))"

definition counted_after :: "py_runtime \<Rightarrow> py_dict list \<Rightarrow> decide_outcome \<Rightarrow> string \<Rightarrow> bool" where
  "counted_after rt pool out t \<longleftrightarrow>
     counted_in out t
     \<or> list_ex (\<lambda>p. row_id rt p = t \<and> status_of rt p = COUNTED) pool \<and> t \<notin> set (map cs_target_id (do_swaps out))"

text \<open>A page as the rules rely on it: ids differ, the candidates are dated, in order and not cut, rows are known.\<close>

definition valid_at :: "py_runtime \<Rightarrow> py_dict \<Rightarrow> string" where
  "valid_at rt row = row_text rt ''valid_at'' row"

definition page_ok :: "py_runtime \<Rightarrow> py_dict list \<Rightarrow> related_set list \<Rightarrow> bool" where
  "page_ok rt pool sets \<longleftrightarrow>
     distinct (map (row_id rt) pool @ map (candidate_id rt) sets)
     \<and> sorted (map (\<lambda>rs. valid_at rt (rset_candidate rs)) sets)
     \<and> (\<forall>rs\<in>set sets. \<not> rset_truncated rs \<and> valid_at rt (rset_candidate rs) \<noteq> [])
     \<and> (\<forall>pre rs post. sets = pre @ rs # post \<longrightarrow> set (rset_related rs) \<subseteq> set pool \<union> rset_candidate ` set pre)"

lemma page_okD:
  assumes "page_ok rt pool (sets @ [rs])"
  shows "page_ok rt pool sets" "candidate_id rt rs \<notin> candidate_id rt ` set sets" "candidate_id rt rs \<notin> row_id rt ` set pool"
    "\<And>q. q \<in> set sets \<Longrightarrow> valid_at rt (rset_candidate q) \<le> valid_at rt (rset_candidate rs)"
    "\<not> rset_truncated rs" "valid_at rt (rset_candidate rs) \<noteq> []" "set (rset_related rs) \<subseteq> set pool \<union> rset_candidate ` set sets"
    "distinct (map (row_id rt) pool)"
proof -
  have rows: "\<And>pre q post. sets @ [rs] = pre @ q # post \<Longrightarrow> set (rset_related q) \<subseteq> set pool \<union> rset_candidate ` set pre"
    using assms by (simp add: page_ok_def)
  show "page_ok rt pool sets"
    using assms rows [of _ _ "_ @ [rs]"] by (auto simp: page_ok_def sorted_append)
  show "set (rset_related rs) \<subseteq> set pool \<union> rset_candidate ` set sets"
    by (rule rows [of sets rs "[]"]) simp
qed (use assms in \<open>auto simp: page_ok_def sorted_append\<close>)

text \<open>A pool row that no later candidate turns into a repeat.\<close>

definition stays :: "py_runtime \<Rightarrow> string \<Rightarrow> related_set list \<Rightarrow> py_dict \<Rightarrow> bool" where
  "stays rt ver sets p \<longleftrightarrow>
     row_text rt ''perceiver_version'' p \<noteq> ver \<or> valid_at rt p = [] \<or> (\<exists>q\<in>set sets. valid_at rt p \<le> valid_at rt (rset_candidate q))"

definition rooted :: "py_runtime \<Rightarrow> string \<Rightarrow> py_dict list \<Rightarrow> related_set list \<Rightarrow> decide_state \<Rightarrow> string \<Rightarrow> bool" where
  "rooted rt ver pool sets st t \<longleftrightarrow>
     (\<exists>x. ds_final st t = Some (COUNTED, x))
     \<or> (\<exists>p\<in>set pool. row_id rt p = t \<and> status_of rt p = COUNTED \<and> t \<notin> cs_target_id ` set (do_swaps (ds_outcome st)) \<and> stays rt ver sets p)"

definition rules_inv :: "py_runtime \<Rightarrow> string \<Rightarrow> py_dict list \<Rightarrow> related_set list \<Rightarrow> decide_state \<Rightarrow> bool" where
  "rules_inv rt ver pool sets st \<longleftrightarrow>
     dom (ds_final st) = candidate_id rt ` set sets
     \<and> (\<forall>t x. ds_final st t = Some (COUNTED, x) \<longrightarrow> counted_in (ds_outcome st) t)
     \<and> (\<forall>t s b. ds_final st t = Some (s, b) \<longrightarrow> s \<in> set TARGETED_STATUSES \<longrightarrow> rooted rt ver pool sets st b)
     \<and> (\<forall>d\<in>set (do_decisions (ds_outcome st)). cd_status d \<in> set TARGETED_STATUSES \<longrightarrow> rooted rt ver pool sets st (cd_target_id d))
     \<and> (\<forall>s\<in>set (do_swaps (ds_outcome st)). ds_final st (cs_candidate_id s) = Some (COUNTED, []))"

subsection \<open>The rules keep the invariant\<close>

lemma rooted_grows:
  assumes "rooted rt ver pool sets st t" "set sets \<subseteq> set sets'"
    and "\<And>x. ds_final st t = Some x \<Longrightarrow> ds_final st' t = Some x"
    and "cs_target_id ` set (do_swaps (ds_outcome st')) \<subseteq> cs_target_id ` set (do_swaps (ds_outcome st))"
  shows "rooted rt ver pool sets' st' t"
  using assms unfolding rooted_def stays_def by blast

lemma decision_keeps:
  assumes inv: "rules_inv rt ver pool sets st" and page: "page_ok rt pool (sets @ [rs])" and id: "cd_assertion_id d = candidate_id rt rs"
    and root: "cd_status d \<in> set TARGETED_STATUSES \<Longrightarrow> rooted rt ver pool (sets @ [rs]) st (cd_target_id d)"
  shows "rules_inv rt ver pool (sets @ [rs]) (record_decision d st)"
proof -
  have fresh: "ds_final st (candidate_id rt rs) = None"
    using inv page_okD(2) [OF page] unfolding rules_inv_def by blast
  have keep: "rooted rt ver pool (sets @ [rs]) (record_decision d st) t" if "rooted rt ver pool ss st t" "set ss \<subseteq> set (sets @ [rs])" for t ss
    using that fresh by (intro rooted_grows [OF that]) (auto simp: record_decision_def id)
  have final: "ds_final (record_decision d st) = (ds_final st)(candidate_id rt rs \<mapsto> (cd_status d, cd_target_id d))"
    and decisions: "do_decisions (ds_outcome (record_decision d st)) = do_decisions (ds_outcome st) @ [d]"
    and swaps: "do_swaps (ds_outcome (record_decision d st)) = do_swaps (ds_outcome st)"
    by (simp_all add: record_decision_def id)
  note old = inv [unfolded rules_inv_def]
  have "dom (ds_final (record_decision d st)) = candidate_id rt ` set (sets @ [rs])"
    using old unfolding final by simp
  moreover have "counted_in (ds_outcome (record_decision d st)) t" if "ds_final (record_decision d st) t = Some (COUNTED, x)" for t x
    using that old unfolding counted_in_def decisions swaps final by (auto simp: id split: if_splits)
  moreover have "rooted rt ver pool (sets @ [rs]) (record_decision d st) b"
    if "ds_final (record_decision d st) t = Some (s, b)" "s \<in> set TARGETED_STATUSES" for t s b
  proof (cases "t = candidate_id rt rs")
    case True
    then show ?thesis using that keep [OF root] unfolding final by simp
  next
    case False
    then have "rooted rt ver pool sets st b" using that old unfolding final by (metis fun_upd_other)
    then show ?thesis by (rule keep) auto
  qed
  moreover have "rooted rt ver pool (sets @ [rs]) (record_decision d st) (cd_target_id e)"
    if "e \<in> set (do_decisions (ds_outcome (record_decision d st)))" "cd_status e \<in> set TARGETED_STATUSES" for e
  proof (cases "e = d")
    case True
    then show ?thesis using that keep [OF root] by simp
  next
    case False
    then have "rooted rt ver pool sets st (cd_target_id e)" using that old unfolding decisions by simp
    then show ?thesis by (rule keep) auto
  qed
  moreover have "ds_final (record_decision d st) (cs_candidate_id s) = Some (COUNTED, [])"
    if "s \<in> set (do_swaps (ds_outcome (record_decision d st)))" for s
  proof -
    have "ds_final st (cs_candidate_id s) = Some (COUNTED, [])"
      using that old unfolding swaps by blast
    then show ?thesis using fresh unfolding final by auto
  qed
  ultimately show ?thesis
    unfolding rules_inv_def by (intro conjI allI ballI impI)
qed

text \<open>A row that the rules turn into a repeat is one that no earlier candidate points at.\<close>

lemma pool_row:
  assumes inv: "rules_inv rt ver pool sets st" and page: "page_ok rt pool (sets @ [rs])"
    and row: "related_row rt rs t = Some row" "ds_final st t = None"
  shows "row \<in> set pool" "row_id rt row = t" "\<And>p. p \<in> set pool \<Longrightarrow> row_id rt p = t \<Longrightarrow> p = row"
proof -
  have id: "row_id rt row = t" and some: "row \<in> set pool \<union> rset_candidate ` set sets"
    using related_rowD [OF row(1)] page_okD(7) [OF page] by auto
  have "t \<notin> candidate_id rt ` set sets"
    using inv row(2) unfolding rules_inv_def by blast
  then have pool: "row \<in> set pool"
    using some id by (auto simp: candidate_id_def)
  show "row \<in> set pool" "row_id rt row = t" by fact+
  show "p = row" if "p \<in> set pool" "row_id rt p = t" for p
    using that pool id page_okD(8) [OF page] by (metis distinct_map inj_onD)
qed

lemma swap_keeps:
  assumes inv: "rules_inv rt ver pool sets st" and page: "page_ok rt pool (sets @ [rs])"
    and rule: "rule_one rt ver rs v st = Inr s"
  shows "rules_inv rt ver pool (sets @ [rs]) (record_swap s st)"
proof -
  obtain row where row: "related_row rt rs (cs_target_id s) = Some row" "ds_final st (cs_target_id s) = None"
    and earlier: "swaps_earlier rt ver rs row"
    using rule_one_swap [OF rule] by metis
  have id: "cs_candidate_id s = candidate_id rt rs"
    using rule_one_id(2) [OF rule] .
  note old = inv [unfolded rules_inv_def]
  have fresh: "ds_final st (candidate_id rt rs) = None"
    using old page_okD(2) [OF page] by blast
  have final: "ds_final (record_swap s st) = (ds_final st)(candidate_id rt rs \<mapsto> (COUNTED, []))"
    and decisions: "do_decisions (ds_outcome (record_swap s st)) = do_decisions (ds_outcome st)"
    and swaps: "do_swaps (ds_outcome (record_swap s st)) = do_swaps (ds_outcome st) @ [s]"
    by (simp_all add: record_swap_def id)
  have keep: "rooted rt ver pool (sets @ [rs]) (record_swap s st) t" if t: "rooted rt ver pool sets st t" for t
  proof (cases "\<exists>x. ds_final st t = Some (COUNTED, x)")
    case True
    then show ?thesis using fresh unfolding rooted_def final by auto
  next
    case False
    then obtain p where p: "p \<in> set pool" "row_id rt p = t" "status_of rt p = COUNTED"
        "t \<notin> cs_target_id ` set (do_swaps (ds_outcome st))" "stays rt ver sets p"
      using t unfolding rooted_def by blast
    have "t \<noteq> cs_target_id s"
    proof
      assume "t = cs_target_id s"
      then have "p = row" using pool_row(3) [OF inv page row] p by simp
      then obtain q where "q \<in> set sets" "valid_at rt row \<le> valid_at rt (rset_candidate q)"
        using p(5) earlier unfolding stays_def swaps_earlier_def valid_at_def Let_def by blast
      then have "valid_at rt row \<le> valid_at rt (rset_candidate rs)"
        using page_okD(4) [OF page] order_trans by blast
      then show False
        using earlier unfolding swaps_earlier_def valid_at_def Let_def by (meson leD)
    qed
    moreover have "stays rt ver (sets @ [rs]) p"
      using p(5) unfolding stays_def by auto
    ultimately show ?thesis
      using p unfolding rooted_def swaps by auto
  qed
  have "dom (ds_final (record_swap s st)) = candidate_id rt ` set (sets @ [rs])"
    using old unfolding final by simp
  moreover have "counted_in (ds_outcome (record_swap s st)) t" if "ds_final (record_swap s st) t = Some (COUNTED, x)" for t x
    using that old unfolding counted_in_def decisions swaps final by (auto simp: id split: if_splits)
  moreover have "rooted rt ver pool (sets @ [rs]) (record_swap s st) b"
    if "ds_final (record_swap s st) t = Some (u, b)" "u \<in> set TARGETED_STATUSES" for t u b
    using that old unfolding final by (intro keep) (auto split: if_splits)
  moreover have "rooted rt ver pool (sets @ [rs]) (record_swap s st) (cd_target_id e)"
    if "e \<in> set (do_decisions (ds_outcome (record_swap s st)))" "cd_status e \<in> set TARGETED_STATUSES" for e
    using that old unfolding decisions by (intro keep) auto
  moreover have "ds_final (record_swap s st) (cs_candidate_id u) = Some (COUNTED, [])"
    if "u \<in> set (do_swaps (ds_outcome (record_swap s st)))" for u
    using that old unfolding final swaps by (auto simp: id)
  ultimately show ?thesis
    unfolding rules_inv_def by (intro conjI allI ballI impI)
qed

lemma targeted_is_rooted:
  assumes inv: "rules_inv rt ver pool sets st" and page: "page_ok rt pool (sets @ [rs])"
    and rule: "rule_one rt ver rs v st = Inl d" and targeted: "cd_status d \<in> set TARGETED_STATUSES"
  shows "rooted rt ver pool (sets @ [rs]) st (cd_target_id d)"
  using rule targeted
proof (cases rule: rule_one_targeted)
  case (page x)
  then show ?thesis unfolding rooted_def by blast
next
  case (chain t s)
  then have "rooted rt ver pool sets st (cd_target_id d)"
    using inv unfolding rules_inv_def by blast
  then show ?thesis by (rule rooted_grows) auto
next
  case (swap t)
  then show ?thesis
    using inv unfolding rules_inv_def rooted_def by (metis swapped_to_SomeD)
next
  case (pool row)
  have stays: "stays rt ver (sets @ [rs]) row"
    using pool(5) page_okD(5,6) [OF page] unfolding stays_def swaps_earlier_def valid_at_def Let_def by auto
  show ?thesis
    using pool_row(1,2) [OF inv page pool(1,2)] pool(3,4) stays unfolding rooted_def swapped_to_None by blast
qed

lemma decide_one_keeps:
  assumes inv: "rules_inv rt ver pool sets st" and page: "page_ok rt pool (sets @ [rs])"
  shows "rules_inv rt ver pool (sets @ [rs]) (decide_one rt voted True ver rs st)"
proof (cases rule: decide_one_cases [of rt voted True ver rs st])
  case (decided_ d)
  show ?thesis
    unfolding decided_(1) by (rule decision_keeps [OF inv page decided_(2)]) (use decided_(3) in simp)
next
  case (ruled d)
  then show ?thesis
    using decision_keeps [OF inv page rule_one_id(1) targeted_is_rooted [OF inv page]] by simp
next
  case (swapped s)
  then show ?thesis using swap_keeps [OF inv page] by simp
qed simp

lemma page_keeps:
  "page_ok rt pool sets \<Longrightarrow> rules_inv rt ver pool sets (fold (decide_one rt voted True ver) sets initial_state)"
proof (induction sets rule: rev_induct)
  case Nil
  show ?case by (simp add: rules_inv_def initial_state_def counted_in_def)
next
  case (snoc rs sets)
  then show ?case using decide_one_keeps [OF _ snoc.prems] page_okD(1) by simp
qed

lemma order_key_valid_at: "order_key rt a \<le> order_key rt b \<Longrightarrow> valid_at rt a \<le> valid_at rt b"
  by (auto simp: order_key_def valid_at_def)

lemma related_sets_page:
  assumes ids: "distinct (map (row_id (mi_runtime mi)) (mi_pool mi @ candidates))"
    and whole: "\<forall>rs\<in>set (related_sets mi n candidates). \<not> rset_truncated rs \<and> valid_at (mi_runtime mi) (rset_candidate rs) \<noteq> []"
  shows "page_ok (mi_runtime mi) (mi_pool mi) (related_sets mi n candidates)"
proof -
  let ?rt = "mi_runtime mi"
  have cands: "map rset_candidate (related_sets mi n candidates) = sort_key (order_key ?rt) candidates"
    by (simp add: related_sets_def relate_all_candidates)
  have cand_ids: "map (candidate_id ?rt) (related_sets mi n candidates) = map (row_id ?rt) (sort_key (order_key ?rt) candidates)"
    unfolding cands [symmetric] by (simp add: candidate_id_def)
  have dates: "map (\<lambda>rs. valid_at ?rt (rset_candidate rs)) (related_sets mi n candidates) = map (valid_at ?rt) (sort_key (order_key ?rt) candidates)"
    unfolding cands [symmetric] by simp
  have "sorted (map (valid_at ?rt) (sort_key (order_key ?rt) candidates))"
    using sorted_sort_key [of "order_key ?rt" candidates]
    by (auto simp: sorted_map intro: sorted_wrt_mono_rel [rotated] order_key_valid_at)
  moreover have "set (rset_related rs) \<subseteq> set (mi_pool mi) \<union> rset_candidate ` set pre"
    if split: "related_sets mi n candidates = pre @ rs # post" for pre rs post
  proof -
    obtain m where rs: "rs = relate_one mi (map rset_candidate pre) m (rset_candidate rs)"
      using related_sets_split(1) [OF ids split] by blast
    show ?thesis
      using relate_one_rows(1) [OF related_sets_split(2,3) [OF ids split], of m] unfolding rs [symmetric] by auto
  qed
  moreover have "distinct (map (row_id ?rt) (mi_pool mi) @ map (row_id ?rt) (sort_key (order_key ?rt) candidates))"
    using ids by simp
  ultimately show ?thesis
    using whole unfolding page_ok_def cand_ids dates by blast
qed

lemma rooted_counted: "rules_inv rt ver pool sets st \<Longrightarrow> rooted rt ver pool sets st t \<Longrightarrow> counted_after rt pool (ds_outcome st) t"
  unfolding rooted_def rules_inv_def counted_after_def by (auto simp: list_ex_iff)

lemma swaps_distinct:
  "distinct (map cs_target_id (do_swaps (ds_outcome st)))
     \<Longrightarrow> distinct (map cs_target_id (do_swaps (ds_outcome (fold (decide_one rt voted b ver) sets st))))"
proof (induction sets arbitrary: st)
  case (Cons rs sets)
  have "distinct (map cs_target_id (do_swaps (ds_outcome (decide_one rt voted b ver rs st))))"
  proof (cases rule: decide_one_cases [of rt voted b ver rs st])
    case (swapped s)
    then have "swapped_to (do_swaps (ds_outcome st)) (cs_target_id s) = None"
      by (auto elim: rule_one_swap)
    then show ?thesis
      using Cons.prems swapped(1) by (simp add: record_swap_def swapped_to_None)
  qed (use Cons.prems in \<open>simp_all add: record_decision_def\<close>)
  then show ?case using Cons.IH by simp
qed simp

lemma conservative_untargeted: "d \<in> set (conservative_decisions rt sets) \<Longrightarrow> cd_status d \<notin> set TARGETED_STATUSES"
  unfolding conservative_decisions_def
  by (auto simp: conservative_decision_def Let_def simp del: not_None_eq split: if_splits)

text \<open>
  C17: A repeat points at a happening that is counted. On a page whose rows have different ids, whose
  candidates are dated and whose related sets are whole, every decision that names another happening
  names one that is counted once the page is stored, whatever was voted: a candidate of the page, or a
  pool row that no candidate of the page turns into a repeat. No pool row is turned into a repeat twice.
\<close>

theorem repeats_point_at_counted:
  assumes "distinct (map (row_id (mi_runtime mi)) (mi_pool mi @ candidates))"
    and "\<forall>rs\<in>set (related_sets mi n candidates). \<not> rset_truncated rs \<and> valid_at (mi_runtime mi) (rset_candidate rs) \<noteq> []"
    and "out = apply_decide_rules (mi_runtime mi) (related_sets mi n candidates) voted decided ver"
  shows "(\<forall>d\<in>set (do_decisions out). cd_status d \<in> set TARGETED_STATUSES
      \<longrightarrow> counted_after (mi_runtime mi) (mi_pool mi) out (cd_target_id d))
    \<and> distinct (map cs_target_id (do_swaps out))"
proof
  show "distinct (map cs_target_id (do_swaps out))"
    unfolding assms(3) apply_decide_fold by (intro swaps_distinct) (simp add: initial_state_def)
  show "\<forall>d\<in>set (do_decisions out). cd_status d \<in> set TARGETED_STATUSES \<longrightarrow> counted_after (mi_runtime mi) (mi_pool mi) out (cd_target_id d)"
  proof (cases decided)
    case True
    let ?st = "fold (decide_one (mi_runtime mi) voted True ver) (related_sets mi n candidates) initial_state"
    have inv: "rules_inv (mi_runtime mi) ver (mi_pool mi) (related_sets mi n candidates) ?st"
      by (rule page_keeps [OF related_sets_page [OF assms(1,2)]])
    have out: "out = ds_outcome ?st"
      unfolding assms(3) apply_decide_fold using True by simp
    have "\<forall>d\<in>set (do_decisions (ds_outcome ?st)). cd_status d \<in> set TARGETED_STATUSES
        \<longrightarrow> rooted (mi_runtime mi) ver (mi_pool mi) (related_sets mi n candidates) ?st (cd_target_id d)"
      using inv [unfolded rules_inv_def] by (elim conjE)
    then show ?thesis
      unfolding out using rooted_counted [OF inv] by (intro ballI impI) simp
  next
    case False
    then have "do_decisions out = conservative_decisions (mi_runtime mi) (filter (unrelated (mi_runtime mi)) (related_sets mi n candidates))"
      unfolding assms(3) apply_decide_fold by (simp add: decide_all_skipping(1) initial_state_def)
    then show ?thesis
      using conservative_untargeted [of _ "mi_runtime mi" "filter (unrelated (mi_runtime mi)) (related_sets mi n candidates)"] by simp
  qed
qed

section \<open>Cut sets\<close>

lemma rule_one_counted: "rule_one rt ver rs v st = Inl d \<Longrightarrow> cd_status d = COUNTED \<Longrightarrow> \<not> rset_truncated rs"
  by (auto simp: rule_one_def rule_target_def Let_def split: option.splits if_splits prod.splits)

definition counted_ids :: "decide_outcome \<Rightarrow> string set" where
  "counted_ids out = {cd_assertion_id d |d. d \<in> set (do_decisions out) \<and> cd_status d = COUNTED} \<union> set (map cs_candidate_id (do_swaps out))"

lemma decide_one_counted:
  "counted_ids (ds_outcome (decide_one rt voted b ver rs st))
     \<subseteq> counted_ids (ds_outcome st) \<union> (if rset_truncated rs then {} else {candidate_id rt rs})"
proof (cases rule: decide_one_cases [of rt voted b ver rs st])
  case (decided_ d)
  then show ?thesis by (auto simp: record_decision_def counted_ids_def)
next
  case (ruled d)
  show ?thesis
    unfolding ruled(1) using rule_one_id(1) [OF ruled(3)] rule_one_counted [OF ruled(3)] by (auto simp: record_decision_def counted_ids_def)
next
  case (swapped s)
  obtain row where "swaps_earlier rt ver rs row"
    using rule_one_swap [OF swapped(3)] by metis
  then have "\<not> rset_truncated rs" by (simp add: swaps_earlier_def Let_def)
  then show ?thesis
    unfolding swapped(1) using rule_one_id(2) [OF swapped(3)] by (auto simp: record_swap_def counted_ids_def)
next
  case skipped
  then show ?thesis by (auto simp: counted_ids_def)
qed

lemma decide_all_counted:
  "counted_ids (ds_outcome (fold (decide_one rt voted b ver) sets st))
     \<subseteq> counted_ids (ds_outcome st) \<union> candidate_id rt ` {rs \<in> set sets. \<not> rset_truncated rs}"
proof (induction sets arbitrary: st)
  case (Cons rs sets)
  show ?case
    using Cons.IH [of "decide_one rt voted b ver rs st"] decide_one_counted [of rt voted b ver rs st] by (auto split: if_splits)
qed simp

text \<open>
  C33: No candidate disappears, none is settled twice and a cut set never counts. The decisions, the swaps and
  the skipped ids of a page together are its candidates, each as often as it was listed; when the decide
  call ran, nothing is skipped; and only a candidate whose related set is whole is counted, by a decision
  or by a swap, whatever was voted.
\<close>

theorem every_candidate_settled_once:
  "outcome_ids (apply_decide_rules rt sets voted decided ver) = mset (map (candidate_id rt) sets)
   \<and> do_skipped (apply_decide_rules rt sets voted True ver) = []
   \<and> counted_ids (apply_decide_rules rt sets voted decided ver) \<subseteq> candidate_id rt ` {rs \<in> set sets. \<not> rset_truncated rs}"
proof (intro conjI)
  show "outcome_ids (apply_decide_rules rt sets voted decided ver) = mset (map (candidate_id rt) sets)"
    unfolding apply_decide_fold decide_all_ids by (simp add: outcome_ids_def initial_state_def)
  show "do_skipped (apply_decide_rules rt sets voted True ver) = []"
    unfolding apply_decide_fold decide_all_skips by (simp add: initial_state_def)
  show "counted_ids (apply_decide_rules rt sets voted decided ver) \<subseteq> candidate_id rt ` {rs \<in> set sets. \<not> rset_truncated rs}"
    unfolding apply_decide_fold using decide_all_counted [of rt voted decided ver sets initial_state]
    by (simp add: initial_state_def counted_ids_def)
qed

end
