(* ===== verification/Count_Examples.thy ===== *)
theory Count_Examples
  imports Count_Needles Count_Targets
begin

text \<open>
  Pages of counted happenings on which the properties of this part are evaluated, and the page on which a
  repeat misses its root.
\<close>

definition plain_runtime :: py_runtime where
  "plain_runtime = \<lparr>rt_str = (\<lambda>_. []), rt_float_of_str = (\<lambda>_. None)\<rparr>"

definition sample_row :: "string \<Rightarrow> string \<Rightarrow> py_dict" where
  "sample_row i date =
     [(''assertion_id'', PStr i), (''valid_at'', PStr date), (''subject_uuid'', PStr ''s''), (''count_object'', PStr ''kit''),
      (''perceiver_version'', PStr ''v''), (''count_status'', PStr ''counted'')]"

definition sample_input :: match_input where
  "sample_input = \<lparr>mi_runtime = plain_runtime, mi_pool = [sample_row ''p'' ''5''], mi_pool_truncated = False, mi_truncated_ids = [],
     mi_per_candidate = 3, mi_cosine = Map.empty, mi_min_cosine = 1\<rparr>"

definition says_repeat :: "string \<rightharpoonup> string \<times> string \<times> string \<times> string" where
  "says_repeat = (\<lambda>_. Some (REPEAT, ''p'', [], ''3/3''))"

definition sample_candidates :: "string \<Rightarrow> py_dict list" where
  "sample_candidates date = [sample_row ''a'' date, sample_row ''b'' ''3'']"

definition page_outcome :: "string \<Rightarrow> decide_outcome" where
  "page_outcome date = apply_decide_rules (mi_runtime sample_input)
     (related_sets sample_input 9 (sample_candidates date)) says_repeat True ''v''"

lemma sample_ids: "distinct (map (row_id (mi_runtime sample_input)) (mi_pool sample_input @ sample_candidates date))"
  by (simp add: sample_input_def sample_candidates_def sample_row_def row_id_def row_text_def dict_get_def py_str_def falsy_def)

text \<open>The row \<open>b\<close> is earlier than the pool row and becomes the counted one; \<open>a\<close> then repeats \<open>b\<close>.\<close>

lemma dated_page:
  "map (\<lambda>d. (cd_assertion_id d, cd_status d, cd_target_id d)) (do_decisions (page_outcome ''7'')) = [(''a'', REPEAT, ''b'')]"
  "map (\<lambda>s. (cs_candidate_id s, cs_target_id s)) (do_swaps (page_outcome ''7'')) = [(''b'', ''p'')]"
  by code_simp+

lemma dated_page_whole:
  "\<forall>rs\<in>set (related_sets sample_input 9 (sample_candidates ''7'')).
     \<not> rset_truncated rs \<and> valid_at (mi_runtime sample_input) (rset_candidate rs) \<noteq> []"
  by code_simp

theorem repeats_point_at_counted_witness:
  "\<exists>d\<in>set (do_decisions (page_outcome ''7'')). cd_status d = REPEAT \<and> cd_target_id d = ''b''
     \<and> counted_after (mi_runtime sample_input) (mi_pool sample_input) (page_outcome ''7'') (cd_target_id d)"
proof -
  obtain d where "do_decisions (page_outcome ''7'') = [d]" "cd_status d = REPEAT" "cd_target_id d = ''b''"
    using dated_page(1) by auto
  then show ?thesis
    using repeats_point_at_counted [OF sample_ids dated_page_whole page_outcome_def] by (simp add: TARGETED_STATUSES_def)
qed

lemma sample_sets:
  "related_sets sample_input 9 (sample_candidates ''7'')
     = [\<lparr>rset_candidate = sample_row ''b'' ''3'', rset_related = [sample_row ''p'' ''5''], rset_truncated = False\<rparr>]
       @ \<lparr>rset_candidate = sample_row ''a'' ''7'', rset_related = [sample_row ''b'' ''3'', sample_row ''p'' ''5''], rset_truncated = False\<rparr> # []"
  by code_simp

theorem related_sets_complete_witness:
  "{r \<in> {sample_row ''p'' ''5'', sample_row ''b'' ''3''}. related_to sample_input (sample_row ''a'' ''7'') r}
     = {sample_row ''b'' ''3'', sample_row ''p'' ''5''}"
  using related_sets_complete [OF sample_ids sample_sets] by (simp add: sample_input_def)

text \<open>A stored row of family \<open>model kits\<close> shares a token with a new kit, and contains its needle.\<close>

theorem needles_cover_relation_witness:
  "list_ex (\<lambda>n. list_ex (contains n) (needle_fields plain_runtime [(''count_family'', PStr ''Model kits'')]))
     (relation_needles plain_runtime (sample_row ''a'' ''7''))
   \<and> [] \<notin> set (relation_needles plain_runtime (sample_row ''a'' ''7''))"
proof -
  have "0 < related_score (relation_tokens plain_runtime (sample_row ''a'' ''7''))
      (relation_tokens plain_runtime [(''count_family'', PStr ''Model kits'')])"
    by code_simp
  then show ?thesis
    using needles_cover_relation by blast
qed

text \<open>
  An undated candidate is settled first, on the pool row, and cannot be the earlier retelling; the next
  candidate turns the pool row into its repeat, and the first decision is left pointing at a repeat.
\<close>

lemma undated_repeat_misses_its_root:
  "map (\<lambda>d. (cd_assertion_id d, cd_status d, cd_target_id d)) (do_decisions (page_outcome [])) = [(''a'', REPEAT, ''p'')]
   \<and> map (\<lambda>s. (cs_candidate_id s, cs_target_id s)) (do_swaps (page_outcome [])) = [(''b'', ''p'')]
   \<and> \<not> counted_after (mi_runtime sample_input) (mi_pool sample_input) (page_outcome []) ''p''"
  by code_simp

end
