(* ===== verification/Source_Authority.thy ===== *)
theory Source_Authority
  imports Python_Values
begin

text \<open>
  Who said it and how far it is trusted: the tier table, the contributor lists and the authority of
  a node (\<^verbatim>\<open>domain/utils.py\<close>), and the provenance a merge derives (\<^verbatim>\<open>domain/merge_delta.py\<close>).
\<close>

section \<open>The tier table\<close>

definition SOURCE_CONFIDENCE_USER :: rat where
  "SOURCE_CONFIDENCE_USER = 1"

definition SOURCE_CONFIDENCE_STRUCTURAL :: rat where
  "SOURCE_CONFIDENCE_STRUCTURAL = 9 / 10"

definition SOURCE_CONFIDENCE_AGENT_REVIEWED :: rat where
  "SOURCE_CONFIDENCE_AGENT_REVIEWED = 7 / 10"

definition SOURCE_CONFIDENCE_AGENT :: rat where
  "SOURCE_CONFIDENCE_AGENT = 1 / 2"

lemmas tier_defs = SOURCE_CONFIDENCE_USER_def SOURCE_CONFIDENCE_STRUCTURAL_def
  SOURCE_CONFIDENCE_AGENT_REVIEWED_def SOURCE_CONFIDENCE_AGENT_def

definition SOURCE_TIERS :: "(string \<times> rat) list" where
  "SOURCE_TIERS =
     [(''manual'', SOURCE_CONFIDENCE_USER), (''user'', SOURCE_CONFIDENCE_USER),
      (''project-scan'', SOURCE_CONFIDENCE_STRUCTURAL),
      (''claude-code'', SOURCE_CONFIDENCE_AGENT_REVIEWED)]"

definition SOURCE_SUBSTRING_TIERS :: "(string \<times> rat) list" where
  "SOURCE_SUBSTRING_TIERS = [(''gemini'', 3 / 10), (''gpt'', SOURCE_CONFIDENCE_AGENT)]"

fun substring_tier :: "(string \<times> rat) list \<Rightarrow> string \<Rightarrow> rat" where
  "substring_tier [] key = SOURCE_CONFIDENCE_AGENT"
| "substring_tier ((needle, tier) # rest) key =
     (if contains needle key then tier else substring_tier rest key)"

definition source_confidence_for :: "string \<Rightarrow> rat" where
  "source_confidence_for source =
     (let source_key = lower (strip source)
      in case map_of SOURCE_TIERS source_key of
           Some tier \<Rightarrow> tier
         | None \<Rightarrow> substring_tier SOURCE_SUBSTRING_TIERS source_key)"

section \<open>Writer families\<close>

definition SOURCE_FAMILY_PREFIXES :: "string list" where
  "SOURCE_FAMILY_PREFIXES =
     [''project-scan'', ''claude'', ''codex'', ''opencode'', ''qwen'', ''gemini'', ''gpt'',
      ''painscan'', ''document-ingest'', ''perception'']"

fun family_of :: "string list \<Rightarrow> string \<Rightarrow> string" where
  "family_of [] key = key"
| "family_of (p # ps) key =
     (if key = p \<or> starts_with (p @ ''-'') key \<or> starts_with (p @ '' '') key then p
      else family_of ps key)"

definition source_family :: "string \<Rightarrow> string" where
  "source_family source =
     (let key = lower (strip source)
      in if key = [] then ''unknown'' else family_of SOURCE_FAMILY_PREFIXES key)"

section \<open>Contributors\<close>

definition SYNTHETIC_PRIMARY_SOURCE :: string where
  "SYNTHETIC_PRIMARY_SOURCE = ''merged''"

definition normalize_contributors :: "py_runtime \<Rightarrow> py_value \<Rightarrow> string list" where
  "normalize_contributors rt raw =
     (let items = (case raw of
                     PStr s \<Rightarrow> split_char CHR '','' s
                   | PList vs \<Rightarrow> map (py_str rt) vs
                   | _ \<Rightarrow> [])
      in dedup (filter (\<lambda>l. l \<noteq> []) (map strip items)))"

definition node_contributors :: "py_runtime \<Rightarrow> py_value \<Rightarrow> py_value \<Rightarrow> string list" where
  "node_contributors rt sources source =
     (let raw = (if sources \<noteq> PNone then sources else source)
      in filter (\<lambda>s. s \<noteq> SYNTHETIC_PRIMARY_SOURCE) (normalize_contributors rt raw))"

section \<open>Authority\<close>

fun authority_for :: "string list \<Rightarrow> rat" where
  "authority_for [] = SOURCE_CONFIDENCE_AGENT"
| "authority_for (s # ss) = foldl min (source_confidence_for s) (map source_confidence_for ss)"

definition effective_authority :: "string list \<Rightarrow> py_value \<Rightarrow> rat" where
  "effective_authority sources observed =
     (let ceiling = authority_for sources
      in case observed of
           PInt i \<Rightarrow> (if 0 \<le> i \<and> of_int i \<le> SOURCE_CONFIDENCE_USER then min (of_int i) ceiling
                     else ceiling)
         | PFloat (Finite v) \<Rightarrow> (if 0 \<le> v \<and> v \<le> SOURCE_CONFIDENCE_USER then min v ceiling
                                 else ceiling)
         | _ \<Rightarrow> ceiling)"

fun index_of :: "'a \<Rightarrow> 'a list \<Rightarrow> nat" where
  "index_of x [] = 0"
| "index_of x (y # ys) = (if x = y then 0 else Suc (index_of x ys))"

definition primary_source_for :: "string list \<Rightarrow> string" where
  "primary_source_for sources =
     (case sources of
        [] \<Rightarrow> SYNTHETIC_PRIMARY_SOURCE
      | s # ss \<Rightarrow> first_min (\<lambda>x. (source_confidence_for x, index_of x sources)) s ss)"

definition corroboration_for :: "string list \<Rightarrow> nat" where
  "corroboration_for sources = card (source_family ` set sources)"

section \<open>The merge delta\<close>

definition MERGE_OWNED_SURVIVOR_PROPERTIES :: "string list" where
  "MERGE_OWNED_SURVIVOR_PROPERTIES =
     [''summary'', ''content'', ''source'', ''source_confidence'', ''sources'', ''corroboration'']"

definition contributors_of :: "py_runtime \<Rightarrow> py_dict \<Rightarrow> string list" where
  "contributors_of rt node = node_contributors rt (dict_get ''sources'' node) (dict_get ''source'' node)"

definition merged_contributors :: "py_runtime \<Rightarrow> py_dict \<Rightarrow> py_dict \<Rightarrow> string list" where
  "merged_contributors rt survivor absorbed =
     (let survivor_sources = contributors_of rt survivor
      in survivor_sources @ filter (\<lambda>s. s \<notin> set survivor_sources) (contributors_of rt absorbed))"

definition node_authority :: "py_runtime \<Rightarrow> py_dict \<Rightarrow> rat" where
  "node_authority rt node =
     effective_authority (contributors_of rt node) (dict_get ''source_confidence'' node)"

definition derive_merged_provenance :: "py_runtime \<Rightarrow> py_dict \<Rightarrow> py_dict \<Rightarrow> py_dict" where
  "derive_merged_provenance rt survivor absorbed =
     (let sources = merged_contributors rt survivor absorbed;
          authority = min (min (node_authority rt survivor) (node_authority rt absorbed))
                          (authority_for sources)
      in [(''sources'', PList (map PStr sources)),
          (''source'', PStr (primary_source_for sources)),
          (''source_confidence'', PFloat (Finite authority)),
          (''corroboration'', PInt (int (corroboration_for sources)))])"

text \<open>
  \<^verbatim>\<open>len(a) > len(b) * 1.2\<close>. The double 1.2 lies below 6/5 by less than a quarter of a unit in the
  last place of the product, so for the lengths a string can have the comparison is the exact one.
\<close>

definition text_size :: "py_runtime \<Rightarrow> py_value \<Rightarrow> nat" where
  "text_size rt v = (if v = PNone then 0 else length (py_str rt v))"

definition much_longer :: "py_runtime \<Rightarrow> py_value \<Rightarrow> py_value \<Rightarrow> bool" where
  "much_longer rt a b \<longleftrightarrow> 6 * text_size rt b < 5 * text_size rt a"

definition first_present :: "py_value \<Rightarrow> py_value \<Rightarrow> py_value" where
  "first_present a b = (if a \<noteq> PNone then a else b)"

definition replay_survivor_merge :: "py_runtime \<Rightarrow> py_dict \<Rightarrow> py_dict \<Rightarrow> py_dict" where
  "replay_survivor_merge rt survivor absorbed =
     (let s_summary = dict_get ''summary'' survivor; s_content = dict_get ''content'' survivor;
          a_summary = dict_get ''summary'' absorbed; a_content = dict_get ''content'' absorbed;
          richer = (if much_longer rt (first_present a_summary a_content)
                         (first_present s_summary s_content)
                    then absorbed else survivor);
          summary = first_present (dict_get ''summary'' richer)
                      (first_present (dict_get ''content'' richer) s_summary);
          content = (if much_longer rt a_content s_content then a_content else s_content)
      in [(''summary'', summary), (''content'', content)]
         @ derive_merged_provenance rt survivor absorbed)"

text \<open>
  One turn of the comparison loop: \<open>Inr True\<close> when the property of the survivor differs from what
  the merge wrote. Confidences are converted to floats, which may raise, and compared with a
  tolerance.
\<close>

text \<open>
  \<^verbatim>\<open>==\<close> of Python: a bool, an int and a float are equal when they are the same number, NaN is equal to
  nothing, lists are compared item by item and dicts by their keys. (Two values read from the driver are
  never one object, so the shortcut by identity does not apply.)
\<close>

definition py_number :: "py_value \<Rightarrow> pyfloat option" where
  "py_number v =
     (case v of
        PBool b \<Rightarrow> Some (Finite (if b then 1 else 0))
      | PInt i \<Rightarrow> Some (Finite (of_int i))
      | PFloat f \<Rightarrow> Some f
      | _ \<Rightarrow> None)"

fun py_equal :: "py_value \<Rightarrow> py_value \<Rightarrow> bool" where
  "py_equal (PList vs) (PList ws) \<longleftrightarrow> list_all2 py_equal vs ws"
| "py_equal (PMap d) (PMap e) \<longleftrightarrow>
     length d = length e
     \<and> list_all (\<lambda>kv. case map_of e (fst kv) of None \<Rightarrow> False | Some w \<Rightarrow> py_equal (snd kv) w) d"
| "py_equal v w \<longleftrightarrow>
     (case py_number v of
        Some x \<Rightarrow> x \<noteq> NaN \<and> py_number w = Some x
      | None \<Rightarrow> v = w)"

declare py_equal.simps [simp del]

definition property_differs :: "py_runtime \<Rightarrow> string \<Rightarrow> py_value \<Rightarrow> py_value \<Rightarrow> bool result" where
  "property_differs rt key want got =
     (if key = ''source_confidence'' then
        (if want = PNone \<and> got = PNone then Inr False
         else if want = PNone \<or> got = PNone then Inr True
         else bind_result (py_float rt want) (\<lambda>w.
                bind_result (py_float rt got) (\<lambda>f. Inr (differs_by_more (1 / 10 ^ 9) w f))))
      else Inr (\<not> py_equal want got))"

fun collect_differences ::
  "py_runtime \<Rightarrow> py_dict \<Rightarrow> py_dict \<Rightarrow> string list \<Rightarrow> (string \<times> py_value \<times> py_value) list result" where
  "collect_differences rt expected current [] = Inr []"
| "collect_differences rt expected current (k # ks) =
     bind_result (property_differs rt k (dict_get k expected) (dict_get k current)) (\<lambda>d.
       bind_result (collect_differences rt expected current ks) (\<lambda>ds.
         Inr (if d then (k, dict_get k expected, dict_get k current) # ds else ds)))"

definition survivor_matches_merge_output ::
  "py_runtime \<Rightarrow> py_dict \<Rightarrow> py_dict \<Rightarrow> py_dict \<Rightarrow> (bool \<times> (string \<times> py_value \<times> py_value) list) result" where
  "survivor_matches_merge_output rt current survivor_pre absorbed_pre =
     (let expected = replay_survivor_merge rt survivor_pre absorbed_pre
      in bind_result (collect_differences rt expected current MERGE_OWNED_SURVIVOR_PROPERTIES)
           (\<lambda>ds. Inr (ds = [], ds)))"

definition restorable_survivor_properties :: "py_dict \<Rightarrow> py_dict" where
  "restorable_survivor_properties survivor_pre =
     map (\<lambda>k. (k, dict_get k survivor_pre)) MERGE_OWNED_SURVIVOR_PROPERTIES"

end
