(* ===== verification/Merge_Provenance.thy ===== *)
theory Merge_Provenance
  imports Source_Authority
begin

text \<open>
  What a merge does to trust: the authority, the contributors and the corroboration of a survivor
  after any number of absorptions, and the replay that recognises and reverses the merge's own
  writes.
\<close>

section \<open>Tiers and ceilings\<close>

lemma source_confidence_range:
  "3 / 10 \<le> source_confidence_for s" "source_confidence_for s \<le> SOURCE_CONFIDENCE_USER"
  unfolding source_confidence_for_def SOURCE_TIERS_def SOURCE_SUBSTRING_TIERS_def
  by (auto simp: tier_defs Let_def)

lemma foldl_min: "foldl min (a :: 'a :: linorder) xs = Min (insert a (set xs))"
proof (induction xs arbitrary: a)
  case (Cons x xs)
  have "foldl min a (x # xs) = Min (insert (min a x) (set xs))"
    by (simp add: Cons)
  also have "\<dots> = Min (insert a (set (x # xs)))"
    by (cases "set xs = {}") (simp_all add: min.assoc)
  finally show ?case .
qed simp

lemma authority_for_Min: "ss \<noteq> [] \<Longrightarrow> authority_for ss = Min (source_confidence_for ` set ss)"
  by (cases ss) (simp_all add: foldl_min)

lemma authority_for_le: "s \<in> set ss \<Longrightarrow> authority_for ss \<le> source_confidence_for s"
  by (subst authority_for_Min) auto

lemma authority_for_range: "0 \<le> authority_for ss" "authority_for ss \<le> SOURCE_CONFIDENCE_USER"
proof -
  show "0 \<le> authority_for ss"
    by (cases "ss = []")
       (auto simp: authority_for_Min tier_defs intro: order_trans [OF _ source_confidence_range(1)])
  show "authority_for ss \<le> SOURCE_CONFIDENCE_USER"
  proof (cases ss)
    case (Cons s ss')
    then have "authority_for ss \<le> source_confidence_for s"
      by (intro authority_for_le) simp
    then show ?thesis
      using source_confidence_range(2) by (rule order_trans)
  qed (simp add: tier_defs)
qed

lemma effective_authority_le: "effective_authority ss v \<le> authority_for ss"
  by (auto simp: effective_authority_def Let_def split: py_value.splits pyfloat.splits)

lemma effective_authority_nonneg: "0 \<le> effective_authority ss v"
  using authority_for_range(1) [of ss]
  by (auto simp: effective_authority_def Let_def split: py_value.splits pyfloat.splits)

lemma effective_authority_observed:
  "0 \<le> v \<Longrightarrow> v \<le> authority_for ss \<Longrightarrow> effective_authority ss (PFloat (Finite v)) = v"
  using authority_for_range(2) [of ss] by (simp add: effective_authority_def Let_def)

lemma node_authority_le_source:
  "s \<in> set (contributors_of rt n) \<Longrightarrow> node_authority rt n \<le> source_confidence_for s"
  unfolding node_authority_def by (rule order_trans [OF effective_authority_le authority_for_le])

section \<open>Contributor lists\<close>

definition clean_contributors :: "string list \<Rightarrow> bool" where
  "clean_contributors ss \<longleftrightarrow>
     distinct ss \<and> (\<forall>s\<in>set ss. strip s = s \<and> s \<noteq> [] \<and> s \<noteq> SYNTHETIC_PRIMARY_SOURCE)"

lemma contributors_of_clean: "clean_contributors (contributors_of rt n)"
  by (auto simp: clean_contributors_def contributors_of_def node_contributors_def
      normalize_contributors_def Let_def)

lemma contributors_of_written:
  assumes "clean_contributors ss" "dict_get ''sources'' n = PList (map PStr ss)"
  shows "contributors_of rt n = ss"
proof -
  have "map (strip \<circ> py_str rt \<circ> PStr) ss = ss"
    using assms(1) by (intro map_idI) (simp add: clean_contributors_def py_str_def)
  moreover have "filter (\<lambda>l. l \<noteq> []) ss = ss" "filter (\<lambda>s. s \<noteq> SYNTHETIC_PRIMARY_SOURCE) ss = ss"
    using assms(1) by (simp_all add: clean_contributors_def)
  ultimately show ?thesis
    using assms by (simp add: contributors_of_def node_contributors_def normalize_contributors_def
        clean_contributors_def comp_assoc)
qed

lemma merged_contributors_clean: "clean_contributors (merged_contributors rt s a)"
  using contributors_of_clean [of rt s] contributors_of_clean [of rt a]
  by (auto simp: clean_contributors_def merged_contributors_def Let_def)

lemma set_merged_contributors [simp]:
  "set (merged_contributors rt s a) = set (contributors_of rt s) \<union> set (contributors_of rt a)"
  by (auto simp: merged_contributors_def Let_def)

text \<open>The ceiling of the union, which the code takes again, is implied by the two inputs'.\<close>

lemma union_ceiling_redundant:
  "min (node_authority rt s) (node_authority rt a) \<le> authority_for (merged_contributors rt s a)"
proof (cases "merged_contributors rt s a = []")
  case True
  then have "contributors_of rt s = []"
    by (simp add: merged_contributors_def Let_def)
  then have "node_authority rt s \<le> authority_for (merged_contributors rt s a)"
    using True effective_authority_le [of "[]"] by (simp add: node_authority_def)
  then show ?thesis
    by (rule min.coboundedI1)
next
  case False
  have "min (node_authority rt s) (node_authority rt a) \<le> source_confidence_for x"
    if "x \<in> set (merged_contributors rt s a)" for x
    using that node_authority_le_source [of x rt s] node_authority_le_source [of x rt a]
    by (auto intro: min.coboundedI1 min.coboundedI2)
  then show ?thesis
    unfolding authority_for_Min [OF False] using False
    by (intro Min.boundedI) (auto simp del: set_merged_contributors)
qed

section \<open>What a merge writes\<close>

lemma replay_gets [simp]:
  "dict_get ''sources'' (replay_survivor_merge rt s a @ n) = PList (map PStr (merged_contributors rt s a))"
  "dict_get ''source'' (replay_survivor_merge rt s a @ n) = PStr (primary_source_for (merged_contributors rt s a))"
  "dict_get ''source_confidence'' (replay_survivor_merge rt s a @ n)
     = PFloat (Finite (min (node_authority rt s) (node_authority rt a)))"
  "dict_get ''corroboration'' (replay_survivor_merge rt s a @ n)
     = PInt (int (corroboration_for (merged_contributors rt s a)))"
  using union_ceiling_redundant [of rt s a]
  by (simp_all add: replay_survivor_merge_def derive_merged_provenance_def Let_def min_absorb1)

lemma replay_keys: "fst ` set (replay_survivor_merge rt s a) = set MERGE_OWNED_SURVIVOR_PROPERTIES"
  by (auto simp: replay_survivor_merge_def derive_merged_provenance_def Let_def
      MERGE_OWNED_SURVIVOR_PROPERTIES_def)

definition merged_into :: "py_runtime \<Rightarrow> py_dict \<Rightarrow> py_dict \<Rightarrow> py_dict" where
  "merged_into rt a s = replay_survivor_merge rt s a @ s"

lemma merged_into_owned:
  "p \<in> set MERGE_OWNED_SURVIVOR_PROPERTIES \<Longrightarrow>
     dict_get p (merged_into rt a s) = dict_get p (replay_survivor_merge rt s a)"
  by (simp add: merged_into_def dict_get_append replay_keys)

lemma merged_into_contributors: "contributors_of rt (merged_into rt a s) = merged_contributors rt s a"
  unfolding merged_into_def by (rule contributors_of_written [OF merged_contributors_clean]) simp

lemma merged_into_authority:
  "node_authority rt (merged_into rt a s) = min (node_authority rt s) (node_authority rt a)"
proof -
  have "0 \<le> min (node_authority rt s) (node_authority rt a)"
    by (simp add: node_authority_def effective_authority_nonneg)
  then show ?thesis
    using union_ceiling_redundant [of rt s a]
    by (simp add: node_authority_def [of _ "merged_into rt a s"] merged_into_contributors)
       (simp add: merged_into_def effective_authority_observed)
qed

lemma merged_into_corroboration:
  "dict_get ''corroboration'' (merged_into rt a s)
     = PInt (int (card (source_family ` set (contributors_of rt (merged_into rt a s)))))"
  unfolding merged_into_contributors by (simp add: merged_into_def corroboration_for_def)

lemma merged_into_stored:
  "dict_get ''source_confidence'' (merged_into rt a s)
     = PFloat (Finite (node_authority rt (merged_into rt a s)))"
  unfolding merged_into_authority by (simp add: merged_into_def)

lemma primary_source_in: "ss \<noteq> [] \<Longrightarrow> primary_source_for ss \<in> set ss"
proof (cases ss)
  case (Cons s ss')
  then show ?thesis
    using first_min_in [of "\<lambda>x. (source_confidence_for x, index_of x ss)" s ss']
    by (simp add: primary_source_for_def)
qed simp

lemma primary_source_ceiling: "source_confidence_for (primary_source_for ss) = authority_for ss"
proof (cases ss)
  case Nil
  have "source_confidence_for SYNTHETIC_PRIMARY_SOURCE = SOURCE_CONFIDENCE_AGENT"
    by code_simp
  then show ?thesis
    by (simp add: Nil primary_source_for_def)
next
  case (Cons s ss')
  define k where "k = (\<lambda>x. (source_confidence_for x, index_of x ss))"
  have eq: "primary_source_for ss = first_min k s ss'"
    by (simp add: Cons primary_source_for_def k_def)
  have "source_confidence_for (primary_source_for ss) \<le> source_confidence_for y" if "y \<in> set ss" for y
  proof -
    have "k (primary_source_for ss) \<le> k y"
      unfolding eq using that by (intro first_min_le) (simp add: Cons)
    then show ?thesis
      by (auto simp: k_def)
  qed
  then show ?thesis
    using primary_source_in [of ss] Cons
    by (subst authority_for_Min) (auto intro!: antisym Min_le)
qed

lemma fold_merged_into:
  "node_authority rt (fold (merged_into rt) as s) = Min (node_authority rt ` set (s # as))
   \<and> set (contributors_of rt (fold (merged_into rt) as s)) = (\<Union>n\<in>set (s # as). set (contributors_of rt n))"
proof (induction as rule: rev_induct)
  case (snoc a as)
  have "Min (node_authority rt ` set (s # as @ [a]))
        = min (Min (node_authority rt ` set (s # as))) (node_authority rt a)"
    by (simp add: insert_commute [of "node_authority rt s"] min.commute)
  with snoc show ?case
    by (auto simp: merged_into_authority merged_into_contributors)
qed simp

section \<open>Theorems\<close>

text \<open>
  C18: Any number of absorptions, at least one, in any order: the survivor's stored confidence is the
  least authority any input had and is read back as its authority, so no sequence of merges raises
  trust; its contributors are exactly the contributors of the inputs; and its corroboration is the
  number of distinct writer families among them, however many duplicates were absorbed.
\<close>

theorem merge_chain_derives_provenance:
  "let m = fold (merged_into rt) (a # as) s
   in node_authority rt m = Min (node_authority rt ` set (s # a # as))
    \<and> dict_get ''source_confidence'' m = PFloat (Finite (node_authority rt m))
    \<and> set (contributors_of rt m) = (\<Union>n\<in>set (s # a # as). set (contributors_of rt n))
    \<and> dict_get ''corroboration'' m = PInt (int (card (source_family ` set (contributors_of rt m))))"
proof -
  obtain as' a' where split: "a # as = as' @ [a']"
    by (cases "a # as" rule: rev_cases) auto
  have "dict_get ''source_confidence'' (fold (merged_into rt) (a # as) s)
          = PFloat (Finite (node_authority rt (fold (merged_into rt) (a # as) s)))
      \<and> dict_get ''corroboration'' (fold (merged_into rt) (a # as) s)
          = PInt (int (card (source_family ` set (contributors_of rt (fold (merged_into rt) (a # as) s)))))"
    unfolding split by (simp add: merged_into_stored merged_into_corroboration)
  then show ?thesis
    unfolding Let_def using fold_merged_into [of rt "a # as" s] by blast
qed

text \<open>
  The confidence a merge writes lies between 0 and 1, never exceeds what either node had or what
  any contributing label permits, and never exceeds the tier of the label written as the node's
  primary source.
\<close>

theorem merged_authority_bounded:
  "\<exists>q p ss. dict_get ''source_confidence'' (replay_survivor_merge rt s a) = PFloat (Finite q)
     \<and> dict_get ''source'' (replay_survivor_merge rt s a) = PStr p
     \<and> dict_get ''sources'' (replay_survivor_merge rt s a) = PList (map PStr ss)
     \<and> 0 \<le> q \<and> q \<le> SOURCE_CONFIDENCE_USER \<and> q \<le> node_authority rt s \<and> q \<le> node_authority rt a
     \<and> q \<le> source_confidence_for p \<and> list_all (\<lambda>l. q \<le> source_confidence_for l) ss
     \<and> (p \<in> set ss \<or> ss = [] \<and> p = SYNTHETIC_PRIMARY_SOURCE)"
proof -
  let ?ss = "merged_contributors rt s a"
  let ?q = "min (node_authority rt s) (node_authority rt a)"
  note gets = replay_gets [of rt s a "[]", simplified]
  have "0 \<le> ?q"
    by (simp add: node_authority_def effective_authority_nonneg)
  moreover have "?q \<le> SOURCE_CONFIDENCE_USER"
    using union_ceiling_redundant authority_for_range(2) by (rule order_trans)
  moreover have "?q \<le> source_confidence_for (primary_source_for ?ss)"
    unfolding primary_source_ceiling by (rule union_ceiling_redundant)
  moreover have "list_all (\<lambda>l. ?q \<le> source_confidence_for l) ?ss"
    using order_trans [OF union_ceiling_redundant authority_for_le] by (auto simp: list_all_iff)
  moreover have "primary_source_for ?ss \<in> set ?ss \<or> ?ss = [] \<and> primary_source_for ?ss = SYNTHETIC_PRIMARY_SOURCE"
    using primary_source_in [of ?ss] by (cases "?ss = []") (simp_all add: primary_source_for_def)
  ultimately show ?thesis
    by (intro exI [of _ ?q] exI [of _ "primary_source_for ?ss"] exI [of _ ?ss]) (simp add: gets)
qed

section \<open>Recognising and reversing the merge's own writes\<close>

lemma py_equal_simps:
  "py_equal PNone w \<longleftrightarrow> w = PNone" "py_equal (PStr t) w \<longleftrightarrow> w = PStr t"
  "py_equal (PInt i) w \<longleftrightarrow> py_number w = Some (Finite (of_int i))"
  "py_equal (PList (map PStr ss)) w \<longleftrightarrow> w = PList (map PStr ss)"
proof -
  show "py_equal PNone w \<longleftrightarrow> w = PNone" "py_equal (PStr t) w \<longleftrightarrow> w = PStr t"
    "py_equal (PInt i) w \<longleftrightarrow> py_number w = Some (Finite (of_int i))" for t w
    by (cases w; auto simp: py_equal.simps py_number_def)+
  then have "list_all2 py_equal (map PStr ss) ws \<longleftrightarrow> ws = map PStr ss" for ws
    by (induction ss arbitrary: ws) (auto simp: list_all2_Cons1)
  then show "py_equal (PList (map PStr ss)) w \<longleftrightarrow> w = PList (map PStr ss)"
    by (cases w) (auto simp: py_equal.simps py_number_def)
qed

lemma property_differs_eq_False:
  "property_differs rt k want got = Inr False \<longleftrightarrow>
     (if k = ''source_confidence'' then
        want = PNone \<and> got = PNone
        \<or> want \<noteq> PNone \<and> got \<noteq> PNone
          \<and> (\<exists>w f. py_float rt want = Inr w \<and> py_float rt got = Inr f \<and> \<not> differs_by_more (1 / 10 ^ 9) w f)
      else py_equal want got)"
  by (auto simp: property_differs_def)

lemma collect_differences_Nil:
  "collect_differences rt expected current ks = Inr [] \<longleftrightarrow>
     list_all (\<lambda>k. property_differs rt k (dict_get k expected) (dict_get k current) = Inr False) ks"
  by (induction ks) (auto split: if_splits)

lemma survivor_matches_iff:
  "survivor_matches_merge_output rt current s a = Inr (True, []) \<longleftrightarrow>
     list_all (\<lambda>k. property_differs rt k (dict_get k (replay_survivor_merge rt s a)) (dict_get k current)
                  = Inr False) MERGE_OWNED_SURVIVOR_PROPERTIES"
  by (auto simp: survivor_matches_merge_output_def collect_differences_Nil [symmetric])

lemma property_differs_self:
  "if k = ''source_confidence'' then \<exists>q. v = PFloat (Finite q) else py_equal v v \<Longrightarrow> property_differs rt k v v = Inr False"
  by (auto simp: property_differs_def py_float_def split: if_splits)

text \<open>A summary or content is a text or missing.\<close>

definition text_value :: "py_value \<Rightarrow> bool" where
  "text_value v = (case v of PNone \<Rightarrow> True | PStr _ \<Rightarrow> True | _ \<Rightarrow> False)"

definition text_node :: "py_dict \<Rightarrow> bool" where
  "text_node n \<longleftrightarrow> text_value (dict_get ''summary'' n) \<and> text_value (dict_get ''content'' n)"

lemma py_equal_text: "text_value v \<Longrightarrow> py_equal v w \<longleftrightarrow> w = v"
  by (cases v) (simp_all add: text_value_def py_equal_simps)

lemma replay_texts:
  assumes "text_node s" "text_node a"
  shows "text_node (replay_survivor_merge rt s a)"
proof -
  have "text_value (first_present v w)" if "text_value v" "text_value w" for v w
    using that by (simp add: first_present_def)
  then show ?thesis
    using assms by (simp add: text_node_def replay_survivor_merge_def Let_def)
qed

lemma replay_self_equal:
  assumes "text_node s" "text_node a" "k \<in> set MERGE_OWNED_SURVIVOR_PROPERTIES" "k \<noteq> ''source_confidence''"
  shows "py_equal (dict_get k (replay_survivor_merge rt s a)) (dict_get k (replay_survivor_merge rt s a))"
  using assms(3,4) replay_texts [OF assms(1,2), of rt] replay_gets [of rt s a "[]", simplified]
  by (auto simp: MERGE_OWNED_SURVIVOR_PROPERTIES_def text_node_def py_equal_text py_equal_simps py_number_def)

lemma confidence_accepted: "\<not> differs_by_more (1 / 10 ^ 9) (Finite q) f \<longleftrightarrow> f = NaN \<or> (\<exists>r. f = Finite r \<and> \<bar>q - r\<bar> \<le> 1 / 10 ^ 9)"
  by (cases f) auto

text \<open>
  C28: What the unmerge guard accepts. The survivor must hold the summary, content, source and sources the
  merge wrote, a corroboration that is the same number (an integer, an equal float or a bool), and a
  confidence that converts to a float within 1e-9 of the derived one or to NaN. Right after the merge
  it accepts, and writing back the survivor's recorded values then restores every property.
\<close>

theorem merge_recognised_and_reversed:
  assumes "text_node s" "text_node a"
  shows "survivor_matches_merge_output rt (merged_into rt a s) s a = Inr (True, [])
   \<and> dict_get k (restorable_survivor_properties s @ merged_into rt a s) = dict_get k s
   \<and> (survivor_matches_merge_output rt current s a = Inr (True, []) \<longleftrightarrow>
        list_all (\<lambda>p. dict_get p current = dict_get p (merged_into rt a s)) [''summary'', ''content'', ''source'', ''sources'']
        \<and> py_number (dict_get ''corroboration'' current) = py_number (dict_get ''corroboration'' (merged_into rt a s))
        \<and> dict_get ''source_confidence'' current \<noteq> PNone
        \<and> (\<exists>f. py_float rt (dict_get ''source_confidence'' current) = Inr f
             \<and> (f = NaN \<or> (\<exists>r. f = Finite r \<and> \<bar>min (node_authority rt s) (node_authority rt a) - r\<bar> \<le> 1 / 10 ^ 9))))"
proof (intro conjI)
  have conf: "dict_get ''source_confidence'' (replay_survivor_merge rt s a)
                = PFloat (Finite (min (node_authority rt s) (node_authority rt a)))"
    using replay_gets(3) [of rt s a "[]"] by simp
  have texts: "py_equal (dict_get p (replay_survivor_merge rt s a)) w \<longleftrightarrow> w = dict_get p (replay_survivor_merge rt s a)"
    if "p \<in> {''summary'', ''content''}" for p w
    using that replay_texts [OF assms, of rt] by (auto simp: text_node_def py_equal_text)
  note derived = replay_gets [of rt s a "[]", simplified]
  have accepts: "survivor_matches_merge_output rt c s a = Inr (True, []) \<longleftrightarrow>
        list_all (\<lambda>p. dict_get p c = dict_get p (replay_survivor_merge rt s a)) [''summary'', ''content'', ''source'', ''sources'']
        \<and> py_number (dict_get ''corroboration'' c) = py_number (dict_get ''corroboration'' (replay_survivor_merge rt s a))
        \<and> dict_get ''source_confidence'' c \<noteq> PNone
        \<and> (\<exists>f. py_float rt (dict_get ''source_confidence'' c) = Inr f
             \<and> (f = NaN \<or> (\<exists>r. f = Finite r \<and> \<bar>min (node_authority rt s) (node_authority rt a) - r\<bar> \<le> 1 / 10 ^ 9)))" for c
    unfolding survivor_matches_iff MERGE_OWNED_SURVIVOR_PROPERTIES_def confidence_accepted [symmetric]
    by (simp add: property_differs_eq_False conf texts derived py_equal_simps py_float_def [of rt "PFloat f" for f] py_number_def [of "PInt i" for i])
       (auto simp: conf)
  have same: "dict_get p (merged_into rt a s) = dict_get p (replay_survivor_merge rt s a)"
    if "p \<in> set MERGE_OWNED_SURVIVOR_PROPERTIES" for p
    by (rule merged_into_owned [OF that])
  note owned = same [unfolded MERGE_OWNED_SURVIVOR_PROPERTIES_def, simplified]
  show "survivor_matches_merge_output rt (merged_into rt a s) s a = Inr (True, [])"
    unfolding accepts by (simp add: merged_into_owned MERGE_OWNED_SURVIVOR_PROPERTIES_def conf py_float_def)
  have "fst ` set (restorable_survivor_properties s) = set MERGE_OWNED_SURVIVOR_PROPERTIES"
    by (force simp: restorable_survivor_properties_def)
  moreover have "dict_get p (restorable_survivor_properties s) = dict_get p s"
    if "p \<in> set MERGE_OWNED_SURVIVOR_PROPERTIES" for p
    using that by (auto simp: restorable_survivor_properties_def MERGE_OWNED_SURVIVOR_PROPERTIES_def)
  ultimately show "dict_get k (restorable_survivor_properties s @ merged_into rt a s) = dict_get k s"
    by (simp add: dict_get_append merged_into_def replay_keys)
  show "survivor_matches_merge_output rt current s a = Inr (True, []) \<longleftrightarrow>
        list_all (\<lambda>p. dict_get p current = dict_get p (merged_into rt a s)) [''summary'', ''content'', ''source'', ''sources'']
        \<and> py_number (dict_get ''corroboration'' current) = py_number (dict_get ''corroboration'' (merged_into rt a s))
        \<and> dict_get ''source_confidence'' current \<noteq> PNone
        \<and> (\<exists>f. py_float rt (dict_get ''source_confidence'' current) = Inr f
             \<and> (f = NaN \<or> (\<exists>r. f = Finite r \<and> \<bar>min (node_authority rt s) (node_authority rt a) - r\<bar> \<le> 1 / 10 ^ 9)))"
    unfolding accepts by (simp add: merged_into_owned MERGE_OWNED_SURVIVOR_PROPERTIES_def)
qed

end
