(* ===== verification/Merge_Eligibility.thy ===== *)
theory Merge_Eligibility
  imports Python_Values Namespace
begin

text \<open>
  When two entities may be merged: the policy of \<^verbatim>\<open>domain/merge_eligibility.py\<close>, the retention
  predicate of \<^verbatim>\<open>domain/retention.py\<close>, and the reads of \<^verbatim>\<open>infrastructure/correlation_queries.py\<close> that
  feed it. A Cypher fragment is a function of the row it filters; \<^verbatim>\<open>coalesce\<close> makes each of the
  ones below two-valued.
\<close>

section \<open>Rows\<close>

record retention_source =
  rs_user_flagged :: "bool option"
  rs_tenant :: tenant_row

record entity_row =
  er_uuid :: string
  er_name :: "string option"
  er_structure_role :: "string option"
  er_is_view :: "bool option"
  er_is_quantstate :: "bool option"
  er_view_kind :: "string option"
  er_is_self :: "bool option"
  er_entity_role :: "string option"
  er_self_tier :: "string option"
  er_tenant :: tenant_row
  er_freshness :: "string option"
  er_scope :: "string option"
  er_user_flagged :: "bool option"
  er_conflict_status :: "string option"
  er_retention_sources :: "retention_source list"

definition coalesce_false :: "bool option \<Rightarrow> bool" where
  "coalesce_false b = (case b of None \<Rightarrow> False | Some v \<Rightarrow> v)"

definition canonical_tenant :: "tenant_row \<Rightarrow> string" where
  "canonical_tenant t =
     (let raw = (case row_namespace t of
                   Some n \<Rightarrow> n
                 | None \<Rightarrow> (case row_group_id t of Some g \<Rightarrow> g | None \<Rightarrow> []))
      in if raw \<in> {[], ''default''} then ''default'' else raw)"

definition same_tenant :: "tenant_row \<Rightarrow> tenant_row \<Rightarrow> bool" where
  "same_tenant l r \<longleftrightarrow> canonical_tenant l = canonical_tenant r"

definition source_retention_protected :: "entity_row \<Rightarrow> bool" where
  "source_retention_protected n \<longleftrightarrow>
     list_ex (\<lambda>s. coalesce_false (rs_user_flagged s) \<and> same_tenant (rs_tenant s) (er_tenant n))
       (er_retention_sources n)"

definition destructive_retention_allowed :: "entity_row \<Rightarrow> bool" where
  "destructive_retention_allowed n \<longleftrightarrow>
     coalesce_false (er_user_flagged n) = False \<and> \<not> source_retention_protected n"

definition non_derived_view :: "entity_row \<Rightarrow> bool" where
  "non_derived_view n \<longleftrightarrow>
     \<not> coalesce_false (er_is_view n) \<and> \<not> coalesce_false (er_is_quantstate n) \<and> er_view_kind n = None"

text \<open>
  The name pattern. The fragment is a raw Python string, so the Cypher literal holds
  \<^verbatim>\<open>[\\/]\<close>, \<^verbatim>\<open>\\.\<close> and \<^verbatim>\<open>\b\<close>; in a Cypher literal a doubled backslash is one backslash and
  \<^verbatim>\<open>\b\<close> is the backspace character. The pattern that runs therefore asks, anywhere in a name
  without line breaks and without regard to case, for a slash or one of the extensions followed by
  a backspace or by the end of the name.
\<close>

definition PATH_TOKENS :: "string list" where
  "PATH_TOKENS = ''/'' # map (\<lambda>e. CHR ''.'' # e)
     [''py'', ''md'', ''txt'', ''json'', ''yaml'', ''yml'', ''ps1'', ''sh'', ''java'', ''ts'',
      ''tsx'', ''js'', ''sql'', ''env'', ''toml'', ''cfg'', ''ini'', ''gradle'', ''html'', ''css'',
      ''png'', ''jpg'', ''svg'']"

definition token_then_stop :: "string \<Rightarrow> string \<Rightarrow> bool" where
  "token_then_stop s t \<longleftrightarrow>
     starts_with t (lower s) \<and>
     (case drop (length t) s of [] \<Rightarrow> True | c # _ \<Rightarrow> c = char_of (8 :: nat))"

fun path_token_somewhere :: "string \<Rightarrow> bool" where
  "path_token_somewhere [] \<longleftrightarrow> False"
| "path_token_somewhere (c # s) \<longleftrightarrow>
     list_ex (token_then_stop (c # s)) PATH_TOKENS \<or> path_token_somewhere s"

definition path_shaped :: "string \<Rightarrow> bool" where
  "path_shaped name \<longleftrightarrow>
     (\<forall>c\<in>set name. c \<noteq> char_of (10 :: nat) \<and> c \<noteq> char_of (13 :: nat) \<and> c \<noteq> char_of (133 :: nat))
     \<and> path_token_somewhere name"

definition trimmed_role :: "entity_row \<Rightarrow> string" where
  "trimmed_role n = lower (strip (or_empty (er_entity_role n)))"

definition ineligible_role :: "entity_row \<Rightarrow> bool" where
  "ineligible_role n \<longleftrightarrow>
     er_structure_role n \<noteq> None \<or> \<not> non_derived_view n \<or> coalesce_false (er_is_self n)
     \<or> trimmed_role n = ''self'' \<or> trimmed_role n = ''inferred_self'' \<or> er_self_tier n \<noteq> None
     \<or> (case er_name n of None \<Rightarrow> False | Some name \<Rightarrow> path_shaped name)"

definition raw_namespace :: "entity_row \<Rightarrow> string" where
  "raw_namespace n =
     (case row_namespace (er_tenant n) of
        Some ns \<Rightarrow> ns
      | None \<Rightarrow> (case row_group_id (er_tenant n) of Some g \<Rightarrow> g | None \<Rightarrow> ''default''))"

section \<open>The policy\<close>

record node_signals =
  ns_uuid :: string
  ns_exists :: bool
  ns_ineligible_role :: bool
  ns_namespace :: string
  ns_freshness :: "string option"
  ns_scope :: "string option"
  ns_user_flagged :: bool
  ns_conflict_status :: "string option"
  ns_source_retention_protected :: bool

datatype reason_code =
    ELIGIBLE | NODE_MISSING | SAME_UUID | INELIGIBLE_ROLE | NAMESPACE_MISMATCH
  | NON_ACTIVE_FRESHNESS | PROMOTED_SCOPE | USER_FLAGGED | SOURCE_RETENTION_PROTECTED
  | PROTECTED_CONFLICT

record merge_eligibility =
  me_allowed :: bool
  me_reason_code :: reason_code
  me_diagnostics :: py_dict

definition MERGEABLE_FRESHNESS :: "string list" where
  "MERGEABLE_FRESHNESS = ['''', ''ACTIVE'']"

definition PROTECTED_CONFLICT_STATES :: "string list" where
  "PROTECTED_CONFLICT_STATES = [''pending_llm_review'', ''unresolved'']"

definition veto :: "reason_code \<Rightarrow> py_dict \<Rightarrow> merge_eligibility" where
  "veto reason diag = \<lparr>me_allowed = False, me_reason_code = reason, me_diagnostics = diag\<rparr>"

definition uuids_where :: "(node_signals \<Rightarrow> bool) \<Rightarrow> node_signals list \<Rightarrow> py_value" where
  "uuids_where p ns = PList (map (PStr \<circ> ns_uuid) (filter p ns))"

definition opt_value :: "string option \<Rightarrow> py_value" where
  "opt_value v = (case v of None \<Rightarrow> PNone | Some s \<Rightarrow> PStr s)"

definition bad_freshness :: "node_signals \<Rightarrow> bool" where
  "bad_freshness n \<longleftrightarrow> upper (strip (or_empty (ns_freshness n))) \<notin> set MERGEABLE_FRESHNESS"

definition promoted_scope :: "node_signals \<Rightarrow> bool" where
  "promoted_scope n \<longleftrightarrow> upper (strip (or_empty (ns_scope n))) = ''PROMOTED''"

definition conflicted :: "node_signals \<Rightarrow> bool" where
  "conflicted n \<longleftrightarrow> lower (strip (or_empty (ns_conflict_status n))) \<in> set PROTECTED_CONFLICT_STATES"

definition evaluate :: "node_signals \<Rightarrow> node_signals \<Rightarrow> merge_eligibility" where
  "evaluate survivor absorbed =
     (let both = [survivor, absorbed] in
      if list_ex (\<lambda>n. \<not> ns_exists n) both then
        veto NODE_MISSING [(''missing'', uuids_where (\<lambda>n. \<not> ns_exists n) both)]
      else if ns_uuid survivor = ns_uuid absorbed then
        veto SAME_UUID [(''uuid'', PStr (ns_uuid survivor))]
      else if list_ex ns_ineligible_role both then
        veto INELIGIBLE_ROLE [(''ineligible'', uuids_where ns_ineligible_role both)]
      else if normalize_namespace (Some (ns_namespace survivor))
              \<noteq> normalize_namespace (Some (ns_namespace absorbed)) then
        veto NAMESPACE_MISMATCH
          [(''survivor_namespace'', PStr (normalize_namespace (Some (ns_namespace survivor)))),
           (''absorbed_namespace'', PStr (normalize_namespace (Some (ns_namespace absorbed))))]
      else if list_ex bad_freshness both then
        veto NON_ACTIVE_FRESHNESS
          [(''offenders'', PList (map (\<lambda>n. PList [PStr (ns_uuid n), opt_value (ns_freshness n)])
                                     (filter bad_freshness both)))]
      else if list_ex promoted_scope both then
        veto PROMOTED_SCOPE [(''promoted'', uuids_where promoted_scope both)]
      else if list_ex ns_user_flagged both then
        veto USER_FLAGGED [(''flagged'', uuids_where ns_user_flagged both)]
      else if list_ex ns_source_retention_protected both then
        veto SOURCE_RETENTION_PROTECTED [(''protected'', uuids_where ns_source_retention_protected both)]
      else if list_ex conflicted both then
        veto PROTECTED_CONFLICT
          [(''conflicted'', PList (map (\<lambda>n. PList [PStr (ns_uuid n), opt_value (ns_conflict_status n)])
                                      (filter conflicted both)))]
      else \<lparr>me_allowed = True, me_reason_code = ELIGIBLE, me_diagnostics = []\<rparr>)"

section \<open>The reads and the mutation predicate\<close>

definition signals :: "entity_row list \<Rightarrow> string \<Rightarrow> node_signals" where
  "signals rows uuid =
     (case filter (\<lambda>r. er_uuid r = uuid) rows of
        [] \<Rightarrow> \<lparr>ns_uuid = uuid, ns_exists = False, ns_ineligible_role = False, ns_namespace = [],
              ns_freshness = None, ns_scope = None, ns_user_flagged = False,
              ns_conflict_status = None, ns_source_retention_protected = False\<rparr>
      | rs \<Rightarrow> (let r = List.last rs in
              \<lparr>ns_uuid = uuid, ns_exists = True, ns_ineligible_role = ineligible_role r,
               ns_namespace = raw_namespace r, ns_freshness = er_freshness r, ns_scope = er_scope r,
               ns_user_flagged = coalesce_false (er_user_flagged r),
               ns_conflict_status = er_conflict_status r,
               ns_source_retention_protected = source_retention_protected r\<rparr>))"

definition evaluate_merge_eligibility ::
  "entity_row list \<Rightarrow> string \<Rightarrow> string \<Rightarrow> merge_eligibility" where
  "evaluate_merge_eligibility rows survivor_uuid absorbed_uuid =
     (let matched = filter (\<lambda>r. er_uuid r = survivor_uuid \<or> er_uuid r = absorbed_uuid) rows
      in evaluate (signals matched survivor_uuid) (signals matched absorbed_uuid))"

definition mutable_node :: "entity_row \<Rightarrow> bool" where
  "mutable_node n \<longleftrightarrow>
     coalesce_false (er_is_self n) = False
     \<and> trimmed_role n \<noteq> ''self'' \<and> trimmed_role n \<noteq> ''inferred_self'' \<and> er_self_tier n = None
     \<and> upper (strip (case er_freshness n of None \<Rightarrow> ''ACTIVE'' | Some f \<Rightarrow> f)) \<in> set MERGEABLE_FRESHNESS
     \<and> upper (strip (or_empty (er_scope n))) \<noteq> ''PROMOTED''
     \<and> coalesce_false (er_user_flagged n) = False
     \<and> \<not> source_retention_protected n
     \<and> lower (strip (or_empty (er_conflict_status n))) \<notin> set PROTECTED_CONFLICT_STATES"

definition mutable_eligibility :: "entity_row \<Rightarrow> entity_row \<Rightarrow> bool" where
  "mutable_eligibility survivor absorbed \<longleftrightarrow>
     mutable_node survivor \<and> mutable_node absorbed \<and> raw_namespace survivor = raw_namespace absorbed"

definition check_ineligible_node_veto :: "entity_row list \<Rightarrow> string \<Rightarrow> string \<Rightarrow> bool" where
  "check_ineligible_node_veto rows uuid_a uuid_b \<longleftrightarrow>
     list_ex (\<lambda>n. (er_uuid n = uuid_a \<or> er_uuid n = uuid_b) \<and> ineligible_role n) rows"

section \<open>Theorems\<close>

lemma upper_active: "upper (strip ''ACTIVE'') \<in> set MERGEABLE_FRESHNESS"
  by code_simp

lemma upper_blank: "upper (strip []) \<in> set MERGEABLE_FRESHNESS"
  by code_simp

lemma evaluate_allowed:
  "me_allowed (evaluate s a) \<longleftrightarrow>
     list_all (\<lambda>n. ns_exists n \<and> \<not> ns_ineligible_role n \<and> \<not> bad_freshness n \<and> \<not> promoted_scope n
                \<and> \<not> ns_user_flagged n \<and> \<not> ns_source_retention_protected n \<and> \<not> conflicted n) [s, a]
     \<and> ns_uuid s \<noteq> ns_uuid a
     \<and> normalize_namespace (Some (ns_namespace s)) = normalize_namespace (Some (ns_namespace a))"
  by (auto simp: evaluate_def Let_def veto_def)

text \<open>
  A pair is allowed exactly when no veto applies to either node, the reason is \<^verbatim>\<open>ELIGIBLE\<close> exactly
  then, and which of the two is the survivor does not matter to the decision.
\<close>

theorem eligibility_decision_exact:
  "(me_allowed (evaluate s a) \<longleftrightarrow>
      list_all (\<lambda>n. ns_exists n \<and> \<not> ns_ineligible_role n \<and> \<not> bad_freshness n \<and> \<not> promoted_scope n
                 \<and> \<not> ns_user_flagged n \<and> \<not> ns_source_retention_protected n \<and> \<not> conflicted n) [s, a]
      \<and> ns_uuid s \<noteq> ns_uuid a
      \<and> normalize_namespace (Some (ns_namespace s)) = normalize_namespace (Some (ns_namespace a)))
   \<and> (me_reason_code (evaluate s a) = ELIGIBLE \<longleftrightarrow> me_allowed (evaluate s a))
   \<and> me_allowed (evaluate a s) = me_allowed (evaluate s a)
   \<and> me_reason_code (evaluate a s) = me_reason_code (evaluate s a)"
proof (intro conjI)
  show "me_reason_code (evaluate s a) = ELIGIBLE \<longleftrightarrow> me_allowed (evaluate s a)"
    by (auto simp: evaluate_def Let_def veto_def)
  show "me_allowed (evaluate a s) = me_allowed (evaluate s a)"
    by (auto simp: evaluate_allowed)
  show "me_reason_code (evaluate a s) = me_reason_code (evaluate s a)"
    by (auto simp: evaluate_def Let_def veto_def)
qed (rule evaluate_allowed)

lemma mutable_node_signals:
  assumes "ns_freshness sg = er_freshness n" "ns_scope sg = er_scope n"
    "ns_user_flagged sg = coalesce_false (er_user_flagged n)"
    "ns_conflict_status sg = er_conflict_status n"
    "ns_source_retention_protected sg = source_retention_protected n"
  shows "mutable_node n \<and> \<not> ineligible_role n \<longleftrightarrow>
    \<not> ineligible_role n \<and> \<not> bad_freshness sg \<and> \<not> promoted_scope sg \<and> \<not> ns_user_flagged sg
    \<and> \<not> ns_source_retention_protected sg \<and> \<not> conflicted sg"
  using assms upper_active upper_blank
  by (auto simp: mutable_node_def ineligible_role_def bad_freshness_def promoted_scope_def conflicted_def
      or_empty_def split: option.splits)

lemma signals_of_node:
  assumes "filter (\<lambda>r. er_uuid r = er_uuid n) rows = [n]"
  shows "signals rows (er_uuid n) =
    \<lparr>ns_uuid = er_uuid n, ns_exists = True, ns_ineligible_role = ineligible_role n,
     ns_namespace = raw_namespace n, ns_freshness = er_freshness n, ns_scope = er_scope n,
     ns_user_flagged = coalesce_false (er_user_flagged n),
     ns_conflict_status = er_conflict_status n,
     ns_source_retention_protected = source_retention_protected n\<rparr>"
  using assms by (simp add: signals_def Let_def)

lemma mutation_predicate_iff:
  assumes "filter (\<lambda>r. er_uuid r = er_uuid s) rows = [s]"
    and "filter (\<lambda>r. er_uuid r = er_uuid a) rows = [a]"
  shows "(er_uuid s \<noteq> er_uuid a \<and> \<not> ineligible_role s \<and> \<not> ineligible_role a \<and> mutable_eligibility s a)
    \<longleftrightarrow> me_allowed (evaluate_merge_eligibility rows (er_uuid s) (er_uuid a))
        \<and> raw_namespace s = raw_namespace a"
proof -
  let ?m = "filter (\<lambda>r. er_uuid r = er_uuid s \<or> er_uuid r = er_uuid a) rows"
  have "filter (\<lambda>r. er_uuid r = er_uuid s) ?m = [s]" "filter (\<lambda>r. er_uuid r = er_uuid a) ?m = [a]"
    using assms by (simp_all add: conj_disj_distribR conj_commute cong: conj_cong)
  then have sig: "signals ?m (er_uuid s) = signals rows (er_uuid s)"
      "signals ?m (er_uuid a) = signals rows (er_uuid a)"
    using assms by (simp_all add: signals_of_node)
  have "me_allowed (evaluate_merge_eligibility rows (er_uuid s) (er_uuid a)) \<longleftrightarrow>
        (mutable_node s \<and> \<not> ineligible_role s) \<and> (mutable_node a \<and> \<not> ineligible_role a)
        \<and> er_uuid s \<noteq> er_uuid a
        \<and> normalize_namespace (Some (raw_namespace s)) = normalize_namespace (Some (raw_namespace a))"
    unfolding evaluate_merge_eligibility_def Let_def sig evaluate_allowed
      mutable_node_signals [of "signals rows (er_uuid s)" s, simplified signals_of_node [OF assms(1)], simplified]
      mutable_node_signals [of "signals rows (er_uuid a)" a, simplified signals_of_node [OF assms(2)], simplified]
      signals_of_node [OF assms(1)] signals_of_node [OF assms(2)]
    by auto
  then show ?thesis
    by (auto simp: mutable_eligibility_def)
qed

text \<open>
  The two forms of the policy are one rule: for two different nodes that are each the only node of
  their uuid, the predicate inside the mutation together with the role check holds exactly when the
  preflight allows the pair and the stored namespaces are the same string. So the mutation never
  admits a pair the preflight refuses, and it refuses an allowed pair only over two spellings of one
  namespace.
\<close>

theorem mutation_predicate_matches_preflight:
  assumes "filter (\<lambda>r. er_uuid r = er_uuid s) rows = [s]"
    and "filter (\<lambda>r. er_uuid r = er_uuid a) rows = [a]"
  shows "(er_uuid s \<noteq> er_uuid a \<and> \<not> ineligible_role s \<and> \<not> ineligible_role a \<and> mutable_eligibility s a)
    \<longleftrightarrow> me_allowed (evaluate_merge_eligibility rows (er_uuid s) (er_uuid a))
        \<and> raw_namespace s = raw_namespace a"
  by (rule mutation_predicate_iff [OF assms])

end
