(* ===== verification/Operation_Owner.thy ===== *)
theory Operation_Owner
  imports Python_Values
begin

text \<open>
  Who is executing an operation, \<^verbatim>\<open>infrastructure/operation_owner.py\<close>: how long a claim lasts, how a
  process names itself, and when a row may be taken from its writer. An instant is the number of
  microseconds of an aware UTC datetime. The journal stores instants as text: \<^verbatim>\<open>isoformat\<close> and
  \<^verbatim>\<open>fromisoformat\<close> are the fields of \<open>clock_text\<close>, and SQLite compares stored instants as text. What
  the process reads from its host, the host name, the table of process ids and the deployment's
  assertions, is the record \<open>host_env\<close>.
\<close>

section \<open>The length of a claim\<close>

definition TRANSIENT_RETRIES :: nat where
  "TRANSIENT_RETRIES = 3"

definition TRANSIENT_BACKOFF_BASE :: rat where
  "TRANSIENT_BACKOFF_BASE = 1 / 2"

definition SAGA_MUTATION_TIMEOUT_S :: rat where
  "SAGA_MUTATION_TIMEOUT_S = 30"

definition CONNECTION_ACQUISITION_TIMEOUT_S :: rat where
  "CONNECTION_ACQUISITION_TIMEOUT_S = 60"

definition mutation_window_seconds :: "rat \<Rightarrow> int \<Rightarrow> rat" where
  "mutation_window_seconds timeout_s statements =
     (let per_attempt = CONNECTION_ACQUISITION_TIMEOUT_S + timeout_s;
          backoff = sum_list (map (\<lambda>n. TRANSIENT_BACKOFF_BASE * 2 ^ n) [0..<TRANSIENT_RETRIES]);
          per_statement = per_attempt * of_nat TRANSIENT_RETRIES + backoff
      in per_statement * of_int (max 1 statements))"

definition LEASE_SAFETY_MARGIN_S :: rat where
  "LEASE_SAFETY_MARGIN_S = 30"

definition SAGA_STATEMENT_COUNTS :: "(string \<times> int) list" where
  "SAGA_STATEMENT_COUNTS =
     [(''ENTITY_MERGE'', 1), (''ENTITY_UNMERGE'', 1), (''LEGACY_ENTITY_UNMERGE'', 1),
      (''ENTITY_DELETE'', 1), (''SESSION_TTL_DELETE'', 1), (''METRIC_WRITE'', 2)]"

definition UNKNOWN_KIND_STATEMENTS :: int where
  "UNKNOWN_KIND_STATEMENTS = fold max (map snd SAGA_STATEMENT_COUNTS) 1"

definition RENEW_DIVISOR :: rat where
  "RENEW_DIVISOR = 3"

definition statements_for_kind :: "string \<Rightarrow> int" where
  "statements_for_kind kind =
     (case map_of SAGA_STATEMENT_COUNTS kind of Some n \<Rightarrow> n | None \<Rightarrow> UNKNOWN_KIND_STATEMENTS)"

definition mutation_window_for_kind :: "string \<Rightarrow> rat" where
  "mutation_window_for_kind kind =
     mutation_window_seconds SAGA_MUTATION_TIMEOUT_S (statements_for_kind kind)"

definition lease_seconds_for :: "int \<Rightarrow> int" where
  "lease_seconds_for statements =
     (let window = mutation_window_seconds SAGA_MUTATION_TIMEOUT_S statements;
          naive = window + LEASE_SAFETY_MARGIN_S
      in \<lceil>RENEW_DIVISOR / (RENEW_DIVISOR - 1) * naive\<rceil>)"

definition lease_seconds_for_kind :: "string \<Rightarrow> int" where
  "lease_seconds_for_kind kind = lease_seconds_for (statements_for_kind kind)"

definition DEFAULT_LEASE_SECONDS :: int where
  "DEFAULT_LEASE_SECONDS = lease_seconds_for 1"

section \<open>Tokens and instants\<close>

record clock_text =
  ct_iso :: "int \<Rightarrow> string"
  ct_parse :: "string \<Rightarrow> int option"

record host_env =
  he_instance_id :: string
  he_hostname :: string
  he_pid :: int
  he_nonce :: string
  he_pid_alive :: "int \<Rightarrow> bool"
  he_pid_namespace_env :: string
  he_gate_aware_env :: string

definition instance_label :: "host_env \<Rightarrow> string" where
  "instance_label env =
     (let l = strip (he_instance_id env) in if l = [] then ''instance-unset'' else l)"

definition process_owner_token :: "host_env \<Rightarrow> string" where
  "process_owner_token env =
     join '':'' [instance_label env, he_hostname env, str_of_int (he_pid env), he_nonce env]"

definition lease_expiry :: "int \<Rightarrow> int \<Rightarrow> int" where
  "lease_expiry seconds now = now + max 1 seconds * 1000000"

definition owner_parts :: "string \<Rightarrow> (string \<times> int) option" where
  "owner_parts token =
     (case split_char CHR '':'' token of
        [_, host, pid, _] \<Rightarrow> map_option (Pair host) (int_of_string pid)
      | _ \<Rightarrow> None)"

definition TRUTHY :: "string list" where
  "TRUTHY = [''1'', ''true'', ''yes'', ''on'']"

definition host_pid_namespace_is_verifiable :: "host_env \<Rightarrow> bool" where
  "host_pid_namespace_is_verifiable env \<longleftrightarrow> lower (strip (he_pid_namespace_env env)) \<in> set TRUTHY"

definition all_saga_writers_are_gate_aware :: "host_env \<Rightarrow> bool" where
  "all_saga_writers_are_gate_aware env \<longleftrightarrow> lower (strip (he_gate_aware_env env)) \<in> set TRUTHY"

text \<open>\<^verbatim>\<open>pid_alive\<close>: no process has a non-positive id; for the others the platform answers.\<close>

definition pid_alive :: "host_env \<Rightarrow> int \<Rightarrow> bool" where
  "pid_alive env pid \<longleftrightarrow> 0 < pid \<and> he_pid_alive env pid"

section \<open>Ownership\<close>

record claim_columns =
  cc_owner_token :: "string option"
  cc_owner_lease_expires_at :: "string option"
  cc_owner_death_attested_by :: "string option"
  cc_owner_death_attested_for_token :: "string option"

datatype ownership = LIVE_OWNER | OWNER_UNKNOWN | ABANDONED

definition parse_instant :: "clock_text \<Rightarrow> string option \<Rightarrow> int option" where
  "parse_instant ct value = (if truthy value then ct_parse ct (or_empty value) else None)"

definition classify_ownership ::
  "clock_text \<Rightarrow> host_env \<Rightarrow> int \<Rightarrow> claim_columns \<Rightarrow> ownership" where
  "classify_ownership ct env now row =
     (case cc_owner_token row of
        None \<Rightarrow> OWNER_UNKNOWN
      | Some token \<Rightarrow>
          if strip token = [] then OWNER_UNKNOWN
          else case parse_instant ct (cc_owner_lease_expires_at row) of
            None \<Rightarrow> OWNER_UNKNOWN
          | Some expires_at \<Rightarrow>
              if now < expires_at then LIVE_OWNER
              else if strip (or_empty (cc_owner_death_attested_by row)) \<noteq> []
                      \<and> strip (or_empty (cc_owner_death_attested_for_token row)) = token
              then ABANDONED
              else case owner_parts token of
                None \<Rightarrow> OWNER_UNKNOWN
              | Some (owner_host, owner_pid) \<Rightarrow>
                  if owner_host \<noteq> he_hostname env then OWNER_UNKNOWN
                  else if \<not> host_pid_namespace_is_verifiable env then OWNER_UNKNOWN
                  else if pid_alive env owner_pid then OWNER_UNKNOWN
                  else ABANDONED)"

definition is_own_claim :: "host_env \<Rightarrow> claim_columns \<Rightarrow> bool" where
  "is_own_claim env row \<longleftrightarrow> cc_owner_token row = Some (process_owner_token env)"

section \<open>What a verdict rests on\<close>

text \<open>The evidence the design asks for, apart from the clock.\<close>

definition death_evidence :: "host_env \<Rightarrow> string \<Rightarrow> claim_columns \<Rightarrow> bool" where
  "death_evidence env token row \<longleftrightarrow>
     strip (or_empty (cc_owner_death_attested_by row)) \<noteq> []
       \<and> strip (or_empty (cc_owner_death_attested_for_token row)) = token
     \<or> (\<exists>pid. owner_parts token = Some (he_hostname env, pid)
          \<and> host_pid_namespace_is_verifiable env \<and> \<not> pid_alive env pid)"

lemma abandoned_iff:
  "classify_ownership ct env now row = ABANDONED \<longleftrightarrow>
     (\<exists>token expires_at. cc_owner_token row = Some token \<and> strip token \<noteq> []
        \<and> parse_instant ct (cc_owner_lease_expires_at row) = Some expires_at
        \<and> expires_at \<le> now \<and> death_evidence env token row)"
  by (auto simp: classify_ownership_def death_evidence_def split: option.splits if_splits)

lemma live_owner_iff:
  "classify_ownership ct env now row = LIVE_OWNER \<longleftrightarrow>
     (\<exists>token expires_at. cc_owner_token row = Some token \<and> strip token \<noteq> []
        \<and> parse_instant ct (cc_owner_lease_expires_at row) = Some expires_at \<and> now < expires_at)"
  by (auto simp: classify_ownership_def split: option.splits if_splits)

text \<open>
  A claim of any kind outlives one renewal interval, the whole mutation window of that kind and the
  safety margin together: the inequality the lease formula is solved from.
\<close>

theorem lease_outlives_window:
  "of_int (lease_seconds_for_kind kind) / RENEW_DIVISOR + mutation_window_for_kind kind + LEASE_SAFETY_MARGIN_S
     \<le> of_int (lease_seconds_for_kind kind)"
proof -
  let ?w = "mutation_window_for_kind kind + LEASE_SAFETY_MARGIN_S"
  have "RENEW_DIVISOR / (RENEW_DIVISOR - 1) * ?w \<le> of_int (lease_seconds_for_kind kind)"
    unfolding lease_seconds_for_kind_def lease_seconds_for_def mutation_window_for_kind_def Let_def
    by (rule le_of_int_ceiling)
  then show ?thesis
    by (simp add: RENEW_DIVISOR_def field_simps)
qed

end
