(* ===== verification/Operation_Journal.thy ===== *)
theory Operation_Journal
  imports Operation_Owner
begin

text \<open>
  The saga journal: the two tables of \<^verbatim>\<open>infrastructure/graph_operations*.py\<close>, with the unique indexes
  SQLite enforces, and every operation that writes them. Each operation is one transaction: it
  returns the tables after it and its result, and on a raise the tables are the ones before.
  \<^verbatim>\<open>json.loads\<close> is an argument of the operations that read a request.
\<close>

section \<open>Rows and tables\<close>

datatype op_state = PREPARED | COMMITTED | NEEDS_REVIEW | REVERSED | FAILED

definition OPERATION_KINDS :: "string list" where
  "OPERATION_KINDS =
     [''METRIC_WRITE'', ''METRIC_MIGRATE'', ''METRIC_REVERSE'', ''ENTITY_MERGE'', ''ENTITY_UNMERGE'',
      ''LEGACY_ENTITY_UNMERGE'', ''ENTITY_DELETE'', ''SESSION_TTL_DELETE'', ''EXPLICIT_ERASURE'']"

definition PARTICIPANT_PAIR_KINDS :: "string list" where
  "PARTICIPANT_PAIR_KINDS = [''ENTITY_MERGE'', ''ENTITY_UNMERGE'', ''LEGACY_ENTITY_UNMERGE'']"

definition PARTICIPANT_DELETE_KINDS :: "string list" where
  "PARTICIPANT_DELETE_KINDS = [''ENTITY_DELETE'', ''SESSION_TTL_DELETE'', ''EXPLICIT_ERASURE'']"

definition PARTICIPANT_KINDS :: "string list" where
  "PARTICIPANT_KINDS = PARTICIPANT_PAIR_KINDS @ PARTICIPANT_DELETE_KINDS"

definition LOCK_RELEASE_STATES :: "op_state list" where
  "LOCK_RELEASE_STATES = [COMMITTED, REVERSED, FAILED]"

definition UNRESOLVED_STATES :: "op_state list" where
  "UNRESOLVED_STATES = [PREPARED, NEEDS_REVIEW]"

record op_row =
  op_id :: string
  batch_id :: "string option"
  operation_kind :: string
  target_uuid :: "string option"
  target_key :: "string option"
  request_json :: string
  before_snapshot_json :: "string option"
  expected_after_sha256 :: "string option"
  op_state :: op_state
  attempt_count :: nat
  last_error :: "string option"
  created_at :: string
  updated_at :: string
  committed_at :: "string option"
  reverses_op_id :: "string option"
  owner_token :: "string option"
  owner_heartbeat_at :: "string option"
  owner_lease_expires_at :: "string option"
  owner_death_attested_by :: "string option"
  owner_death_attested_at :: "string option"
  owner_death_attested_for_token :: "string option"
  resolved_by_token :: "string option"

record lock_row =
  lk_entity_uuid :: string
  lk_op_id :: string
  lk_operation_kind :: string
  lk_created_at :: string

datatype gate_expiry = Epoch_Seconds rat | Unreadable_Expiry

datatype gate_table =
    No_Such_Table
  | Unreadable_Table
  | Lease_Row "(string \<times> gate_expiry) option"

record journal =
  j_ops :: "op_row list"
  j_locks :: "lock_row list"

datatype journal_error =
    Unknown_Kind
  | Saga_Writes_Paused
  | Key_Fenced op_state
  | Participant_Fenced string string
  | Batch_Enqueued
  | Integrity_Error
  | No_Operation
  | Stale_Transition
  | Unnamed_Attestation

type_synonym 'a journal_result = "journal \<times> (journal_error + 'a)"

definition unresolved :: "op_row \<Rightarrow> bool" where
  "unresolved r \<longleftrightarrow> op_state r \<in> set UNRESOLVED_STATES"

section \<open>Participants\<close>

text \<open>
  The values of a request are read as Python reads them; \<^verbatim>\<open>targets\<close> is a value that can be iterated,
  which is how every coordinator writes it.
\<close>

definition py_truthy :: "py_value \<Rightarrow> bool" where
  "py_truthy v =
     (case v of PNone \<Rightarrow> False | PBool b \<Rightarrow> b | PInt i \<Rightarrow> i \<noteq> 0 | PFloat f \<Rightarrow> f \<noteq> Finite 0
      | PStr s \<Rightarrow> s \<noteq> [] | PList vs \<Rightarrow> vs \<noteq> [] | PMap d \<Rightarrow> d \<noteq> [])"

definition list_of_value :: "py_value \<Rightarrow> py_value list" where
  "list_of_value v = (case v of PList vs \<Rightarrow> vs | PMap d \<Rightarrow> map (PStr \<circ> fst) d
                      | PStr s \<Rightarrow> map (\<lambda>c. PStr [c]) s | _ \<Rightarrow> [])"

definition participant_uuids :: "py_runtime \<Rightarrow> string \<Rightarrow> py_dict \<Rightarrow> string list" where
  "participant_uuids rt kind request =
     (if kind \<in> set PARTICIPANT_PAIR_KINDS then
        map (py_str rt) (filter py_truthy [dict_get ''survivor_uuid'' request, dict_get ''absorbed_uuid'' request])
      else if kind \<in> set PARTICIPANT_DELETE_KINDS then
        dedup (map (py_str rt) (filter py_truthy (list_of_value (dict_get ''targets'' request))))
      else [])"

definition participants_from_request_json ::
  "py_runtime \<Rightarrow> (string \<Rightarrow> py_value option) \<Rightarrow> string \<Rightarrow> string \<Rightarrow> string list" where
  "participants_from_request_json rt loads kind request =
     (if kind \<notin> set PARTICIPANT_KINDS \<or> request = [] then []
      else case loads request of
        Some (PMap d) \<Rightarrow> participant_uuids rt kind d
      | _ \<Rightarrow> [])"

section \<open>PREPARE\<close>

definition gate_open :: "rat \<Rightarrow> gate_table \<Rightarrow> bool" where
  "gate_open epoch gate =
     (case gate of
        No_Such_Table \<Rightarrow> True
      | Unreadable_Table \<Rightarrow> False
      | Lease_Row None \<Rightarrow> True
      | Lease_Row (Some (_, Unreadable_Expiry)) \<Rightarrow> False
      | Lease_Row (Some (_, Epoch_Seconds e)) \<Rightarrow> e \<le> epoch)"

text \<open>The three unique indexes on the operations table; a null column is equal to nothing.\<close>

definition row_conflict :: "op_row \<Rightarrow> op_row \<Rightarrow> bool" where
  "row_conflict r q \<longleftrightarrow>
     op_id r = op_id q
     \<or> operation_kind r = operation_kind q \<and> batch_id r \<noteq> None \<and> batch_id r = batch_id q
       \<and> target_uuid r \<noteq> None \<and> target_uuid r = target_uuid q
     \<or> operation_kind r = operation_kind q \<and> target_key r \<noteq> None \<and> target_key r = target_key q
       \<and> unresolved r \<and> unresolved q"

fun insert_locks :: "lock_row list \<Rightarrow> lock_row list \<Rightarrow> lock_row list option" where
  "insert_locks [] locks = Some locks"
| "insert_locks (l # ls) locks =
     (if lk_entity_uuid l \<in> lk_entity_uuid ` set locks then None
      else insert_locks ls (locks @ [l]))"

definition classify_conflict :: "op_row \<Rightarrow> string list \<Rightarrow> journal \<Rightarrow> journal_error" where
  "classify_conflict r participants j =
     (case filter (\<lambda>q. target_key r \<noteq> None \<and> operation_kind q = operation_kind r
                     \<and> target_key q = target_key r \<and> op_id q \<noteq> op_id r \<and> unresolved q) (j_ops j) of
        q # _ \<Rightarrow> Key_Fenced (op_state q)
      | [] \<Rightarrow>
          (case filter (\<lambda>(u, l). lk_entity_uuid l = u \<and> lk_op_id l \<noteq> op_id r)
                  (List.product participants (j_locks j)) of
             (u, l) # _ \<Rightarrow> Participant_Fenced u (lk_op_id l)
           | [] \<Rightarrow>
               if batch_id r \<noteq> None \<and> target_uuid r \<noteq> None
                  \<and> list_ex (\<lambda>q. operation_kind q = operation_kind r \<and> batch_id q = batch_id r
                       \<and> target_uuid q = target_uuid r \<and> op_id q \<noteq> op_id r) (j_ops j)
               then Batch_Enqueued else Integrity_Error))"

record prepare_args =
  pa_operation_kind :: string
  pa_request_json :: string
  pa_target_uuid :: "string option"
  pa_target_key :: "string option"
  pa_batch_id :: "string option"
  pa_before_snapshot_json :: "string option"
  pa_expected_after_sha256 :: "string option"
  pa_reverses_op_id :: "string option"
  pa_op_id :: string
  pa_owner_token :: string

definition prepared_row :: "clock_text \<Rightarrow> int \<Rightarrow> prepare_args \<Rightarrow> op_row" where
  "prepared_row ct now a =
     \<lparr>op_id = pa_op_id a, batch_id = pa_batch_id a, operation_kind = pa_operation_kind a,
      target_uuid = pa_target_uuid a, target_key = pa_target_key a,
      request_json = pa_request_json a, before_snapshot_json = pa_before_snapshot_json a,
      expected_after_sha256 = pa_expected_after_sha256 a, op_state = PREPARED, attempt_count = 0,
      last_error = None, created_at = ct_iso ct now, updated_at = ct_iso ct now,
      committed_at = None, reverses_op_id = pa_reverses_op_id a,
      owner_token = Some (pa_owner_token a), owner_heartbeat_at = Some (ct_iso ct now),
      owner_lease_expires_at =
        Some (ct_iso ct (lease_expiry (lease_seconds_for_kind (pa_operation_kind a)) now)),
      owner_death_attested_by = None, owner_death_attested_at = None,
      owner_death_attested_for_token = None, resolved_by_token = None\<rparr>"

definition participant_locks :: "clock_text \<Rightarrow> int \<Rightarrow> prepare_args \<Rightarrow> string list \<Rightarrow> lock_row list" where
  "participant_locks ct now a participants =
     map (\<lambda>u. \<lparr>lk_entity_uuid = u, lk_op_id = pa_op_id a, lk_operation_kind = pa_operation_kind a,
               lk_created_at = ct_iso ct now\<rparr>) participants"

definition prepare ::
  "py_runtime \<Rightarrow> (string \<Rightarrow> py_value option) \<Rightarrow> clock_text \<Rightarrow> gate_table \<Rightarrow> rat \<Rightarrow> int \<Rightarrow> prepare_args
    \<Rightarrow> journal \<Rightarrow> string journal_result" where
  "prepare rt loads ct gate epoch now a j =
     (if pa_operation_kind a \<notin> set OPERATION_KINDS then (j, Inl Unknown_Kind)
      else if \<not> gate_open epoch gate then (j, Inl Saga_Writes_Paused)
      else
        (let participants = participants_from_request_json rt loads (pa_operation_kind a) (pa_request_json a);
             row = prepared_row ct now a
         in if list_ex (row_conflict row) (j_ops j) then (j, Inl (classify_conflict row participants j))
            else case insert_locks (participant_locks ct now a participants) (j_locks j) of
              None \<Rightarrow> (j, Inl (classify_conflict row participants j))
            | Some locks \<Rightarrow> (\<lparr>j_ops = j_ops j @ [row], j_locks = locks\<rparr>, Inr (pa_op_id a))))"

text \<open>The lock rows \<^verbatim>\<open>_ensure_ready\<close> adds at process start for unresolved rows that have none.\<close>

definition backfill_participant_locks ::
  "py_runtime \<Rightarrow> (string \<Rightarrow> py_value option) \<Rightarrow> string \<Rightarrow> journal \<Rightarrow> journal" where
  "backfill_participant_locks rt loads now_text j =
     (let wanted = concat (map (\<lambda>r. map (\<lambda>u. \<lparr>lk_entity_uuid = u, lk_op_id = op_id r,
                        lk_operation_kind = operation_kind r, lk_created_at = now_text\<rparr>)
                      (participants_from_request_json rt loads (operation_kind r) (request_json r)))
                    (filter (\<lambda>r. unresolved r \<and> operation_kind r \<in> set PARTICIPANT_KINDS) (j_ops j)))
      in j\<lparr>j_locks := fold (\<lambda>l ls. if lk_entity_uuid l \<in> lk_entity_uuid ` set ls then ls else ls @ [l])
                        wanted (j_locks j)\<rparr>)"

section \<open>Transitions\<close>

record transition_args =
  ta_op_id :: string
  ta_to_state :: op_state
  ta_allowed_from :: "op_state list"
  ta_set_committed_at :: bool
  ta_last_error :: "string option"
  ta_owner_token :: "string option"

definition transition_applies :: "transition_args \<Rightarrow> op_row \<Rightarrow> bool" where
  "transition_applies t r \<longleftrightarrow>
     op_id r = ta_op_id t \<and> op_state r \<in> set (ta_allowed_from t)
     \<and> (ta_owner_token t = None \<or> op_state r \<noteq> PREPARED \<or> owner_token r = None
        \<or> owner_token r = ta_owner_token t)"

definition transition_row :: "string \<Rightarrow> transition_args \<Rightarrow> op_row \<Rightarrow> op_row" where
  "transition_row now t r =
     r\<lparr>op_state := ta_to_state t, updated_at := now,
       committed_at := (if ta_set_committed_at t then Some now else committed_at r),
       last_error := (if ta_last_error t \<noteq> None then ta_last_error t else last_error r),
       resolved_by_token := (if ta_owner_token t \<noteq> None then ta_owner_token t else resolved_by_token r),
       owner_token := (if op_state r = PREPARED then None else owner_token r),
       owner_heartbeat_at := (if op_state r = PREPARED then None else owner_heartbeat_at r),
       owner_lease_expires_at := (if op_state r = PREPARED then None else owner_lease_expires_at r)\<rparr>"

definition update_ops :: "(op_row \<Rightarrow> bool) \<Rightarrow> (op_row \<Rightarrow> op_row) \<Rightarrow> op_row list \<Rightarrow> op_row list" where
  "update_ops p f rows = map (\<lambda>r. if p r then f r else r) rows"

definition get_op :: "string \<Rightarrow> journal \<Rightarrow> op_row option" where
  "get_op oid j = find (\<lambda>r. op_id r = oid) (j_ops j)"

definition transition :: "string \<Rightarrow> transition_args \<Rightarrow> journal \<Rightarrow> unit journal_result" where
  "transition now t j =
     (if list_ex (transition_applies t) (j_ops j) then
        (\<lparr>j_ops = update_ops (transition_applies t) (transition_row now t) (j_ops j),
          j_locks = (if ta_to_state t \<in> set LOCK_RELEASE_STATES
                     then filter (\<lambda>l. lk_op_id l \<noteq> ta_op_id t) (j_locks j) else j_locks j)\<rparr>, Inr ())
      else case get_op (ta_op_id t) j of
        None \<Rightarrow> (j, Inl No_Operation)
      | Some r \<Rightarrow>
          if op_state r = ta_to_state t then
            (if ta_to_state t = COMMITTED \<and> ta_owner_token t \<noteq> None \<and> resolved_by_token r \<noteq> None
                \<and> resolved_by_token r \<noteq> ta_owner_token t
             then (j, Inl Stale_Transition) else (j, Inr ()))
          else (j, Inl Stale_Transition))"

definition mark_committed :: "string \<Rightarrow> string option \<Rightarrow> string \<Rightarrow> journal \<Rightarrow> unit journal_result" where
  "mark_committed oid token now =
     transition now \<lparr>ta_op_id = oid, ta_to_state = COMMITTED, ta_allowed_from = [PREPARED],
       ta_set_committed_at = True, ta_last_error = None, ta_owner_token = token\<rparr>"

definition mark_needs_review ::
  "string \<Rightarrow> string option \<Rightarrow> string option \<Rightarrow> string \<Rightarrow> journal \<Rightarrow> unit journal_result" where
  "mark_needs_review oid observed_error token now =
     transition now \<lparr>ta_op_id = oid, ta_to_state = NEEDS_REVIEW, ta_allowed_from = [PREPARED],
       ta_set_committed_at = False, ta_last_error = observed_error, ta_owner_token = token\<rparr>"

definition mark_reversed :: "string \<Rightarrow> string \<Rightarrow> journal \<Rightarrow> unit journal_result" where
  "mark_reversed oid now =
     transition now \<lparr>ta_op_id = oid, ta_to_state = REVERSED, ta_allowed_from = [COMMITTED],
       ta_set_committed_at = False, ta_last_error = None, ta_owner_token = None\<rparr>"

definition mark_failed ::
  "string \<Rightarrow> string option \<Rightarrow> string option \<Rightarrow> string \<Rightarrow> journal \<Rightarrow> unit journal_result" where
  "mark_failed oid reason token now =
     transition now \<lparr>ta_op_id = oid, ta_to_state = FAILED, ta_allowed_from = [PREPARED],
       ta_set_committed_at = False, ta_last_error = reason, ta_owner_token = token\<rparr>"

definition clear_needs_review :: "string \<Rightarrow> op_state \<Rightarrow> string \<Rightarrow> journal \<Rightarrow> unit journal_result" where
  "clear_needs_review oid to_state now j =
     (if to_state = NEEDS_REVIEW then (j, Inr ())
      else transition now \<lparr>ta_op_id = oid, ta_to_state = to_state, ta_allowed_from = [NEEDS_REVIEW],
             ta_set_committed_at = False, ta_last_error = None, ta_owner_token = None\<rparr> j)"

definition record_attempt ::
  "string \<Rightarrow> string option \<Rightarrow> string option \<Rightarrow> string \<Rightarrow> journal \<Rightarrow> bool journal_result" where
  "record_attempt oid error token now j =
     (let attemptable = (\<lambda>r. op_id r = oid \<and> op_state r = PREPARED
            \<and> (token = None \<or> owner_token r = None \<or> owner_token r = token))
      in if list_ex attemptable (j_ops j) then
           (j\<lparr>j_ops := update_ops attemptable
               (\<lambda>r. r\<lparr>attempt_count := Suc (attempt_count r), last_error := error, updated_at := now\<rparr>)
               (j_ops j)\<rparr>, Inr True)
         else if get_op oid j = None then (j, Inl No_Operation)
         else (j, Inr False))"

section \<open>Ownership\<close>

definition claim_columns_of :: "op_row \<Rightarrow> claim_columns" where
  "claim_columns_of r =
     \<lparr>cc_owner_token = owner_token r, cc_owner_lease_expires_at = owner_lease_expires_at r,
      cc_owner_death_attested_by = owner_death_attested_by r,
      cc_owner_death_attested_for_token = owner_death_attested_for_token r\<rparr>"

definition renew_owner_heartbeat ::
  "clock_text \<Rightarrow> string \<Rightarrow> int \<Rightarrow> string \<Rightarrow> int \<Rightarrow> journal \<Rightarrow> journal \<times> bool" where
  "renew_owner_heartbeat ct oid seconds token now j =
     (let mine = (\<lambda>r. op_id r = oid \<and> op_state r = PREPARED \<and> owner_token r = Some token)
      in (j\<lparr>j_ops := update_ops mine
             (\<lambda>r. r\<lparr>owner_heartbeat_at := Some (ct_iso ct now),
                    owner_lease_expires_at := Some (ct_iso ct (lease_expiry seconds now)),
                    owner_death_attested_by := None, owner_death_attested_at := None,
                    owner_death_attested_for_token := None\<rparr>) (j_ops j)\<rparr>,
          list_ex mine (j_ops j)))"

definition text_at_most :: "string option \<Rightarrow> string \<Rightarrow> bool" where
  "text_at_most v t = (case v of None \<Rightarrow> False | Some s \<Rightarrow> s \<le> t)"

definition claim_abandoned_operation ::
  "clock_text \<Rightarrow> host_env \<Rightarrow> string \<Rightarrow> string \<Rightarrow> int \<Rightarrow> journal \<Rightarrow> journal \<times> bool" where
  "claim_abandoned_operation ct env oid token now j =
     (case get_op oid j of
        None \<Rightarrow> (j, False)
      | Some r \<Rightarrow>
          if op_state r \<noteq> PREPARED then (j, False)
          else if classify_ownership ct env now (claim_columns_of r) \<noteq> ABANDONED then (j, False)
          else
            (let stale = (\<lambda>q. op_id q = oid \<and> op_state q = PREPARED \<and> owner_token q \<noteq> None
                     \<and> owner_token q \<noteq> Some token
                     \<and> text_at_most (owner_lease_expires_at q) (ct_iso ct now))
             in (j\<lparr>j_ops := update_ops stale
                    (\<lambda>q. q\<lparr>owner_token := Some token, owner_heartbeat_at := Some (ct_iso ct now),
                           owner_lease_expires_at := Some (ct_iso ct
                             (lease_expiry (lease_seconds_for_kind (operation_kind r)) now)),
                           updated_at := ct_iso ct now, owner_death_attested_by := None,
                           owner_death_attested_at := None,
                           owner_death_attested_for_token := None\<rparr>) (j_ops j)\<rparr>,
                 list_ex stale (j_ops j))))"

definition attest_owner_death ::
  "clock_text \<Rightarrow> string \<Rightarrow> string \<Rightarrow> int \<Rightarrow> journal \<Rightarrow> bool journal_result" where
  "attest_owner_death ct oid attested_by now j =
     (if strip attested_by = [] then (j, Inl Unnamed_Attestation)
      else
        (let stale = (\<lambda>q. op_id q = oid \<and> op_state q = PREPARED \<and> owner_token q \<noteq> None
                 \<and> text_at_most (owner_lease_expires_at q) (ct_iso ct now))
         in (j\<lparr>j_ops := update_ops stale
                (\<lambda>q. q\<lparr>owner_death_attested_by := Some (strip attested_by),
                       owner_death_attested_at := Some (ct_iso ct now), updated_at := ct_iso ct now,
                       owner_death_attested_for_token := owner_token q\<rparr>) (j_ops j)\<rparr>,
             Inr (list_ex stale (j_ops j)))))"

end
