(* ===== verification/Journal_Invariants.thy ===== *)
theory Journal_Invariants
  imports Operation_Journal
begin

text \<open>
  What the journal guarantees whatever its clients do: the participant fence, the frozen columns
  and the legal moves, as invariants of the step relation whose steps are the journal's own
  operations with any arguments.
\<close>

section \<open>Steps\<close>

inductive auto_step ::
  "py_runtime \<Rightarrow> (string \<Rightarrow> py_value option) \<Rightarrow> journal \<Rightarrow> journal \<Rightarrow> bool" for rt loads where
  prepare_step: "prepare rt loads ct gate epoch now a j = (j', res) \<Longrightarrow> auto_step rt loads j j'"
| commit_step: "mark_committed oid token t j = (j', res) \<Longrightarrow> auto_step rt loads j j'"
| review_step: "mark_needs_review oid err token t j = (j', res) \<Longrightarrow> auto_step rt loads j j'"
| reverse_step: "mark_reversed oid t j = (j', res) \<Longrightarrow> auto_step rt loads j j'"
| fail_step: "mark_failed oid err token t j = (j', res) \<Longrightarrow> auto_step rt loads j j'"
| attempt_step: "record_attempt oid err token t j = (j', ok) \<Longrightarrow> auto_step rt loads j j'"
| renew_step: "renew_owner_heartbeat ct oid secs tok now j = (j', held) \<Longrightarrow> auto_step rt loads j j'"
| claim_step: "claim_abandoned_operation ct env oid tok now j = (j', held) \<Longrightarrow> auto_step rt loads j j'"
| attest_step: "attest_owner_death ct oid who now j = (j', ok) \<Longrightarrow> auto_step rt loads j j'"
| backfill_step: "backfill_participant_locks rt loads t j = j' \<Longrightarrow> auto_step rt loads j j'"

inductive journal_step ::
  "py_runtime \<Rightarrow> (string \<Rightarrow> py_value option) \<Rightarrow> journal \<Rightarrow> journal \<Rightarrow> bool" for rt loads where
  automatic: "auto_step rt loads j j' \<Longrightarrow> journal_step rt loads j j'"
| operator: "clear_needs_review oid to_state t j = (j', res) \<Longrightarrow> journal_step rt loads j j'"

definition empty_journal :: journal where
  "empty_journal = \<lparr>j_ops = [], j_locks = []\<rparr>"

definition reachable_journal ::
  "py_runtime \<Rightarrow> (string \<Rightarrow> py_value option) \<Rightarrow> journal \<Rightarrow> bool" where
  "reachable_journal rt loads j \<longleftrightarrow> (journal_step rt loads)\<^sup>*\<^sup>* empty_journal j"

section \<open>The invariant\<close>

definition participants :: "py_runtime \<Rightarrow> (string \<Rightarrow> py_value option) \<Rightarrow> op_row \<Rightarrow> string list" where
  "participants rt loads r = participants_from_request_json rt loads (operation_kind r) (request_json r)"

definition locked_for ::
  "py_runtime \<Rightarrow> (string \<Rightarrow> py_value option) \<Rightarrow> lock_row \<Rightarrow> op_row \<Rightarrow> bool" where
  "locked_for rt loads l r \<longleftrightarrow>
     lk_op_id l = op_id r \<and> unresolved r \<and> lk_operation_kind l = operation_kind r
     \<and> lk_entity_uuid l \<in> set (participants rt loads r)"

definition journal_ok :: "py_runtime \<Rightarrow> (string \<Rightarrow> py_value option) \<Rightarrow> journal \<Rightarrow> bool" where
  "journal_ok rt loads j \<longleftrightarrow>
     distinct (map op_id (j_ops j))
     \<and> (\<forall>r\<in>set (j_ops j). \<forall>q\<in>set (j_ops j). op_id r \<noteq> op_id q \<longrightarrow> \<not> row_conflict r q)
     \<and> distinct (map lk_entity_uuid (j_locks j))
     \<and> (\<forall>l\<in>set (j_locks j). \<exists>r\<in>set (j_ops j). locked_for rt loads l r)
     \<and> (\<forall>r\<in>set (j_ops j). unresolved r \<longrightarrow> (\<forall>u\<in>set (participants rt loads r).
          \<exists>l\<in>set (j_locks j). lk_entity_uuid l = u \<and> lk_op_id l = op_id r))"

lemma journal_okD:
  assumes "journal_ok rt loads j"
  shows "distinct (map op_id (j_ops j))"
    "r \<in> set (j_ops j) \<Longrightarrow> q \<in> set (j_ops j) \<Longrightarrow> op_id r \<noteq> op_id q \<Longrightarrow> \<not> row_conflict r q"
    "distinct (map lk_entity_uuid (j_locks j))"
    "l \<in> set (j_locks j) \<Longrightarrow> \<exists>r\<in>set (j_ops j). locked_for rt loads l r"
    "r \<in> set (j_ops j) \<Longrightarrow> unresolved r \<Longrightarrow> u \<in> set (participants rt loads r) \<Longrightarrow>
       \<exists>l\<in>set (j_locks j). lk_entity_uuid l = u \<and> lk_op_id l = op_id r"
  using assms unfolding journal_ok_def by blast+

lemma journal_op_unique:
  assumes "journal_ok rt loads j" "r \<in> set (j_ops j)" "q \<in> set (j_ops j)" "op_id r = op_id q"
  shows "r = q"
  using journal_okD(1) [OF assms(1)] assms(2-) by (auto simp: distinct_map inj_on_def)

text \<open>The columns no operation rewrites.\<close>

definition frozen where
  "frozen (r :: op_row) = (op_id r, batch_id r, operation_kind r, target_uuid r, target_key r, request_json r,
     before_snapshot_json r, expected_after_sha256 r, created_at r, reverses_op_id r)"

lemma frozen_simps:
  assumes "frozen r' = frozen r"
  shows "op_id r' = op_id r" "operation_kind r' = operation_kind r" "request_json r' = request_json r"
    "before_snapshot_json r' = before_snapshot_json r" "participants rt loads r' = participants rt loads r"
    "expected_after_sha256 r' = expected_after_sha256 r"
  using assms by (simp_all add: frozen_def participants_def)

lemma row_conflict_mono:
  assumes "row_conflict r' q'" "frozen r' = frozen r" "frozen q' = frozen q"
    "unresolved r' \<Longrightarrow> unresolved r" "unresolved q' \<Longrightarrow> unresolved q"
  shows "row_conflict r q"
  using assms by (auto simp: row_conflict_def frozen_def)

lemma update_ops_ids:
  "(\<And>r. p r \<Longrightarrow> frozen (f r) = frozen r) \<Longrightarrow> map op_id (update_ops p f rows) = map op_id rows"
  by (auto simp: update_ops_def frozen_def)

lemma in_update_ops:
  assumes "r' \<in> set (update_ops p f rows)"
  obtains r where "r \<in> set rows" "r' = (if p r then f r else r)"
  using assms by (auto simp: update_ops_def)

text \<open>
  An update that keeps the frozen columns and resolves no row, and a set of locks that keeps the
  locks of the rows still unresolved, preserve the invariant.
\<close>

lemma update_preserves:
  assumes ok: "journal_ok rt loads j"
    and frozen: "\<And>r. p r \<Longrightarrow> frozen (f r) = frozen r"
    and reopen: "\<And>r. p r \<Longrightarrow> unresolved (f r) \<Longrightarrow> unresolved r"
    and locks: "\<And>l. l \<in> set locks \<longleftrightarrow>
      l \<in> set (j_locks j) \<and> (\<exists>r\<in>set (j_ops j). op_id r = lk_op_id l \<and> (p r \<longrightarrow> unresolved (f r)))"
    and distinct: "distinct (map lk_entity_uuid locks)"
  shows "journal_ok rt loads \<lparr>j_ops = update_ops p f (j_ops j), j_locks = locks\<rparr>"
proof -
  define g where "g = (\<lambda>r. if p r then f r else r)"
  have fz: "frozen (g r) = frozen r" for r
    using frozen by (simp add: g_def)
  have bk: "unresolved (g r) \<Longrightarrow> unresolved r" for r
    using reopen by (auto simp: g_def split: if_splits)
  have rows: "set (update_ops p f (j_ops j)) = g ` set (j_ops j)"
    by (simp add: update_ops_def g_def)
  have "distinct (map op_id (update_ops p f (j_ops j)))"
    using journal_okD(1) [OF ok] by (simp add: update_ops_ids frozen)
  moreover have "\<not> row_conflict (g r) (g q)"
    if "r \<in> set (j_ops j)" "q \<in> set (j_ops j)" "op_id (g r) \<noteq> op_id (g q)" for r q
  proof
    assume "row_conflict (g r) (g q)"
    then have "row_conflict r q"
      by (rule row_conflict_mono [OF _ fz fz bk bk])
    moreover have "op_id r \<noteq> op_id q"
      using that(3) frozen_simps(1) [OF fz [of r]] frozen_simps(1) [OF fz [of q]] by simp
    ultimately show False
      using journal_okD(2) [OF ok that(1,2)] by blast
  qed
  moreover have "\<exists>r\<in>set (j_ops j). locked_for rt loads l (g r)" if l: "l \<in> set locks" for l
  proof -
    obtain r where r: "r \<in> set (j_ops j)" "op_id r = lk_op_id l" "p r \<longrightarrow> unresolved (f r)"
      using iffD1 [OF locks l] by blast
    obtain q where q: "q \<in> set (j_ops j)" "locked_for rt loads l q"
      using journal_okD(4) [OF ok conjunct1 [OF iffD1 [OF locks l]]] by blast
    then have "q = r"
      using journal_op_unique [OF ok] r by (auto simp: locked_for_def)
    then have "locked_for rt loads l (g r)"
      using q(2) r(3) frozen_simps [OF fz [of r]] by (auto simp: locked_for_def g_def split: if_splits)
    then show ?thesis
      using r(1) by blast
  qed
  moreover have "\<exists>l\<in>set locks. lk_entity_uuid l = u \<and> lk_op_id l = op_id (g r)"
    if r: "r \<in> set (j_ops j)" "unresolved (g r)" "u \<in> set (participants rt loads (g r))" for r u
  proof -
    have "unresolved r" "u \<in> set (participants rt loads r)"
      using bk [OF r(2)] r(3) frozen_simps(5) [OF fz [of r]] by simp_all
    then obtain l where l: "l \<in> set (j_locks j)" "lk_entity_uuid l = u" "lk_op_id l = op_id r"
      using journal_okD(5) [OF ok r(1)] by blast
    have "p r \<longrightarrow> unresolved (f r)"
      using r(2) by (simp add: g_def split: if_splits)
    then have "l \<in> set locks"
      unfolding locks using l(1,3) r(1) by force
    then show ?thesis
      using l frozen_simps(1) [OF fz [of r]] by auto
  qed
  ultimately show ?thesis
    unfolding journal_ok_def journal.simps rows by (simp add: distinct)
qed

section \<open>The contract of an in-place update\<close>

text \<open>
  Heartbeats, claims, attestations and attempts rewrite some rows without moving them to another
  state. The contract is the interface; each operation provides it.
\<close>

locale in_place_update =
  fixes p :: "op_row \<Rightarrow> bool" and f :: "op_row \<Rightarrow> op_row"
  assumes keeps_frozen: "p r \<Longrightarrow> frozen (f r) = frozen r"
    and keeps_state: "p r \<Longrightarrow> op_state (f r) = op_state r"
begin

lemma ok:
  assumes "journal_ok rt loads j"
  shows "journal_ok rt loads (j\<lparr>j_ops := update_ops p f (j_ops j)\<rparr>)"
proof -
  have "journal_ok rt loads \<lparr>j_ops = update_ops p f (j_ops j), j_locks = j_locks j\<rparr>"
  proof (rule update_preserves [OF assms keeps_frozen])
    fix l
    show "l \<in> set (j_locks j) \<longleftrightarrow> l \<in> set (j_locks j)
        \<and> (\<exists>r\<in>set (j_ops j). op_id r = lk_op_id l \<and> (p r \<longrightarrow> unresolved (f r)))"
      using journal_okD(4) [OF assms, of l] keeps_state by (fastforce simp: locked_for_def unresolved_def)
    show "distinct (map lk_entity_uuid (j_locks j))"
      by (rule journal_okD(3) [OF assms])
  qed (simp_all add: unresolved_def keeps_state)
  then show ?thesis
    by (cases j) simp
qed

lemma rows:
  "r' \<in> set (update_ops p f rows) \<Longrightarrow> \<exists>r\<in>set rows. frozen r' = frozen r \<and> op_state r' = op_state r"
  by (erule in_update_ops) (auto simp: keeps_frozen keeps_state split: if_splits)

end

interpretation attempted: in_place_update p
  "\<lambda>r. r\<lparr>attempt_count := Suc (attempt_count r), last_error := error, updated_at := now\<rparr>"
  for p error now
  by unfold_locales (simp_all add: frozen_def)

interpretation renewed: in_place_update p
  "\<lambda>r. r\<lparr>owner_heartbeat_at := hb, owner_lease_expires_at := ex, owner_death_attested_by := None,
         owner_death_attested_at := None, owner_death_attested_for_token := None\<rparr>"
  for p hb ex
  by unfold_locales (simp_all add: frozen_def)

interpretation taken: in_place_update p
  "\<lambda>q. q\<lparr>owner_token := tok, owner_heartbeat_at := hb, owner_lease_expires_at := ex,
         updated_at := now, owner_death_attested_by := None, owner_death_attested_at := None,
         owner_death_attested_for_token := None\<rparr>"
  for p tok hb ex now
  by unfold_locales (simp_all add: frozen_def)

interpretation attested: in_place_update p
  "\<lambda>q. q\<lparr>owner_death_attested_by := who, owner_death_attested_at := since, updated_at := now,
         owner_death_attested_for_token := owner_token q\<rparr>"
  for p who since now
  by unfold_locales (simp_all add: frozen_def)

section \<open>Every operation keeps the invariant\<close>

definition reopens_nothing :: "transition_args \<Rightarrow> bool" where
  "reopens_nothing t \<longleftrightarrow>
     ta_to_state t \<in> set UNRESOLVED_STATES \<longrightarrow> set (ta_allowed_from t) \<subseteq> set UNRESOLVED_STATES"

lemma released_or_unresolved: "s \<in> set LOCK_RELEASE_STATES \<longleftrightarrow> s \<notin> set UNRESOLVED_STATES"
  by (cases s) (simp_all add: LOCK_RELEASE_STATES_def UNRESOLVED_STATES_def)

lemma transition_row_simps [simp]:
  "frozen (transition_row now t r) = frozen r" "op_state (transition_row now t r) = ta_to_state t"
  by (simp_all add: transition_row_def frozen_def)

lemma transition_ok:
  assumes ok: "journal_ok rt loads j" and legal: "reopens_nothing t"
    and run: "transition now t j = (j', res)"
  shows "journal_ok rt loads j'"
proof (cases "list_ex (transition_applies t) (j_ops j)")
  case True
  let ?locks = "if ta_to_state t \<in> set LOCK_RELEASE_STATES
                then filter (\<lambda>l. lk_op_id l \<noteq> ta_op_id t) (j_locks j) else j_locks j"
  have "journal_ok rt loads
    \<lparr>j_ops = update_ops (transition_applies t) (transition_row now t) (j_ops j), j_locks = ?locks\<rparr>"
  proof (rule update_preserves [OF ok])
    show "unresolved (transition_row now t r) \<Longrightarrow> transition_applies t r \<Longrightarrow> unresolved r" for r
      using legal by (auto simp: unresolved_def reopens_nothing_def transition_applies_def)
    show "l \<in> set ?locks \<longleftrightarrow> l \<in> set (j_locks j) \<and> (\<exists>r\<in>set (j_ops j). op_id r = lk_op_id l
        \<and> (transition_applies t r \<longrightarrow> unresolved (transition_row now t r)))" for l
    proof (cases "ta_to_state t \<in> set LOCK_RELEASE_STATES")
      case True
      then have gone: "\<not> unresolved (transition_row now t r)" for r
        by (simp add: unresolved_def released_or_unresolved)
      obtain q where q: "q \<in> set (j_ops j)" "transition_applies t q" "op_id q = ta_op_id t"
        using \<open>list_ex (transition_applies t) (j_ops j)\<close> by (auto simp: list_ex_iff transition_applies_def)
      have "(\<exists>r\<in>set (j_ops j). op_id r = lk_op_id l \<and> \<not> transition_applies t r) \<longleftrightarrow> lk_op_id l \<noteq> ta_op_id t"
        if l: "l \<in> set (j_locks j)"
      proof -
        have "transition_applies t r" if "r \<in> set (j_ops j)" "op_id r = ta_op_id t" for r
          using journal_op_unique [OF ok q(1) that(1)] q that(2) by simp
        moreover have "\<not> transition_applies t r" if "op_id r \<noteq> ta_op_id t" for r
          using that by (simp add: transition_applies_def)
        moreover obtain r where "r \<in> set (j_ops j)" "op_id r = lk_op_id l"
          using journal_okD(4) [OF ok l] by (auto simp: locked_for_def)
        ultimately show ?thesis
          by metis
      qed
      then show ?thesis
        unfolding if_P [OF True] set_filter mem_Collect_eq using gone by blast
    next
      case False
      then have "unresolved (transition_row now t r)" for r
        by (simp add: unresolved_def released_or_unresolved)
      then show ?thesis
        using False journal_okD(4) [OF ok, of l] by (force simp: locked_for_def)
    qed
    show "distinct (map lk_entity_uuid ?locks)"
      using journal_okD(3) [OF ok] by (simp add: distinct_map_filter)
  qed simp
  then show ?thesis
    using run True by (auto simp: transition_def)
next
  case False
  then show ?thesis
    using run ok by (auto simp: transition_def split: option.splits if_splits)
qed

lemma insert_locks_Some:
  "insert_locks new old = Some locks \<Longrightarrow> distinct (map lk_entity_uuid old) \<Longrightarrow>
     locks = old @ new \<and> distinct (map lk_entity_uuid locks)"
proof (induction new old rule: insert_locks.induct)
  case (2 l ls old)
  then have "locks = (old @ [l]) @ ls \<and> distinct (map lk_entity_uuid locks)"
    by (intro 2) (auto split: if_splits)
  then show ?case
    by (metis append.assoc append_Cons append_Nil)
qed simp

lemma prepared_row_simps:
  "op_id (prepared_row ct now a) = pa_op_id a" "op_state (prepared_row ct now a) = PREPARED"
  by (simp_all add: prepared_row_def)

lemma row_conflict_sym: "row_conflict r q \<longleftrightarrow> row_conflict q r"
  unfolding row_conflict_def by (rule iffI; elim disjE conjE; simp)

lemma prepare_cases:
  assumes "prepare rt loads ct gate epoch now a j = (j', res)"
  obtains (refused) e where "j' = j" "res = Inl e"
  | (prepared) new where "res = Inr (pa_op_id a)" "pa_operation_kind a \<in> set OPERATION_KINDS" "gate_open epoch gate"
      "new = participant_locks ct now a (participants rt loads (prepared_row ct now a))"
      "insert_locks new (j_locks j) = Some (j_locks j')"
      "\<And>q. q \<in> set (j_ops j) \<Longrightarrow> \<not> row_conflict (prepared_row ct now a) q"
      "j_ops j' = j_ops j @ [prepared_row ct now a]"
proof -
  let ?r = "prepared_row ct now a"
  let ?ps = "participants_from_request_json rt loads (pa_operation_kind a) (pa_request_json a)"
  have ps: "participants rt loads ?r = ?ps"
    by (simp add: participants_def prepared_row_def)
  consider "pa_operation_kind a \<notin> set OPERATION_KINDS" | "\<not> gate_open epoch gate"
    | "list_ex (row_conflict ?r) (j_ops j)" | "insert_locks (participant_locks ct now a ?ps) (j_locks j) = None"
    | locks where "pa_operation_kind a \<in> set OPERATION_KINDS" "gate_open epoch gate"
        "\<not> list_ex (row_conflict ?r) (j_ops j)" "insert_locks (participant_locks ct now a ?ps) (j_locks j) = Some locks"
    by blast
  then show ?thesis
  proof cases
    case 5
    then have "j_ops j' = j_ops j @ [?r]" "j_locks j' = locks" "res = Inr (pa_op_id a)"
      using assms by (auto simp: prepare_def)
    then show ?thesis
      using prepared 5 by (simp add: list_ex_iff ps)
  qed (use assms refused in \<open>auto simp: prepare_def Let_def split: if_splits option.splits\<close>)
qed

lemma prepare_ok:
  assumes ok: "journal_ok rt loads j" and run: "prepare rt loads ct gate epoch now a j = (j', res)"
  shows "journal_ok rt loads j'"
  using run
proof (cases rule: prepare_cases)
  case (prepared new)
  let ?r = "prepared_row ct now a"
  have locks: "j_locks j' = j_locks j @ new" "distinct (map lk_entity_uuid (j_locks j'))"
    using insert_locks_Some [OF prepared(5) journal_okD(3) [OF ok]] by blast+
  have fresh: "op_id q \<noteq> op_id ?r" if "q \<in> set (j_ops j)" for q
    using prepared(6) [OF that] by (auto simp: row_conflict_def)
  have D: "\<exists>r\<in>set (j_ops j'). locked_for rt loads l r" if l: "l \<in> set (j_locks j')" for l
  proof (cases "l \<in> set new")
    case True
    then have "locked_for rt loads l ?r"
      by (auto simp: prepared(4) participant_locks_def locked_for_def unresolved_def
          UNRESOLVED_STATES_def prepared_row_def)
    then show ?thesis
      by (simp add: prepared(7))
  next
    case False
    then show ?thesis
      using journal_okD(4) [OF ok, of l] l by (auto simp: locks(1) prepared(7))
  qed
  have E: "\<exists>l\<in>set (j_locks j'). lk_entity_uuid l = u \<and> lk_op_id l = op_id r"
    if r: "r \<in> set (j_ops j')" "unresolved r" "u \<in> set (participants rt loads r)" for r u
  proof (cases "r = ?r")
    case True
    then show ?thesis
      using r(3) by (auto simp: locks(1) prepared(4) participant_locks_def bex_Un prepared_row_simps)
  next
    case False
    then have "r \<in> set (j_ops j)"
      using r(1) by (simp add: prepared(7))
    from journal_okD(5) [OF ok this r(2,3)] show ?thesis
      by (auto simp: locks(1))
  qed
  have A: "distinct (map op_id (j_ops j'))"
    using journal_okD(1) [OF ok] fresh [THEN not_sym] by (auto simp: prepared(7))
  have B: "\<not> row_conflict r q"
    if "r \<in> set (j_ops j')" "q \<in> set (j_ops j')" "op_id r \<noteq> op_id q" for r q
    using that journal_okD(2) [OF ok, of r q] prepared(6) [of q] prepared(6) [of r] row_conflict_sym
    by (auto simp: prepared(7))
  show ?thesis
    unfolding journal_ok_def using A B locks(2) D E by blast
qed (use ok in simp)

lemma backfill_ok:
  assumes ok: "journal_ok rt loads j"
  shows "backfill_participant_locks rt loads now j = j"
proof -
  have noop: "fold (\<lambda>l ls. if lk_entity_uuid l \<in> lk_entity_uuid ` set ls then ls else ls @ [l]) ws ls = ls"
    if "lk_entity_uuid ` set ws \<subseteq> lk_entity_uuid ` set ls" for ws ls
    using that by (induction ws) auto
  have "u \<in> lk_entity_uuid ` set (j_locks j)"
    if "r \<in> set (j_ops j)" "unresolved r"
      "u \<in> set (participants_from_request_json rt loads (operation_kind r) (request_json r))" for r u
    using journal_okD(5) [OF ok that(1,2), of u] that(3) by (force simp: participants_def)
  then show ?thesis
    unfolding backfill_participant_locks_def Let_def by (subst noop) auto
qed

lemma auto_step_ok:
  assumes "auto_step rt loads j j'" "journal_ok rt loads j"
  shows "journal_ok rt loads j'"
  using assms
proof (cases rule: auto_step.cases)
  case (attempt_step oid err token t ok)
  then show ?thesis
    using attempted.ok [OF assms(2)] assms(2) by (auto simp: record_attempt_def Let_def split: if_splits)
next
  case (renew_step ct oid secs tok now held)
  then show ?thesis
    using renewed.ok [OF assms(2)] by (auto simp: renew_owner_heartbeat_def Let_def)
next
  case (claim_step ct env oid tok now held)
  then show ?thesis
    using taken.ok [OF assms(2)] assms(2)
    by (auto simp: claim_abandoned_operation_def Let_def split: option.splits if_splits)
next
  case (attest_step ct oid who now ok)
  then show ?thesis
    using attested.ok [OF assms(2)] assms(2) by (auto simp: attest_owner_death_def Let_def split: if_splits)
qed (use assms(2) in \<open>auto simp: mark_committed_def mark_needs_review_def mark_reversed_def mark_failed_def
      reopens_nothing_def UNRESOLVED_STATES_def backfill_ok elim: prepare_ok transition_ok [rotated 2]\<close>)

lemma journal_step_ok:
  assumes "journal_step rt loads j j'" "journal_ok rt loads j"
  shows "journal_ok rt loads j'"
  using assms
proof (cases rule: journal_step.cases)
  case (operator oid to_state t res)
  then show ?thesis
    using assms(2)
    by (auto simp: clear_needs_review_def reopens_nothing_def UNRESOLVED_STATES_def
        elim: transition_ok [rotated 2] split: if_splits)
qed (use auto_step_ok assms(2) in blast)

lemma reachable_journal_ok:
  assumes "reachable_journal rt loads j"
  shows "journal_ok rt loads j"
  using assms unfolding reachable_journal_def
proof (induction rule: rtranclp_induct)
  case base
  show ?case
    by (simp add: journal_ok_def empty_journal_def)
qed (rule journal_step_ok)

end
