(* ===== verification/Journal_Properties.thy ===== *)
theory Journal_Properties
  imports Journal_Invariants
begin

text \<open>
  The journal's guarantees, as theorems over its reachable tables, and its paged reads
  (\<^verbatim>\<open>infrastructure/graph_operations_reads.py\<close>).
\<close>

section \<open>Paged reads\<close>

definition after_cursor :: "'k :: linorder option \<Rightarrow> 'k \<Rightarrow> bool" where
  "after_cursor cursor k = (case cursor of None \<Rightarrow> True | Some c \<Rightarrow> c < k)"

definition keyset_page :: "('a \<Rightarrow> 'k :: linorder) \<Rightarrow> nat \<Rightarrow> 'k option \<Rightarrow> 'a list \<Rightarrow> 'a list" where
  "keyset_page key psize cursor rows =
     take psize (sort_key key (filter (\<lambda>r. after_cursor cursor (key r)) rows))"

lemma filter_after_later:
  "after_cursor cursor k \<Longrightarrow> filter (\<lambda>r. after_cursor (Some k) (key r)) rows
     = filter (\<lambda>r. k < key r) (filter (\<lambda>r. after_cursor cursor (key r)) rows)"
  by (cases cursor) (auto simp: after_cursor_def intro!: filter_cong)

lemma keyset_page_shrinks:
  assumes "keyset_page key psize cursor rows \<noteq> []"
  shows "length (filter (\<lambda>r. after_cursor (Some (key (List.last (keyset_page key psize cursor rows)))) (key r)) rows)
       < length (filter (\<lambda>r. after_cursor cursor (key r)) rows)"
proof -
  let ?x = "List.last (keyset_page key psize cursor rows)"
  have x: "?x \<in> set rows" "after_cursor cursor (key ?x)"
    using last_in_set [OF assms] by (auto simp: keyset_page_def dest: in_set_takeD)
  have "filter (\<lambda>r. after_cursor (Some (key ?x)) (key r)) rows
      = filter (\<lambda>r. key ?x < key r) (filter (\<lambda>r. after_cursor cursor (key r)) rows)"
    by (rule filter_after_later [OF x(2)])
  also have "length \<dots> < length (filter (\<lambda>r. after_cursor cursor (key r)) rows)"
    by (rule length_filter_less [of ?x]) (use x in simp_all)
  finally show ?thesis .
qed

text \<open>The generator: pages until an empty or a short one, over a table that does not change.\<close>

function iter_pages :: "('a \<Rightarrow> 'k :: linorder) \<Rightarrow> nat \<Rightarrow> 'k option \<Rightarrow> 'a list \<Rightarrow> 'a list" where
  "iter_pages key psize cursor rows =
     (let page = keyset_page key psize cursor rows
      in if page = [] then []
         else page @ (if length page < psize then []
                      else iter_pages key psize (Some (key (List.last page))) rows))"
  by pat_completeness auto

termination
  by (relation "measure (\<lambda>(key, psize, cursor, rows). length (filter (\<lambda>r. after_cursor cursor (key r)) rows))")
     (use keyset_page_shrinks in auto)

declare iter_pages.simps [simp del]

definition iter_by_state :: "op_state \<Rightarrow> int \<Rightarrow> journal \<Rightarrow> op_row list" where
  "iter_by_state st batch_size j =
     iter_pages (\<lambda>r. (created_at r, op_id r)) (nat (max 1 batch_size)) None
       (filter (\<lambda>r. op_state r = st) (j_ops j))"

definition list_by_state :: "op_state \<Rightarrow> nat \<Rightarrow> journal \<Rightarrow> op_row list" where
  "list_by_state st limit j =
     take limit (sort_key created_at (filter (\<lambda>r. op_state r = st) (j_ops j)))"

definition list_by_batch :: "string \<Rightarrow> journal \<Rightarrow> op_row list" where
  "list_by_batch batch j = sort_key created_at (filter (\<lambda>r. batch_id r = Some batch) (j_ops j))"

lemma sorted_wrt_take_drop:
  assumes "sorted_wrt P xs" "x \<in> set (take n xs)" "y \<in> set (drop n xs)"
  shows "P x y"
  using assms by (metis append_take_drop_id sorted_wrt_append)

lemma iter_pages_complete:
  "distinct (map key rows) \<Longrightarrow> 0 < psize \<Longrightarrow>
     iter_pages key psize cursor rows = sort_key key (filter (\<lambda>r. after_cursor cursor (key r)) rows)"
proof (induction key psize cursor rows rule: iter_pages.induct)
  case (1 key psize cursor rows)
  define s where "s = sort_key key (filter (\<lambda>r. after_cursor cursor (key r)) rows)"
  have page: "keyset_page key psize cursor rows = take psize s"
    by (simp add: keyset_page_def s_def)
  have strict: "sorted_wrt (\<lambda>x y. key x < key y) s"
  proof -
    have "sorted_wrt (<) (map key s)"
      unfolding strict_sorted_iff using 1(2) by (simp add: s_def distinct_map_filter)
    then show ?thesis
      by (simp add: sorted_wrt_map)
  qed
  show ?case
  proof (cases "take psize s = [] \<or> length (take psize s) < psize")
    case True
    then show ?thesis
      using 1(3) by (subst iter_pages.simps) (auto simp: page s_def [symmetric] Let_def)
  next
    case False
    let ?x = "List.last (take psize s)"
    have x: "?x \<in> set (take psize s)"
      using False by (intro last_in_set) simp
    have below: "key y \<le> key ?x" if "y \<in> set (take psize s)" for y
    proof -
      have "take psize s = butlast (take psize s) @ [?x]"
        using False by simp
      moreover have "sorted_wrt (\<lambda>x y. key x < key y) (take psize s)"
        using strict by (rule sorted_wrt_take)
      ultimately show ?thesis
        using that by (metis (no_types, lifting) Un_iff empty_iff list.set(1) list.set_intros(1) order_le_less
            set_ConsD set_append sorted_wrt_append)
    qed
    have "filter (\<lambda>y. key ?x < key y) s = drop psize s"
    proof -
      have "filter (\<lambda>y. key ?x < key y) (take psize s) = []"
        using below by (auto simp: filter_empty_conv not_less)
      moreover have "filter (\<lambda>y. key ?x < key y) (drop psize s) = drop psize s"
        using sorted_wrt_take_drop [OF strict x] by (simp add: filter_id_conv)
      ultimately show ?thesis
        by (metis append_Nil append_take_drop_id filter_append)
    qed
    moreover have "filter (\<lambda>r. after_cursor (Some (key ?x)) (key r)) rows
        = filter (\<lambda>y. key ?x < key y) (filter (\<lambda>r. after_cursor cursor (key r)) rows)"
    proof (rule filter_after_later)
      show "after_cursor cursor (key ?x)"
        using in_set_takeD [OF x] unfolding s_def by simp
    qed
    ultimately have rest: "sort_key key (filter (\<lambda>r. after_cursor (Some (key ?x)) (key r)) rows) = drop psize s"
      by (simp add: filter_sort [symmetric] s_def)
    have "iter_pages key psize (Some (key ?x)) rows = drop psize s"
      using 1(1) [OF refl] False 1(2,3) by (simp add: page rest)
    then show ?thesis
      using False by (subst iter_pages.simps) (simp add: page s_def [symmetric] Let_def)
  qed
qed

section \<open>Moves\<close>

definition auto_reaches :: "op_state \<Rightarrow> op_state \<Rightarrow> bool" where
  "auto_reaches s s' \<longleftrightarrow> s = s' \<or> s = PREPARED \<or> s = COMMITTED \<and> s' = REVERSED"

definition reaches :: "op_state \<Rightarrow> op_state \<Rightarrow> bool" where
  "reaches s s' \<longleftrightarrow> auto_reaches s s' \<or> s = NEEDS_REVIEW"

definition carried :: "(op_state \<Rightarrow> op_state \<Rightarrow> bool) \<Rightarrow> journal \<Rightarrow> journal \<Rightarrow> bool" where
  "carried R j j' \<longleftrightarrow>
     (\<forall>r\<in>set (j_ops j). \<exists>r'\<in>set (j_ops j'). frozen r' = frozen r \<and> R (op_state r) (op_state r'))"

lemma carried_refl [simp]: "(\<And>s. R s s) \<Longrightarrow> carried R j j"
  by (auto simp: carried_def)

lemma carried_trans:
  assumes "carried R j j'" "carried R j' j''" "\<And>a b c. R a b \<Longrightarrow> R b c \<Longrightarrow> R a c"
  shows "carried R j j''"
  using assms unfolding carried_def by metis

lemma carried_mono: "carried R j j' \<Longrightarrow> (\<And>a b. R a b \<Longrightarrow> Q a b) \<Longrightarrow> carried Q j j'"
  unfolding carried_def by blast

lemma carried_update:
  assumes "\<And>r. p r \<Longrightarrow> frozen (f r) = frozen r \<and> R (op_state r) (op_state (f r))" "\<And>s. R s s"
  shows "carried R j (j\<lparr>j_ops := update_ops p f (j_ops j)\<rparr>)"
  unfolding carried_def
proof
  fix r assume "r \<in> set (j_ops j)"
  then have "(if p r then f r else r) \<in> set (update_ops p f (j_ops j))"
    by (auto simp: update_ops_def)
  moreover have "frozen (if p r then f r else r) = frozen r \<and> R (op_state r) (op_state (if p r then f r else r))"
    using assms by simp
  ultimately show "\<exists>r'\<in>set (j_ops (j\<lparr>j_ops := update_ops p f (j_ops j)\<rparr>)).
      frozen r' = frozen r \<and> R (op_state r) (op_state r')"
    by (intro bexI [of _ "if p r then f r else r"]) simp_all
qed

lemma auto_reaches_trans: "auto_reaches a b \<Longrightarrow> auto_reaches b c \<Longrightarrow> auto_reaches a c"
  by (auto simp: auto_reaches_def)

lemma reaches_trans: "reaches a b \<Longrightarrow> reaches b c \<Longrightarrow> reaches a c"
  by (auto simp: reaches_def auto_reaches_def)

lemma reaches_refl [simp]: "auto_reaches s s" "reaches s s"
  by (simp_all add: reaches_def auto_reaches_def)

lemma carried_transition:
  assumes "transition now t j = (j', res)"
    and "\<And>s. s \<in> set (ta_allowed_from t) \<Longrightarrow> R s (ta_to_state t)" "\<And>s. R s s"
  shows "carried R j j'"
proof (cases "list_ex (transition_applies t) (j_ops j)")
  case True
  have "carried R j (j\<lparr>j_ops := update_ops (transition_applies t) (transition_row now t) (j_ops j)\<rparr>)"
    using assms(2,3) by (intro carried_update) (simp_all add: transition_applies_def)
  then show ?thesis
    using assms(1) True by (auto simp: transition_def carried_def)
qed (use assms in \<open>auto simp: transition_def split: option.splits if_splits\<close>)

lemma auto_step_carried:
  assumes "auto_step rt loads j j'"
  shows "carried auto_reaches j j'"
  using assms
proof (cases rule: auto_step.cases)
  case (prepare_step ct gate epoch now a res)
  then show ?thesis
    by (cases rule: prepare_cases) (auto simp: carried_def)
next
  case (attempt_step oid err token t ok)
  then show ?thesis
    by (auto simp: record_attempt_def Let_def frozen_def intro!: carried_update split: if_splits)
next
  case (renew_step ct oid secs tok now held)
  then show ?thesis
    by (auto simp: renew_owner_heartbeat_def Let_def frozen_def intro!: carried_update)
next
  case (claim_step ct env oid tok now held)
  then show ?thesis
    by (auto simp: claim_abandoned_operation_def Let_def frozen_def intro!: carried_update
        split: option.splits if_splits)
next
  case (attest_step ct oid who now ok)
  then show ?thesis
    by (auto simp: attest_owner_death_def Let_def frozen_def intro!: carried_update split: if_splits)
next
  case (backfill_step t)
  then show ?thesis
    by (auto simp: backfill_participant_locks_def Let_def carried_def)
qed (auto simp: mark_committed_def mark_needs_review_def mark_reversed_def mark_failed_def auto_reaches_def
      elim!: carried_transition)

lemma journal_step_carried:
  assumes "journal_step rt loads j j'"
  shows "carried reaches j j'"
  using assms
proof (cases rule: journal_step.cases)
  case automatic
  then show ?thesis
    by (intro carried_mono [OF auto_step_carried]) (simp_all add: reaches_def)
next
  case (operator oid to_state t res)
  then show ?thesis
    by (auto simp: clear_needs_review_def reaches_def elim!: carried_transition split: if_splits)
qed

lemma rtranclp_carried:
  assumes "S\<^sup>*\<^sup>* j j'" "\<And>a b. S a b \<Longrightarrow> carried R a b"
    "\<And>a b c. R a b \<Longrightarrow> R b c \<Longrightarrow> R a c" "\<And>s. R s s"
  shows "carried R j j'"
  using assms(1)
proof (induction rule: rtranclp_induct)
  case (step y z)
  from step.IH assms(2) [OF step.hyps(2)] assms(3) show ?case
    by (rule carried_trans)
qed (simp add: assms(4))

section \<open>Theorems\<close>

text \<open>
  C6: In every journal the operations can produce, two different unresolved operations share no
  participant node and fence no common target key: the per-node fence holds whatever the order of
  prepares, commits, quarantines, takeovers, restarts and operator clearances was.
\<close>

theorem participant_fence_exclusive:
  assumes "reachable_journal rt loads j"
    and "r \<in> set (j_ops j)" "q \<in> set (j_ops j)" "unresolved r" "unresolved q"
    and "set (participants rt loads r) \<inter> set (participants rt loads q) \<noteq> {}
      \<or> operation_kind r = operation_kind q \<and> target_key r \<noteq> None \<and> target_key r = target_key q"
  shows "r = q"
proof -
  note ok = reachable_journal_ok [OF assms(1)]
  from assms(6) have "op_id r = op_id q"
  proof
    assume "set (participants rt loads r) \<inter> set (participants rt loads q) \<noteq> {}"
    then obtain u where u: "u \<in> set (participants rt loads r)" "u \<in> set (participants rt loads q)"
      by blast
    obtain l l' where "l \<in> set (j_locks j)" "lk_entity_uuid l = u" "lk_op_id l = op_id r"
        "l' \<in> set (j_locks j)" "lk_entity_uuid l' = u" "lk_op_id l' = op_id q"
      using journal_okD(5) [OF ok assms(2,4) u(1)] journal_okD(5) [OF ok assms(3,5) u(2)] by blast
    then show ?thesis
      using journal_okD(3) [OF ok] by (metis distinct_map inj_on_def)
  next
    assume "operation_kind r = operation_kind q \<and> target_key r \<noteq> None \<and> target_key r = target_key q"
    then have "row_conflict r q"
      using assms(4,5) by (auto simp: row_conflict_def simp del: not_None_eq)
    then show ?thesis
      using journal_okD(2) [OF ok assms(2,3)] by blast
  qed
  with ok assms(2,3) show ?thesis
    by (rule journal_op_unique)
qed

text \<open>
  C22: No history of the journal loses a row or rewrites its identity, request, snapshot or expected
  after-state. Without an operator the only moves are those out of \<^verbatim>\<open>PREPARED\<close> and from \<^verbatim>\<open>COMMITTED\<close>
  to \<^verbatim>\<open>REVERSED\<close>; with one, a row may also leave \<^verbatim>\<open>NEEDS_REVIEW\<close>. So a verified commit is never
  downgraded, and a reversed or failed row is final.
\<close>

theorem journal_history_is_append_only:
  "((auto_step rt loads)\<^sup>*\<^sup>* j j' \<longrightarrow> carried auto_reaches j j')
   \<and> ((journal_step rt loads)\<^sup>*\<^sup>* j j' \<longrightarrow> carried reaches j j')"
proof (intro conjI impI)
  assume "(auto_step rt loads)\<^sup>*\<^sup>* j j'"
  then show "carried auto_reaches j j'"
    by (rule rtranclp_carried [OF _ auto_step_carried auto_reaches_trans]) simp_all
next
  assume "(journal_step rt loads)\<^sup>*\<^sup>* j j'"
  then show "carried reaches j j'"
    by (rule rtranclp_carried [OF _ journal_step_carried reaches_trans]) simp_all
qed

text \<open>
  C31: \<^verbatim>\<open>prepare\<close> is all or nothing. When it raises, neither table has changed; when it returns, the gate
  was open, the kind is known, exactly one row and exactly one lock for each participant were
  added, and none of the participants was locked before.
\<close>

theorem prepare_all_or_nothing:
  "case prepare rt loads ct gate epoch now a j of
     (j', Inl _) \<Rightarrow> j' = j
   | (j', Inr oid) \<Rightarrow>
       oid = pa_op_id a \<and> gate_open epoch gate \<and> pa_operation_kind a \<in> set OPERATION_KINDS
       \<and> j_ops j' = j_ops j @ [prepared_row ct now a]
       \<and> j_locks j' = j_locks j @ participant_locks ct now a (participants rt loads (prepared_row ct now a))
       \<and> set (participants rt loads (prepared_row ct now a)) \<inter> lk_entity_uuid ` set (j_locks j) = {}
       \<and> oid \<notin> op_id ` set (j_ops j)"
proof -
  have app: "insert_locks new old = Some locks \<Longrightarrow>
      locks = old @ new \<and> lk_entity_uuid ` set new \<inter> lk_entity_uuid ` set old = {}" for new old locks
    by (induction new old rule: insert_locks.induct) (auto split: if_splits)
  obtain j' res where run: "prepare rt loads ct gate epoch now a j = (j', res)"
    by (cases "prepare rt loads ct gate epoch now a j") auto
  then show ?thesis
  proof (cases rule: prepare_cases)
    case (prepared new)
    have "lk_entity_uuid ` set new = set (participants rt loads (prepared_row ct now a))"
      by (force simp: prepared(4) participant_locks_def)
    then show ?thesis
      using prepared app [OF prepared(5)] run
      by (auto simp: row_conflict_def prepared_row_simps)
  qed (simp add: run)
qed

text \<open>
  C37: The cursor read of one state returns every row of that state exactly once, oldest first, for any
  page size, also one that is zero or negative.
\<close>

theorem iter_by_state_complete:
  assumes "reachable_journal rt loads j"
  shows "iter_by_state st n j
    = sort_key (\<lambda>r. (created_at r, op_id r)) (filter (\<lambda>r. op_state r = st) (j_ops j))"
proof -
  have "distinct (map (\<lambda>r. (created_at r, op_id r)) (filter (\<lambda>r. op_state r = st) (j_ops j)))"
    using journal_okD(1) [OF reachable_journal_ok [OF assms]]
    by (auto simp: distinct_map inj_on_def)
  then show ?thesis
    by (simp add: iter_by_state_def iter_pages_complete after_cursor_def)
qed

section \<open>Takeover\<close>

lemma get_op_iff:
  assumes "journal_ok rt loads j"
  shows "get_op oid j = Some r \<longleftrightarrow> r \<in> set (j_ops j) \<and> op_id r = oid"
proof
  assume "get_op oid j = Some r"
  then show "r \<in> set (j_ops j) \<and> op_id r = oid"
    by (auto simp: get_op_def find_Some_iff)
next
  assume r: "r \<in> set (j_ops j) \<and> op_id r = oid"
  then have "get_op oid j \<noteq> None"
    by (auto simp: get_op_def find_None_iff)
  then obtain q where q: "get_op oid j = Some q"
    by auto
  then have "q \<in> set (j_ops j) \<and> op_id q = oid"
    by (auto simp: get_op_def find_Some_iff)
  then show "get_op oid j = Some r"
    using journal_op_unique [OF assms, of q r] q r by simp
qed

lemma foreign_transition_stale:
  assumes "journal_ok rt loads j" "r \<in> set (j_ops j)" "op_id r = ta_op_id t" "op_state r = PREPARED"
    "owner_token r = Some a" "ta_owner_token t = Some b" "a \<noteq> b" "ta_to_state t \<noteq> PREPARED"
  shows "transition now t j = (j, Inl Stale_Transition)"
proof -
  have "\<not> transition_applies t q" if "q \<in> set (j_ops j)" for q
    using journal_op_unique [OF assms(1,2) that] assms(3-7) by (auto simp: transition_applies_def)
  moreover have "get_op (ta_op_id t) j = Some r"
    using get_op_iff [OF assms(1)] assms(2,3) by simp
  ultimately show ?thesis
    using assms(4,8) by (simp add: transition_def list_ex_iff)
qed

lemma update_ops_none: "(\<And>r. r \<in> set rows \<Longrightarrow> \<not> p r) \<Longrightarrow> update_ops p f rows = rows"
  by (auto simp: update_ops_def intro: map_idI)

lemma claim_takes:
  assumes ok: "journal_ok rt loads j" and run: "claim_abandoned_operation ct env oid token now j = (j', True)"
  obtains r old where "r \<in> set (j_ops j)" "op_id r = oid" "op_state r = PREPARED" "owner_token r = Some old"
    "old \<noteq> token" "classify_ownership ct env now (claim_columns_of r) = ABANDONED"
    "\<exists>r'\<in>set (j_ops j'). op_id r' = oid \<and> op_state r' = PREPARED \<and> owner_token r' = Some token
       \<and> owner_lease_expires_at r' = Some (ct_iso ct (lease_expiry (lease_seconds_for_kind (operation_kind r)) now))"
proof -
  obtain r where r: "get_op oid j = Some r" "op_state r = PREPARED"
      "classify_ownership ct env now (claim_columns_of r) = ABANDONED"
    using run by (auto simp: claim_abandoned_operation_def split: option.splits if_splits)
  have mem: "r \<in> set (j_ops j)" "op_id r = oid"
    using r(1) get_op_iff [OF ok] by auto
  obtain q where "q \<in> set (j_ops j)" "op_id q = oid" "owner_token q \<noteq> None" "owner_token q \<noteq> Some token"
      "text_at_most (owner_lease_expires_at q) (ct_iso ct now)"
    using run r by (auto simp: claim_abandoned_operation_def Let_def list_ex_iff)
  moreover from this have "q = r"
    using journal_op_unique [OF ok] mem by auto
  ultimately obtain old where old: "owner_token r = Some old" "old \<noteq> token"
      "text_at_most (owner_lease_expires_at r) (ct_iso ct now)"
    by auto
  define stale where "stale = (\<lambda>q :: op_row. op_id q = oid \<and> op_state q = PREPARED \<and> owner_token q \<noteq> None
      \<and> owner_token q \<noteq> Some token \<and> text_at_most (owner_lease_expires_at q) (ct_iso ct now))"
  define upd where "upd = (\<lambda>q :: op_row. q\<lparr>owner_token := Some token, owner_heartbeat_at := Some (ct_iso ct now),
      owner_lease_expires_at := Some (ct_iso ct (lease_expiry (lease_seconds_for_kind (operation_kind r)) now)),
      updated_at := ct_iso ct now, owner_death_attested_by := None, owner_death_attested_at := None,
      owner_death_attested_for_token := None\<rparr>)"
  have "j_ops j' = update_ops stale upd (j_ops j)"
    using run r by (auto simp: claim_abandoned_operation_def Let_def stale_def upd_def)
  moreover have "stale r"
    using mem r(2) old by (simp add: stale_def)
  ultimately have upd: "upd r \<in> set (j_ops j')"
    using mem(1) by (force simp: update_ops_def)
  show thesis
  proof (rule that [OF mem r(2) old(1,2) r(3)])
    show "\<exists>r'\<in>set (j_ops j'). op_id r' = oid \<and> op_state r' = PREPARED \<and> owner_token r' = Some token
       \<and> owner_lease_expires_at r' = Some (ct_iso ct (lease_expiry (lease_seconds_for_kind (operation_kind r)) now))"
      using upd mem(2) r(2) by (intro bexI [of _ "upd r"]) (simp_all add: upd_def)
  qed
qed

text \<open>
  C12: Taking over another writer's operation. A claim that succeeds took a \<^verbatim>\<open>PREPARED\<close> row whose lease had
  expired and for whose recorded owner there is independent evidence of death. After it the former
  owner can neither commit, quarantine nor fail the operation, nor renew its claim, and until the
  new lease expires no other process can claim the row; each of these attempts leaves the journal
  as it is.
\<close>

theorem takeover_is_exclusive:
  assumes "reachable_journal rt loads j"
    and iso: "\<forall>t. ct_iso ct t \<noteq> [] \<and> ct_parse ct (ct_iso ct t) = Some t"
    and token: "strip token \<noteq> []"
    and run: "claim_abandoned_operation ct env oid token now j = (j', True)"
  shows "\<exists>r old expired. r \<in> set (j_ops j) \<and> op_id r = oid \<and> op_state r = PREPARED
      \<and> owner_token r = Some old \<and> old \<noteq> token
      \<and> parse_instant ct (owner_lease_expires_at r) = Some expired \<and> expired \<le> now
      \<and> death_evidence env old (claim_columns_of r)
      \<and> mark_committed oid (Some old) t j' = (j', Inl Stale_Transition)
      \<and> mark_needs_review oid err (Some old) t j' = (j', Inl Stale_Transition)
      \<and> mark_failed oid err (Some old) t j' = (j', Inl Stale_Transition)
      \<and> renew_owner_heartbeat ct oid secs old later j' = (j', False)
      \<and> (later < lease_expiry (lease_seconds_for_kind (operation_kind r)) now \<longrightarrow>
           claim_abandoned_operation ct other_env oid other later j' = (j', False))"
proof -
  note ok = reachable_journal_ok [OF assms(1)]
  have ok': "journal_ok rt loads j'"
    using auto_step_ok [OF auto_step.claim_step [OF run] ok] .
  obtain r old where r: "r \<in> set (j_ops j)" "op_id r = oid" "op_state r = PREPARED" "owner_token r = Some old"
      "old \<noteq> token" "classify_ownership ct env now (claim_columns_of r) = ABANDONED"
    and new: "\<exists>r'\<in>set (j_ops j'). op_id r' = oid \<and> op_state r' = PREPARED \<and> owner_token r' = Some token
       \<and> owner_lease_expires_at r' = Some (ct_iso ct (lease_expiry (lease_seconds_for_kind (operation_kind r)) now))"
    using claim_takes [OF ok run] by metis
  obtain r' where r': "r' \<in> set (j_ops j')" "op_id r' = oid" "op_state r' = PREPARED" "owner_token r' = Some token"
      "owner_lease_expires_at r' = Some (ct_iso ct (lease_expiry (lease_seconds_for_kind (operation_kind r)) now))"
    using new by blast
  have stale: "transition t a j' = (j', Inl Stale_Transition)"
    if "ta_op_id a = oid" "ta_owner_token a = Some old" "ta_to_state a \<noteq> PREPARED" for a
    by (rule foreign_transition_stale [OF ok' r'(1), where a = token and b = old]) (use r(5) r' that in auto)
  have lost: "\<not> (op_id q = oid \<and> op_state q = PREPARED \<and> owner_token q = Some old)" if "q \<in> set (j_ops j')" for q
  proof
    assume q: "op_id q = oid \<and> op_state q = PREPARED \<and> owner_token q = Some old"
    then have "q = r'"
      using journal_op_unique [OF ok' that r'(1)] r'(2) by simp
    then show False
      using q r'(4) r(5) by simp
  qed
  have "renew_owner_heartbeat ct oid secs old later j' = (j', False)"
    using lost by (simp add: renew_owner_heartbeat_def Let_def update_ops_none list_ex_iff)
  moreover have "claim_abandoned_operation ct other_env oid other later j' = (j', False)"
    if "later < lease_expiry (lease_seconds_for_kind (operation_kind r)) now"
  proof -
    have "get_op oid j' = Some r'"
      using get_op_iff [OF ok'] r' by simp
    moreover have "classify_ownership ct other_env later (claim_columns_of r') = LIVE_OWNER"
      unfolding live_owner_iff using r'(4,5) iso token that by (auto simp: claim_columns_of_def parse_instant_def)
    ultimately show ?thesis
      by (simp add: claim_abandoned_operation_def)
  qed
  moreover have "\<exists>e. parse_instant ct (owner_lease_expires_at r) = Some e \<and> e \<le> now"
    "death_evidence env old (claim_columns_of r)"
    using r(4,6) unfolding abandoned_iff by (auto simp: claim_columns_of_def)
  ultimately show ?thesis
    using r stale by (auto simp: mark_committed_def mark_needs_review_def mark_failed_def)
qed

end
