(* ===== verification/Merge_Examples.thy ===== *)
theory Merge_Examples
  imports Merge_Provenance Merge_Eligibility Journal_Properties
begin

text \<open>
  A concrete clock, host and journal on which the hypotheses of the merge and journal theorems
  hold, and the concrete inputs behind two findings.
\<close>

section \<open>A clock, a host, a parser and a journal\<close>

text \<open>Instants written in binary after a sign.\<close>

function int_bits :: "int \<Rightarrow> string" where
  "int_bits t = (if t \<le> 0 then [] else int_bits (t div 2) @ [if t mod 2 = 1 then CHR ''1'' else CHR ''0''])"
  by pat_completeness auto

termination
  by (relation "measure nat") auto

declare int_bits.simps [simp del]

definition bits_value :: "string \<Rightarrow> int" where
  "bits_value s = foldl (\<lambda>v c. 2 * v + (if c = CHR ''1'' then 1 else 0)) 0 s"

lemma bits_value_int_bits: "0 \<le> t \<Longrightarrow> bits_value (int_bits t) = t"
proof (induction t rule: int_bits.induct)
  case (1 t)
  show ?case
  proof (cases "t = 0")
    case False
    then have "bits_value (int_bits (t div 2)) = t div 2"
      using 1 by simp
    moreover have "t mod 2 = 1 \<longrightarrow> 2 * (t div 2) + 1 = t" "t mod 2 = 0 \<longrightarrow> 2 * (t div 2) = t"
      by presburger+
    ultimately show ?thesis
      using False 1(2) by (subst int_bits.simps) (simp add: bits_value_def)
  qed (simp add: int_bits.simps bits_value_def)
qed

definition binary_clock :: clock_text where
  "binary_clock = \<lparr>ct_iso = (\<lambda>t. if 0 \<le> t then CHR ''+'' # int_bits t else CHR ''-'' # int_bits (- t)),
     ct_parse = (\<lambda>s. case s of [] \<Rightarrow> None
                     | c # r \<Rightarrow> Some (if c = CHR ''+'' then bits_value r else - bits_value r))\<rparr>"

definition sample_host :: host_env where
  "sample_host = \<lparr>he_instance_id = ''blue'', he_hostname = ''h1'', he_pid = 12, he_nonce = ''n2'',
     he_pid_alive = (\<lambda>p. p = 12), he_pid_namespace_env = ''true'', he_gate_aware_env = ''1''\<rparr>"

definition sample_runtime :: py_runtime where
  "sample_runtime = \<lparr>rt_str = (\<lambda>_. ''?''), rt_float_of_str = (\<lambda>_. None)\<rparr>"

definition sample_loads :: "string \<Rightarrow> py_value option" where
  "sample_loads s =
     (if s = ''ab'' then Some (PMap [(''survivor_uuid'', PStr ''A''), (''absorbed_uuid'', PStr ''B'')])
      else if s = ''cd'' then Some (PMap [(''survivor_uuid'', PStr ''C''), (''absorbed_uuid'', PStr ''D'')])
      else None)"

definition merge_args :: "string \<Rightarrow> string \<Rightarrow> string \<Rightarrow> prepare_args" where
  "merge_args oid req token =
     \<lparr>pa_operation_kind = ''ENTITY_MERGE'', pa_request_json = req, pa_target_uuid = None,
      pa_target_key = Some req, pa_batch_id = None, pa_before_snapshot_json = None,
      pa_expected_after_sha256 = Some ''after'', pa_reverses_op_id = None, pa_op_id = oid,
      pa_owner_token = token\<rparr>"

text \<open>One merge prepared by a process of the same host that has since died.\<close>

definition sample_journal :: journal where
  "sample_journal = fst (renew_owner_heartbeat binary_clock ''o1'' 1 ''blue:h1:7:n1'' (- 999998)
     (fst (prepare sample_runtime sample_loads binary_clock No_Such_Table 0 0
             (merge_args ''o1'' ''ab'' ''blue:h1:7:n1'') empty_journal)))"

text \<open>The merged survivor is recognised, the survivor as it was before the merge is not.\<close>

theorem merge_recognised_and_reversed_witness:
  "survivor_matches_merge_output sample_runtime (merged_into sample_runtime [(''content'', PStr ''new'')] [(''summary'', PStr ''old'')])
     [(''summary'', PStr ''old'')] [(''content'', PStr ''new'')] = Inr (True, [])
   \<and> survivor_matches_merge_output sample_runtime [(''summary'', PStr ''old'')]
       [(''summary'', PStr ''old'')] [(''content'', PStr ''new'')] \<noteq> Inr (True, [])"
  using merge_recognised_and_reversed [of "[(''summary'', PStr ''old'')]" "[(''content'', PStr ''new'')]"
      sample_runtime _ "[(''summary'', PStr ''old'')]"]
  by (simp add: text_node_def text_value_def dict_get_def)

lemma binary_clock_reads_back:
  "\<forall>t. ct_iso binary_clock t \<noteq> [] \<and> ct_parse binary_clock (ct_iso binary_clock t) = Some t"
  by (auto simp: binary_clock_def bits_value_int_bits)

lemma sample_journal_reachable: "reachable_journal sample_runtime sample_loads sample_journal"
proof -
  let ?p = "prepare sample_runtime sample_loads binary_clock No_Such_Table 0 0
             (merge_args ''o1'' ''ab'' ''blue:h1:7:n1'') empty_journal"
  have "journal_step sample_runtime sample_loads empty_journal (fst ?p)"
    by (rule journal_step.automatic, rule auto_step.prepare_step) (rule prod.collapse [symmetric])
  moreover have "journal_step sample_runtime sample_loads (fst ?p) sample_journal"
    unfolding sample_journal_def
    by (rule journal_step.automatic, rule auto_step.renew_step) (rule prod.collapse [symmetric])
  ultimately show ?thesis
    unfolding reachable_journal_def by (rule rtranclp.rtrancl_into_rtrancl [OF r_into_rtranclp])
qed

definition taken_journal :: journal where
  "taken_journal = fst (claim_abandoned_operation binary_clock sample_host ''o1'' ''blue:h1:12:n2'' 5 sample_journal)"

lemma sample_claim:
  "claim_abandoned_operation binary_clock sample_host ''o1'' ''blue:h1:12:n2'' 5 sample_journal
     = (taken_journal, True)"
proof -
  have "snd (claim_abandoned_operation binary_clock sample_host ''o1'' ''blue:h1:12:n2'' 5 sample_journal)"
    by code_simp
  then show ?thesis
    by (simp add: taken_journal_def prod_eq_iff)
qed

section \<open>Witnesses\<close>

theorem takeover_is_exclusive_witness:
  "\<exists>r old. r \<in> set (j_ops sample_journal) \<and> owner_token r = Some old
     \<and> mark_committed ''o1'' (Some old) ''t'' taken_journal = (taken_journal, Inl Stale_Transition)"
proof -
  have "strip ''blue:h1:12:n2'' \<noteq> []"
    by code_simp
  from takeover_is_exclusive [OF sample_journal_reachable binary_clock_reads_back this sample_claim,
      where t = "''t''"]
  show ?thesis
    by blast
qed

theorem participant_fence_exclusive_witness:
  "\<exists>r\<in>set (j_ops sample_journal). unresolved r \<and> ''A'' \<in> set (participants sample_runtime sample_loads r)
     \<and> (\<forall>q\<in>set (j_ops sample_journal).
          unresolved q \<and> ''A'' \<in> set (participants sample_runtime sample_loads q) \<longrightarrow> q = r)"
proof -
  let ?r = "hd (j_ops sample_journal)"
  have r: "?r \<in> set (j_ops sample_journal)" "unresolved ?r" "''A'' \<in> set (participants sample_runtime sample_loads ?r)"
    by code_simp+
  have "q = ?r" if "q \<in> set (j_ops sample_journal)" "unresolved q"
      "''A'' \<in> set (participants sample_runtime sample_loads q)" for q
    using participant_fence_exclusive [OF sample_journal_reachable that(1) r(1) that(2) r(2)] that(3) r(3)
    by blast
  with r show ?thesis
    by blast
qed

theorem journal_history_is_append_only_witness:
  "\<exists>r'\<in>set (j_ops taken_journal). op_id r' = ''o1'' \<and> request_json r' = ''ab'' \<and> auto_reaches PREPARED (op_state r')"
proof -
  have "(auto_step sample_runtime sample_loads)\<^sup>*\<^sup>* sample_journal taken_journal"
    by (rule r_into_rtranclp, rule auto_step.claim_step, rule sample_claim)
  then have "carried auto_reaches sample_journal taken_journal"
    using journal_history_is_append_only [of sample_runtime sample_loads sample_journal taken_journal] by blast
  moreover have "hd (j_ops sample_journal) \<in> set (j_ops sample_journal)" "op_id (hd (j_ops sample_journal)) = ''o1''"
    "request_json (hd (j_ops sample_journal)) = ''ab''" "op_state (hd (j_ops sample_journal)) = PREPARED"
    by code_simp+
  ultimately show ?thesis
    unfolding carried_def by (metis frozen_simps(1,3))
qed

theorem iter_by_state_complete_witness:
  "map op_id (iter_by_state PREPARED 0 sample_journal) = [''o1'']"
  unfolding iter_by_state_complete [OF sample_journal_reachable] by code_simp

definition sample_entity :: "string \<Rightarrow> string \<Rightarrow> entity_row" where
  "sample_entity u ns =
     \<lparr>er_uuid = u, er_name = Some ''widget'', er_structure_role = None, er_is_view = None,
      er_is_quantstate = None, er_view_kind = None, er_is_self = None, er_entity_role = None,
      er_self_tier = None, er_tenant = \<lparr>row_namespace = Some ns, row_group_id = None\<rparr>,
      er_freshness = None, er_scope = Some ''SESSION'', er_user_flagged = None,
      er_conflict_status = None, er_retention_sources = []\<rparr>"

theorem mutation_predicate_matches_preflight_witness:
  "me_allowed (evaluate_merge_eligibility [sample_entity ''A'' ''x'', sample_entity ''B'' ''x''] ''A'' ''B'')"
proof -
  let ?rows = "[sample_entity ''A'' ''x'', sample_entity ''B'' ''x'']"
  have "filter (\<lambda>r. er_uuid r = er_uuid (sample_entity ''A'' ''x'')) ?rows = [sample_entity ''A'' ''x'']"
    "filter (\<lambda>r. er_uuid r = er_uuid (sample_entity ''B'' ''x'')) ?rows = [sample_entity ''B'' ''x'']"
    by (simp_all add: sample_entity_def)
  from mutation_predicate_matches_preflight [OF this]
  have "me_allowed (evaluate_merge_eligibility ?rows (er_uuid (sample_entity ''A'' ''x'')) (er_uuid (sample_entity ''B'' ''x'')))
     \<and> raw_namespace (sample_entity ''A'' ''x'') = raw_namespace (sample_entity ''B'' ''x'')"
    by (rule iffD1) code_simp
  then show ?thesis
    by (simp add: sample_entity_def)
qed

section \<open>Concrete behaviours behind findings\<close>

text \<open>
  The name pattern of the role predicate refuses a name that ends in an extension or a slash, and
  lets every other path through: a slash inside the name is not enough, and neither is a backslash.
\<close>

theorem slash_inside_name_is_not_path_shaped:
  "\<not> path_shaped ''a/b'' \<and> \<not> path_shaped [CHR ''a'', CHR 0x5C, CHR ''b'']
   \<and> path_shaped ''x.md'' \<and> path_shaped ''a/''"
  by code_simp

end
