(* ===== verification/Merge_Saga.thy ===== *)
theory Merge_Saga
  imports Journal_Properties Merge_Snapshot Merge_Eligibility
begin

text \<open>
  The merge saga, \<^verbatim>\<open>services/merge_coordinator.py\<close>, with the outcomes of
  \<^verbatim>\<open>services/saga_reconcile_outcomes.py\<close>. The coordinator sees the graph through the protocol
  \<^verbatim>\<open>MergeGraphAdapter\<close>, here the record \<open>merge_adapter\<close> over any type of graph; the journal is the one
  of \<open>Operation_Journal\<close>. A step of the saga maps a graph and a journal to the ones after it and to a
  result or an exception. A graph statement refused because the writer lost its claim is an exception
  of the adapter. Messages and diagnostics are reduced to what a caller branches on.
\<close>

section \<open>The adapter\<close>

record merge_state =
  st_survivor_present :: bool
  st_absorbed_present :: bool
  st_lineage_recorded :: bool
  st_last_merge_op_id :: "string option"

record merge_result =
  mr_merged :: bool
  mr_edges_bridged :: nat
  mr_episodes_rebound :: nat
  mr_retention_sources_rebound :: nat
  mr_facts_moved :: nat
  mr_deleted :: nat
  mr_reason :: "string option"

record 'g merge_adapter =
  ad_eligibility :: "string \<Rightarrow> string \<Rightarrow> 'g \<Rightarrow> merge_eligibility result"
  ad_capture :: "string \<Rightarrow> string \<Rightarrow> pyfloat \<Rightarrow> 'g \<Rightarrow> py_value result"
  ad_state :: "string \<Rightarrow> string \<Rightarrow> 'g \<Rightarrow> merge_state result"
  ad_merge :: "string \<Rightarrow> string \<Rightarrow> pyfloat \<Rightarrow> string \<Rightarrow> string list option \<Rightarrow> 'g \<Rightarrow> 'g \<times> merge_result result"

text \<open>What the process supplies: the packages of the codec, JSON text, the clock and the host.\<close>

record 't saga_env =
  sv_driver :: "'t driver"
  sv_json :: json_text
  sv_clock :: clock_text
  sv_host :: host_env

abbreviation sv_runtime :: "'t saga_env \<Rightarrow> py_runtime" where
  "sv_runtime sv \<equiv> dr_runtime (sv_driver sv)"

definition sv_token :: "'t saga_env \<Rightarrow> string" where
  "sv_token sv = process_owner_token (sv_host sv)"

section \<open>Outcomes\<close>

datatype saga_outcome =
    Would_Replay | Would_Restore | Would_Mark_Already_Applied | Would_Needs_Review | Skip | Unknown_Op_Kind
  | Live_Owner | Owner_Unknown | Replayed | Drifted | Replay_Failed | Skipped

definition LIVE_OUTCOMES :: "saga_outcome list" where
  "LIVE_OUTCOMES = [Replayed, Drifted, Replay_Failed, Skipped]"

definition CF20A_REACHABLE_OUTCOMES :: "saga_outcome list" where
  "CF20A_REACHABLE_OUTCOMES =
     [Would_Replay, Would_Restore, Would_Mark_Already_Applied, Would_Needs_Review, Skip, Unknown_Op_Kind]"

definition LIVE_REACHABLE_OUTCOMES :: "saga_outcome list" where
  "LIVE_REACHABLE_OUTCOMES =
     [Replayed, Drifted, Replay_Failed, Skipped, Live_Owner, Owner_Unknown, Unknown_Op_Kind]"

text \<open>Counts start at an explicit zero for every outcome of the mode; others are counted as well.\<close>

definition count_outcomes :: "saga_outcome list \<Rightarrow> saga_outcome list \<Rightarrow> (saga_outcome \<times> nat) list" where
  "count_outcomes vocabulary outcomes =
     map (\<lambda>n. (n, count_list outcomes n)) (dedup (vocabulary @ outcomes))"

definition summarize_outcomes :: "saga_outcome list \<Rightarrow> (saga_outcome \<times> nat) list" where
  "summarize_outcomes outcomes = count_outcomes CF20A_REACHABLE_OUTCOMES outcomes"

definition summarize_live_outcomes :: "saga_outcome list \<Rightarrow> (saga_outcome \<times> nat) list" where
  "summarize_live_outcomes outcomes = count_outcomes LIVE_REACHABLE_OUTCOMES outcomes"

datatype saga_error =
    Merge_Drift
  | Journal_Failed journal_error
  | Raised py_error
  | Replay_Disabled

datatype abstain_reason =
    Ineligible reason_code
  | Merge_Snapshot_Too_Large
  | Snapshot_Failed
  | Prepare_Failed journal_error
  | Repository_Abstained string

datatype saga_result =
    Abstained abstain_reason "string option"
  | Already_Applied string
  | Applied merge_result string

type_synonym 'g saga_world = "'g \<times> journal"

type_synonym ('g, 'a) saga_step = "'g saga_world \<times> (saga_error + 'a)"

section \<open>Keys, fingerprints and requests\<close>

definition pair_key :: "string \<Rightarrow> string \<Rightarrow> string" where
  "pair_key survivor_uuid absorbed_uuid = join ''::'' (sort [survivor_uuid, absorbed_uuid])"

definition merge_state_fingerprint :: "'t saga_env \<Rightarrow> merge_state \<Rightarrow> string" where
  "merge_state_fingerprint sv st =
     dr_sha256 (sv_driver sv) (js_canonical (sv_json sv)
       (PMap [(''survivor_present'', PBool (st_survivor_present st)),
              (''absorbed_present'', PBool (st_absorbed_present st)),
              (''lineage_recorded'', PBool (st_lineage_recorded st))]))"

definition merged_state :: "string \<Rightarrow> merge_state" where
  "merged_state oid =
     \<lparr>st_survivor_present = True, st_absorbed_present = False, st_lineage_recorded = True,
      st_last_merge_op_id = Some oid\<rparr>"

definition snapshot_fact_uuids :: "'t saga_env \<Rightarrow> string option \<Rightarrow> string \<Rightarrow> string list option" where
  "snapshot_fact_uuids sv snapshot_json survivor_uuid =
     (if \<not> truthy snapshot_json then None
      else case stored_node (sv_driver sv) (sv_json sv) ''absorbed'' (or_empty snapshot_json) of
        Inl _ \<Rightarrow> None
      | Inr absorbed \<Rightarrow> Some (moved_fact_uuids survivor_uuid absorbed))"

definition merge_request ::
  "'t saga_env \<Rightarrow> string \<Rightarrow> string \<Rightarrow> string \<Rightarrow> pyfloat \<Rightarrow> int \<Rightarrow> string \<Rightarrow> merge_state \<Rightarrow> py_value" where
  "merge_request sv oid survivor_uuid absorbed_uuid similarity now snapshot_json before =
     PMap [(''op_id'', PStr oid), (''survivor_uuid'', PStr survivor_uuid),
           (''absorbed_uuid'', PStr absorbed_uuid), (''similarity'', PFloat similarity),
           (''requested_at'', PStr (ct_iso (sv_clock sv) now)),
           (''expected_before_sha256'', PStr (merge_state_fingerprint sv before)),
           (''expected_fact_uuids'',
             (case snapshot_fact_uuids sv (Some snapshot_json) survivor_uuid of
                None \<Rightarrow> PNone | Some us \<Rightarrow> PList (map PStr us)))]"

definition request_item :: "string \<Rightarrow> py_value \<Rightarrow> py_value result" where
  "request_item k request = bind_result (as_dict request) (subscript k)"

definition request_get :: "string \<Rightarrow> py_value \<Rightarrow> py_value result" where
  "request_get k request = bind_result (as_dict request) (\<lambda>d. Inr (dict_get k d))"

definition request_str :: "'t saga_env \<Rightarrow> string \<Rightarrow> py_value \<Rightarrow> string result" where
  "request_str sv k request = bind_result (request_item k request) (\<lambda>v. Inr (py_str (sv_runtime sv) v))"

text \<open>The three identities every step reads first.\<close>

definition request_ids :: "'t saga_env \<Rightarrow> py_value \<Rightarrow> (string \<times> string \<times> string) result" where
  "request_ids sv request =
     bind_result (request_str sv ''op_id'' request) (\<lambda>oid.
     bind_result (request_str sv ''survivor_uuid'' request) (\<lambda>s.
     bind_result (request_str sv ''absorbed_uuid'' request) (\<lambda>a. Inr (oid, s, a))))"

section \<open>Classification\<close>

record replay_diag =
  dg_observed_error :: "string option"
  dg_expected_before :: py_value
  dg_expected_after :: "string option"

definition row_expected_after :: "string \<Rightarrow> journal \<Rightarrow> string option" where
  "row_expected_after oid j = (case get_op oid j of None \<Rightarrow> None | Some r \<Rightarrow> expected_after_sha256 r)"

definition decide_replay :: "string \<Rightarrow> py_value \<Rightarrow> string option \<Rightarrow> saga_outcome \<times> replay_diag" where
  "decide_replay observed_fp expected_before expected_after =
     (let diag = (\<lambda>e. \<lparr>dg_observed_error = e, dg_expected_before = expected_before, dg_expected_after = expected_after\<rparr>)
      in if truthy expected_after \<and> Some observed_fp = expected_after then (Would_Mark_Already_Applied, diag None)
         else if expected_before = PNone then (Would_Needs_Review, diag (Some ''no expected_before_sha256''))
         else if PStr observed_fp \<noteq> expected_before then (Would_Needs_Review, diag (Some ''merge drift''))
         else (Would_Replay, diag None))"

definition classify_replay ::
  "'t saga_env \<Rightarrow> 'g merge_adapter \<Rightarrow> py_value \<Rightarrow> 'g \<Rightarrow> journal \<Rightarrow> (saga_outcome \<times> replay_diag) result" where
  "classify_replay sv ad request g j =
     bind_result (request_ids sv request) (\<lambda>(oid, s, a).
     bind_result (request_get ''expected_before_sha256'' request) (\<lambda>expected_before.
     bind_result (ad_state ad s a g) (\<lambda>observed.
       Inr (decide_replay (merge_state_fingerprint sv observed) expected_before (row_expected_after oid j)))))"

text \<open>A malformed row is a \<^verbatim>\<open>KeyError\<close>, \<^verbatim>\<open>TypeError\<close>, \<^verbatim>\<open>ValueError\<close> or \<^verbatim>\<open>AttributeError\<close>; the last three
  are \<open>ValueError\<close> here.\<close>

definition row_defect :: "py_error \<Rightarrow> bool" where
  "row_defect e = (case e of KeyError _ \<Rightarrow> True | ValueError _ \<Rightarrow> True | _ \<Rightarrow> False)"

definition classify_prepared_row ::
  "'t saga_env \<Rightarrow> 'g merge_adapter \<Rightarrow> op_row \<Rightarrow> 'g \<Rightarrow> journal \<Rightarrow> saga_outcome result" where
  "classify_prepared_row sv ad row g j =
     (if operation_kind row \<noteq> ''ENTITY_MERGE'' then Inr Skip
      else case js_loads (sv_json sv) (request_json row) of
        None \<Rightarrow> Inr Would_Needs_Review
      | Some request \<Rightarrow>
          (case classify_replay sv ad request g j of
             Inl e \<Rightarrow> if row_defect e then Inr Would_Needs_Review else Inl e
           | Inr (outcome, _) \<Rightarrow> Inr outcome))"

section \<open>Mutate and verify\<close>

text \<open>A journal transition as the last act of a branch: its own exception replaces the branch's result.\<close>

definition settle ::
  "(journal \<Rightarrow> 'b journal_result) \<Rightarrow> saga_error + 'a \<Rightarrow> 'g saga_world \<Rightarrow> ('g, 'a) saga_step" where
  "settle act answer w =
     (case w of (g, j) \<Rightarrow>
        (case act j of
           (j', Inl e) \<Rightarrow> ((g, j'), Inl (Journal_Failed e))
         | (j', Inr _) \<Rightarrow> ((g, j'), answer)))"

definition quarantine :: "'t saga_env \<Rightarrow> string \<Rightarrow> string \<Rightarrow> string \<Rightarrow> 'g saga_world \<Rightarrow> ('g, 'a) saga_step" where
  "quarantine sv later oid reason =
     settle (mark_needs_review oid (Some reason) (Some (sv_token sv)) later) (Inl Merge_Drift)"

definition expected_facts :: "'t saga_env \<Rightarrow> py_value \<Rightarrow> string \<Rightarrow> string \<Rightarrow> journal \<Rightarrow> string list option" where
  "expected_facts sv request oid survivor_uuid j =
     (case request_get ''expected_fact_uuids'' request of
        Inl _ \<Rightarrow> None
      | Inr v \<Rightarrow>
          if v = PNone then
            snapshot_fact_uuids sv (case get_op oid j of None \<Rightarrow> None | Some r \<Rightarrow> before_snapshot_json r) survivor_uuid
          else Some (map (py_str (sv_runtime sv)) (list_of_value v)))"

definition call_merge ::
  "'t saga_env \<Rightarrow> 'g merge_adapter \<Rightarrow> py_value \<Rightarrow> string \<Rightarrow> string \<Rightarrow> string \<Rightarrow> string list option \<Rightarrow> 'g
    \<Rightarrow> 'g \<times> merge_result result" where
  "call_merge sv ad request oid s a facts g =
     (case bind_result (request_item ''similarity'' request) (py_float (sv_runtime sv)) of
        Inl e \<Rightarrow> (g, Inl e)
      | Inr similarity \<Rightarrow> ad_merge ad s a similarity oid facts g)"

definition finish_abstention ::
  "'t saga_env \<Rightarrow> 'g merge_adapter \<Rightarrow> string \<Rightarrow> string \<Rightarrow> string \<Rightarrow> string \<Rightarrow> replay_diag \<Rightarrow> merge_result
    \<Rightarrow> 'g saga_world \<Rightarrow> ('g, saga_result) saga_step" where
  "finish_abstention sv ad later oid s a diag r w =
     (let reason = (if truthy (mr_reason r) then or_empty (mr_reason r) else ''REPOSITORY_ABSTAINED'')
      in case ad_state ad s a (fst w) of
           Inl e \<Rightarrow> (w, Inl (Raised e))
         | Inr post \<Rightarrow>
             if PStr (merge_state_fingerprint sv post) = dg_expected_before diag then
               settle (mark_failed oid (Some (''repository abstained: '' @ reason)) (Some (sv_token sv)) later)
                 (Inr (Abstained (Repository_Abstained reason) (Some oid))) w
             else quarantine sv later oid ''abstained but the graph moved'' w)"

definition verify_merge ::
  "'t saga_env \<Rightarrow> 'g merge_adapter \<Rightarrow> string \<Rightarrow> string \<Rightarrow> string \<Rightarrow> string \<Rightarrow> replay_diag \<Rightarrow> merge_result
    \<Rightarrow> 'g saga_world \<Rightarrow> ('g, saga_result) saga_step" where
  "verify_merge sv ad later oid s a diag r w =
     (case ad_state ad s a (fst w) of
        Inl e \<Rightarrow> (w, Inl (Raised e))
      | Inr after \<Rightarrow>
          if truthy (dg_expected_after diag) \<and> Some (merge_state_fingerprint sv after) \<noteq> dg_expected_after diag
          then quarantine sv later oid ''after-state mismatch'' w
          else settle (mark_committed oid (Some (sv_token sv)) later) (Inr (Applied r oid)) w)"

definition apply_owned ::
  "'t saga_env \<Rightarrow> 'g merge_adapter \<Rightarrow> string \<Rightarrow> py_value \<Rightarrow> 'g saga_world \<Rightarrow> ('g, saga_result) saga_step" where
  "apply_owned sv ad later request w =
     (case w of (g, j) \<Rightarrow>
        (case request_ids sv request of
           Inl e \<Rightarrow> (w, Inl (Raised e))
         | Inr (oid, s, a) \<Rightarrow>
             (case classify_replay sv ad request g j of
                Inl e \<Rightarrow> (w, Inl (Raised e))
              | Inr (outcome, diag) \<Rightarrow>
                  if outcome = Would_Mark_Already_Applied then
                    settle (mark_committed oid (Some (sv_token sv)) later) (Inr (Already_Applied oid)) w
                  else if outcome = Would_Needs_Review then
                    quarantine sv later oid (or_empty (dg_observed_error diag)) w
                  else
                    (case call_merge sv ad request oid s a (expected_facts sv request oid s j) g of
                       (g', Inl e) \<Rightarrow>
                         settle (record_attempt oid (Some ''merge raised'') (Some (sv_token sv)) later)
                           (Inl (Raised e)) (g', j)
                     | (g', Inr r) \<Rightarrow>
                         if \<not> mr_merged r then finish_abstention sv ad later oid s a diag r (g', j)
                         else verify_merge sv ad later oid s a diag r (g', j)))))"

section \<open>The saga\<close>

definition merge_prepare_args ::
  "'t saga_env \<Rightarrow> string \<Rightarrow> string \<Rightarrow> string \<Rightarrow> py_value \<Rightarrow> string \<Rightarrow> prepare_args" where
  "merge_prepare_args sv oid s a request snapshot_json =
     \<lparr>pa_operation_kind = ''ENTITY_MERGE'', pa_request_json = js_canonical (sv_json sv) request,
      pa_target_uuid = Some a, pa_target_key = Some (pair_key s a), pa_batch_id = None,
      pa_before_snapshot_json = Some snapshot_json,
      pa_expected_after_sha256 = Some (merge_state_fingerprint sv (merged_state oid)),
      pa_reverses_op_id = None, pa_op_id = oid, pa_owner_token = sv_token sv\<rparr>"

record merge_call =
  mc_gate :: gate_table
  mc_epoch :: rat
  mc_now :: int
  mc_later :: string
  mc_op_id :: string
  mc_survivor_uuid :: string
  mc_absorbed_uuid :: string
  mc_similarity :: pyfloat

definition saga_prepare :: "'t saga_env \<Rightarrow> merge_call \<Rightarrow> py_value \<Rightarrow> string \<Rightarrow> journal \<Rightarrow> string journal_result" where
  "saga_prepare sv c request snapshot_json =
     prepare (sv_runtime sv) (js_loads (sv_json sv)) (sv_clock sv) (mc_gate c) (mc_epoch c) (mc_now c)
       (merge_prepare_args sv (mc_op_id c) (mc_survivor_uuid c) (mc_absorbed_uuid c) request snapshot_json)"

definition saga_snapshot :: "'t saga_env \<Rightarrow> 'g merge_adapter \<Rightarrow> merge_call \<Rightarrow> 'g \<Rightarrow> string result" where
  "saga_snapshot sv ad c g =
     bind_result (ad_capture ad (mc_survivor_uuid c) (mc_absorbed_uuid c) (mc_similarity c) g)
       (\<lambda>snapshot. snapshot_dumps (sv_json sv) snapshot True)"

definition saga_merge ::
  "'t saga_env \<Rightarrow> 'g merge_adapter \<Rightarrow> merge_call \<Rightarrow> 'g saga_world \<Rightarrow> ('g, saga_result) saga_step" where
  "saga_merge sv ad c w =
     (case w of (g, j) \<Rightarrow>
        (let s = mc_survivor_uuid c; a = mc_absorbed_uuid c in
         case ad_eligibility ad s a g of
           Inl e \<Rightarrow> (w, Inl (Raised e))
         | Inr eligibility \<Rightarrow>
             if \<not> me_allowed eligibility then (w, Inr (Abstained (Ineligible (me_reason_code eligibility)) None))
             else
               (case saga_snapshot sv ad c g of
                  Inl e \<Rightarrow>
                    (case e of
                       ValueError t \<Rightarrow> (w, Inr (Abstained
                         (if t = ''SnapshotTooLargeError'' then Merge_Snapshot_Too_Large else Snapshot_Failed) None))
                     | _ \<Rightarrow> (w, Inl (Raised e)))
                | Inr snapshot_json \<Rightarrow>
                    (case ad_state ad s a g of
                       Inl e \<Rightarrow> (w, Inl (Raised e))
                     | Inr before \<Rightarrow>
                         (let request = merge_request sv (mc_op_id c) s a (mc_similarity c) (mc_now c) snapshot_json before
                          in case saga_prepare sv c request snapshot_json j of
                               (j', Inl e) \<Rightarrow> ((g, j'), Inr (Abstained (Prepare_Failed e) None))
                             | (j', Inr _) \<Rightarrow> apply_owned sv ad (mc_later c) request (g, j'))))))"

section \<open>Replay\<close>

definition replay_prepared_row ::
  "'t saga_env \<Rightarrow> 'g merge_adapter \<Rightarrow> string \<Rightarrow> op_row \<Rightarrow> 'g saga_world \<Rightarrow> ('g, saga_outcome) saga_step" where
  "replay_prepared_row sv ad later row w =
     (if operation_kind row \<noteq> ''ENTITY_MERGE'' then (w, Inr Skipped)
      else case js_loads (sv_json sv) (request_json row) of
        None \<Rightarrow>
          settle (mark_needs_review (op_id row) (Some ''unparseable request_json'') (Some (sv_token sv)) later)
            (Inr Drifted) w
      | Some request \<Rightarrow>
          (case apply_owned sv ad later request w of
             (w', Inr _) \<Rightarrow> (w', Inr Replayed)
           | (w', Inl e) \<Rightarrow>
               (w', Inr (if e = Journal_Failed Stale_Transition then Live_Owner
                         else if e = Merge_Drift then Drifted else Replay_Failed))))"

definition forecast_sweep :: "'t saga_env \<Rightarrow> 'g merge_adapter \<Rightarrow> nat \<Rightarrow> 'g \<Rightarrow> journal \<Rightarrow> (string \<times> saga_outcome) list result" where
  "forecast_sweep sv ad limit g j =
     map_result (\<lambda>row. bind_result (classify_prepared_row sv ad row g j) (\<lambda>out. Inr (op_id row, out)))
       (list_by_state PREPARED limit j)"

fun live_sweep ::
  "'t saga_env \<Rightarrow> 'g merge_adapter \<Rightarrow> string \<Rightarrow> op_row list \<Rightarrow> 'g saga_world \<Rightarrow> ('g, saga_outcome list) saga_step" where
  "live_sweep sv ad later [] w = (w, Inr [])"
| "live_sweep sv ad later (row # rows) w =
     (case replay_prepared_row sv ad later row w of
        (w', Inl e) \<Rightarrow> (w', Inl e)
      | (w', Inr out) \<Rightarrow>
          (case live_sweep sv ad later rows w' of
             (w'', Inl e) \<Rightarrow> (w'', Inl e)
           | (w'', Inr outs) \<Rightarrow> (w'', Inr (out # outs))))"

record sweep_counts =
  sc_replayed :: nat
  sc_drifted :: nat
  sc_failed :: nat

definition replay_prepared :: "'t saga_env \<Rightarrow> 'g merge_adapter \<Rightarrow> string \<Rightarrow> nat \<Rightarrow> 'g saga_world \<Rightarrow> ('g, sweep_counts) saga_step" where
  "replay_prepared sv ad later limit w =
     (case live_sweep sv ad later (list_by_state PREPARED limit (snd w)) w of
        (w', Inl e) \<Rightarrow> (w', Inl e)
      | (w', Inr outs) \<Rightarrow>
          (w', Inr \<lparr>sc_replayed = count_list outs Replayed, sc_drifted = count_list outs Drifted,
                    sc_failed = count_list outs Replay_Failed\<rparr>))"

definition reconcile ::
  "'t saga_env \<Rightarrow> 'g merge_adapter \<Rightarrow> nat \<Rightarrow> bool \<Rightarrow> 'g saga_world \<Rightarrow> saga_error + (string \<times> saga_outcome) list" where
  "reconcile sv ad limit dry_run w =
     (if \<not> dry_run then Inl Replay_Disabled
      else case forecast_sweep sv ad limit (fst w) (snd w) of Inl e \<Rightarrow> Inl (Raised e) | Inr outs \<Rightarrow> Inr outs)"

definition load_merge_snapshot :: "'t saga_env \<Rightarrow> string \<Rightarrow> journal \<Rightarrow> py_dict result" where
  "load_merge_snapshot sv oid j =
     (case get_op oid j of
        None \<Rightarrow> Inl (RuntimeError ''no operation'')
      | Some row \<Rightarrow>
          if \<not> truthy (before_snapshot_json row) then schema_error
          else bind_result (snapshot_loads (sv_json sv) (or_empty (before_snapshot_json row)))
                 (load_snapshot (sv_driver sv) (sv_json sv)))"

end
