(* ===== verification/Statement_Execution.thy ===== *)
theory Statement_Execution
  imports Operation_Owner
begin

text \<open>
  \<^verbatim>\<open>Neo4jRepository.execute\<close> (\<^verbatim>\<open>infrastructure/neo4j.py\<close>): a statement, which is one transaction of the
  server, and the attempts to run it over a connection that can fail. What becomes of an attempt is a
  parameter. The server rolls a transaction back when it raises a \<^verbatim>\<open>TransientError\<close>; a lost connection
  says nothing about the transaction, which may have been committed.
\<close>

datatype attempt =
    Answered
  | Rolled_Back py_error
  | Connection_Lost bool py_error
  | Ownership_Revoked

type_synonym ('g, 'a) statement = "'g \<Rightarrow> 'g \<times> 'a result"

definition ownership_revoked :: py_error where
  "ownership_revoked = RuntimeError ''SagaOwnershipRevoked''"

text \<open>The loop over the attempts: \<open>n\<close> are left, \<open>i\<close> is the next one, \<open>err\<close> is the last exception.\<close>

fun execute_attempts ::
  "nat \<Rightarrow> nat \<Rightarrow> (nat \<Rightarrow> attempt) \<Rightarrow> bool \<Rightarrow> py_error \<Rightarrow> ('g, 'a) statement \<Rightarrow> ('g, 'a) statement" where
  "execute_attempts 0 i fate safe err stmt g = (g, Inl err)"
| "execute_attempts (Suc n) i fate safe err stmt g =
     (case fate i of
        Ownership_Revoked \<Rightarrow> (g, Inl ownership_revoked)
      | Answered \<Rightarrow> stmt g
      | Rolled_Back e \<Rightarrow> execute_attempts n (Suc i) fate safe e stmt g
      | Connection_Lost committed e \<Rightarrow>
          (let g' = (if committed then fst (stmt g) else g)
           in if safe then execute_attempts n (Suc i) fate safe e stmt g' else (g', Inl e)))"

definition execute :: "(nat \<Rightarrow> attempt) \<Rightarrow> bool \<Rightarrow> ('g, 'a) statement \<Rightarrow> ('g, 'a) statement" where
  "execute fate safe_to_reexecute stmt =
     execute_attempts TRANSIENT_RETRIES 0 fate safe_to_reexecute (RuntimeError []) stmt"

text \<open>A statement that only reads.\<close>

definition read_only :: "('g \<Rightarrow> 'a) \<Rightarrow> ('g, 'a) statement" where
  "read_only f = (\<lambda>g. (g, Inr (f g)))"

section \<open>What a caller may rely on\<close>

text \<open>
  A statement that is not declared safe to run again takes effect at most once: an answer is the answer
  of one run, and an exception leaves the graph as it was or as one run left it.
\<close>

lemma execute_attempts_once:
  "execute_attempts n i fate False err stmt g = (g', res) \<Longrightarrow>
     (g', res) = stmt g \<or> isl res \<and> (g' = g \<or> g' = fst (stmt g))"
  by (induction n i fate False err stmt g rule: execute_attempts.induct)
    (auto simp: Let_def split: attempt.splits if_splits)

lemma execute_once:
  assumes "execute fate False stmt g = (g', res)"
  obtains (ran) "stmt g = (g', res)" | (failed) e where "res = Inl e" "g' = g" | (silent) e where "res = Inl e" "g' = fst (stmt g)"
  using execute_attempts_once [OF assms [unfolded execute_def]] by (auto simp: isl_def)

lemma execute_read:
  assumes "execute fate safe (read_only f) g = (g', res)"
  shows "g' = g \<and> (\<forall>x. res = Inr x \<longrightarrow> x = f g)"
proof -
  have "execute_attempts n i fate safe err (read_only f) h = (h', res') \<Longrightarrow> h' = h \<and> (\<forall>x. res' = Inr x \<longrightarrow> x = f h)"
    for n i err h h' res'
    by (induction n i fate safe err "read_only f" h rule: execute_attempts.induct)
      (auto simp: read_only_def Let_def split: attempt.splits if_splits)
  then show ?thesis
    using assms by (simp add: execute_def)
qed

text \<open>A connection that recovers within the attempts: transient errors at most, then an answer.\<close>

definition recovers :: "(nat \<Rightarrow> attempt) \<Rightarrow> bool" where
  "recovers fate \<longleftrightarrow>
     list_ex (\<lambda>k. fate k = Answered \<and> list_all (\<lambda>i. case fate i of Rolled_Back _ \<Rightarrow> True | _ \<Rightarrow> False) [0..<k])
       [0..<TRANSIENT_RETRIES]"

lemma execute_attempts_answered:
  "\<forall>i<k. \<exists>e. fate (j + i) = Rolled_Back e \<Longrightarrow> fate (j + k) = Answered \<Longrightarrow> k < n \<Longrightarrow>
     execute_attempts n j fate safe err stmt g = stmt g"
proof (induction n arbitrary: k j err)
  case (Suc n)
  show ?case
  proof (cases k)
    case 0
    then show ?thesis using Suc.prems(2) by simp
  next
    case (Suc k')
    then obtain e where "fate j = Rolled_Back e"
      using Suc.prems(1) by force
    moreover have "\<forall>i<k'. \<exists>e. fate (Suc j + i) = Rolled_Back e"
      using Suc.prems(1) Suc by (metis Suc_less_eq add_Suc_shift)
    ultimately show ?thesis
      using Suc.IH [of k' "Suc j"] Suc.prems(2,3) Suc by simp
  qed
qed simp

lemma execute_recovers: "recovers fate \<Longrightarrow> execute fate safe stmt g = stmt g"
  unfolding recovers_def execute_def list_ex_iff
  by (elim bexE conjE, rule execute_attempts_answered)
    (auto simp: list_all_iff split: attempt.splits, metis attempt.exhaust atLeastLessThan_iff le0)

end
