(* ===== verification/Merge_Graph.thy ===== *)
theory Merge_Graph
  imports Merge_Saga Source_Authority Statement_Execution
begin

text \<open>
  The graph the merge saga works on: the statements of \<^verbatim>\<open>infrastructure/correlation_queries.py\<close> over a
  property graph. A node and a relationship carry an element id; a property that is null is absent.
  Every statement is one transaction. Where a statement matches an entity by uuid the model takes the
  first match: the theorems assume that a uuid names one node. A property the policy reads has the
  type the writers give it, a string or a boolean. \<^verbatim>\<open>datetime()\<close> and \<^verbatim>\<open>json.dumps\<close> with its default
  separators are parameters.
\<close>

section \<open>Property graphs\<close>

type_synonym 't props = "(string \<times> 't neo_value) list"

record 't gnode =
  gn_id :: nat
  gn_labels :: "string list"
  gn_props :: "'t props"

record 't grel =
  gr_id :: nat
  gr_type :: string
  gr_start :: nat
  gr_end :: nat
  gr_props :: "'t props"

record 't pgraph =
  g_nodes :: "'t gnode list"
  g_rels :: "'t grel list"

definition set_prop :: "string \<Rightarrow> 't neo_value \<Rightarrow> 't props \<Rightarrow> 't props" where
  "set_prop k v d = (let rest = filter (\<lambda>kv. fst kv \<noteq> k) d in if v = NNone then rest else (k, v) # rest)"

definition node_prop :: "string \<Rightarrow> 't gnode \<Rightarrow> 't neo_value" where
  "node_prop k n = neo_get k (gn_props n)"

definition rel_prop :: "string \<Rightarrow> 't grel \<Rightarrow> 't neo_value" where
  "rel_prop k r = neo_get k (gr_props r)"

definition has_label :: "string \<Rightarrow> 't gnode \<Rightarrow> bool" where
  "has_label l n \<longleftrightarrow> l \<in> set (gn_labels n)"

definition entities :: "string \<Rightarrow> 't pgraph \<Rightarrow> 't gnode list" where
  "entities u g = filter (\<lambda>n. has_label ''Entity'' n \<and> node_prop ''uuid'' n = NStr u) (g_nodes g)"

definition node_by_id :: "nat \<Rightarrow> 't pgraph \<Rightarrow> 't gnode option" where
  "node_by_id i g = find (\<lambda>n. gn_id n = i) (g_nodes g)"

definition incident :: "nat \<Rightarrow> 't grel \<Rightarrow> bool" where
  "incident i r \<longleftrightarrow> gr_start r = i \<or> gr_end r = i"

definition other_end :: "nat \<Rightarrow> 't grel \<Rightarrow> nat" where
  "other_end i r = (if gr_start r = i then gr_end r else gr_start r)"

definition labelled_at :: "string \<Rightarrow> 't pgraph \<Rightarrow> nat \<Rightarrow> bool" where
  "labelled_at l g i = (case node_by_id i g of None \<Rightarrow> False | Some n \<Rightarrow> has_label l n)"

definition prop_at :: "string \<Rightarrow> 't pgraph \<Rightarrow> nat \<Rightarrow> 't neo_value" where
  "prop_at k g i = (case node_by_id i g of None \<Rightarrow> NNone | Some n \<Rightarrow> node_prop k n)"

definition fresh_rel_id :: "'t pgraph \<Rightarrow> nat" where
  "fresh_rel_id g = Suc (fold max (map gr_id (g_rels g)) 0)"

definition add_rel :: "string \<Rightarrow> nat \<Rightarrow> nat \<Rightarrow> 't props \<Rightarrow> 't pgraph \<Rightarrow> 't pgraph" where
  "add_rel ty st en ps g =
     g\<lparr>g_rels := g_rels g @ [\<lparr>gr_id = fresh_rel_id g, gr_type = ty, gr_start = st, gr_end = en, gr_props = ps\<rparr>]\<rparr>"

text \<open>\<^verbatim>\<open>MERGE (a)-[:T]->(b)\<close>: any relationship of the type and direction satisfies it.\<close>

definition merge_rel :: "string \<Rightarrow> nat \<Rightarrow> nat \<Rightarrow> 't props \<Rightarrow> 't pgraph \<Rightarrow> 't pgraph" where
  "merge_rel ty st en ps g =
     (if list_ex (\<lambda>r. gr_type r = ty \<and> gr_start r = st \<and> gr_end r = en) (g_rels g) then g
      else add_rel ty st en ps g)"

definition update_node :: "nat \<Rightarrow> ('t props \<Rightarrow> 't props) \<Rightarrow> 't pgraph \<Rightarrow> 't pgraph" where
  "update_node i f g =
     g\<lparr>g_nodes := map (\<lambda>n. if gn_id n = i then n\<lparr>gn_props := f (gn_props n)\<rparr> else n) (g_nodes g)\<rparr>"

section \<open>Eligibility of graph nodes\<close>

definition string_prop :: "string \<Rightarrow> 't gnode \<Rightarrow> string option" where
  "string_prop k n = (case node_prop k n of NStr s \<Rightarrow> Some s | _ \<Rightarrow> None)"

definition bool_prop :: "string \<Rightarrow> 't gnode \<Rightarrow> bool option" where
  "bool_prop k n = (case node_prop k n of NBool b \<Rightarrow> Some b | _ \<Rightarrow> None)"

definition tenant_of :: "'t gnode \<Rightarrow> tenant_row" where
  "tenant_of n = \<lparr>row_namespace = string_prop ''namespace'' n, row_group_id = string_prop ''group_id'' n\<rparr>"

text \<open>The nodes \<^verbatim>\<open>(src:Episodic)-[:T]->(n)\<close>, one per relationship.\<close>

definition episodes_into :: "string \<Rightarrow> 't pgraph \<Rightarrow> nat \<Rightarrow> 't gnode list" where
  "episodes_into ty g i =
     filter (has_label ''Episodic'')
       (List.map_filter (\<lambda>r. if gr_type r = ty \<and> gr_end r = i then node_by_id (gr_start r) g else None) (g_rels g))"

definition entity_row_of :: "'t pgraph \<Rightarrow> 't gnode \<Rightarrow> entity_row" where
  "entity_row_of g n =
     \<lparr>er_uuid = or_empty (string_prop ''uuid'' n), er_name = string_prop ''name'' n,
      er_structure_role = string_prop ''structure_role'' n, er_is_view = bool_prop ''is_view'' n,
      er_is_quantstate = bool_prop ''is_quantstate'' n, er_view_kind = string_prop ''view_kind'' n,
      er_is_self = bool_prop ''is_self'' n, er_entity_role = string_prop ''entity_role'' n,
      er_self_tier = string_prop ''self_tier'' n, er_tenant = tenant_of n,
      er_freshness = string_prop ''freshness'' n, er_scope = string_prop ''scope'' n,
      er_user_flagged = bool_prop ''user_flagged'' n, er_conflict_status = string_prop ''conflict_status'' n,
      er_retention_sources =
        map (\<lambda>e. \<lparr>rs_user_flagged = bool_prop ''user_flagged'' e, rs_tenant = tenant_of e\<rparr>)
          (episodes_into ''RETENTION_SOURCE'' g (gn_id n))\<rparr>"

definition graph_eligibility :: "string \<Rightarrow> string \<Rightarrow> 't pgraph \<Rightarrow> merge_eligibility" where
  "graph_eligibility s a g =
     evaluate_merge_eligibility
       (map (entity_row_of g) (filter (\<lambda>n. has_label ''Entity'' n \<and> string_prop ''uuid'' n \<noteq> None) (g_nodes g))) s a"

section \<open>Reads\<close>

definition neo_members :: "'t neo_value \<Rightarrow> 't neo_value list" where
  "neo_members v = (case v of NList vs \<Rightarrow> vs | _ \<Rightarrow> [])"

definition fetch_merge_state :: "string \<Rightarrow> string \<Rightarrow> 't pgraph \<Rightarrow> merge_state" where
  "fetch_merge_state s a g =
     \<lparr>st_survivor_present = entities s g \<noteq> [], st_absorbed_present = entities a g \<noteq> [],
      st_lineage_recorded =
        (case entities s g of [] \<Rightarrow> False | n # _ \<Rightarrow> NStr a \<in> set (neo_members (node_prop ''merged_from'' n))),
      st_last_merge_op_id = (case entities s g of [] \<Rightarrow> None | n # _ \<Rightarrow> string_prop ''last_merge_op_id'' n)\<rparr>"

text \<open>\<^verbatim>\<open>coalesce(peer.uuid, peer.name, elementId(peer))\<close>, as the text the encoder makes of it.\<close>

definition neo_text :: "'t driver \<Rightarrow> 't neo_value \<Rightarrow> string option" where
  "neo_text dr v = (if v = NNone then None else Some (py_str (dr_runtime dr) (encode_value dr v)))"

definition first_some :: "'a option \<Rightarrow> 'a option \<Rightarrow> 'a option" where
  "first_some x y = (case x of None \<Rightarrow> y | Some v \<Rightarrow> Some v)"

definition capture_rel :: "'t driver \<Rightarrow> 't pgraph \<Rightarrow> nat \<Rightarrow> 't grel \<Rightarrow> 't rel_state" where
  "capture_rel dr g i r =
     (let p = other_end i r
      in \<lparr>rs_type = gr_type r, rs_direction = (if gr_start r = i then ''out'' else ''in''),
          rs_properties = gr_props r, rs_peer_uuid = neo_text dr (prop_at ''uuid'' g p),
          rs_peer_labels = (case node_by_id p g of None \<Rightarrow> [] | Some n \<Rightarrow> gn_labels n),
          rs_peer_identity = first_some (neo_text dr (prop_at ''uuid'' g p))
            (first_some (neo_text dr (prop_at ''name'' g p)) (Some (str_of_int (int p))))\<rparr>)"

definition node_snapshot :: "'t driver \<Rightarrow> 't pgraph \<Rightarrow> string \<Rightarrow> 't node_state option" where
  "node_snapshot dr g u =
     (case filter (\<lambda>n. node_prop ''uuid'' n = NStr u) (g_nodes g) of
        [] \<Rightarrow> None
      | n # _ \<Rightarrow> Some \<lparr>nst_uuid = u, nst_labels = gn_labels n, nst_properties = gn_props n,
                       nst_relationships = map (capture_rel dr g (gn_id n)) (filter (incident (gn_id n)) (g_rels g))\<rparr>)"

definition capture_node_state :: "'t driver \<Rightarrow> 't pgraph \<Rightarrow> string \<Rightarrow> py_value option" where
  "capture_node_state dr g u = map_option (encode_node dr) (node_snapshot dr g u)"

definition capture_merge_snapshot ::
  "'t driver \<Rightarrow> json_text \<Rightarrow> string \<Rightarrow> string \<Rightarrow> pyfloat \<Rightarrow> 't pgraph \<Rightarrow> py_value result" where
  "capture_merge_snapshot dr js s a similarity g =
     (case (capture_node_state dr g s, capture_node_state dr g a) of
        (Some survivor, Some absorbed) \<Rightarrow> Inr (build_snapshot dr js survivor absorbed (Some similarity))
      | _ \<Rightarrow> schema_error)"

section \<open>Phase 1: what the merge reads\<close>

definition distinct_uuids :: "'t gnode list \<Rightarrow> 't neo_value list" where
  "distinct_uuids ns = filter (\<lambda>v. v \<noteq> NNone) (dedup (map (node_prop ''uuid'') ns))"

definition select_props :: "string list \<Rightarrow> 't gnode \<Rightarrow> 't props" where
  "select_props ks n = map (\<lambda>k. (k, node_prop k n)) ks"

record 't merge_read =
  mg_survivor :: "'t props"
  mg_absorbed :: "'t props"
  mg_relationships :: "py_value list"
  mg_mentioned_by_episodes :: "'t neo_value list"
  mg_survivor_episodes_before :: "'t neo_value list"
  mg_retention_sources :: "'t neo_value list"
  mg_survivor_retention_sources_before :: "'t neo_value list"

definition audit_rel :: "'t driver \<Rightarrow> 't pgraph \<Rightarrow> nat \<Rightarrow> 't grel \<Rightarrow> py_value" where
  "audit_rel dr g i r =
     PMap [(''peer_uuid'', encode_value dr (prop_at ''uuid'' g (other_end i r))), (''rel_type'', PStr (gr_type r)),
           (''weight'', encode_value dr (rel_prop ''weight'' r)),
           (''direction'', PStr (if gr_start r = i then ''out'' else ''in''))]"

definition tenant_sources :: "'t pgraph \<Rightarrow> 't gnode \<Rightarrow> 't gnode list" where
  "tenant_sources g n =
     filter (\<lambda>e. same_tenant (tenant_of e) (tenant_of n)) (episodes_into ''RETENTION_SOURCE'' g (gn_id n))"

definition merge_phase_one :: "'t driver \<Rightarrow> string \<Rightarrow> string \<Rightarrow> 't pgraph \<Rightarrow> 't merge_read option" where
  "merge_phase_one dr s a g =
     (case (entities s g, entities a g) of
        (sn # _, an # _) \<Rightarrow> Some
          \<lparr>mg_survivor = select_props [''source'', ''sources'', ''source_confidence''] sn,
           mg_absorbed = select_props [''uuid'', ''name'', ''summary'', ''content'', ''source'', ''source_confidence'',
             ''sources'', ''corroboration'', ''type'', ''scope'', ''created_at'', ''namespace''] an,
           mg_relationships = map (audit_rel dr g (gn_id an))
             (filter (\<lambda>r. incident (gn_id an) r \<and> labelled_at ''Entity'' g (other_end (gn_id an) r)) (g_rels g)),
           mg_mentioned_by_episodes = distinct_uuids (episodes_into ''MENTIONS'' g (gn_id an)),
           mg_survivor_episodes_before = distinct_uuids (episodes_into ''MENTIONS'' g (gn_id sn)),
           mg_retention_sources = distinct_uuids (tenant_sources g an),
           mg_survivor_retention_sources_before = distinct_uuids (tenant_sources g sn)\<rparr>
      | _ \<Rightarrow> None)"

text \<open>The audit entry. \<^verbatim>\<open>created_at\<close> is read through \<^verbatim>\<open>toString\<close>; \<open>dumps\<close> is \<^verbatim>\<open>json.dumps(..., default=str)\<close>.\<close>

definition audit_document :: "'t driver \<Rightarrow> string \<Rightarrow> string \<Rightarrow> string \<Rightarrow> pyfloat \<Rightarrow> 't merge_read \<Rightarrow> py_value" where
  "audit_document dr stamp s a similarity snap =
     (let uuids = (\<lambda>vs. PList (map (encode_value dr) vs))
      in PMap [(''snapshot_at'', PStr stamp), (''absorbed_uuid'', PStr a), (''survivor_uuid'', PStr s),
           (''similarity'', PFloat similarity),
           (''properties'', PMap (map (\<lambda>(k, v). (k, if k = ''created_at'' then opt_str (neo_text dr v) else encode_value dr v))
              (mg_absorbed snap))),
           (''relationships'', PList (mg_relationships snap)),
           (''mentioned_by_episodes'', uuids (mg_mentioned_by_episodes snap)),
           (''survivor_episodes_before'', uuids (mg_survivor_episodes_before snap)),
           (''retention_sources'', uuids (mg_retention_sources snap)),
           (''survivor_retention_sources_before'', uuids (mg_survivor_retention_sources_before snap))])"

section \<open>Phase 2: the mutation\<close>

text \<open>
  \<^verbatim>\<open>=\<close> of Cypher on two values that are not null: integers and floats compare by value and NaN is
  equal to nothing.
\<close>

fun cypher_equal :: "'t neo_value \<Rightarrow> 't neo_value \<Rightarrow> bool" where
  "cypher_equal (NFloat a) (NFloat b) \<longleftrightarrow> a \<noteq> NaN \<and> a = b"
| "cypher_equal (NInt i) (NFloat b) \<longleftrightarrow> b = Finite (of_int i)"
| "cypher_equal (NFloat a) (NInt i) \<longleftrightarrow> a = Finite (of_int i)"
| "cypher_equal (NList vs) (NList ws) \<longleftrightarrow> list_all2 cypher_equal vs ws"
| "cypher_equal v w \<longleftrightarrow> v = w"

definition unchanged_since_phase_one :: "'t neo_value \<Rightarrow> 't neo_value \<Rightarrow> bool" where
  "unchanged_since_phase_one v p \<longleftrightarrow> (if v = NNone \<or> p = NNone then v = NNone \<and> p = NNone else cypher_equal v p)"

definition GUARDED_PROVENANCE :: "(bool \<times> string) list" where
  "GUARDED_PROVENANCE =
     [(True, ''source''), (True, ''sources''), (True, ''source_confidence''),
      (False, ''source''), (False, ''sources''), (False, ''source_confidence''), (False, ''corroboration'')]"

definition provenance_guard :: "'t merge_read \<Rightarrow> 't gnode \<Rightarrow> 't gnode \<Rightarrow> bool" where
  "provenance_guard snap sn an \<longleftrightarrow>
     list_all (\<lambda>(of_survivor, k).
         if of_survivor then unchanged_since_phase_one (node_prop k sn) (neo_get k (mg_survivor snap))
         else unchanged_since_phase_one (node_prop k an) (neo_get k (mg_absorbed snap)))
       GUARDED_PROVENANCE"

text \<open>Which relationships of the absorbed node are facts a merge moves (\<^verbatim>\<open>_MOVED_FACT_WHERE\<close>).\<close>

definition moved_fact_where :: "'t pgraph \<Rightarrow> 't gnode \<Rightarrow> 't gnode \<Rightarrow> 't grel \<Rightarrow> bool" where
  "moved_fact_where g sn an f \<longleftrightarrow>
     (let peer = other_end (gn_id an) f; pu = prop_at ''uuid'' g peer
      in gr_type f = ''RELATES_TO'' \<and> incident (gn_id an) f \<and> labelled_at ''Entity'' g peer
         \<and> rel_prop ''fact'' f \<noteq> NNone
         \<and> (case rel_prop ''uuid'' f of NStr u \<Rightarrow> u \<noteq> [] | _ \<Rightarrow> False)
         \<and> pu \<noteq> NNone \<and> pu \<noteq> node_prop ''uuid'' sn \<and> pu \<noteq> node_prop ''uuid'' an)"

definition moved_facts :: "'t pgraph \<Rightarrow> 't gnode \<Rightarrow> 't gnode \<Rightarrow> 't grel list" where
  "moved_facts g sn an = filter (moved_fact_where g sn an) (g_rels g)"

definition fact_set_guard :: "string list option \<Rightarrow> 't neo_value list \<Rightarrow> bool" where
  "fact_set_guard expected live \<longleftrightarrow>
     (case expected of
        None \<Rightarrow> True
      | Some us \<Rightarrow> length live = length us \<and> set live = NStr ` set us)"

definition cypher_size :: "'t neo_value \<Rightarrow> nat" where
  "cypher_size v = (case v of NStr s \<Rightarrow> length s | NList vs \<Rightarrow> length vs | _ \<Rightarrow> 0)"

definition coalesce2 :: "'t neo_value \<Rightarrow> 't neo_value \<Rightarrow> 't neo_value" where
  "coalesce2 a b = (if a \<noteq> NNone then a else b)"

fun neo_of :: "py_value \<Rightarrow> 't neo_value" where
  "neo_of PNone = NNone"
| "neo_of (PBool b) = NBool b"
| "neo_of (PInt i) = NInt i"
| "neo_of (PFloat f) = NFloat f"
| "neo_of (PStr s) = NStr s"
| "neo_of (PList vs) = NList (map neo_of vs)"
| "neo_of (PMap d) = NMap (map (\<lambda>kv. (fst kv, neo_of (snd kv))) d)"

definition merged_text :: "'t gnode \<Rightarrow> 't gnode \<Rightarrow> 't neo_value \<times> 't neo_value" where
  "merged_text sn an =
     (let longer = (\<lambda>v w. 6 * cypher_size w < 5 * cypher_size v);
          text_of = (\<lambda>n. coalesce2 (node_prop ''summary'' n) (node_prop ''content'' n));
          richer = (if longer (text_of an) (text_of sn) then an else sn)
      in (coalesce2 (node_prop ''summary'' richer) (coalesce2 (node_prop ''content'' richer) (node_prop ''summary'' sn)),
          if longer (node_prop ''content'' an) (node_prop ''content'' sn) then node_prop ''content'' an
          else node_prop ''content'' sn))"

record 't merge_params =
  mp_survivor_uuid :: string
  mp_absorbed_uuid :: string
  mp_audit_entry :: string
  mp_op_id :: string
  mp_expected_fact_uuids :: "string list option"
  mp_provenance :: py_dict
  mp_datetime :: "'t neo_value"

definition survivor_delta :: "'t merge_params \<Rightarrow> 't gnode \<Rightarrow> 't gnode \<Rightarrow> 't props" where
  "survivor_delta mp sn an =
     (case merged_text sn an of (summary, content) \<Rightarrow>
       [(''summary'', summary), (''content'', content),
        (''sources'', neo_of (dict_get ''sources'' (mp_provenance mp))),
        (''corroboration'', neo_of (dict_get ''corroboration'' (mp_provenance mp))),
        (''source_confidence'', neo_of (dict_get ''source_confidence'' (mp_provenance mp))),
        (''source'', neo_of (dict_get ''source'' (mp_provenance mp))),
        (''last_accessed'', mp_datetime mp),
        (''merged_from'', NList (neo_members (node_prop ''merged_from'' sn) @ [NStr (mp_absorbed_uuid mp)]
            @ neo_members (node_prop ''merged_from'' an))),
        (''merge_audit'', NList (neo_members (node_prop ''merge_audit'' sn) @ [NStr (mp_audit_entry mp)]
            @ neo_members (node_prop ''merge_audit'' an))),
        (''last_merge_op_id'', NStr (mp_op_id mp))])"

definition set_props :: "'t props \<Rightarrow> 't props \<Rightarrow> 't props" where
  "set_props delta d = fold (\<lambda>(k, v). set_prop k v) delta d"

definition rewrite_end :: "string \<Rightarrow> 't neo_value \<Rightarrow> 't props \<Rightarrow> 't props" where
  "rewrite_end k v d = (if neo_get k d = NNone then d else set_prop k v d)"

definition move_fact :: "'t gnode \<Rightarrow> 't gnode \<Rightarrow> 't grel \<Rightarrow> 't pgraph \<Rightarrow> 't pgraph" where
  "move_fact sn an f g =
     (let u = node_prop ''uuid'' sn
      in if gr_start f = gn_id an
         then add_rel ''RELATES_TO'' (gn_id sn) (gr_end f)
                (rewrite_end ''source_node_uuid'' u (rewrite_end ''source_uuid'' u (gr_props f))) g
         else add_rel ''RELATES_TO'' (gr_start f) (gn_id sn)
                (rewrite_end ''target_node_uuid'' u (rewrite_end ''target_uuid'' u (gr_props f))) g)"

definition bridge_neighbors :: "'t pgraph \<Rightarrow> 't gnode \<Rightarrow> 't gnode \<Rightarrow> nat list" where
  "bridge_neighbors g sn an =
     dedup (map (other_end (gn_id an))
       (filter (\<lambda>r. incident (gn_id an) r \<and> gr_type r \<noteq> ''ANCHORED_TO''
            \<and> (let n = other_end (gn_id an) r
               in labelled_at ''Entity'' g n \<and> prop_at ''structure_role'' g n = NNone
                  \<and> prop_at ''uuid'' g n \<noteq> NNone \<and> prop_at ''uuid'' g n \<noteq> node_prop ''uuid'' sn)) (g_rels g)))"

definition bridge_props :: "'t merge_params \<Rightarrow> 't props" where
  "bridge_props mp =
     [(''type'', NStr ''bridged''), (''bridged_from'', NStr (mp_absorbed_uuid mp)), (''weight'', NFloat (Finite 1)),
      (''source'', NStr ''system-derived''), (''scope'', NStr ''PERSISTENT''), (''created_at'', mp_datetime mp),
      (''last_traversed'', mp_datetime mp)]"

text \<open>
  The plain delete: the relationships read at the guard go, and a relationship that is left over makes
  the statement fail, so that nothing of it is kept.
\<close>

definition delete_node :: "nat \<Rightarrow> nat list \<Rightarrow> 't pgraph \<Rightarrow> 't pgraph result" where
  "delete_node i known g =
     (let rels = filter (\<lambda>r. \<not> (incident i r \<and> gr_id r \<in> set known)) (g_rels g)
      in if list_ex (incident i) rels then Inl (ConstraintError ''node still has relationships'')
         else Inr \<lparr>g_nodes = filter (\<lambda>n. gn_id n \<noteq> i) (g_nodes g), g_rels = rels\<rparr>)"

definition rewire :: "'t merge_params \<Rightarrow> 't gnode \<Rightarrow> 't gnode \<Rightarrow> 't pgraph \<Rightarrow> 't pgraph" where
  "rewire mp sn an g =
     (let g1 = update_node (gn_id sn) (set_props (survivor_delta mp sn an)) g;
          g2 = fold (move_fact sn an) (filter (\<lambda>f. gr_start f = gn_id an) (moved_facts g sn an)) g1;
          g3 = fold (move_fact sn an) (filter (\<lambda>f. gr_start f \<noteq> gn_id an) (moved_facts g sn an)) g2;
          g4 = fold (\<lambda>n. merge_rel ''RELATES_TO'' (gn_id sn) n (bridge_props mp)) (bridge_neighbors g sn an) g3;
          g5 = fold (\<lambda>e. merge_rel ''MENTIONS'' e (gn_id sn) [])
                 (dedup (map gn_id (episodes_into ''MENTIONS'' g (gn_id an)))) g4
      in fold (\<lambda>e. merge_rel ''RETENTION_SOURCE'' e (gn_id sn) [])
           (dedup (map gn_id (tenant_sources g an))) g5)"

definition merge_counts :: "'t pgraph \<Rightarrow> 't gnode \<Rightarrow> 't gnode \<Rightarrow> merge_result" where
  "merge_counts g sn an =
     \<lparr>mr_merged = True, mr_edges_bridged = length (bridge_neighbors g sn an),
      mr_episodes_rebound = length (dedup (map gn_id (episodes_into ''MENTIONS'' g (gn_id an)))),
      mr_retention_sources_rebound = length (dedup (map gn_id (tenant_sources g an))),
      mr_facts_moved = length (moved_facts g sn an), mr_deleted = 1, mr_reason = None\<rparr>"

definition merge_guard :: "'t merge_params \<Rightarrow> 't merge_read \<Rightarrow> 't pgraph \<Rightarrow> 't gnode \<Rightarrow> 't gnode \<Rightarrow> bool" where
  "merge_guard mp snap g sn an \<longleftrightarrow>
     mutable_eligibility (entity_row_of g sn) (entity_row_of g an)
     \<and> provenance_guard snap sn an
     \<and> fact_set_guard (mp_expected_fact_uuids mp) (map (rel_prop ''uuid'') (moved_facts g sn an))"

definition merge_phase_two ::
  "'t merge_params \<Rightarrow> 't merge_read \<Rightarrow> 't pgraph \<Rightarrow> 't pgraph \<times> merge_result option result" where
  "merge_phase_two mp snap g =
     (case (entities (mp_survivor_uuid mp) g, entities (mp_absorbed_uuid mp) g) of
        (sn # _, an # _) \<Rightarrow>
          if merge_guard mp snap g sn an then
            (case delete_node (gn_id an) (map gr_id (filter (incident (gn_id an)) (g_rels g))) (rewire mp sn an g) of
               Inl e \<Rightarrow> (g, Inl e)
             | Inr g' \<Rightarrow> (g', Inr (Some (merge_counts g sn an))))
          else (g, Inr None)
      | _ \<Rightarrow> (g, Inr None))"

section \<open>The merge\<close>

definition not_merged :: "string option \<Rightarrow> merge_result" where
  "not_merged reason =
     \<lparr>mr_merged = False, mr_edges_bridged = 0, mr_episodes_rebound = 0, mr_retention_sources_rebound = 0,
      mr_facts_moved = 0, mr_deleted = 0, mr_reason = reason\<rparr>"

fun reason_text :: "reason_code \<Rightarrow> string" where
  "reason_text ELIGIBLE = ''ELIGIBLE''"
| "reason_text NODE_MISSING = ''NODE_MISSING''"
| "reason_text SAME_UUID = ''SAME_UUID''"
| "reason_text INELIGIBLE_ROLE = ''INELIGIBLE_ROLE''"
| "reason_text NAMESPACE_MISMATCH = ''NAMESPACE_MISMATCH''"
| "reason_text NON_ACTIVE_FRESHNESS = ''NON_ACTIVE_FRESHNESS''"
| "reason_text PROMOTED_SCOPE = ''PROMOTED_SCOPE''"
| "reason_text USER_FLAGGED = ''USER_FLAGGED''"
| "reason_text SOURCE_RETENTION_PROTECTED = ''SOURCE_RETENTION_PROTECTED''"
| "reason_text PROTECTED_CONFLICT = ''PROTECTED_CONFLICT''"

text \<open>
  The statements of the repository, by what they are for. What becomes of the attempts to run one may
  depend on the graph it meets; two runs of one read on one graph share their fate.
\<close>

datatype db_call =
    Eligibility_Read | Capture_Read | State_Read | Survivor_Read | Peers_Read | Merge_Read | Merge_Write | Restore_Write

record 't merge_world =
  mw_driver :: "'t driver"
  mw_dumps :: "py_value \<Rightarrow> string"
  mw_snapshot_at :: string
  mw_datetime :: "'t neo_value"
  mw_attempts :: "db_call \<Rightarrow> 't pgraph \<Rightarrow> nat \<Rightarrow> attempt"

text \<open>None of these statements is declared safe to run again.\<close>

definition query :: "'t merge_world \<Rightarrow> db_call \<Rightarrow> ('t pgraph \<Rightarrow> 'a) \<Rightarrow> 't pgraph \<Rightarrow> 'a result" where
  "query mw call f g = snd (execute (mw_attempts mw call g) False (read_only f) g)"

definition mutate :: "'t merge_world \<Rightarrow> db_call \<Rightarrow> ('t pgraph, 'a) statement \<Rightarrow> ('t pgraph, 'a) statement" where
  "mutate mw call stmt g = execute (mw_attempts mw call g) False stmt g"

definition merge_params_of ::
  "'t merge_world \<Rightarrow> string \<Rightarrow> string \<Rightarrow> pyfloat \<Rightarrow> string \<Rightarrow> string list option \<Rightarrow> 't merge_read \<Rightarrow> 't merge_params" where
  "merge_params_of mw s a similarity oid facts snap =
     (let dr = mw_driver mw
      in \<lparr>mp_survivor_uuid = s, mp_absorbed_uuid = a,
          mp_audit_entry = mw_dumps mw (audit_document dr (mw_snapshot_at mw) s a similarity snap),
          mp_op_id = oid, mp_expected_fact_uuids = facts,
          mp_provenance = derive_merged_provenance (dr_runtime dr) (encode_map dr (mg_survivor snap))
            (encode_map dr (mg_absorbed snap)),
          mp_datetime = mw_datetime mw\<rparr>)"

text \<open>
  The three transactions of \<^verbatim>\<open>merge_entity\<close>. Other writers run between them: \<open>w1\<close> before the second and
  \<open>w2\<close> before the third. An exception of the third leaves the graph as it was, or as the mutation made
  it when only the acknowledgement was lost.
\<close>

definition merge_entity_among ::
  "('t pgraph \<Rightarrow> 't pgraph) \<Rightarrow> ('t pgraph \<Rightarrow> 't pgraph) \<Rightarrow> 't merge_world \<Rightarrow> string \<Rightarrow> string \<Rightarrow> pyfloat \<Rightarrow> string
    \<Rightarrow> string list option \<Rightarrow> 't pgraph \<Rightarrow> 't pgraph \<times> merge_result result" where
  "merge_entity_among w1 w2 mw s a similarity oid facts g =
     (case query mw Eligibility_Read (graph_eligibility s a) g of
        Inl e \<Rightarrow> (g, Inl e)
      | Inr eligibility \<Rightarrow>
          if \<not> me_allowed eligibility then (g, Inr (not_merged (Some (reason_text (me_reason_code eligibility)))))
          else
            (let g1 = w1 g in
             case query mw Merge_Read (merge_phase_one (mw_driver mw) s a) g1 of
               Inl e \<Rightarrow> (g1, Inl e)
             | Inr None \<Rightarrow> (g1, Inr (not_merged None))
             | Inr (Some snap) \<Rightarrow>
                 (case mutate mw Merge_Write (merge_phase_two (merge_params_of mw s a similarity oid facts snap) snap) (w2 g1) of
                    (g2, Inl e) \<Rightarrow> (g2, Inl e)
                  | (g2, Inr None) \<Rightarrow> (g2, Inr (not_merged (Some ''ELIGIBILITY_CHANGED_AT_MUTATION'')))
                  | (g2, Inr (Some r)) \<Rightarrow> (g2, Inr r))))"

definition merge_entity ::
  "'t merge_world \<Rightarrow> string \<Rightarrow> string \<Rightarrow> pyfloat \<Rightarrow> string \<Rightarrow> string list option \<Rightarrow> 't pgraph \<Rightarrow> 't pgraph \<times> merge_result result" where
  "merge_entity = merge_entity_among id id"

definition graph_adapter :: "'t merge_world \<Rightarrow> json_text \<Rightarrow> 't pgraph merge_adapter" where
  "graph_adapter mw js =
     \<lparr>ad_eligibility = \<lambda>s a. query mw Eligibility_Read (graph_eligibility s a),
      ad_capture = \<lambda>s a similarity g. bind_result (query mw Capture_Read (capture_merge_snapshot (mw_driver mw) js s a similarity) g) id,
      ad_state = \<lambda>s a. query mw State_Read (fetch_merge_state s a),
      ad_merge = merge_entity mw\<rparr>"

lemma query_Inr: "query mw call f g = Inr x \<Longrightarrow> x = f g"
  using execute_read [of "mw_attempts mw call g" False f g] by (auto simp: query_def prod_eq_iff)

lemma query_recovers: "recovers (mw_attempts mw call g) \<Longrightarrow> query mw call f g = Inr (f g)"
  by (simp add: query_def execute_recovers read_only_def)

lemma mutate_recovers: "recovers (mw_attempts mw call g) \<Longrightarrow> mutate mw call stmt g = stmt g"
  by (simp add: mutate_def execute_recovers)

end
