(* ===== verification/Saga_Properties.thy ===== *)
theory Saga_Properties
  imports Merge_Saga
begin

text \<open>
  What the merge saga guarantees, for every adapter that keeps the promises of the protocol: the
  locale \<open>merge_graph\<close>. The journal row of an operation and the graph are never out of step: a graph
  that changed has a committed row, and a row that did not commit left the graph alone.
\<close>

section \<open>Journal rows under a transition\<close>

lemma get_op_member: "get_op oid j = Some r \<Longrightarrow> r \<in> set (j_ops j) \<and> op_id r = oid"
  by (auto simp: get_op_def find_Some_iff)

lemma find_update_ops:
  "(\<And>r. op_id (f r) = op_id r) \<Longrightarrow>
     find (\<lambda>r. op_id r = oid) (update_ops p f rows)
       = map_option (\<lambda>r. if p r then f r else r) (find (\<lambda>r. op_id r = oid) rows)"
  by (induction rows) (auto simp: update_ops_def)

definition owned_row :: "'t saga_env \<Rightarrow> op_row \<Rightarrow> bool" where
  "owned_row sv r \<longleftrightarrow> op_state r = PREPARED \<and> (owner_token r = None \<or> owner_token r = Some (sv_token sv))"

lemma frozen_transition_row [simp]: "frozen (transition_row now t r) = frozen r"
  by (simp add: frozen_def transition_row_def)

lemma op_id_transition_row [simp]: "op_id (transition_row now t r) = op_id r"
  by (simp add: transition_row_def)

lemma transition_own:
  assumes r: "get_op (ta_op_id t) j = Some r" "owned_row sv r"
    and t: "ta_allowed_from t = [PREPARED]" "ta_owner_token t = Some (sv_token sv)"
  shows "\<exists>j'. transition now t j = (j', Inr ()) \<and> get_op (ta_op_id t) j' = Some (transition_row now t r)"
proof -
  have app: "transition_applies t r"
    using r t get_op_member [OF r(1)] by (auto simp: transition_applies_def owned_row_def)
  then have "list_ex (transition_applies t) (j_ops j)"
    using get_op_member [OF r(1)] by (auto simp: list_ex_iff)
  then show ?thesis
    using r(1) app find_update_ops [of "transition_row now t" "ta_op_id t" "transition_applies t" "j_ops j"]
    by (simp add: transition_def get_op_def)
qed

lemma settle_own:
  assumes r: "get_op (ta_op_id t) j = Some r" "owned_row sv r"
    and t: "ta_allowed_from t = [PREPARED]" "ta_owner_token t = Some (sv_token sv)"
  shows "\<exists>j' r'. settle (transition now t) answer (g, j) = ((g, j'), answer) \<and> get_op (ta_op_id t) j' = Some r'
     \<and> op_state r' = ta_to_state t \<and> frozen r' = frozen r"
  using transition_own [OF assms, of now] by (auto simp: settle_def transition_row_def frozen_def)

text \<open>The four ways a branch of the saga ends, for a row this process owns.\<close>

lemma settle_marks:
  assumes r: "get_op oid j = Some r" "owned_row sv r"
  shows "\<exists>j' r'. settle (mark_committed oid (Some (sv_token sv)) now) answer (g, j) = ((g, j'), answer)
           \<and> get_op oid j' = Some r' \<and> op_state r' = COMMITTED \<and> frozen r' = frozen r"
    "\<exists>j' r'. settle (mark_failed oid why (Some (sv_token sv)) now) answer (g, j) = ((g, j'), answer)
           \<and> get_op oid j' = Some r' \<and> op_state r' = FAILED \<and> frozen r' = frozen r"
    "\<exists>j' r'. quarantine sv now oid reason (g, j) = ((g, j'), Inl Merge_Drift)
           \<and> get_op oid j' = Some r' \<and> op_state r' = NEEDS_REVIEW \<and> frozen r' = frozen r"
    "\<exists>j' r'. settle (record_attempt oid err (Some (sv_token sv)) now) answer (g, j) = ((g, j'), answer)
           \<and> get_op oid j' = Some r' \<and> op_state r' = PREPARED \<and> frozen r' = frozen r"
proof -
  show "\<exists>j' r'. settle (mark_committed oid (Some (sv_token sv)) now) answer (g, j) = ((g, j'), answer)
           \<and> get_op oid j' = Some r' \<and> op_state r' = COMMITTED \<and> frozen r' = frozen r"
    using settle_own [of "\<lparr>ta_op_id = oid, ta_to_state = COMMITTED, ta_allowed_from = [PREPARED], ta_set_committed_at = True, ta_last_error = None, ta_owner_token = Some (sv_token sv)\<rparr>"
        j r sv now answer g] r by (simp add: mark_committed_def)
  show "\<exists>j' r'. settle (mark_failed oid why (Some (sv_token sv)) now) answer (g, j) = ((g, j'), answer)
           \<and> get_op oid j' = Some r' \<and> op_state r' = FAILED \<and> frozen r' = frozen r"
    using settle_own [of "\<lparr>ta_op_id = oid, ta_to_state = FAILED, ta_allowed_from = [PREPARED], ta_set_committed_at = False, ta_last_error = why, ta_owner_token = Some (sv_token sv)\<rparr>"
        j r sv now answer g] r by (simp add: mark_failed_def)
  show "\<exists>j' r'. quarantine sv now oid reason (g, j) = ((g, j'), Inl Merge_Drift)
           \<and> get_op oid j' = Some r' \<and> op_state r' = NEEDS_REVIEW \<and> frozen r' = frozen r"
    using settle_own [of "\<lparr>ta_op_id = oid, ta_to_state = NEEDS_REVIEW, ta_allowed_from = [PREPARED], ta_set_committed_at = False, ta_last_error = Some reason, ta_owner_token = Some (sv_token sv)\<rparr>"
        j r sv now "Inl Merge_Drift" g] r by (simp add: quarantine_def mark_needs_review_def)
  let ?p = "\<lambda>q. op_id q = oid \<and> op_state q = PREPARED
      \<and> (Some (sv_token sv) = None \<or> owner_token q = None \<or> owner_token q = Some (sv_token sv))"
  let ?f = "\<lambda>q :: op_row. q\<lparr>attempt_count := Suc (attempt_count q), last_error := err, updated_at := now\<rparr>"
  have "?p r" "list_ex ?p (j_ops j)"
    using r get_op_member [OF r(1)] by (auto simp: owned_row_def list_ex_iff)
  then show "\<exists>j' r'. settle (record_attempt oid err (Some (sv_token sv)) now) answer (g, j) = ((g, j'), answer)
           \<and> get_op oid j' = Some r' \<and> op_state r' = PREPARED \<and> frozen r' = frozen r"
    using r find_update_ops [of ?f oid ?p "j_ops j"]
    by (auto simp: settle_def record_attempt_def get_op_def frozen_def Let_def)
qed

lemma settle_failed_run:
  assumes "get_op oid j = Some r" "owned_row sv r"
    and "settle (mark_failed oid why (Some (sv_token sv)) now) answer (g, j) = ((g', j'), res)"
  shows "g' = g \<and> res = answer \<and> (\<exists>r'. get_op oid j' = Some r' \<and> op_state r' = FAILED \<and> frozen r' = frozen r)"
  using settle_marks(2) [OF assms(1,2), of why now answer g] assms(3) by auto

section \<open>What the adapter promises\<close>

definition shows_merge :: "merge_state \<Rightarrow> bool" where
  "shows_merge st \<longleftrightarrow> st_survivor_present st \<and> \<not> st_absorbed_present st \<and> st_lineage_recorded st"

definition graph_shows_merge :: "'g merge_adapter \<Rightarrow> string \<Rightarrow> string \<Rightarrow> 'g \<Rightarrow> bool" where
  "graph_shows_merge ad s a g \<longleftrightarrow> (\<exists>st. ad_state ad s a g = Inr st \<and> shows_merge st)"

text \<open>A digest that separates the eight states a fingerprint covers, as a SHA-256 of their texts does.\<close>

definition fingerprints_exact :: "'t saga_env \<Rightarrow> bool" where
  "fingerprints_exact sv \<longleftrightarrow>
     (\<forall>st st'. merge_state_fingerprint sv st = merge_state_fingerprint sv st' \<longrightarrow>
        st_survivor_present st = st_survivor_present st' \<and> st_absorbed_present st = st_absorbed_present st'
        \<and> st_lineage_recorded st = st_lineage_recorded st')
     \<and> (\<forall>st. merge_state_fingerprint sv st \<noteq> [])"

lemma fingerprint_merged:
  assumes "fingerprints_exact sv"
  shows "merge_state_fingerprint sv st = merge_state_fingerprint sv (merged_state oid) \<longleftrightarrow> shows_merge st"
proof
  assume "merge_state_fingerprint sv st = merge_state_fingerprint sv (merged_state oid)"
  then show "shows_merge st"
    using assms unfolding fingerprints_exact_def merged_state_def shows_merge_def
    by (metis (no_types, lifting) merge_state.select_convs(1,2,3))
next
  assume "shows_merge st"
  then show "merge_state_fingerprint sv st = merge_state_fingerprint sv (merged_state oid)"
    by (simp add: merge_state_fingerprint_def merged_state_def shows_merge_def)
qed

locale merge_graph =
  fixes ad :: "'g merge_adapter" and ok :: "'g \<Rightarrow> bool"
  assumes failed: "ok g \<Longrightarrow> ad_merge ad s a sim oid facts g = (g', Inl e) \<Longrightarrow> ad_state ad s a g' = Inr st \<Longrightarrow>
        g' = g \<or> shows_merge st"
    and abstained: "ad_merge ad s a sim oid facts g = (g', Inr r) \<Longrightarrow> \<not> mr_merged r \<Longrightarrow> g' = g"
    and merged: "ok g \<Longrightarrow> ad_merge ad s a sim oid facts g = (g', Inr r) \<Longrightarrow> mr_merged r \<Longrightarrow>
        ad_state ad s a g' = Inr st \<Longrightarrow> shows_merge st"


section \<open>The body of the saga\<close>

text \<open>
  How a result of the saga relates the graph before and after and the state of the row. After an
  exception the row is still \<^verbatim>\<open>PREPARED\<close>, and the graph is as it was or shows the merge, if it can be read:
  the acknowledgement of the mutation, or the read after it, was lost.
\<close>

fun in_step :: "'g merge_adapter \<Rightarrow> string \<Rightarrow> string \<Rightarrow> 'g \<Rightarrow> 'g \<Rightarrow> op_state \<Rightarrow> saga_error + saga_result \<Rightarrow> bool" where
  "in_step ad s a g g' st (Inr (Applied m oid)) \<longleftrightarrow> st = COMMITTED \<and> graph_shows_merge ad s a g'"
| "in_step ad s a g g' st (Inr (Already_Applied oid)) \<longleftrightarrow> st = COMMITTED \<and> g' = g \<and> graph_shows_merge ad s a g"
| "in_step ad s a g g' st (Inr (Abstained why oid)) \<longleftrightarrow> st = FAILED \<and> g' = g"
| "in_step ad s a g g' st (Inl Merge_Drift) \<longleftrightarrow> st = NEEDS_REVIEW \<and> g' = g"
| "in_step ad s a g g' st (Inl (Raised e)) \<longleftrightarrow> st = PREPARED \<and> (g' = g \<or> isl (ad_state ad s a g') \<or> graph_shows_merge ad s a g')"
| "in_step ad s a g g' st _ \<longleftrightarrow> False"

lemma decide_replay_simps:
  "fst (decide_replay fp b (Some e)) = Would_Mark_Already_Applied \<longleftrightarrow> e \<noteq> [] \<and> fp = e"
  "dg_expected_before (snd (decide_replay fp b e')) = b" "dg_expected_after (snd (decide_replay fp b e')) = e'"
  "fst (decide_replay fp b e') \<in> {Would_Mark_Already_Applied, Would_Needs_Review, Would_Replay}"
  "fst (decide_replay fp b e') = Would_Replay \<Longrightarrow> b = PStr fp"
  by (auto simp: decide_replay_def Let_def truthy_def split: if_splits)

lemma classify_replay_ids:
  assumes "request_ids sv request = Inr (oid, s, a)"
  shows "classify_replay sv ad request g j =
     bind_result (request_get ''expected_before_sha256'' request) (\<lambda>b.
     bind_result (ad_state ad s a g) (\<lambda>observed.
       Inr (decide_replay (merge_state_fingerprint sv observed) b (row_expected_after oid j))))"
  using assms by (simp add: classify_replay_def)

context merge_graph
begin

lemma call_merge_cases:
  assumes "call_merge sv ad request oid s a facts g = (g', res)" "ok g"
  shows "(isl res \<longrightarrow> g' = g \<or> isl (ad_state ad s a g') \<or> graph_shows_merge ad s a g') \<and> (\<forall>r. res = Inr r \<longrightarrow> \<not> mr_merged r \<longrightarrow> g' = g)
    \<and> (\<forall>r st. res = Inr r \<longrightarrow> mr_merged r \<longrightarrow> ad_state ad s a g' = Inr st \<longrightarrow> shows_merge st)"
proof (cases "bind_result (request_item ''similarity'' request) (py_float (sv_runtime sv))")
  case (Inr sim)
  then have run: "ad_merge ad s a sim oid facts g = (g', res)"
    using assms(1) unfolding call_merge_def Inr by simp
  have "g' = g \<or> isl (ad_state ad s a g') \<or> graph_shows_merge ad s a g'" if "isl res"
    using that run failed [OF assms(2), of s a sim oid facts g'] 
    by (cases "ad_state ad s a g'") (auto simp: isl_def graph_shows_merge_def)
  then show ?thesis
    using run abstained merged [OF assms(2)] by blast
qed (use assms(1) in \<open>auto simp: call_merge_def\<close>)

lemma body_in_step:
  assumes fe: "fingerprints_exact sv" and ok: "ok g"
    and r: "get_op oid j = Some r" "owned_row sv r"
    and after: "expected_after_sha256 r = Some (merge_state_fingerprint sv (merged_state oid))"
    and ids: "request_ids sv request = Inr (oid, s, a)"
    and run: "apply_owned sv ad later request (g, j) = ((g', j'), res)"
  shows "\<exists>r'. get_op oid j' = Some r' \<and> frozen r' = frozen r \<and> in_step ad s a g g' (op_state r') res"
proof (cases "classify_replay sv ad request g j")
  case (Inl e)
  then show ?thesis
    using run ids r by (auto simp: apply_owned_def owned_row_def)
next
  case (Inr od)
  obtain outcome diag where od: "od = (outcome, diag)" by (cases od)
  have ea: "row_expected_after oid j = Some (merge_state_fingerprint sv (merged_state oid))"
    using r after by (simp add: row_expected_after_def)
  obtain b st where b: "ad_state ad s a g = Inr st"
      "decide_replay (merge_state_fingerprint sv st) b (row_expected_after oid j) = (outcome, diag)"
    using Inr od ids by (auto simp: classify_replay_ids)
  have fps: "merge_state_fingerprint sv x \<noteq> []" for x
    using fe by (simp add: fingerprints_exact_def)
  consider (already) "outcome = Would_Mark_Already_Applied" | (review) "outcome = Would_Needs_Review"
    | (replay) "outcome = Would_Replay"
    using decide_replay_simps(4) [of "merge_state_fingerprint sv st" b "row_expected_after oid j"] b(2)
    by (metis fst_conv insertE singletonD)
  then show ?thesis
  proof cases
    case already
    then have "merge_state_fingerprint sv st = merge_state_fingerprint sv (merged_state oid)"
      using decide_replay_simps(1) [of "merge_state_fingerprint sv st" b] b(2) ea by (metis fst_conv)
    then have "graph_shows_merge ad s a g"
      using fingerprint_merged [OF fe] b(1) by (auto simp: graph_shows_merge_def)
    then show ?thesis
      using run ids Inr od already settle_marks(1) [OF r, of later "Inr (Already_Applied oid)" g]
      by (auto simp: apply_owned_def)
  next
    case review
    obtain j2 r2 where "(quarantine sv later oid (or_empty (dg_observed_error diag)) (g, j) :: ('g, saga_result) saga_step)
        = ((g, j2), Inl Merge_Drift)" "get_op oid j2 = Some r2" "op_state r2 = NEEDS_REVIEW" "frozen r2 = frozen r"
      using settle_marks(3) [OF r] by metis
    then show ?thesis
      using run ids Inr od review by (auto simp: apply_owned_def)
  next
    case replay
    obtain g1 mres where call: "call_merge sv ad request oid s a (expected_facts sv request oid s j) g = (g1, mres)"
      by (cases "call_merge sv ad request oid s a (expected_facts sv request oid s j) g")
    note cm = call_merge_cases [OF call ok]
    have bd: "dg_expected_before diag = b" "dg_expected_after diag = Some (merge_state_fingerprint sv (merged_state oid))"
        "b = PStr (merge_state_fingerprint sv st)"
      using decide_replay_simps(2,3,5) [of "merge_state_fingerprint sv st" b] b(2) ea replay by (metis fst_conv snd_conv)+
    show ?thesis
    proof (cases mres)
      case (Inl e)
      then show ?thesis
        using run ids Inr od replay call cm settle_marks(4) [OF r, of "Some ''merge raised''" later "Inl (Raised e) :: saga_error + saga_result" g1]
        by (auto simp: apply_owned_def \<open>classify_replay sv ad request g j = Inr od\<close>)
    next
      case mr: (Inr m)
      show ?thesis
      proof (cases "mr_merged m")
        case False
        then have "g1 = g" using cm mr by simp
        then show ?thesis
          using run ids Inr od replay call mr False b(1) bd
          by (auto simp: apply_owned_def finish_abstention_def Let_def dest!: settle_failed_run [OF r])
      next
        case True
        have "shows_merge x" if "ad_state ad s a g1 = Inr x" for x
          using cm mr True that by blast
        then show ?thesis
          using run ids Inr od replay call mr True bd fps fingerprint_merged [OF fe] r
            settle_marks(1) [OF r, of later "Inr (Applied m oid)" g1]
          by (auto simp: apply_owned_def verify_merge_def owned_row_def graph_shows_merge_def truthy_def
              split: sum.splits)
      qed
    qed
  qed
qed

end

section \<open>Requests through JSON\<close>

lemma merge_request_ids: "request_ids sv (merge_request sv oid s a sim now raw st) = Inr (oid, s, a)"
  by (simp add: request_ids_def request_str_def request_item_def merge_request_def as_dict_def subscript_def py_str_def)

lemma merge_request_sort:
  "request_item k (sort_doc (merge_request sv oid s a sim now raw st)) = request_item k (merge_request sv oid s a sim now raw st)"
  "request_get k (sort_doc (merge_request sv oid s a sim now raw st)) = request_get k (merge_request sv oid s a sim now raw st)"
proof -
  let ?facts = "case snapshot_fact_uuids sv (Some raw) s of None \<Rightarrow> PNone | Some us \<Rightarrow> PList (map PStr us)"
  have "sort_doc ?facts = ?facts"
    by (simp add: comp_def split: option.split)
  then show "request_item k (sort_doc (merge_request sv oid s a sim now raw st)) = request_item k (merge_request sv oid s a sim now raw st)"
    "request_get k (sort_doc (merge_request sv oid s a sim now raw st)) = request_get k (merge_request sv oid s a sim now raw st)"
    by (auto simp: request_item_def request_get_def merge_request_def as_dict_def subscript_def sort_doc_PMap
        map_of_sort_members dict_get_sort_members simp del: sort_doc.simps(2))
qed

lemma apply_owned_cong:
  assumes "\<And>k. request_item k q = request_item k p" "\<And>k. request_get k q = request_get k p"
  shows "apply_owned sv ad later q w = apply_owned sv ad later p w"
proof -
  have ids: "request_ids sv q = request_ids sv p"
    unfolding request_ids_def request_str_def assms ..
  have cl: "classify_replay sv ad q g j = classify_replay sv ad p g j" for g j
    unfolding classify_replay_def ids assms ..
  have call: "call_merge sv ad q oid s a facts g = call_merge sv ad p oid s a facts g" for oid s a facts g
    unfolding call_merge_def assms ..
  have facts: "expected_facts sv q oid s j = expected_facts sv p oid s j" for oid s j
    unfolding expected_facts_def assms ..
  show ?thesis
    unfolding apply_owned_def ids cl call facts ..
qed

text \<open>Which process runs the saga matters only for the claim it holds.\<close>

lemma other_host [simp]:
  "merge_state_fingerprint (sv\<lparr>sv_host := h\<rparr>) st = merge_state_fingerprint sv st"
  "request_ids (sv\<lparr>sv_host := h\<rparr>) q = request_ids sv q"
  "snapshot_fact_uuids (sv\<lparr>sv_host := h\<rparr>) raw u = snapshot_fact_uuids sv raw u"
  "expected_facts (sv\<lparr>sv_host := h\<rparr>) q oid u j = expected_facts sv q oid u j"
  "call_merge (sv\<lparr>sv_host := h\<rparr>) ad q oid u a facts g = call_merge sv ad q oid u a facts g"
  "classify_replay (sv\<lparr>sv_host := h\<rparr>) ad q g j = classify_replay sv ad q g j"
  by (simp_all add: merge_state_fingerprint_def request_ids_def request_str_def snapshot_fact_uuids_def
      expected_facts_def call_merge_def classify_replay_def split: sum.split option.split)

section \<open>PREPARE\<close>

text \<open>Where the saga stands after PREPARE: the request, the stored snapshot and the journal.\<close>

definition saga_prepared ::
  "'t saga_env \<Rightarrow> 'g merge_adapter \<Rightarrow> merge_call \<Rightarrow> 'g saga_world \<Rightarrow> (py_value \<times> string \<times> merge_state \<times> journal) option" where
  "saga_prepared sv ad c w =
     (case ad_eligibility ad (mc_survivor_uuid c) (mc_absorbed_uuid c) (fst w) of
        Inl _ \<Rightarrow> None
      | Inr e \<Rightarrow>
          if \<not> me_allowed e then None
          else case (saga_snapshot sv ad c (fst w), ad_state ad (mc_survivor_uuid c) (mc_absorbed_uuid c) (fst w)) of
            (Inr raw, Inr before) \<Rightarrow>
              (let request = merge_request sv (mc_op_id c) (mc_survivor_uuid c) (mc_absorbed_uuid c) (mc_similarity c)
                     (mc_now c) raw before
               in case saga_prepare sv c request raw (snd w) of
                    (j', Inr _) \<Rightarrow> Some (request, raw, before, j')
                  | _ \<Rightarrow> None)
          | _ \<Rightarrow> None)"

lemma saga_merge_prepared:
  assumes "saga_prepared sv ad c (g, j) = Some (request, raw, before, j1)"
  shows "saga_merge sv ad c (g, j) = apply_owned sv ad (mc_later c) request (g, j1)"
  using assms by (auto simp: saga_prepared_def saga_merge_def Let_def split: sum.splits if_splits prod.splits)

lemma saga_merge_not_prepared:
  assumes "saga_prepared sv ad c (g, j) = None" and "saga_merge sv ad c (g, j) = ((g', j'), res)"
  shows "g' = g \<and> j' = j \<and> (\<exists>why e. res = Inr (Abstained why None) \<or> res = Inl (Raised e))"
  using assms
  by (auto simp: saga_prepared_def saga_merge_def saga_prepare_def Let_def split: sum.splits if_splits prod.splits py_error.splits
      elim!: prepare_cases)

lemma get_op_append_new:
  assumes "\<And>q. q \<in> set ops \<Longrightarrow> op_id q \<noteq> op_id r"
  shows "find (\<lambda>q. op_id q = op_id r) (ops @ [r]) = Some r"
  using assms by (induction ops) auto

lemma saga_prepared_row:
  assumes "saga_prepared sv ad c (g, j) = Some (request, raw, before, j1)"
  obtains r where "get_op (mc_op_id c) j1 = Some r"
    "r = prepared_row (sv_clock sv) (mc_now c)
       (merge_prepare_args sv (mc_op_id c) (mc_survivor_uuid c) (mc_absorbed_uuid c) request raw)"
    "request = merge_request sv (mc_op_id c) (mc_survivor_uuid c) (mc_absorbed_uuid c) (mc_similarity c) (mc_now c) raw before"
    "saga_snapshot sv ad c g = Inr raw" "ad_state ad (mc_survivor_uuid c) (mc_absorbed_uuid c) g = Inr before"
proof -
  let ?args = "merge_prepare_args sv (mc_op_id c) (mc_survivor_uuid c) (mc_absorbed_uuid c) request raw"
  let ?r = "prepared_row (sv_clock sv) (mc_now c) ?args"
  have facts: "request = merge_request sv (mc_op_id c) (mc_survivor_uuid c) (mc_absorbed_uuid c) (mc_similarity c) (mc_now c) raw before"
      "saga_snapshot sv ad c g = Inr raw" "ad_state ad (mc_survivor_uuid c) (mc_absorbed_uuid c) g = Inr before"
      and run: "\<exists>u. saga_prepare sv c request raw j = (j1, Inr u)"
    using assms by (auto simp: saga_prepared_def Let_def split: sum.splits if_splits prod.splits)
  have "j_ops j1 = j_ops j @ [?r] \<and> (\<forall>q\<in>set (j_ops j). \<not> row_conflict ?r q)"
    using run by (auto simp: saga_prepare_def elim!: prepare_cases)
  moreover have "op_id ?r = mc_op_id c"
    by (simp add: prepared_row_def merge_prepare_args_def)
  moreover have "op_id q \<noteq> op_id ?r" if "q \<in> set (j_ops j)" for q
    using calculation that by (auto simp: row_conflict_def)
  ultimately have "get_op (mc_op_id c) j1 = Some ?r"
    using get_op_append_new [of "j_ops j" ?r] by (simp add: get_op_def)
  then show thesis
    using that facts by blast
qed

lemma prepared_row_owned:
  "owned_row sv (prepared_row ct now (merge_prepare_args sv oid s a request raw))"
  "expected_after_sha256 (prepared_row ct now (merge_prepare_args sv oid s a request raw))
     = Some (merge_state_fingerprint sv (merged_state oid))"
  "before_snapshot_json (prepared_row ct now (merge_prepare_args sv oid s a request raw)) = Some raw"
  "operation_kind (prepared_row ct now (merge_prepare_args sv oid s a request raw)) = ''ENTITY_MERGE''"
  "request_json (prepared_row ct now (merge_prepare_args sv oid s a request raw)) = js_canonical (sv_json sv) request"
  by (simp_all add: owned_row_def prepared_row_def merge_prepare_args_def)

section \<open>Replay\<close>

lemma body_already:
  assumes fe: "fingerprints_exact sv" and r: "get_op oid j = Some r"
    and after: "expected_after_sha256 r = Some (merge_state_fingerprint sv (merged_state oid))"
    and ids: "request_ids sv q = Inr (oid, s, a)" and b: "request_get ''expected_before_sha256'' q = Inr b"
    and st: "ad_state ad s a g = Inr st" "shows_merge st"
  shows "apply_owned sv ad later q (g, j)
    = settle (mark_committed oid (Some (sv_token sv)) later) (Inr (Already_Applied oid)) (g, j)"
proof -
  have "merge_state_fingerprint sv st = merge_state_fingerprint sv (merged_state oid)"
      "merge_state_fingerprint sv st \<noteq> []"
    using fingerprint_merged [OF fe] st(2) fe by (simp_all add: fingerprints_exact_def)
  then show ?thesis
    using ids b st(1) r after
    by (simp add: apply_owned_def classify_replay_ids row_expected_after_def decide_replay_def truthy_def)
qed

lemma body_replay:
  assumes fe: "fingerprints_exact sv" and r: "get_op oid j = Some r"
    and after: "expected_after_sha256 r = Some (merge_state_fingerprint sv (merged_state oid))"
    and ids: "request_ids sv q = Inr (oid, s, a)"
    and b: "request_get ''expected_before_sha256'' q = Inr (PStr (merge_state_fingerprint sv st))"
    and st: "ad_state ad s a g = Inr st" "\<not> shows_merge st"
    and call: "call_merge sv ad q oid s a (expected_facts sv q oid s j) g = (g1, Inr m)" "mr_merged m"
    and st1: "ad_state ad s a g1 = Inr st1" "shows_merge st1"
  shows "apply_owned sv ad later q (g, j)
    = settle (mark_committed oid (Some (sv_token sv)) later) (Inr (Applied m oid)) (g1, j)"
proof -
  have "merge_state_fingerprint sv st \<noteq> merge_state_fingerprint sv (merged_state oid)"
      "merge_state_fingerprint sv st1 = merge_state_fingerprint sv (merged_state oid)"
    using fingerprint_merged [OF fe] st(2) st1(2) by simp_all
  then show ?thesis
    using ids b st(1) r after call st1(1)
    by (simp add: apply_owned_def classify_replay_ids row_expected_after_def decide_replay_def verify_merge_def)
qed

text \<open>What a run that applied the merge went through.\<close>

lemma applied_run:
  assumes fe: "fingerprints_exact sv" and r: "get_op oid j = Some r"
    and after: "expected_after_sha256 r = Some (merge_state_fingerprint sv (merged_state oid))"
    and ids: "request_ids sv q = Inr (oid, s, a)"
    and run: "apply_owned sv ad later q (g, j) = ((g1, j2), Inr (Applied m oid'))"
    and st: "ad_state ad s a g = Inr st"
  shows "oid' = oid \<and> \<not> shows_merge st
    \<and> call_merge sv ad q oid s a (expected_facts sv q oid s j) g = (g1, Inr m) \<and> mr_merged m
    \<and> (\<exists>st1. ad_state ad s a g1 = Inr st1 \<and> shows_merge st1)"
proof -
  have fp: "merge_state_fingerprint sv x = merge_state_fingerprint sv (merged_state oid) \<longleftrightarrow> shows_merge x"
      "merge_state_fingerprint sv x \<noteq> []" for x
    using fingerprint_merged [OF fe] fe by (simp_all add: fingerprints_exact_def)
  show ?thesis
    using run ids st r after fp
    by (auto simp: apply_owned_def classify_replay_ids row_expected_after_def decide_replay_def verify_merge_def
        finish_abstention_def quarantine_def settle_def truthy_def Let_def
        split: sum.splits if_splits prod.splits)
qed

text \<open>The same run when the acknowledgement of the mutation is lost.\<close>

lemma saga_prepared_mutation [simp]: "saga_prepared sv (ad\<lparr>ad_merge := mrg\<rparr>) c w = saga_prepared sv ad c w"
proof -
  have same: "saga_snapshot sv (ad\<lparr>ad_merge := mrg\<rparr>) = saga_snapshot sv ad"
      "ad_state (ad\<lparr>ad_merge := mrg\<rparr>) = ad_state ad" "ad_eligibility (ad\<lparr>ad_merge := mrg\<rparr>) = ad_eligibility ad"
    by (intro ext) (simp_all add: saga_snapshot_def)
  show ?thesis unfolding saga_prepared_def same ..
qed

lemma unacknowledged_run:
  assumes fe: "fingerprints_exact sv" and prep: "saga_prepared sv ad c (g, j) = Some (request, raw, before, j1)"
    and run: "saga_merge sv ad c (g, j) = ((g1, j2), Inr (Applied m oid))"
    and lost: "\<And>facts. ad_merge ad (mc_survivor_uuid c) (mc_absorbed_uuid c) (mc_similarity c) (mc_op_id c) facts g = (g1, Inr m)
      \<Longrightarrow> mr_merged m \<Longrightarrow> mrg (mc_survivor_uuid c) (mc_absorbed_uuid c) (mc_similarity c) (mc_op_id c) facts g = (g1, Inl e)"
  shows "\<exists>j3. saga_merge sv (ad\<lparr>ad_merge := mrg\<rparr>) c (g, j) = ((g1, j3), Inl (Raised e)) \<and> g1 \<noteq> g"
proof -
  let ?s = "mc_survivor_uuid c" and ?a = "mc_absorbed_uuid c" and ?oid = "mc_op_id c" and ?ad = "ad\<lparr>ad_merge := mrg\<rparr>"
  obtain r where r: "get_op ?oid j1 = Some r"
      "r = prepared_row (sv_clock sv) (mc_now c) (merge_prepare_args sv ?oid ?s ?a request raw)"
      and req: "request = merge_request sv ?oid ?s ?a (mc_similarity c) (mc_now c) raw before"
      and before: "ad_state ad ?s ?a g = Inr before"
    by (rule saga_prepared_row [OF prep])
  have after: "expected_after_sha256 r = Some (merge_state_fingerprint sv (merged_state ?oid))" and own: "owned_row sv r"
    by (simp_all add: r(2) prepared_row_owned)
  have ids: "request_ids sv request = Inr (?oid, ?s, ?a)"
    unfolding req by (rule merge_request_ids)
  have b: "request_get ''expected_before_sha256'' request = Inr (PStr (merge_state_fingerprint sv before))"
    by (simp add: req merge_request_def request_get_def as_dict_def)
  let ?facts = "expected_facts sv request ?oid ?s j1"
  have applied: "\<not> shows_merge before" "call_merge sv ad request ?oid ?s ?a ?facts g = (g1, Inr m)" "mr_merged m"
      and shown: "\<exists>st1. ad_state ad ?s ?a g1 = Inr st1 \<and> shows_merge st1"
    using applied_run [OF fe r(1) after ids _ before, of "mc_later c" g1 j2 m oid] run
    unfolding saga_merge_prepared [OF prep] by blast+
  have sim: "bind_result (request_item ''similarity'' request) (py_float (sv_runtime sv)) = Inr (mc_similarity c)"
    by (simp add: req merge_request_def request_item_def as_dict_def subscript_def py_float_def)
  have call: "call_merge sv ?ad request ?oid ?s ?a ?facts g = (g1, Inl e)"
    using applied(2) lost [OF _ applied(3), of ?facts] unfolding call_merge_def sim by simp
  have "merge_state_fingerprint sv before \<noteq> merge_state_fingerprint sv (merged_state ?oid)"
    using fingerprint_merged [OF fe] applied(1) by simp
  then have "apply_owned sv ?ad (mc_later c) request (g, j1)
      = settle (record_attempt ?oid (Some ''merge raised'') (Some (sv_token sv)) (mc_later c)) (Inl (Raised e)) (g1, j1)"
    using ids b before r(1) after call
    by (simp add: apply_owned_def classify_replay_ids row_expected_after_def decide_replay_def)
  moreover obtain j3 where "settle (record_attempt ?oid (Some ''merge raised'') (Some (sv_token sv)) (mc_later c))
      (Inl (Raised e) :: saga_error + saga_result) (g1, j1) = ((g1, j3), Inl (Raised e))"
    using settle_marks(4) [OF r(1) own] by metis
  moreover have "saga_merge sv ?ad c (g, j) = apply_owned sv ?ad (mc_later c) request (g, j1)"
    by (rule saga_merge_prepared) (simp add: prep)
  moreover have "g1 \<noteq> g"
    using shown before applied(1) by auto
  ultimately show ?thesis by auto
qed

lemma commit_twice:
  assumes distinct: "distinct (map op_id (j_ops j))" and r: "get_op oid j = Some r" "owned_row sv r"
  shows "\<exists>j' r'. mark_committed oid (Some (sv_token sv)) now j = (j', Inr ())
     \<and> get_op oid j' = Some r' \<and> op_state r' = COMMITTED \<and> frozen r' = frozen r
     \<and> mark_committed oid (Some (sv_token sv)) now j' = (j', Inr ())"
proof -
  let ?t = "\<lparr>ta_op_id = oid, ta_to_state = COMMITTED, ta_allowed_from = [PREPARED], ta_set_committed_at = True,
     ta_last_error = None, ta_owner_token = Some (sv_token sv)\<rparr>"
  obtain j' where j': "transition now ?t j = (j', Inr ())" "get_op oid j' = Some (transition_row now ?t r)"
    using transition_own [of ?t j r sv now] r by auto
  have app: "transition_applies ?t r"
    using r get_op_member [OF r(1)] by (auto simp: transition_applies_def owned_row_def)
  have ex: "list_ex (transition_applies ?t) (j_ops j)"
    using app get_op_member [OF r(1)] by (auto simp: list_ex_iff)
  then have "j_ops j' = update_ops (transition_applies ?t) (transition_row now ?t) (j_ops j)"
    using j'(1) by (auto simp: transition_def)
  then have "\<not> list_ex (transition_applies ?t) (j_ops j')"
    using distinct get_op_member [OF r(1)] app
    by (auto simp: list_ex_iff update_ops_def transition_applies_def distinct_map inj_on_def transition_row_def)
  moreover have "op_state (transition_row now ?t r) = COMMITTED" "resolved_by_token (transition_row now ?t r) = Some (sv_token sv)"
    by (simp_all add: transition_row_def)
  ultimately have "transition now ?t j' = (j', Inr ())"
    using j'(2) by (simp add: transition_def)
  then show ?thesis
    using j' by (auto simp: mark_committed_def transition_row_def frozen_def)
qed

text \<open>
  C5: Crash safety. Take a merge that an uninterrupted run applies. Wherever that run stopped after
  PREPARE, before or after the graph changed, a process that holds the row (the writer, or a
  reconciler that took it over) replays it to the graph of the uninterrupted run and a committed row;
  replaying once more changes nothing. The merge happens exactly once.
\<close>

theorem merge_replays_exactly_once:
  assumes fe: "fingerprints_exact sv" and js: "json_ok (sv_json sv)"
    and prep: "saga_prepared sv ad c (g, j) = Some (request, raw, before, j1)"
    and run: "saga_merge sv ad c (g, j) = ((g1, j2), Inr (Applied m oid))"
    and row: "distinct (map op_id (j_ops jc))" "get_op (mc_op_id c) jc = Some rc"
      "map_option frozen (get_op (mc_op_id c) j1) = Some (frozen rc)" "owned_row (sv\<lparr>sv_host := h\<rparr>) rc"
  shows "\<exists>j3 r3. list_all (\<lambda>crashed. replay_prepared_row (sv\<lparr>sv_host := h\<rparr>) ad later rc (crashed, jc) = ((g1, j3), Inr Replayed))
        [g, g1]
    \<and> get_op (mc_op_id c) j3 = Some r3 \<and> op_state r3 = COMMITTED \<and> frozen r3 = frozen rc
    \<and> replay_prepared_row (sv\<lparr>sv_host := h\<rparr>) ad later rc (g1, j3) = ((g1, j3), Inr Replayed)"
proof -
  let ?sv = "sv\<lparr>sv_host := h\<rparr>" and ?s = "mc_survivor_uuid c" and ?a = "mc_absorbed_uuid c" and ?oid = "mc_op_id c"
  obtain r where r: "get_op ?oid j1 = Some r"
      "r = prepared_row (sv_clock sv) (mc_now c) (merge_prepare_args sv ?oid ?s ?a request raw)"
      and req: "request = merge_request sv ?oid ?s ?a (mc_similarity c) (mc_now c) raw before"
      and before: "ad_state ad ?s ?a g = Inr before"
    by (rule saga_prepared_row [OF prep])
  have cols: "operation_kind rc = ''ENTITY_MERGE''" "request_json rc = js_canonical (sv_json sv) request"
      "expected_after_sha256 rc = Some (merge_state_fingerprint sv (merged_state ?oid))" "before_snapshot_json rc = before_snapshot_json r"
    using frozen_simps(2,3,4,6) [of rc r] row(3) unfolding r(1) r(2) by (simp_all add: prepared_row_owned)
  have ids: "request_ids sv request = Inr (?oid, ?s, ?a)"
    unfolding req by (rule merge_request_ids)
  have b: "request_get ''expected_before_sha256'' request = Inr (PStr (merge_state_fingerprint sv before))"
    by (simp add: req merge_request_def request_get_def as_dict_def)
  have fe': "fingerprints_exact ?sv"
    using fe unfolding fingerprints_exact_def other_host .
  have facts: "expected_facts sv request ?oid ?s jc = expected_facts sv request ?oid ?s j1"
    using r(1) row(2) cols(4) by (simp add: expected_facts_def split: sum.split)
  have applied: "\<not> shows_merge before" "call_merge sv ad request ?oid ?s ?a (expected_facts sv request ?oid ?s j1) g = (g1, Inr m)"
      "mr_merged m" and "\<exists>st1. ad_state ad ?s ?a g1 = Inr st1 \<and> shows_merge st1"
    using applied_run [OF fe r(1) _ ids _ before, of "mc_later c" g1 j2 m oid] run prepared_row_owned(2)
    unfolding r(2) saga_merge_prepared [OF prep] by blast+
  then obtain st1 where st1: "ad_state ad ?s ?a g1 = Inr st1" "shows_merge st1" by blast
  obtain j3 r3 where j3: "mark_committed ?oid (Some (sv_token ?sv)) later jc = (j3, Inr ())" "get_op ?oid j3 = Some r3"
      "op_state r3 = COMMITTED" "frozen r3 = frozen rc" "mark_committed ?oid (Some (sv_token ?sv)) later j3 = (j3, Inr ())"
    using commit_twice [OF row(1,2,4)] by blast
  have same: "apply_owned ?sv ad later (sort_doc request) w = apply_owned ?sv ad later request w" for w
    by (rule apply_owned_cong) (simp_all add: req merge_request_sort)
  have loads: "js_loads (sv_json ?sv) (request_json rc) = Some (sort_doc request)"
    using js cols(2) by (simp add: json_ok_def)
  have "apply_owned ?sv ad later request (g, jc) = ((g1, j3), Inr (Applied m ?oid))"
    using body_replay [OF fe' row(2), of request ?s ?a before ad g g1 m st1 later] cols(3) ids b before applied st1 facts j3(1)
    by (simp add: settle_def)
  moreover have "apply_owned ?sv ad later request (g1, jc) = ((g1, j3), Inr (Already_Applied ?oid))"
    using body_already [OF fe' row(2), of request ?s ?a _ ad g1 st1 later] cols(3) ids b st1 j3(1) by (simp add: settle_def)
  moreover have "apply_owned ?sv ad later request (g1, j3) = ((g1, j3), Inr (Already_Applied ?oid))"
    using body_already [OF fe' j3(2), of request ?s ?a _ ad g1 st1 later] frozen_simps(6) [OF j3(4)] cols(3) ids b st1 j3(5)
    by (simp add: settle_def)
  ultimately show ?thesis
    using j3(2-4) cols(1) loads same by (auto simp: replay_prepared_row_def)
qed

section \<open>Forecast and replay\<close>

lemma request_ids_defect: "request_ids sv q = Inl e \<Longrightarrow> row_defect e"
  by (auto simp: request_ids_def request_str_def request_item_def as_dict_def subscript_def row_defect_def
      bind_result_def split: sum.splits py_value.splits option.splits)

text \<open>A request that parses names its own row, or lacks one of the three identities (\<open>malformed_row\<close>).\<close>

definition malformed_row :: "'t saga_env \<Rightarrow> op_row \<Rightarrow> bool" where
  "malformed_row sv row =
     (case js_loads (sv_json sv) (request_json row) of None \<Rightarrow> False | Some q \<Rightarrow> isl (request_ids sv q))"

definition own_request :: "'t saga_env \<Rightarrow> op_row \<Rightarrow> bool" where
  "own_request sv row =
     (case js_loads (sv_json sv) (request_json row) of
        None \<Rightarrow> True
      | Some q \<Rightarrow> (case request_ids sv q of Inl _ \<Rightarrow> True | Inr (oid, _, _) \<Rightarrow> oid = op_id row))"

definition outage_only :: "'g merge_adapter \<Rightarrow> 'g \<Rightarrow> bool" where
  "outage_only ad g \<longleftrightarrow> (\<forall>s a e. ad_state ad s a g = Inl e \<longrightarrow> \<not> row_defect e)"

lemma request_get_readable: "request_ids sv q = Inr x \<Longrightarrow> \<exists>b. request_get k q = Inr b"
  by (auto simp: request_ids_def request_str_def request_item_def request_get_def as_dict_def split: py_value.splits)

lemma prepared_row_forecast:
  assumes fe: "fingerprints_exact sv" and js: "json_ok (sv_json sv)"
    and prep: "saga_prepared sv ad c (g, j) = Some (request, raw, before, j1)" and fresh: "\<not> shows_merge before"
  obtains r where "get_op (op_id r) j1 = Some r" "op_id r = mc_op_id c" "owned_row sv r" "own_request sv r"
    "classify_prepared_row sv ad r g j1 = Inr Would_Replay"
proof -
  let ?s = "mc_survivor_uuid c" and ?a = "mc_absorbed_uuid c" and ?oid = "mc_op_id c"
  obtain r where r: "get_op ?oid j1 = Some r"
      "r = prepared_row (sv_clock sv) (mc_now c) (merge_prepare_args sv ?oid ?s ?a request raw)"
      and req: "request = merge_request sv ?oid ?s ?a (mc_similarity c) (mc_now c) raw before"
      and before: "ad_state ad ?s ?a g = Inr before"
    by (rule saga_prepared_row [OF prep])
  have id: "op_id r = ?oid"
    using get_op_member [OF r(1)] by simp
  have loads: "js_loads (sv_json sv) (request_json r) = Some (sort_doc request)"
    using js by (simp add: r(2) prepared_row_owned json_ok_def)
  have ids: "request_ids sv (sort_doc request) = Inr (?oid, ?s, ?a)"
    using merge_request_ids [of sv ?oid ?s ?a] unfolding request_ids_def request_str_def req merge_request_sort .
  have b: "request_get ''expected_before_sha256'' (sort_doc request) = Inr (PStr (merge_state_fingerprint sv before))"
    unfolding req merge_request_sort by (simp add: merge_request_def request_get_def as_dict_def dict_get_def)
  have "merge_state_fingerprint sv before \<noteq> merge_state_fingerprint sv (merged_state ?oid)"
    using fingerprint_merged [OF fe] fresh by simp
  moreover have "row_expected_after ?oid j1 = Some (merge_state_fingerprint sv (merged_state ?oid))"
    using r by (simp add: row_expected_after_def prepared_row_owned)
  ultimately have "\<exists>diag. classify_replay sv ad (sort_doc request) g j1 = Inr (Would_Replay, diag)"
    by (simp add: classify_replay_ids [OF ids] b before decide_replay_def)
  then have "classify_prepared_row sv ad r g j1 = Inr Would_Replay"
    using loads by (auto simp: classify_prepared_row_def r(2) prepared_row_owned)
  moreover have "own_request sv r"
    by (simp add: own_request_def loads ids id)
  ultimately show thesis
    using that [of r] r(1) id by (simp add: r(2) prepared_row_owned)
qed

text \<open>What a replay that runs the merge reports, and the state its row gets.\<close>

definition replay_verdict ::
  "'t saga_env \<Rightarrow> string option \<Rightarrow> merge_state \<Rightarrow> merge_state result \<Rightarrow> merge_result result \<Rightarrow> saga_outcome \<times> op_state" where
  "replay_verdict sv expected_after before post m =
     (case (m, post) of
        (Inr r, Inr st) \<Rightarrow>
          if mr_merged r then
            (if truthy expected_after \<and> Some (merge_state_fingerprint sv st) \<noteq> expected_after then (Drifted, NEEDS_REVIEW)
             else (Replayed, COMMITTED))
          else if merge_state_fingerprint sv st = merge_state_fingerprint sv before then (Replayed, FAILED)
          else (Drifted, NEEDS_REVIEW)
      | _ \<Rightarrow> (Replay_Failed, PREPARED))"

definition runs_merge ::
  "'t saga_env \<Rightarrow> 'g merge_adapter \<Rightarrow> op_row \<Rightarrow> 'g \<Rightarrow> journal \<Rightarrow> 'g \<Rightarrow> saga_outcome \<Rightarrow> op_state option \<Rightarrow> bool" where
  "runs_merge sv ad row g j g' outcome state \<longleftrightarrow>
     (\<exists>q s a before m. js_loads (sv_json sv) (request_json row) = Some q \<and> request_ids sv q = Inr (op_id row, s, a)
        \<and> ad_state ad s a g = Inr before
        \<and> call_merge sv ad q (op_id row) s a (expected_facts sv q (op_id row) s j) g = (g', m)
        \<and> (case replay_verdict sv (expected_after_sha256 row) before (ad_state ad s a g') m of
             (out, st) \<Rightarrow> outcome = out \<and> state = Some st))"

lemma replay_runs_merge:
  assumes r: "get_op (op_id row) j = Some row" "owned_row sv row" "operation_kind row = ''ENTITY_MERGE''"
    and q: "js_loads (sv_json sv) (request_json row) = Some q" "request_ids sv q = Inr (op_id row, s, a)"
    and cl: "classify_replay sv ad q g j = Inr (Would_Replay, diag)"
    and run: "replay_prepared_row sv ad later row (g, j) = ((g', j'), res)"
  shows "\<exists>outcome. res = Inr outcome \<and> runs_merge sv ad row g j g' outcome (map_option op_state (get_op (op_id row) j'))"
proof -
  let ?fp = "merge_state_fingerprint sv" and ?oid = "op_id row"
  obtain b st where st: "ad_state ad s a g = Inr st" "decide_replay (?fp st) b (row_expected_after ?oid j) = (Would_Replay, diag)"
    using cl q(2) by (auto simp: classify_replay_ids)
  have diag: "dg_expected_before diag = PStr (?fp st)" "dg_expected_after diag = expected_after_sha256 row"
    using decide_replay_simps(2,3,5) [of "?fp st" b "row_expected_after ?oid j"] st(2) r(1)
    by (auto simp: row_expected_after_def)
  obtain g1 m where call: "call_merge sv ad q ?oid s a (expected_facts sv q ?oid s j) g = (g1, m)"
    by (cases "call_merge sv ad q ?oid s a (expected_facts sv q ?oid s j) g")
  obtain w2 ans where body: "apply_owned sv ad later q (g, j) = (w2, ans)"
    by (cases "apply_owned sv ad later q (g, j)")
  let ?v = "replay_verdict sv (expected_after_sha256 row) st (ad_state ad s a g1) m"
  have own: "fst w2 = g1 \<and> map_option op_state (get_op ?oid (snd w2)) = Some (snd ?v)
      \<and> fst ?v = (case ans of Inr _ \<Rightarrow> Replayed | Inl e \<Rightarrow> if e = Merge_Drift then Drifted else Replay_Failed)
      \<and> ans \<noteq> Inl (Journal_Failed Stale_Transition)"
  proof (cases m)
    case (Inl e)
    obtain j2 r2 where "settle (record_attempt ?oid (Some ''merge raised'') (Some (sv_token sv)) later)
        (Inl (Raised e) :: saga_error + saga_result) (g1, j) = ((g1, j2), Inl (Raised e))"
        "get_op ?oid j2 = Some r2" "op_state r2 = PREPARED"
      using settle_marks(4) [OF r(1,2)] by metis
    then show ?thesis
      using body q(2) cl call Inl by (auto simp: apply_owned_def replay_verdict_def)
  next
    case mr: (Inr mres)
    show ?thesis
    proof (cases "ad_state ad s a g1")
      case (Inl e)
      then show ?thesis
        using body q(2) cl call mr r(1,2)
        by (auto simp: apply_owned_def finish_abstention_def verify_merge_def replay_verdict_def owned_row_def Let_def split: if_splits)
    next
      case (Inr post)
      have marks: "\<exists>j2 r2. settle (mark_committed ?oid (Some (sv_token sv)) later) (Inr (Applied mres ?oid)) (g1, j)
            = ((g1, j2), Inr (Applied mres ?oid)) \<and> get_op ?oid j2 = Some r2 \<and> op_state r2 = COMMITTED"
        "\<exists>j2 r2. settle (mark_failed ?oid why (Some (sv_token sv)) later) answer (g1, j) = ((g1, j2), answer)
            \<and> get_op ?oid j2 = Some r2 \<and> op_state r2 = FAILED"
        "\<exists>j2 r2. (quarantine sv later ?oid reason (g1, j) :: ('b, saga_result) saga_step) = ((g1, j2), Inl Merge_Drift)
            \<and> get_op ?oid j2 = Some r2 \<and> op_state r2 = NEEDS_REVIEW"
        for why reason and answer :: "saga_error + saga_result"
        using settle_marks(1,2,3) [OF r(1,2)] by metis+
      show ?thesis
      proof (cases "mr_merged mres")
        case True
        then show ?thesis
          using body q(2) cl call mr Inr diag marks(1) marks(3) [of "''after-state mismatch''"]
          by (auto simp: apply_owned_def verify_merge_def replay_verdict_def split: if_splits)
      next
        case False
        let ?reason = "if truthy (mr_reason mres) then or_empty (mr_reason mres) else ''REPOSITORY_ABSTAINED''"
        show ?thesis
          using False body q(2) cl call mr Inr diag marks(3) [of "''abstained but the graph moved''"]
            marks(2) [of "Some (''repository abstained: '' @ ?reason)" "Inr (Abstained (Repository_Abstained ?reason) (Some ?oid))"]
          by (auto simp: apply_owned_def finish_abstention_def replay_verdict_def Let_def split: if_splits)
      qed
    qed
  qed
  have "res = Inr (fst ?v)" "g' = g1" "j' = snd w2"
    using run body own q(1) r(3) by (auto simp: replay_prepared_row_def split: sum.splits if_splits)
  then show ?thesis
    using own st(1) q call unfolding runs_merge_def
    by (intro exI [of _ "fst ?v"] conjI exI [of _ q] exI [of _ s] exI [of _ a] exI [of _ st] exI [of _ m]) (auto split: prod.splits)
qed

text \<open>
  C35: What a dry run forecasts for a row determines what a replay does with it. A row of another kind is
  skipped; a row whose work is already in the graph is committed without touching the graph; a row that
  would be replayed runs the merge once, and the answer of the merge and the state read after it decide
  between committed, failed, quarantined and still prepared; a row that would need review is
  quarantined without touching the graph. The one exception are requests that parse but lack an
  identity: they are forecast for review, a replay fails and leaves the row as it is.
\<close>

theorem forecast_matches_replay:
  assumes r: "get_op (op_id row) j = Some row" "owned_row sv row"
    and wf: "own_request sv row" "outage_only ad g"
    and out: "classify_prepared_row sv ad row g j = Inr out"
    and run: "replay_prepared_row sv ad later row (g, j) = ((g', j'), res)"
  shows "out \<in> {Skip, Would_Mark_Already_Applied, Would_Needs_Review, Would_Replay}
    \<and> (out = Skip \<longrightarrow> res = Inr Skipped \<and> g' = g \<and> j' = j)
    \<and> (out = Would_Mark_Already_Applied \<longrightarrow> res = Inr Replayed \<and> g' = g \<and> map_option op_state (get_op (op_id row) j') = Some COMMITTED)
    \<and> (out = Would_Replay \<longrightarrow>
        (\<exists>outcome. res = Inr outcome \<and> runs_merge sv ad row g j g' outcome (map_option op_state (get_op (op_id row) j'))))
    \<and> (out = Would_Needs_Review \<longrightarrow> g' = g \<and>
        (if malformed_row sv row then res = Inr Replay_Failed \<and> j' = j
         else res = Inr Drifted \<and> map_option op_state (get_op (op_id row) j') = Some NEEDS_REVIEW))"
proof (cases "operation_kind row = ''ENTITY_MERGE''")
  case kind: True
  show ?thesis
  proof (cases "js_loads (sv_json sv) (request_json row)")
    case None
    obtain j2 r2 where "settle (mark_needs_review (op_id row) (Some ''unparseable request_json'') (Some (sv_token sv)) later)
        (Inr Drifted) (g, j) = ((g, j2), Inr Drifted)" "get_op (op_id row) j2 = Some r2" "op_state r2 = NEEDS_REVIEW"
      using settle_own [of "\<lparr>ta_op_id = op_id row, ta_to_state = NEEDS_REVIEW, ta_allowed_from = [PREPARED],
          ta_set_committed_at = False, ta_last_error = Some ''unparseable request_json'', ta_owner_token = Some (sv_token sv)\<rparr>"
          j row sv later "Inr Drifted :: saga_error + saga_outcome" g] r
      by (auto simp: mark_needs_review_def)
    then show ?thesis
      using out run kind None by (simp add: classify_prepared_row_def replay_prepared_row_def malformed_row_def)
  next
    case (Some q)
    show ?thesis
    proof (cases "request_ids sv q")
      case (Inl e)
      then have "row_defect e"
        by (rule request_ids_defect)
      then show ?thesis
        using out run kind Some Inl
        by (simp add: classify_prepared_row_def replay_prepared_row_def classify_replay_def apply_owned_def malformed_row_def)
    next
      case (Inr x)
      then obtain s a where ids: "request_ids sv q = Inr (op_id row, s, a)"
        using wf(1) Some by (cases x) (auto simp: own_request_def)
      then obtain b where b: "request_get ''expected_before_sha256'' q = Inr b"
        using request_get_readable by blast
      obtain diag where cl: "classify_replay sv ad q g j = Inr (out, diag)"
        using out kind Some wf(2) ids b
        by (cases "ad_state ad s a g")
           (auto simp: classify_prepared_row_def classify_replay_ids outage_only_def split: prod.splits)
      then obtain st where "decide_replay (merge_state_fingerprint sv st) b (row_expected_after (op_id row) j) = (out, diag)"
        using ids b by (auto simp: classify_replay_ids)
      then have members: "out \<in> {Would_Mark_Already_Applied, Would_Needs_Review, Would_Replay}"
        using decide_replay_simps(4) [of "merge_state_fingerprint sv st" b "row_expected_after (op_id row) j"] by simp
      show ?thesis
      proof (cases "out = Would_Replay")
        case True
        then show ?thesis
          using replay_runs_merge [OF r kind Some ids _ run] cl by simp
      next
        case False
        have app: "apply_owned sv ad later q (g, j) =
            (if out = Would_Mark_Already_Applied then settle (mark_committed (op_id row) (Some (sv_token sv)) later)
               (Inr (Already_Applied (op_id row))) (g, j)
             else quarantine sv later (op_id row) (or_empty (dg_observed_error diag)) (g, j))"
          using False cl ids members by (auto simp: apply_owned_def)
        obtain j2 r2 j3 r3 where marks:
            "settle (mark_committed (op_id row) (Some (sv_token sv)) later) (Inr (Already_Applied (op_id row))) (g, j)
               = ((g, j2), Inr (Already_Applied (op_id row)) :: saga_error + saga_result)"
            "get_op (op_id row) j2 = Some r2" "op_state r2 = COMMITTED"
            "(quarantine sv later (op_id row) (or_empty (dg_observed_error diag)) (g, j) :: ('b, saga_result) saga_step)
               = ((g, j3), Inl Merge_Drift)" "get_op (op_id row) j3 = Some r3" "op_state r3 = NEEDS_REVIEW"
          using settle_marks(1) [OF r] settle_marks(3) [OF r] by metis
        then show ?thesis
          using False members app run kind Some ids by (auto simp: replay_prepared_row_def malformed_row_def)
      qed
    qed
  qed
qed (use out run in \<open>auto simp: classify_prepared_row_def replay_prepared_row_def\<close>)

end
