(* ===== verification/Merge_Graph_Properties.thy ===== *)
theory Merge_Graph_Properties
  imports Merge_Graph Saga_Properties
begin

text \<open>
  The graph statements keep the promises the saga relies on: the interpretation \<open>repository\<close> of
  \<open>merge_graph\<close> on the adapter of the repository, and what a merge does to the graph.
\<close>

section \<open>Well-formed graphs\<close>

definition node_ids :: "'t pgraph \<Rightarrow> nat set" where
  "node_ids g = gn_id ` set (g_nodes g)"

text \<open>Element ids are unique, a relationship joins nodes of the graph, and a uuid names one node.\<close>

definition pgraph_ok :: "'t pgraph \<Rightarrow> bool" where
  "pgraph_ok g \<longleftrightarrow>
     distinct (map gn_id (g_nodes g)) \<and> distinct (map gr_id (g_rels g))
     \<and> (\<forall>r\<in>set (g_rels g). gr_start r \<in> node_ids g \<and> gr_end r \<in> node_ids g)
     \<and> distinct (filter (\<lambda>v. v \<noteq> NNone) (map (node_prop ''uuid'') (g_nodes g)))"

lemma distinct_filter_map_unique:
  "distinct (filter P (map f xs)) \<Longrightarrow> x \<in> set xs \<Longrightarrow> y \<in> set xs \<Longrightarrow> f x = f y \<Longrightarrow> P (f x) \<Longrightarrow> distinct (map h xs) \<Longrightarrow> x = y"
  by (induction xs) (auto split: if_splits simp: image_iff)

lemma pgraph_ok_uuid_unique:
  assumes "pgraph_ok g" "n \<in> set (g_nodes g)" "m \<in> set (g_nodes g)" "node_prop ''uuid'' n = node_prop ''uuid'' m"
    "node_prop ''uuid'' n \<noteq> NNone"
  shows "n = m"
  using distinct_filter_map_unique [of "\<lambda>v. v \<noteq> NNone" "node_prop ''uuid''" "g_nodes g" n m gn_id] assms
  by (simp add: pgraph_ok_def)

lemma pgraph_ok_id_unique:
  "pgraph_ok g \<Longrightarrow> n \<in> set (g_nodes g) \<Longrightarrow> m \<in> set (g_nodes g) \<Longrightarrow> gn_id n = gn_id m \<Longrightarrow> n = m"
  by (auto simp: pgraph_ok_def distinct_map inj_on_def)

lemma entities_member:
  "n \<in> set (entities u g) \<longleftrightarrow> n \<in> set (g_nodes g) \<and> has_label ''Entity'' n \<and> node_prop ''uuid'' n = NStr u"
  by (auto simp: entities_def)

section \<open>Properties\<close>

lemma neo_get_set_prop: "neo_get k (set_prop k' v d) = (if k = k' then v else neo_get k d)"
proof -
  have "map_of (filter (\<lambda>kv. fst kv \<noteq> k') d) k = (if k = k' then None else map_of d k)"
    by (induction d) auto
  then show ?thesis
    by (auto simp: neo_get_def set_prop_def Let_def)
qed

lemma neo_get_set_props:
  "distinct (map fst delta) \<Longrightarrow>
     neo_get k (set_props delta d) = (case map_of delta k of None \<Rightarrow> neo_get k d | Some v \<Rightarrow> v)"
proof (induction delta arbitrary: d)
  case (Cons kv delta)
  obtain k' v where [simp]: "kv = (k', v)" by (cases kv)
  have "map_of delta k' = None"
    using Cons.prems by (simp add: map_of_eq_None_iff)
  then show ?case
    using Cons.IH [of "set_prop k' v d"] Cons.prems by (simp add: set_props_def neo_get_set_prop split: option.split)
qed (simp add: set_props_def)

lemma survivor_delta_get:
  "neo_get k (set_props (survivor_delta mp sn an) d)
     = (case map_of (survivor_delta mp sn an) k of None \<Rightarrow> neo_get k d | Some v \<Rightarrow> v)"
  by (rule neo_get_set_props) (simp add: survivor_delta_def split: prod.split)

lemma survivor_delta_uuid [simp]: "neo_get ''uuid'' (set_props (survivor_delta mp sn an) d) = neo_get ''uuid'' d"
  by (simp add: survivor_delta_get) (simp add: survivor_delta_def split: prod.split)

section \<open>What rewiring leaves alone\<close>

lemma g_nodes_add_rel [simp]: "g_nodes (add_rel ty st en ps g) = g_nodes g"
  by (simp add: add_rel_def)

lemma g_nodes_merge_rel [simp]: "g_nodes (merge_rel ty st en ps g) = g_nodes g"
  by (simp add: merge_rel_def)

lemma g_nodes_move_fact [simp]: "g_nodes (move_fact sn an f g) = g_nodes g"
  by (simp add: move_fact_def Let_def)

lemma g_nodes_folds [simp]:
  "g_nodes (fold (move_fact sn an) fs g) = g_nodes g"
  "g_nodes (fold (\<lambda>n. merge_rel ty st n ps) ns g) = g_nodes g"
  "g_nodes (fold (\<lambda>n. merge_rel ty n en ps) ns g) = g_nodes g"
  by (induction fs arbitrary: g; simp) (induction ns arbitrary: g; simp)+

lemma g_nodes_rewire:
  "g_nodes (rewire mp sn an g) = g_nodes (update_node (gn_id sn) (set_props (survivor_delta mp sn an)) g)"
  by (simp add: rewire_def Let_def)

lemma delete_node_Inr:
  assumes "delete_node i known g = Inr g'"
  shows "g_nodes g' = filter (\<lambda>n. gn_id n \<noteq> i) (g_nodes g)"
    "g_rels g' = filter (\<lambda>r. \<not> (incident i r \<and> gr_id r \<in> set known)) (g_rels g)" "\<forall>r\<in>set (g_rels g'). \<not> incident i r"
  using assms by (auto simp: delete_node_def Let_def list_ex_iff split: if_splits)

section \<open>The merged state\<close>

lemma phase_two_cases:
  assumes "merge_phase_two mp snap g = (g', res)"
  obtains (kept) "g' = g" "\<not> (\<exists>r. res = Inr (Some r))"
  | (merged) sn an rest1 rest2 where "entities (mp_survivor_uuid mp) g = sn # rest1" "entities (mp_absorbed_uuid mp) g = an # rest2"
      "merge_guard mp snap g sn an" "res = Inr (Some (merge_counts g sn an))"
      "delete_node (gn_id an) (map gr_id (filter (incident (gn_id an)) (g_rels g))) (rewire mp sn an g) = Inr g'"
  using assms by (auto simp: merge_phase_two_def split: list.splits if_splits sum.splits)

lemma updated_props:
  "node_prop k (if gn_id n = i then n\<lparr>gn_props := set_props (survivor_delta mp sn an) (gn_props n)\<rparr> else n)
     = (if gn_id n = i then (case map_of (survivor_delta mp sn an) k of None \<Rightarrow> node_prop k n | Some v \<Rightarrow> v) else node_prop k n)"
  by (simp add: node_prop_def survivor_delta_get split: option.split)

lemma phase_two_merged_state:
  assumes ok: "pgraph_ok g" and run: "merge_phase_two mp snap g = (g', Inr (Some r))"
    and ne: "mp_survivor_uuid mp \<noteq> mp_absorbed_uuid mp"
  shows "shows_merge (fetch_merge_state (mp_survivor_uuid mp) (mp_absorbed_uuid mp) g')"
  using run
proof (cases rule: phase_two_cases)
  case (merged sn an rest1 rest2)
  define up where "up = (\<lambda>n :: 'a gnode. if gn_id n = gn_id sn then n\<lparr>gn_props := set_props (survivor_delta mp sn an) (gn_props n)\<rparr> else n)"
  have mem: "sn \<in> set (g_nodes g)" "an \<in> set (g_nodes g)" "node_prop ''uuid'' sn = NStr (mp_survivor_uuid mp)"
      "node_prop ''uuid'' an = NStr (mp_absorbed_uuid mp)" "has_label ''Entity'' sn"
    using merged(1,2) entities_member by (metis list.set_intros(1))+
  have ids: "gn_id sn \<noteq> gn_id an"
    using pgraph_ok_id_unique [OF ok mem(1,2)] mem(3,4) ne by auto
  have nodes: "g_nodes g' = filter (\<lambda>n. gn_id n \<noteq> gn_id an) (map up (g_nodes g))"
    using delete_node_Inr(1) [OF merged(5)] by (simp add: g_nodes_rewire update_node_def up_def)
  have up [simp]: "node_prop ''uuid'' (up n) = node_prop ''uuid'' n" "gn_id (up n) = gn_id n"
      "has_label l (up n) = has_label l n" for n l
    by (simp_all add: up_def node_prop_def has_label_def)
  have "up sn \<in> set (entities (mp_survivor_uuid mp) g')"
    using mem ids by (auto simp: entities_member nodes)
  moreover have "n = up sn" if "n \<in> set (entities (mp_survivor_uuid mp) g')" for n
    using that pgraph_ok_uuid_unique [OF ok _ mem(1)] mem(3) by (auto simp: entities_member nodes)
  ultimately obtain rest where s': "entities (mp_survivor_uuid mp) g' = up sn # rest"
    by (metis list.exhaust list.set_intros(1) list.set(1) empty_iff)
  have "n \<notin> set (entities (mp_absorbed_uuid mp) g')" for n
    using pgraph_ok_uuid_unique [OF ok _ mem(2)] mem(4) by (auto simp: entities_member nodes)
  then have "entities (mp_absorbed_uuid mp) g' = []"
    using last_in_set by blast
  moreover have "node_prop ''merged_from'' (up sn) = NList (neo_members (node_prop ''merged_from'' sn) @ [NStr (mp_absorbed_uuid mp)]
      @ neo_members (node_prop ''merged_from'' an))"
    by (simp add: up_def node_prop_def survivor_delta_get) (simp add: survivor_delta_def node_prop_def split: prod.split)
  ultimately show ?thesis
    using s' by (simp add: shows_merge_def fetch_merge_state_def neo_members_def)
qed auto

section \<open>The repository keeps the promises of the protocol\<close>

lemma evaluate_same: "me_allowed (evaluate_merge_eligibility rows s a) \<Longrightarrow> s \<noteq> a"
  by (auto simp: evaluate_merge_eligibility_def Let_def evaluate_allowed)

text \<open>What one merge comes to; in the last case the mutation is done and its acknowledgement lost.\<close>

lemma merge_entity_cases:
  assumes "merge_entity mw s a sim oid facts g = (g', res)"
  obtains (kept) "g' = g" "\<not> (\<exists>r. res = Inr r \<and> mr_merged r)"
  | (merged) snap r where "me_allowed (graph_eligibility s a g)" "merge_phase_one (mw_driver mw) s a g = Some snap"
      "merge_phase_two (merge_params_of mw s a sim oid facts snap) snap g = (g', Inr (Some r))" "res = Inr r" "mr_merged r"
  | (silent) snap r e where "me_allowed (graph_eligibility s a g)" "merge_phase_one (mw_driver mw) s a g = Some snap"
      "merge_phase_two (merge_params_of mw s a sim oid facts snap) snap g = (g', Inr (Some r))" "res = Inl e"
proof (cases "query mw Eligibility_Read (graph_eligibility s a) g")
  case (Inl e)
  then show thesis
    using assms by (intro kept) (auto simp: merge_entity_def merge_entity_among_def)
next
  case el: (Inr eligibility)
  then have eligibility: "eligibility = graph_eligibility s a g"
    by (rule query_Inr)
  show thesis
  proof (cases "me_allowed eligibility \<and> (\<exists>snap. query mw Merge_Read (merge_phase_one (mw_driver mw) s a) g = Inr (Some snap))")
    case False
    then show thesis
      using assms el by (intro kept) (auto simp: merge_entity_def merge_entity_among_def not_merged_def Let_def
          split: if_splits sum.splits option.splits)
  next
    case True
    then obtain snap where rd: "query mw Merge_Read (merge_phase_one (mw_driver mw) s a) g = Inr (Some snap)"
      by blast
    then have one: "merge_phase_one (mw_driver mw) s a g = Some snap"
      using query_Inr by metis
    let ?two = "merge_phase_two (merge_params_of mw s a sim oid facts snap) snap"
    obtain g2 x where run: "mutate mw Merge_Write ?two g = (g2, x)"
      by (cases "mutate mw Merge_Write ?two g")
    have res: "g' = g2" "res = (case x of Inl e \<Rightarrow> Inl e | Inr None \<Rightarrow> Inr (not_merged (Some ''ELIGIBILITY_CHANGED_AT_MUTATION''))
        | Inr (Some r) \<Rightarrow> Inr r)"
      using assms el True rd run by (auto simp: merge_entity_def merge_entity_among_def split: sum.splits option.splits)
    obtain h y where two: "?two g = (h, y)"
      by (cases "?two g")
    have counts: "mr_merged r" if "y = Inr (Some r)" for r
      using two unfolding that by (cases rule: phase_two_cases) (auto simp: merge_counts_def)
    have keeps: "h = g" if "\<not> (\<exists>r. y = Inr (Some r))"
      using two that by (cases rule: phase_two_cases) auto
    note allowed = conjunct1 [OF True, unfolded eligibility]
    from run [unfolded mutate_def] show thesis
    proof (cases rule: execute_once)
      case ran
      show thesis
      proof (cases "\<exists>r. y = Inr (Some r)")
        case True
        then show thesis
          using merged [OF allowed one] ran two res counts by auto
      next
        case False
        then show thesis
          using keeps ran two res by (intro kept) (auto simp: not_merged_def split: sum.splits option.splits)
      qed
    next
      case (failed e)
      then show thesis using res by (intro kept) auto
    next
      case (silent e)
      show thesis
      proof (cases "\<exists>r. y = Inr (Some r)")
        case True
        then show thesis
          using that(3) [OF allowed one] silent two res by auto
      next
        case False
        then show thesis
          using keeps silent two res by (intro kept) auto
      qed
    qed
  qed
qed

lemma phase_two_shows_merge:
  assumes "pgraph_ok g" "me_allowed (graph_eligibility s a g)"
    and "merge_phase_two (merge_params_of mw s a sim oid facts snap) snap g = (g', Inr (Some r))"
  shows "shows_merge (fetch_merge_state s a g')"
proof -
  have "s \<noteq> a"
    using assms(2) evaluate_same by (auto simp: graph_eligibility_def)
  then show ?thesis
    using phase_two_merged_state [OF assms(1,3)] by (simp add: merge_params_of_def Let_def)
qed

lemma merge_entity_changes:
  assumes "pgraph_ok g" "merge_entity mw s a sim oid facts g = (g', res)"
  shows "g' = g \<or> shows_merge (fetch_merge_state s a g')"
  using assms(2) phase_two_shows_merge [OF assms(1)] by (cases rule: merge_entity_cases) auto

interpretation repository: merge_graph "graph_adapter mw js" pgraph_ok
proof
  fix s a sim oid facts g g' e st
  assume "pgraph_ok g" "ad_merge (graph_adapter mw js) s a sim oid facts g = (g', Inl e)"
    "ad_state (graph_adapter mw js) s a g' = Inr st"
  then show "g' = g \<or> shows_merge st"
    using merge_entity_changes query_Inr by (fastforce simp: graph_adapter_def)
next
  fix s a sim oid facts g g' r
  assume "ad_merge (graph_adapter mw js) s a sim oid facts g = (g', Inr r)" "\<not> mr_merged r"
  then have "merge_entity mw s a sim oid facts g = (g', Inr r)" "\<not> mr_merged r" by (simp_all add: graph_adapter_def)
  then show "g' = g" by (cases rule: merge_entity_cases) auto
next
  fix s a sim oid facts g g' r st
  assume ok: "pgraph_ok g" and run: "ad_merge (graph_adapter mw js) s a sim oid facts g = (g', Inr r)" "mr_merged r"
    and st: "ad_state (graph_adapter mw js) s a g' = Inr st"
  from run have "merge_entity mw s a sim oid facts g = (g', Inr r)" by (simp add: graph_adapter_def)
  moreover have "st = fetch_merge_state s a g'"
    using query_Inr st by (simp add: graph_adapter_def) 
  ultimately show "shows_merge st"
    using phase_two_shows_merge [OF ok] run(2) by (cases rule: merge_entity_cases) auto
qed

section \<open>Relationships\<close>

lemma max_fold: "x \<in> set xs \<Longrightarrow> (x :: nat) \<le> fold max xs m" and max_fold_start: "(m :: nat) \<le> fold max xs m"
proof -
  show start: "(m :: nat) \<le> fold max xs m" for xs :: "nat list" and m
    by (induction xs arbitrary: m) (auto intro: order_trans [OF max.cobounded2])
  show "x \<le> fold max xs m" if "x \<in> set xs"
    using that
  proof (induction xs arbitrary: m)
    case (Cons y ys)
    then show ?case
      using start [of "max y m" ys] by auto
  qed simp
qed

lemma fresh_rel_id_fresh: "fresh_rel_id g \<notin> gr_id ` set (g_rels g)"
  using max_fold [of _ "map gr_id (g_rels g)" 0] by (fastforce simp: fresh_rel_id_def)

text \<open>Relationships of a graph under construction: distinct ids and endpoints in a fixed set.\<close>

definition rels_within :: "nat set \<Rightarrow> 't pgraph \<Rightarrow> bool" where
  "rels_within N g \<longleftrightarrow> distinct (map gr_id (g_rels g)) \<and> (\<forall>r\<in>set (g_rels g). gr_start r \<in> N \<and> gr_end r \<in> N)"

lemma rels_within_add_rel: "rels_within N g \<Longrightarrow> st \<in> N \<Longrightarrow> en \<in> N \<Longrightarrow> rels_within N (add_rel ty st en ps g)"
  using fresh_rel_id_fresh [of g] by (auto simp: rels_within_def add_rel_def)

lemma rels_within_merge_rel: "rels_within N g \<Longrightarrow> st \<in> N \<Longrightarrow> en \<in> N \<Longrightarrow> rels_within N (merge_rel ty st en ps g)"
  by (simp add: merge_rel_def rels_within_add_rel)

lemma rels_within_move:
  "rels_within N g \<Longrightarrow> gn_id sn \<in> N \<Longrightarrow> (\<And>f. f \<in> set fs \<Longrightarrow> gr_start f \<in> N \<and> gr_end f \<in> N) \<Longrightarrow>
     rels_within N (fold (move_fact sn an) fs g)"
  by (induction fs arbitrary: g) (auto simp: move_fact_def Let_def intro!: rels_within_add_rel)

lemma rels_within_folds:
  "rels_within N g \<Longrightarrow> st \<in> N \<Longrightarrow> set ns \<subseteq> N \<Longrightarrow> rels_within N (fold (\<lambda>n. merge_rel ty st n ps) ns g)"
  "rels_within N g \<Longrightarrow> en \<in> N \<Longrightarrow> set ns \<subseteq> N \<Longrightarrow> rels_within N (fold (\<lambda>n. merge_rel ty n en ps) ns g)"
  by (induction ns arbitrary: g) (auto intro!: rels_within_merge_rel)

lemma node_by_id_SomeD: "node_by_id i g = Some n \<Longrightarrow> n \<in> set (g_nodes g) \<and> gn_id n = i"
  by (auto simp: node_by_id_def find_Some_iff)

lemma labelled_at_id: "labelled_at l g i \<Longrightarrow> i \<in> node_ids g"
  by (auto simp: labelled_at_def node_ids_def dest: node_by_id_SomeD split: option.splits)

lemma episodes_into_ids: "n \<in> set (episodes_into ty g i) \<Longrightarrow> gn_id n \<in> node_ids g"
  by (fastforce simp: episodes_into_def List.map_filter_def node_ids_def dest: node_by_id_SomeD split: if_splits)

lemma rewire_within:
  assumes ok: "pgraph_ok g" and sn: "sn \<in> set (g_nodes g)"
  shows "rels_within (node_ids g) (rewire mp sn an g)"
proof -
  let ?N = "node_ids g" and ?up = "update_node (gn_id sn) (set_props (survivor_delta mp sn an)) g"
  have base: "rels_within ?N ?up" "gn_id sn \<in> ?N"
    using ok sn by (auto simp: rels_within_def pgraph_ok_def update_node_def node_ids_def)
  have facts: "gr_start f \<in> ?N \<and> gr_end f \<in> ?N" if "f \<in> set (moved_facts g sn an)" for f
    using that ok by (auto simp: moved_facts_def pgraph_ok_def)
  have "set (bridge_neighbors g sn an) \<subseteq> ?N"
    by (auto simp: bridge_neighbors_def Let_def dest: labelled_at_id)
  moreover have "set (dedup (map gn_id (episodes_into ''MENTIONS'' g (gn_id an)))) \<subseteq> ?N"
      "set (dedup (map gn_id (tenant_sources g an))) \<subseteq> ?N"
    using episodes_into_ids by (auto simp: tenant_sources_def)
  ultimately show ?thesis
    unfolding rewire_def Let_def
    by (intro rels_within_folds rels_within_move base facts) auto
qed

lemma merged_rels:
  assumes "delete_node i known h = Inr g'"
  shows "g_rels g' = filter (\<lambda>r. \<not> incident i r) (g_rels h)"
proof -
  note d = delete_node_Inr [OF assms]
  have "filter (\<lambda>r. \<not> incident i r) (g_rels g') = g_rels g'"
    using d(3) by (simp add: filter_id_conv)
  then show ?thesis
    unfolding d(2) filter_filter by (metis (mono_tags, lifting) filter_cong)
qed

section \<open>Facts\<close>

definition fact_edge :: "'t grel \<Rightarrow> bool" where
  "fact_edge r \<longleftrightarrow> gr_type r = ''RELATES_TO'' \<and> rel_prop ''fact'' r \<noteq> NNone"

definition fact_view :: "'t grel \<Rightarrow> 't neo_value \<times> 't neo_value \<times> nat \<times> nat" where
  "fact_view r = (rel_prop ''uuid'' r, rel_prop ''fact'' r, gr_start r, gr_end r)"

definition redirect :: "nat \<Rightarrow> nat \<Rightarrow> nat \<Rightarrow> nat" where
  "redirect to_id from_id i = (if i = from_id then to_id else i)"

definition moved_view :: "'t gnode \<Rightarrow> 't gnode \<Rightarrow> 't grel \<Rightarrow> 't neo_value \<times> 't neo_value \<times> nat \<times> nat" where
  "moved_view sn an f =
     (rel_prop ''uuid'' f, rel_prop ''fact'' f, redirect (gn_id sn) (gn_id an) (gr_start f), redirect (gn_id sn) (gn_id an) (gr_end f))"

abbreviation fact_views :: "'t pgraph \<Rightarrow> ('t neo_value \<times> 't neo_value \<times> nat \<times> nat) list" where
  "fact_views g \<equiv> map fact_view (filter fact_edge (g_rels g))"

lemma neo_get_rewrite_end: "k \<noteq> k' \<Longrightarrow> neo_get k (rewrite_end k' v d) = neo_get k d"
  by (simp add: rewrite_end_def neo_get_set_prop)

lemma fact_views_merge_rel [simp]:
  "neo_get ''fact'' ps = NNone \<Longrightarrow> fact_views (merge_rel ty st en ps g) = fact_views g"
  by (simp add: merge_rel_def add_rel_def fact_edge_def rel_prop_def)

lemma fact_views_folds:
  "neo_get ''fact'' ps = NNone \<Longrightarrow> fact_views (fold (\<lambda>n. merge_rel ty st n ps) ns g) = fact_views g"
  "neo_get ''fact'' ps = NNone \<Longrightarrow> fact_views (fold (\<lambda>n. merge_rel ty n en ps) ns g) = fact_views g"
  by (induction ns arbitrary: g) (simp_all del: map_map)

lemma fact_views_move_fact:
  assumes "gr_start f = gn_id an \<or> gr_end f = gn_id an" "gr_start f \<noteq> gn_id an \<or> gr_end f \<noteq> gn_id an"
    "rel_prop ''fact'' f \<noteq> NNone"
  shows "fact_views (move_fact sn an f g) = fact_views g @ [moved_view sn an f]"
  using assms
  by (auto simp: move_fact_def add_rel_def Let_def fact_edge_def fact_view_def moved_view_def redirect_def rel_prop_def
      neo_get_rewrite_end)

lemma fact_views_moves:
  assumes "\<And>f. f \<in> set fs \<Longrightarrow> (gr_start f = gn_id an \<or> gr_end f = gn_id an)
      \<and> (gr_start f \<noteq> gn_id an \<or> gr_end f \<noteq> gn_id an) \<and> rel_prop ''fact'' f \<noteq> NNone"
  shows "fact_views (fold (move_fact sn an) fs g) = fact_views g @ map (moved_view sn an) fs"
  using assms
proof (induction fs arbitrary: g)
  case (Cons f fs)
  have "fact_views (move_fact sn an f g) = fact_views g @ [moved_view sn an f]"
    by (rule fact_views_move_fact) (use Cons.prems [of f] in auto)
  with Cons show ?case by simp
qed simp

lemma node_by_id_member: "pgraph_ok g \<Longrightarrow> n \<in> set (g_nodes g) \<Longrightarrow> node_by_id (gn_id n) g = Some n"
proof -
  assume ok: "pgraph_ok g" and n: "n \<in> set (g_nodes g)"
  then obtain m where "node_by_id (gn_id n) g = Some m"
    by (cases "node_by_id (gn_id n) g") (auto simp: node_by_id_def find_None_iff)
  then show ?thesis
    using pgraph_ok_id_unique [OF ok n, of m] by (auto dest: node_by_id_SomeD)
qed

lemma moved_fact_ends:
  assumes ok: "pgraph_ok g" and an: "an \<in> set (g_nodes g)" and f: "f \<in> set (moved_facts g sn an)"
  shows "(gr_start f = gn_id an \<or> gr_end f = gn_id an) \<and> (gr_start f \<noteq> gn_id an \<or> gr_end f \<noteq> gn_id an)
      \<and> rel_prop ''fact'' f \<noteq> NNone"
proof -
  have "prop_at ''uuid'' g (gn_id an) = node_prop ''uuid'' an"
    by (simp add: prop_at_def node_by_id_member [OF ok an])
  then show ?thesis
    using f by (auto simp: moved_facts_def moved_fact_where_def Let_def incident_def other_end_def split: if_splits)
qed

lemma mset_partition_map:
  "mset (map h (filter P xs)) + mset (map h (filter (\<lambda>x. \<not> P x) xs)) = mset (map h xs)"
  by (induction xs) auto

lemma rewire_fact_views:
  assumes ok: "pgraph_ok g" and an: "an \<in> set (g_nodes g)"
  shows "mset (fact_views (rewire mp sn an g)) = mset (fact_views g) + mset (map (moved_view sn an) (moved_facts g sn an))"
proof -
  let ?out = "filter (\<lambda>f. gr_start f = gn_id an) (moved_facts g sn an)"
  let ?in = "filter (\<lambda>f. gr_start f \<noteq> gn_id an) (moved_facts g sn an)"
  have moves: "fact_views (fold (move_fact sn an) ?out h) = fact_views h @ map (moved_view sn an) ?out"
      "fact_views (fold (move_fact sn an) ?in h) = fact_views h @ map (moved_view sn an) ?in" for h
    by (rule fact_views_moves, rule moved_fact_ends [OF ok an, of _ sn], simp)+
  have "fact_views (rewire mp sn an g)
      = fact_views (update_node (gn_id sn) (set_props (survivor_delta mp sn an)) g)
        @ map (moved_view sn an) ?out @ map (moved_view sn an) ?in"
    by (simp add: rewire_def Let_def fact_views_folds moves bridge_props_def neo_get_def del: map_map)
  then have "fact_views (rewire mp sn an g) = fact_views g @ map (moved_view sn an) ?out @ map (moved_view sn an) ?in"
    by (simp add: update_node_def)
  then show ?thesis
    using mset_partition_map [of "moved_view sn an" "\<lambda>f. gr_start f = gn_id an" "moved_facts g sn an"] by simp
qed

section \<open>Merges of well-formed graphs\<close>

lemma distinct_filter_map_filter: "distinct (filter P (map f xs)) \<Longrightarrow> distinct (filter P (map f (filter Q xs)))"
  by (induction xs) (auto split: if_splits)

lemma entities_single:
  assumes "pgraph_ok g" "entities u g = n # rest"
  shows "entities u g = [n]"
proof -
  have "m = n" if "m \<in> set (entities u g)" for m
    using that pgraph_ok_uuid_unique [OF assms(1), of m n] assms(2) entities_member [of n u g] entities_member [of m u g] by auto
  moreover have "distinct (entities u g)"
    using assms(1) by (auto simp: pgraph_ok_def entities_def distinct_map)
  ultimately show ?thesis
    using assms(2) by (cases rest) auto
qed

lemma phase_two_merged:
  assumes ok: "pgraph_ok g" and allowed: "me_allowed (graph_eligibility s a g)"
    and run: "merge_phase_two (merge_params_of mw s a sim oid facts snap) snap g = (g', Inr (Some r))"
  obtains sn an where "s \<noteq> a" "entities s g = [sn]" "entities a g = [an]" "sn \<in> set (g_nodes g)" "an \<in> set (g_nodes g)"
    "gn_id sn \<noteq> gn_id an" "r = merge_counts g sn an"
    "g_nodes g' = filter (\<lambda>n. gn_id n \<noteq> gn_id an)
       (g_nodes (update_node (gn_id sn) (set_props (survivor_delta (merge_params_of mw s a sim oid facts snap) sn an)) g))"
    "g_rels g' = filter (\<lambda>r. \<not> incident (gn_id an) r) (g_rels (rewire (merge_params_of mw s a sim oid facts snap) sn an g))"
  using run
proof (cases rule: phase_two_cases)
  case (merged sn an rest1 rest2)
  let ?mp = "merge_params_of mw s a sim oid facts snap"
  have uu: "mp_survivor_uuid ?mp = s" "mp_absorbed_uuid ?mp = a"
    by (simp_all add: merge_params_of_def Let_def)
  have "s \<noteq> a"
    using allowed evaluate_same by (auto simp: graph_eligibility_def)
  have ent: "entities s g = [sn]" "entities a g = [an]"
    using merged(1,2) entities_single [OF ok] unfolding uu by blast+
  then have mem: "sn \<in> set (g_nodes g)" "an \<in> set (g_nodes g)" "node_prop ''uuid'' sn = NStr s" "node_prop ''uuid'' an = NStr a"
    using entities_member by (metis list.set_intros(1))+
  have "gn_id sn \<noteq> gn_id an"
    using pgraph_ok_id_unique [OF ok mem(1,2)] mem(3,4) \<open>s \<noteq> a\<close> by auto
  moreover have "r = merge_counts g sn an"
    using merged(4) by simp
  ultimately show ?thesis
    using that \<open>s \<noteq> a\<close> ent mem(1,2) delete_node_Inr(1) [OF merged(5)] merged_rels [OF merged(5)]
    by (metis g_nodes_rewire)
qed auto

lemma merge_entity_merged:
  assumes ok: "pgraph_ok g" and run: "merge_entity mw s a sim oid facts g = (g', Inr r)" "mr_merged r"
  obtains sn an snap where "s \<noteq> a" "entities s g = [sn]" "entities a g = [an]" "sn \<in> set (g_nodes g)" "an \<in> set (g_nodes g)"
    "gn_id sn \<noteq> gn_id an" "merge_phase_one (mw_driver mw) s a g = Some snap" "r = merge_counts g sn an"
    "g_nodes g' = filter (\<lambda>n. gn_id n \<noteq> gn_id an)
       (g_nodes (update_node (gn_id sn) (set_props (survivor_delta (merge_params_of mw s a sim oid facts snap) sn an)) g))"
    "g_rels g' = filter (\<lambda>r. \<not> incident (gn_id an) r) (g_rels (rewire (merge_params_of mw s a sim oid facts snap) sn an g))"
  using run(1)
proof (cases rule: merge_entity_cases)
  case (merged snap r')
  show ?thesis
    by (rule phase_two_merged [OF ok merged(1,3)]) (use that merged(2,4) in blast)
qed (use run(2) in auto)

lemma phase_two_ok:
  assumes ok: "pgraph_ok g" and allowed: "me_allowed (graph_eligibility s a g)"
    and run: "merge_phase_two (merge_params_of mw s a sim oid facts snap) snap g = (g', Inr (Some r))"
  shows "pgraph_ok g'"
proof -
  obtain sn an where m: "sn \<in> set (g_nodes g)" "an \<in> set (g_nodes g)"
    "g_nodes g' = filter (\<lambda>n. gn_id n \<noteq> gn_id an)
       (g_nodes (update_node (gn_id sn) (set_props (survivor_delta (merge_params_of mw s a sim oid facts snap) sn an)) g))"
    "g_rels g' = filter (\<lambda>r. \<not> incident (gn_id an) r) (g_rels (rewire (merge_params_of mw s a sim oid facts snap) sn an g))"
    by (rule phase_two_merged [OF assms])
  obtain ms where ms: "map gn_id ms = map gn_id (g_nodes g)" "map (node_prop ''uuid'') ms = map (node_prop ''uuid'') (g_nodes g)"
      "g_nodes g' = filter (\<lambda>n. gn_id n \<noteq> gn_id an) ms"
  proof (rule that)
    show "g_nodes g' = filter (\<lambda>n. gn_id n \<noteq> gn_id an)
       (g_nodes (update_node (gn_id sn) (set_props (survivor_delta (merge_params_of mw s a sim oid facts snap) sn an)) g))"
      by (rule m(3))
  qed (auto simp: update_node_def node_prop_def)
  have "distinct (map gn_id (g_nodes g'))"
    using ok unfolding ms(3) pgraph_ok_def ms(1) [symmetric] by (simp add: distinct_map_filter)
  moreover have "distinct (filter (\<lambda>v. v \<noteq> NNone) (map (node_prop ''uuid'') (g_nodes g')))"
    using ok unfolding ms(3) pgraph_ok_def ms(2) [symmetric] by (intro distinct_filter_map_filter) simp
  moreover have "node_ids g' = node_ids g - {gn_id an}"
  proof -
    have "gn_id ` set ms = node_ids g"
      using arg_cong [OF ms(1), of set] by (simp add: node_ids_def)
    moreover have "node_ids g' = gn_id ` set ms - {gn_id an}"
      by (auto simp: node_ids_def ms(3))
    ultimately show ?thesis by simp
  qed
  moreover have "rels_within (node_ids g) (rewire (merge_params_of mw s a sim oid facts snap) sn an g)"
    by (rule rewire_within [OF ok m(1)])
  ultimately show ?thesis
    using m(4) by (auto simp: pgraph_ok_def rels_within_def incident_def distinct_map_filter)
qed

lemma merge_entity_ok:
  assumes ok: "pgraph_ok g" and run: "merge_entity mw s a sim oid facts g = (g', res)"
  shows "pgraph_ok g'"
  using run phase_two_ok [OF ok] ok by (cases rule: merge_entity_cases) auto

text \<open>
  The facts at the absorbed node that a merge deletes with it: those between the two participants (and
  self-loops), those without a usable uuid, and those whose peer is not an entity with a uuid.
\<close>

definition fact_dropped :: "'t pgraph \<Rightarrow> 't gnode \<Rightarrow> 't gnode \<Rightarrow> 't grel \<Rightarrow> bool" where
  "fact_dropped g sn an f \<longleftrightarrow>
     (let peer = other_end (gn_id an) f
      in peer = gn_id sn \<or> peer = gn_id an
         \<or> (case rel_prop ''uuid'' f of NStr u \<Rightarrow> u = [] | _ \<Rightarrow> True)
         \<or> \<not> labelled_at ''Entity'' g peer \<or> prop_at ''uuid'' g peer = NNone)"

lemma prop_at_uuid:
  assumes ok: "pgraph_ok g" and n: "n \<in> set (g_nodes g)" and u: "node_prop ''uuid'' n \<noteq> NNone"
  shows "prop_at ''uuid'' g i = node_prop ''uuid'' n \<longleftrightarrow> i = gn_id n"
proof
  assume "i = gn_id n"
  then show "prop_at ''uuid'' g i = node_prop ''uuid'' n"
    using node_by_id_member [OF ok n] by (simp add: prop_at_def)
next
  assume same: "prop_at ''uuid'' g i = node_prop ''uuid'' n"
  then obtain m where m: "node_by_id i g = Some m" "node_prop ''uuid'' m = node_prop ''uuid'' n"
    using u by (auto simp: prop_at_def split: option.splits)
  then have "m \<in> set (g_nodes g)" "gn_id m = i"
    by (auto simp: node_by_id_def find_Some_iff)
  then show "i = gn_id n"
    using pgraph_ok_uuid_unique [OF ok _ n, of m] m(2) u by simp
qed

lemma moved_fact_iff:
  assumes ok: "pgraph_ok g" and sn: "sn \<in> set (g_nodes g)" "node_prop ''uuid'' sn \<noteq> NNone"
    and an: "an \<in> set (g_nodes g)" "node_prop ''uuid'' an \<noteq> NNone"
  shows "moved_fact_where g sn an f \<longleftrightarrow> fact_edge f \<and> incident (gn_id an) f \<and> \<not> fact_dropped g sn an f"
  unfolding moved_fact_where_def fact_dropped_def fact_edge_def Let_def
    prop_at_uuid [OF ok sn] prop_at_uuid [OF ok an]
  by (auto split: neo_value.splits)

text \<open>
  C14: A merge accounts for every fact. The fact edges of the merged graph are those that did not touch
  the absorbed node, together with one copy of each moved fact, with its uuid and text, between the
  survivor and the same peer in the same direction. The facts at the absorbed node that are not moved
  are deleted with it, and they are exactly those between the two participants, those without a usable
  uuid and those whose peer is not an entity with a uuid. The count is reported, and the graph stays
  well-formed.
\<close>

theorem merge_accounts_for_every_fact:
  assumes ok: "pgraph_ok g" and run: "merge_entity mw s a sim oid facts g = (g', Inr r)" "mr_merged r"
  shows "\<exists>sn an. entities s g = [sn] \<and> entities a g = [an]
    \<and> mset (map fact_view (filter fact_edge (g_rels g')))
        = mset (map fact_view (filter (\<lambda>e. fact_edge e \<and> \<not> incident (gn_id an) e) (g_rels g)))
          + mset (map (moved_view sn an) (moved_facts g sn an))
    \<and> filter (\<lambda>e. fact_edge e \<and> incident (gn_id an) e \<and> \<not> moved_fact_where g sn an e) (g_rels g)
        = filter (\<lambda>e. fact_edge e \<and> incident (gn_id an) e \<and> fact_dropped g sn an e) (g_rels g)
    \<and> mr_facts_moved r = length (moved_facts g sn an) \<and> pgraph_ok g'"
proof -
  obtain sn an snap where m: "entities s g = [sn]" "entities a g = [an]" "sn \<in> set (g_nodes g)" "an \<in> set (g_nodes g)"
    "gn_id sn \<noteq> gn_id an" "r = merge_counts g sn an"
    and rels: "g_rels g' = filter (\<lambda>r. \<not> incident (gn_id an) r) (g_rels (rewire (merge_params_of mw s a sim oid facts snap) sn an g))"
    by (rule merge_entity_merged [OF ok run])
  let ?h = "rewire (merge_params_of mw s a sim oid facts snap) sn an g"
  let ?far = "\<lambda>(u, f, st, en). st \<noteq> gn_id an \<and> en \<noteq> gn_id an"
  have far: "map fact_view (filter (\<lambda>e. fact_edge e \<and> \<not> incident (gn_id an) e) es) = filter ?far (map fact_view (filter fact_edge es))"
    for es :: "'a grel list"
    by (induction es) (auto simp: fact_view_def incident_def)
  have "filter ?far (map (moved_view sn an) (moved_facts g sn an)) = map (moved_view sn an) (moved_facts g sn an)"
    using m(5) by (auto simp: filter_id_conv moved_view_def redirect_def)
  then have "mset (filter ?far (fact_views ?h)) = mset (filter ?far (fact_views g)) + mset (map (moved_view sn an) (moved_facts g sn an))"
    using rewire_fact_views [OF ok m(4), of "merge_params_of mw s a sim oid facts snap" sn]
    by (simp only: mset_filter filter_union_mset) (metis filter_mset_image_mset mset_filter mset_map)
  moreover have "map fact_view (filter fact_edge (g_rels g')) = filter ?far (fact_views ?h)"
    unfolding rels far [symmetric] by (simp add: conj_commute)
  ultimately have "mset (map fact_view (filter fact_edge (g_rels g')))
        = mset (map fact_view (filter (\<lambda>e. fact_edge e \<and> \<not> incident (gn_id an) e) (g_rels g)))
          + mset (map (moved_view sn an) (moved_facts g sn an))"
    by (simp only: far)
  moreover have "mr_facts_moved r = length (moved_facts g sn an)"
    by (simp add: m(6) merge_counts_def)
  moreover have "node_prop ''uuid'' sn \<noteq> NNone" "node_prop ''uuid'' an \<noteq> NNone"
    using m(1,2) entities_member [of sn s g] entities_member [of an a g] by auto
  then have "moved_fact_where g sn an e \<longleftrightarrow> fact_edge e \<and> incident (gn_id an) e \<and> \<not> fact_dropped g sn an e" for e
    by (rule moved_fact_iff [OF ok m(3) _ m(4)])
  then have "filter (\<lambda>e. fact_edge e \<and> incident (gn_id an) e \<and> \<not> moved_fact_where g sn an e) (g_rels g)
        = filter (\<lambda>e. fact_edge e \<and> incident (gn_id an) e \<and> fact_dropped g sn an e) (g_rels g)"
    by (intro filter_cong) auto
  ultimately show ?thesis
    using m(1,2) merge_entity_ok [OF ok run(1)] by blast
qed

end
