(* ===== verification/Snapshot_Examples.thy ===== *)
theory Snapshot_Examples
  imports Merge_Snapshot
begin

text \<open>
  The round trip of a stored merge snapshot, with a printer and reader of documents and a driver that
  meet the contracts \<open>json_ok\<close> and \<open>driver_ok\<close>: every document has a finite prefix code, in which a
  reader needs no look-ahead.
\<close>

section \<open>A printer and a reader\<close>

definition put_string :: "string \<Rightarrow> string" where
  "put_string s = concat (map (\<lambda>c. [CHR ''_'', c]) s) @ ''.''"

definition put_nat :: "nat \<Rightarrow> string" where
  "put_nat n = replicate n (CHR ''i'') @ ''.''"

definition put_int :: "int \<Rightarrow> string" where
  "put_int i = (if 0 \<le> i then CHR ''+'' # put_nat (nat i) else CHR ''-'' # put_nat (nat (- i)))"

fun put_float :: "pyfloat \<Rightarrow> string" where
  "put_float (Finite q) = CHR ''q'' # put_int (fst (quotient_of q)) @ put_int (snd (quotient_of q))"
| "put_float PosInf = ''p''"
| "put_float NegInf = ''n''"
| "put_float NaN = ''x''"

fun put_doc :: "py_value \<Rightarrow> string" where
  "put_doc PNone = ''N''"
| "put_doc (PBool b) = (if b then ''T'' else ''F'')"
| "put_doc (PInt i) = CHR ''I'' # put_int i"
| "put_doc (PFloat f) = CHR ''R'' # put_float f"
| "put_doc (PStr s) = CHR ''S'' # put_string s"
| "put_doc (PList vs) = CHR ''L'' # concat (map (\<lambda>v. CHR '','' # put_doc v) vs) @ ''.''"
| "put_doc (PMap d) = CHR ''M'' # concat (map (\<lambda>kv. CHR '','' # put_string (fst kv) @ put_doc (snd kv)) d) @ ''.''"

fun get_string :: "string \<Rightarrow> (string \<times> string) option" where
  "get_string (x # xs) =
     (if x = CHR ''.'' then Some ([], xs)
      else case xs of [] \<Rightarrow> None
           | c # ys \<Rightarrow> map_option (\<lambda>(s, rest). (c # s, rest)) (get_string ys))"
| "get_string [] = None"

fun get_nat :: "string \<Rightarrow> (nat \<times> string) option" where
  "get_nat (x # xs) =
     (if x = CHR ''.'' then Some (0, xs) else map_option (\<lambda>(n, rest). (Suc n, rest)) (get_nat xs))"
| "get_nat [] = None"

fun get_signed :: "string \<Rightarrow> (int \<times> string) option" where
  "get_signed (x # xs) =
     map_option (\<lambda>(n, rest). (if x = CHR ''+'' then int n else - int n, rest)) (get_nat xs)"
| "get_signed [] = None"

fun get_float :: "string \<Rightarrow> (pyfloat \<times> string) option" where
  "get_float (x # xs) =
     (if x = CHR ''q'' then
        (case get_signed xs of None \<Rightarrow> None
         | Some (a, ys) \<Rightarrow> map_option (\<lambda>(b, rest). (Finite (Fract a b), rest)) (get_signed ys))
      else Some (if x = CHR ''p'' then PosInf else if x = CHR ''n'' then NegInf else NaN, xs))"
| "get_float [] = None"

text \<open>The reader is bounded by the length of its text: every call consumes a character.\<close>

fun get_doc :: "nat \<Rightarrow> string \<Rightarrow> (py_value \<times> string) option"
  and get_docs :: "nat \<Rightarrow> string \<Rightarrow> (py_value list \<times> string) option"
  and get_members :: "nat \<Rightarrow> string \<Rightarrow> (py_dict \<times> string) option" where
  "get_doc (Suc n) (x # xs) =
     (if x = CHR ''N'' then Some (PNone, xs)
      else if x = CHR ''T'' then Some (PBool True, xs)
      else if x = CHR ''F'' then Some (PBool False, xs)
      else if x = CHR ''I'' then map_option (map_prod PInt id) (get_signed xs)
      else if x = CHR ''R'' then map_option (map_prod PFloat id) (get_float xs)
      else if x = CHR ''S'' then map_option (map_prod PStr id) (get_string xs)
      else if x = CHR ''L'' then map_option (map_prod PList id) (get_docs n xs)
      else map_option (map_prod PMap id) (get_members n xs))"
| "get_doc _ _ = None"
| "get_docs (Suc n) (x # xs) =
     (if x = CHR ''.'' then Some ([], xs)
      else case get_doc n xs of None \<Rightarrow> None
           | Some (v, ys) \<Rightarrow> map_option (map_prod (Cons v) id) (get_docs n ys))"
| "get_docs _ _ = None"
| "get_members (Suc n) (x # xs) =
     (if x = CHR ''.'' then Some ([], xs)
      else case get_string xs of None \<Rightarrow> None
           | Some (k, ys) \<Rightarrow> (case get_doc n ys of None \<Rightarrow> None
                            | Some (v, zs) \<Rightarrow> map_option (map_prod (Cons (k, v)) id) (get_members n zs)))"
| "get_members _ _ = None"

lemma get_put_string [simp]: "get_string (put_string s @ r) = Some (s, r)"
  by (induction s) (simp_all add: put_string_def)

lemma get_put_nat: "get_nat (put_nat n @ r) = Some (n, r)"
  by (induction n) (simp_all add: put_nat_def)

lemma get_put_int [simp]: "get_signed (put_int i @ r) = Some (i, r)"
  by (simp add: put_int_def get_put_nat)

lemma get_put_float [simp]: "get_float (put_float f @ r) = Some (f, r)"
  by (cases f) (simp_all add: quotient_of_inject_eq [symmetric] quotient_of_Fract normalize_stable quotient_of_denom_pos'
      quotient_of_coprime prod_eq_iff)

lemma get_put_docs:
  assumes "\<And>v n r. v \<in> set vs \<Longrightarrow> length (put_doc v) \<le> n \<Longrightarrow> get_doc n (put_doc v @ r) = Some (v, r)"
    and "length (concat (map (\<lambda>v. CHR '','' # put_doc v) vs)) < n"
  shows "get_docs n (concat (map (\<lambda>v. CHR '','' # put_doc v) vs) @ CHR ''.'' # r) = Some (vs, r)"
  using assms
proof (induction vs arbitrary: n)
  case (Cons v vs)
  then obtain m where "n = Suc m" by (cases n) auto
  then show ?case using Cons by simp
qed (auto elim: lessE)

lemma get_put_members:
  assumes "\<And>kv n r. kv \<in> set d \<Longrightarrow> length (put_doc (snd kv)) \<le> n \<Longrightarrow> get_doc n (put_doc (snd kv) @ r) = Some (snd kv, r)"
    and "length (concat (map (\<lambda>kv. CHR '','' # put_string (fst kv) @ put_doc (snd kv)) d)) < n"
  shows "get_members n (concat (map (\<lambda>kv. CHR '','' # put_string (fst kv) @ put_doc (snd kv)) d) @ CHR ''.'' # r) = Some (d, r)"
  using assms
proof (induction d arbitrary: n)
  case (Cons kv d)
  then obtain m where "n = Suc m" by (cases n) auto
  then show ?case using Cons by simp
qed (auto elim: lessE)

lemma get_put_doc: "length (put_doc v) \<le> n \<Longrightarrow> get_doc n (put_doc v @ r) = Some (v, r)"
proof (induction v arbitrary: n r)
  case (PList vs)
  then obtain m where m: "n = Suc m" "length (concat (map (\<lambda>v. CHR '','' # put_doc v) vs)) < m" by (cases n) auto
  then show ?case
    using get_put_docs [of vs m r] PList by simp
next
  case (PMap d)
  then obtain m where m: "n = Suc m" "length (concat (map (\<lambda>kv. CHR '','' # put_string (fst kv) @ put_doc (snd kv)) d)) < m"
    by (cases n) auto
  have "get_doc k (put_doc (snd kv) @ r) = Some (snd kv, r)"
    if "kv \<in> set d" "length (put_doc (snd kv)) \<le> k" for kv k r
    using PMap.IH [of kv "snd kv"] that by (auto simp: snds.simps)
  then show ?case
    using get_put_members [of d m r] m by simp
qed (auto split: if_splits elim: le_SucE simp: Suc_le_eq elim!: less_natE)

section \<open>The contracts hold\<close>

definition prefix_json :: json_text where
  "prefix_json = \<lparr>js_canonical = \<lambda>v. put_doc (sort_doc v),
                  js_loads = \<lambda>t. map_option fst (get_doc (length t) t),
                  js_utf8_size = length\<rparr>"

lemma sort_members_idem:
  assumes "\<And>kv. kv \<in> set d \<Longrightarrow> sort_doc (sort_doc (snd kv)) = sort_doc (snd kv)"
  shows "sort_members (sort_members d) = sort_members d"
proof -
  have "sort_key fst (sort_key fst d) = sort_key fst d"
    by (rule sort_key_id_if_sorted) simp
  then show ?thesis
    using assms by (simp add: sort_members_def sort_key_map comp_def)
qed

lemma sort_doc_idem: "sort_doc (sort_doc v) = sort_doc v"
proof (induction v)
  case (PMap d)
  then have "sort_members (sort_members d) = sort_members d"
    by (intro sort_members_idem) (force simp: snds.simps)
  then show ?case
    by (simp add: sort_doc_PMap del: sort_doc.simps(2))
qed auto

lemma prefix_json_ok: "json_ok prefix_json"
  using get_put_doc [of _ _ "[]"] by (simp add: json_ok_def prefix_json_def sort_doc_idem)

fun read_nats :: "nat \<Rightarrow> string \<Rightarrow> nat list" where
  "read_nats n [] = []"
| "read_nats n (x # xs) = (if x = CHR ''.'' then n # read_nats 0 xs else read_nats (Suc n) xs)"

lemma read_put_nat: "read_nats k (put_nat n @ r) = (k + n) # read_nats 0 r"
  by (induction n arbitrary: k) (simp_all add: put_nat_def)

lemma read_put_nats: "read_nats 0 (concat (map put_nat ns)) = ns"
  by (induction ns) (simp_all add: read_put_nat)

definition plain_driver :: "string driver" where
  "plain_driver = \<lparr>dr_iso = \<lambda>k t. t, dr_from_iso = \<lambda>k t. Some t,
     dr_b64encode = \<lambda>bs. concat (map put_nat bs),
     dr_b64decode = \<lambda>s. Some (read_nats 0 s),
     dr_duration = \<lambda>m d s n. (m, d, s, n),
     dr_point = \<lambda>wgs cs. if length cs = 2 then Some (if wgs then 4326 else 7203, cs)
                         else if length cs = 3 then Some (if wgs then 4979 else 9157, cs) else None,
     dr_sha256 = take 8,
     dr_runtime = \<lparr>rt_str = \<lambda>_. [], rt_float_of_str = \<lambda>_. None\<rparr>\<rparr>"

lemma plain_driver_ok: "driver_ok plain_driver"
  by (simp add: driver_ok_def plain_driver_def read_put_nats)

section \<open>The round trip\<close>

text \<open>
  C24: A snapshot within the size limit is written whole, and reading it back gives both participants
  with every property in its driver type, every parallel relationship as its own entry, and the facts a
  merge of the absorbed node moves: an unmerge starts from the state the merge saw. Labels and the
  members of maps come back in the order of their keys.
\<close>

theorem snapshot_roundtrip:
  assumes "driver_ok dr" "json_ok js" "node_ok dr s" "node_ok dr a"
    and "snapshot_size_bytes js (build_snapshot dr js (encode_node dr s) (encode_node dr a) sim) \<le> MAX_SNAPSHOT_BYTES"
  shows "\<exists>raw. snapshot_dumps js (build_snapshot dr js (encode_node dr s) (encode_node dr a) sim) True = Inr raw
    \<and> stored_node dr js ''survivor'' raw = Inr (sort_node s)
    \<and> stored_node dr js ''absorbed'' raw = Inr (sort_node a)
    \<and> moved_fact_uuids (nst_uuid s) (sort_node a) = moved_fact_uuids (nst_uuid s) a"
proof -
  let ?snap = "build_snapshot dr js (encode_node dr s) (encode_node dr a) sim"
  have raw: "snapshot_dumps js ?snap True = Inr (js_canonical js ?snap)"
    using assms(5) by (simp add: snapshot_dumps_def)
  show ?thesis
    using stored_node_build [OF assms(2) raw] assms(1,3,4)
    by (simp add: raw node_roundtrip moved_fact_uuids_sort_node)
qed

definition sample_survivor :: "string node_state" where
  "sample_survivor = \<lparr>nst_uuid = ''s'', nst_labels = [''Entity''], nst_properties = [(''t'', NTemporal Date ''d'')],
     nst_relationships = []\<rparr>"

definition sample_absorbed :: "string node_state" where
  "sample_absorbed = \<lparr>nst_uuid = ''a'', nst_labels = [''B'', ''A''], nst_properties = [],
     nst_relationships =
       [\<lparr>rs_type = ''RELATES_TO'', rs_direction = ''out'',
         rs_properties = [(''uuid'', NStr ''f''), (''fact'', NStr ''x'')], rs_peer_uuid = Some ''p'',
         rs_peer_labels = [''Entity''], rs_peer_identity = None\<rparr>]\<rparr>"

lemma sample_snapshot_size:
  "length (put_doc (sort_doc (build_snapshot plain_driver prefix_json (encode_node plain_driver sample_survivor)
       (encode_node plain_driver sample_absorbed) None))) < 900"
  by code_simp

lemma sample_snapshot_fits:
  "snapshot_size_bytes prefix_json
     (build_snapshot plain_driver prefix_json (encode_node plain_driver sample_survivor)
       (encode_node plain_driver sample_absorbed) None) \<le> MAX_SNAPSHOT_BYTES"
  using sample_snapshot_size by (simp add: snapshot_size_bytes_def MAX_SNAPSHOT_BYTES_def prefix_json_def)

theorem snapshot_roundtrip_witness:
  "\<exists>raw. stored_node plain_driver prefix_json ''absorbed'' raw = Inr (sort_node sample_absorbed)
     \<and> nst_labels (sort_node sample_absorbed) = [''A'', ''B'']
     \<and> moved_fact_uuids ''s'' sample_absorbed = [''f'']"
proof -
  have "node_ok plain_driver sample_survivor" "node_ok plain_driver sample_absorbed"
    by (simp_all add: node_ok_def props_ok_def sample_survivor_def sample_absorbed_def)
  moreover have "nst_labels (sort_node sample_absorbed) = [''A'', ''B'']" "moved_fact_uuids ''s'' sample_absorbed = [''f'']"
    by code_simp+
  ultimately show ?thesis
    using snapshot_roundtrip [OF plain_driver_ok prefix_json_ok _ _ sample_snapshot_fits] by metis
qed

end
