(* ===== verification/Merge_Restore.thy ===== *)
theory Merge_Restore
  imports Merge_Graph
begin

text \<open>
  The inverse of a merge on the graph: the restore plan of \<^verbatim>\<open>services/unmerge_coordinator.py\<close> and the
  statement \<^verbatim>\<open>restore_merge_snapshot\<close> of \<^verbatim>\<open>infrastructure/correlation_queries.py\<close>, one transaction. The
  plan is built from two decoded participants, which always carry a uuid.
\<close>

section \<open>The plan\<close>

record 't restored_rel =
  rr_type :: string
  rr_peer_uuid :: "string option"
  rr_properties :: "'t props"

record 't restored_fact =
  rf_uuid :: string
  rf_peer_uuid :: string
  rf_properties :: "'t props"

record 't restore_plan =
  rp_absorbed_labels :: "string list"
  rp_absorbed_properties :: "'t props"
  rp_out_rels :: "'t restored_rel list"
  rp_in_rels :: "'t restored_rel list"
  rp_survivor_properties :: "'t props"
  rp_rebound_episodes :: "string list"
  rp_rebound_retention_sources :: "string list"
  rp_fact_out :: "'t restored_fact list"
  rp_fact_in :: "'t restored_fact list"

definition plan_moved_fact :: "'t node_state \<Rightarrow> 't node_state \<Rightarrow> 't rel_state \<Rightarrow> bool" where
  "plan_moved_fact survivor absorbed =
     is_moved_fact (or_empty (absorbed_id survivor)) (absorbed_id absorbed)"

definition fact_key :: "'t rel_state \<Rightarrow> string \<times> string" where
  "fact_key r = (fact_uuid r, or_empty (rs_peer_uuid r))"

definition fact_entry :: "'t rel_state \<Rightarrow> 't restored_fact" where
  "fact_entry r = \<lparr>rf_uuid = fact_uuid r, rf_peer_uuid = or_empty (rs_peer_uuid r), rf_properties = rs_properties r\<rparr>"

text \<open>\<^verbatim>\<open>seen.setdefault(key, entry)\<close>: the first entry of a key stays.\<close>

fun first_facts :: "(string \<times> string) list \<Rightarrow> 't rel_state list \<Rightarrow> 't restored_fact list" where
  "first_facts seen [] = []"
| "first_facts seen (r # rs) =
     (if fact_key r \<in> set seen then first_facts seen rs
      else fact_entry r # first_facts (fact_key r # seen) rs)"

definition plan_facts :: "('t rel_state \<Rightarrow> bool) \<Rightarrow> string \<Rightarrow> 't rel_state list \<Rightarrow> 't restored_fact list" where
  "plan_facts moved direction rels =
     first_facts [] (filter (\<lambda>r. rs_direction r = direction \<and> moved r) rels)"

definition plan_rels :: "('t rel_state \<Rightarrow> bool) \<Rightarrow> string \<Rightarrow> 't rel_state list \<Rightarrow> 't restored_rel list" where
  "plan_rels moved direction rels =
     map (\<lambda>r. \<lparr>rr_type = rs_type r, rr_peer_uuid = rs_peer_uuid r, rr_properties = rs_properties r\<rparr>)
       (filter (\<lambda>r. rs_direction r = direction \<and> \<not> moved r) rels)"

definition incoming_peers :: "string \<Rightarrow> 't node_state \<Rightarrow> string list" where
  "incoming_peers ty n =
     List.map_filter (\<lambda>r. if rs_type r = ty \<and> rs_direction r = ''in'' \<and> truthy (rs_peer_uuid r) then rs_peer_uuid r else None)
       (nst_relationships n)"

definition rebound_peers :: "string \<Rightarrow> 't node_state \<Rightarrow> 't node_state \<Rightarrow> string list" where
  "rebound_peers ty survivor absorbed =
     sort (filter (\<lambda>u. u \<notin> set (incoming_peers ty survivor)) (dedup (incoming_peers ty absorbed)))"

definition survivor_pre_merge :: "'t props \<Rightarrow> 't props" where
  "survivor_pre_merge props = map (\<lambda>k. (k, neo_get k props)) MERGE_OWNED_SURVIVOR_PROPERTIES"

definition build_restore_plan :: "'t node_state \<Rightarrow> 't node_state \<Rightarrow> 't restore_plan" where
  "build_restore_plan survivor absorbed =
     (let rels = nst_relationships absorbed; moved = plan_moved_fact survivor absorbed
      in \<lparr>rp_absorbed_labels = nst_labels absorbed,
          rp_absorbed_properties = restorable_properties (nst_properties absorbed),
          rp_out_rels = plan_rels moved ''out'' rels, rp_in_rels = plan_rels moved ''in'' rels,
          rp_survivor_properties = survivor_pre_merge (nst_properties survivor),
          rp_rebound_episodes = rebound_peers ''MENTIONS'' survivor absorbed,
          rp_rebound_retention_sources = rebound_peers ''RETENTION_SOURCE'' survivor absorbed,
          rp_fact_out = plan_facts moved ''out'' rels, rp_fact_in = plan_facts moved ''in'' rels\<rparr>)"

section \<open>The statement\<close>

record restore_result =
  rs_restored :: bool
  rs_out_restored :: nat
  rs_in_restored :: nat
  rs_bridges_removed :: nat
  rs_mentions_removed :: nat
  rs_retention_sources_removed :: nat
  rs_facts_moved_back :: nat
  rs_facts_recreated :: nat

text \<open>\<^verbatim>\<open>MATCH (peer {uuid: u})\<close>; a null uuid matches nothing.\<close>

definition peers_named :: "string option \<Rightarrow> 't pgraph \<Rightarrow> nat list" where
  "peers_named u g =
     (case u of None \<Rightarrow> [] | Some s \<Rightarrow> map gn_id (filter (\<lambda>n. node_prop ''uuid'' n = NStr s) (g_nodes g)))"

text \<open>A property map as the graph stores it: a null member is absent.\<close>

definition present_props :: "'t props \<Rightarrow> 't props" where
  "present_props ps = filter (\<lambda>kv. snd kv \<noteq> NNone) ps"

definition fresh_node_id :: "'t pgraph \<Rightarrow> nat" where
  "fresh_node_id g = Suc (fold max (map gn_id (g_nodes g)) 0)"

definition restored_node :: "string \<Rightarrow> string \<Rightarrow> 't neo_value \<Rightarrow> 't restore_plan \<Rightarrow> nat \<Rightarrow> 't gnode" where
  "restored_node survivor_uuid oid now plan i =
     \<lparr>gn_id = i, gn_labels = rp_absorbed_labels plan,
      gn_props = set_props [(''restored_from_merge'', NStr survivor_uuid), (''restored_by_op'', NStr oid), (''restored_at'', now)]
        (present_props (rp_absorbed_properties plan))\<rparr>"

definition directed :: "bool \<Rightarrow> string \<Rightarrow> nat \<Rightarrow> nat \<Rightarrow> 't props \<Rightarrow> 't pgraph \<Rightarrow> 't pgraph" where
  "directed out ty i p ps = (if out then add_rel ty i p ps else add_rel ty p i ps)"

definition restore_rel :: "bool \<Rightarrow> nat \<Rightarrow> 't restored_rel \<Rightarrow> 't pgraph \<Rightarrow> 't pgraph" where
  "restore_rel out ai rel g =
     fold (\<lambda>p. directed out (rr_type rel) ai p (present_props (rr_properties rel))) (peers_named (rr_peer_uuid rel) g) g"

text \<open>The survivor's copies of one fact, and the edge with its end property back at the absorbed node.\<close>

definition fact_copy :: "bool \<Rightarrow> nat \<Rightarrow> nat \<Rightarrow> string \<Rightarrow> 't grel \<Rightarrow> bool" where
  "fact_copy out si p u r \<longleftrightarrow>
     gr_type r = ''RELATES_TO'' \<and> rel_prop ''uuid'' r = NStr u
     \<and> (if out then gr_start r = si \<and> gr_end r = p else gr_start r = p \<and> gr_end r = si)"

definition point_back :: "bool \<Rightarrow> 't neo_value \<Rightarrow> 't props \<Rightarrow> 't props" where
  "point_back out u ps =
     (if out then rewrite_end ''source_node_uuid'' u (rewrite_end ''source_uuid'' u ps)
      else rewrite_end ''target_node_uuid'' u (rewrite_end ''target_uuid'' u ps))"

definition delete_rels :: "nat list \<Rightarrow> 't pgraph \<Rightarrow> 't pgraph" where
  "delete_rels ids g = g\<lparr>g_rels := filter (\<lambda>r. gr_id r \<notin> set ids) (g_rels g)\<rparr>"

definition restore_fact_at ::
  "bool \<Rightarrow> nat \<Rightarrow> nat \<Rightarrow> 't neo_value \<Rightarrow> 't restored_fact \<Rightarrow> nat \<Rightarrow> 't pgraph \<times> nat \<times> nat \<Rightarrow> 't pgraph \<times> nat \<times> nat" where
  "restore_fact_at out si ai au e p st =
     (case st of (g, restored, moved_back) \<Rightarrow>
       (let curs = filter (fact_copy out si p (rf_uuid e)) (g_rels g);
            prop_sets = (if curs = [] then [present_props (rf_properties e)] else map gr_props curs);
            g' = fold (\<lambda>ps. directed out ''RELATES_TO'' ai p (point_back out au ps)) prop_sets g
        in (delete_rels (map gr_id curs) g', restored + length prop_sets, moved_back + length curs)))"

definition restore_facts ::
  "bool \<Rightarrow> nat \<Rightarrow> nat \<Rightarrow> 't neo_value \<Rightarrow> 't restored_fact list \<Rightarrow> 't pgraph \<times> nat \<times> nat \<Rightarrow> 't pgraph \<times> nat \<times> nat" where
  "restore_facts out si ai au es st =
     fold (\<lambda>e st. fold (restore_fact_at out si ai au e) (peers_named (Some (rf_peer_uuid e)) (fst st)) st) es st"

definition bridge_of :: "nat \<Rightarrow> string \<Rightarrow> 't grel \<Rightarrow> bool" where
  "bridge_of si absorbed_uuid r \<longleftrightarrow>
     incident si r \<and> gr_type r = ''RELATES_TO'' \<and> rel_prop ''bridged_from'' r = NStr absorbed_uuid"

definition rebound_mention :: "'t pgraph \<Rightarrow> nat \<Rightarrow> string list \<Rightarrow> 't grel \<Rightarrow> bool" where
  "rebound_mention g si us r \<longleftrightarrow>
     gr_type r = ''MENTIONS'' \<and> gr_end r = si \<and> labelled_at ''Episodic'' g (gr_start r)
     \<and> prop_at ''uuid'' g (gr_start r) \<in> NStr ` set us"

definition rebound_retention :: "'t pgraph \<Rightarrow> 't gnode \<Rightarrow> string list \<Rightarrow> 't grel \<Rightarrow> bool" where
  "rebound_retention g s us r \<longleftrightarrow>
     gr_type r = ''RETENTION_SOURCE'' \<and> gr_end r = gn_id s
     \<and> (case node_by_id (gr_start r) g of
          None \<Rightarrow> False
        | Some src \<Rightarrow> has_label ''Episodic'' src \<and> node_prop ''uuid'' src \<in> NStr ` set us
                      \<and> same_tenant (tenant_of src) (tenant_of s))
     \<and> rel_prop ''direct'' r \<in> {NNone, NBool False}"

text \<open>Lineage is reversed by subtraction; an audit entry is recognised by its serialised field.\<close>

definition audit_marker :: "string \<Rightarrow> string" where
  "audit_marker absorbed_uuid = ''\"absorbed_uuid\": \"'' @ absorbed_uuid @ ''\"''"

definition lineage_delta :: "string \<Rightarrow> 't props \<Rightarrow> 't props" where
  "lineage_delta absorbed_uuid d =
     [(''merged_from'', NList (filter (\<lambda>x. x \<noteq> NStr absorbed_uuid) (neo_members (neo_get ''merged_from'' d)))),
      (''merge_audit'', NList (filter (\<lambda>x. case x of NStr t \<Rightarrow> \<not> contains (audit_marker absorbed_uuid) t | _ \<Rightarrow> False)
         (neo_members (neo_get ''merge_audit'' d))))]"

definition remove_rels :: "('t grel \<Rightarrow> bool) \<Rightarrow> 't pgraph \<Rightarrow> 't pgraph" where
  "remove_rels P g = g\<lparr>g_rels := filter (\<lambda>r. \<not> P r) (g_rels g)\<rparr>"

definition restore_edges :: "string \<Rightarrow> string \<Rightarrow> 't neo_value \<Rightarrow> 't restore_plan \<Rightarrow> 't gnode \<Rightarrow> 't pgraph \<Rightarrow> 't pgraph \<times> nat \<times> nat" where
  "restore_edges survivor_uuid oid now plan s g =
     (let a = restored_node survivor_uuid oid now plan (fresh_node_id g);
          g1 = g\<lparr>g_nodes := g_nodes g @ [a]\<rparr>;
          g2 = fold (restore_rel True (gn_id a)) (rp_out_rels plan) g1;
          g3 = fold (restore_rel False (gn_id a)) (rp_in_rels plan) g2
      in restore_facts False (gn_id s) (gn_id a) (node_prop ''uuid'' a) (rp_fact_in plan)
           (restore_facts True (gn_id s) (gn_id a) (node_prop ''uuid'' a) (rp_fact_out plan) (g3, 0, 0)))"

definition count_peers :: "'t pgraph \<Rightarrow> 't restored_rel list \<Rightarrow> nat" where
  "count_peers g rels = sum_list (map (\<lambda>rel. length (peers_named (rr_peer_uuid rel) g)) rels)"

definition restore_merge_snapshot ::
  "'t neo_value \<Rightarrow> string \<Rightarrow> string \<Rightarrow> string \<Rightarrow> 't restore_plan \<Rightarrow> 't pgraph \<Rightarrow> 't pgraph \<times> restore_result" where
  "restore_merge_snapshot now survivor_uuid absorbed_uuid oid plan g =
     (case entities survivor_uuid g of
        [] \<Rightarrow> (g, \<lparr>rs_restored = False, rs_out_restored = 0, rs_in_restored = 0, rs_bridges_removed = 0, rs_mentions_removed = 0,
                  rs_retention_sources_removed = 0, rs_facts_moved_back = 0, rs_facts_recreated = 0\<rparr>)
      | s # _ \<Rightarrow>
          (case restore_edges survivor_uuid oid now plan s g of
             (g4, restored, moved_back) \<Rightarrow>
               (let g5 = update_node (gn_id s) (set_props (rp_survivor_properties plan)) g4;
                    g6 = remove_rels (bridge_of (gn_id s) absorbed_uuid) g5;
                    g7 = remove_rels (rebound_mention g6 (gn_id s) (rp_rebound_episodes plan)) g6;
                    g8 = remove_rels (rebound_retention g7 s (rp_rebound_retention_sources plan)) g7;
                    removed = (\<lambda>h h'. length (g_rels h) - length (g_rels h'));
                    created = g\<lparr>g_nodes := g_nodes g @ [restored_node survivor_uuid oid now plan (fresh_node_id g)]\<rparr>
                in (update_node (gn_id s) (\<lambda>d. set_props (lineage_delta absorbed_uuid d) d) g8,
                    \<lparr>rs_restored = True, rs_out_restored = count_peers created (rp_out_rels plan),
                     rs_in_restored = count_peers created (rp_in_rels plan), rs_bridges_removed = removed g5 g6,
                     rs_mentions_removed = removed g6 g7, rs_retention_sources_removed = removed g7 g8,
                     rs_facts_moved_back = moved_back, rs_facts_recreated = restored - moved_back\<rparr>))))"

end
