(* ===== verification/Unmerge_Saga.thy ===== *)
theory Unmerge_Saga
  imports Merge_Restore Merge_Saga
begin

text \<open>
  The unmerge coordinator, \<^verbatim>\<open>services/unmerge_coordinator.py\<close>, over the journal and an adapter that
  stands for the graph: the guards, PREPARE, the saga body shared with replay, the forecast and both
  sweeps. The heartbeat thread only renews the claim and the hook after a commit acts on scalar
  assertions alone; both are left out. A failure to stamp the forward row is swallowed, as in the code.
\<close>

section \<open>The graph surface\<close>

record ('g, 't) restore_adapter =
  ra_state :: "string \<Rightarrow> string \<Rightarrow> 'g \<Rightarrow> merge_state result"
  ra_survivor_properties :: "string \<Rightarrow> 'g \<Rightarrow> py_dict option result"
  ra_peers_exist :: "string list \<Rightarrow> 'g \<Rightarrow> string list result"
  ra_restore :: "string \<Rightarrow> string \<Rightarrow> string \<Rightarrow> 't restore_plan \<Rightarrow> 'g \<Rightarrow> 'g \<times> restore_result result"

datatype unmerge_refusal =
    Not_A_Committed_Merge "op_state option"
  | No_Snapshot
  | Graph_Not_In_Merge_After_State
  | Survivor_Changed_Since_Merge "(string \<times> py_value \<times> py_value) list"
  | Missing_Peer "string list" "string option list"
  | Already_Restored
  | Dry_Run
  | Unmerge_Prepare_Failed journal_error

datatype unmerge_result =
    Refused unmerge_refusal
  | Restored_Before string
  | Restored restore_result string

record unmerge_call =
  uc_gate :: gate_table
  uc_epoch :: rat
  uc_now :: int
  uc_later :: string
  uc_op_id :: string
  uc_merge_op_id :: string
  uc_dry_run :: bool

definition unmerged_state :: merge_state where
  "unmerged_state =
     \<lparr>st_survivor_present = True, st_absorbed_present = True, st_lineage_recorded = False, st_last_merge_op_id = None\<rparr>"

section \<open>Guards\<close>

text \<open>
  The snapshot of a row, both participants decoded; an unreadable one raises. A replay decodes the
  survivor first. A document that passes its checksum was written by the encoder, so the decoder meets
  no member of another kind than it writes.
\<close>

definition read_snapshot_body :: "'t saga_env \<Rightarrow> string option \<Rightarrow> py_dict result" where
  "read_snapshot_body sv raw =
     (case raw of
        None \<Rightarrow> schema_error
      | Some t \<Rightarrow> bind_result (snapshot_loads (sv_json sv) t) (load_snapshot (sv_driver sv) (sv_json sv)))"

definition participant :: "'t saga_env \<Rightarrow> string \<Rightarrow> py_dict \<Rightarrow> 't node_state result" where
  "participant sv who body = bind_result (subscript who body) (decode_node (sv_driver sv))"

definition read_participants :: "'t saga_env \<Rightarrow> string \<Rightarrow> ('t node_state \<times> 't node_state) result" where
  "read_participants sv raw =
     bind_result (read_snapshot_body sv (Some raw)) (\<lambda>body.
     bind_result (participant sv ''absorbed'' body) (\<lambda>absorbed.
     bind_result (participant sv ''survivor'' body) (\<lambda>survivor. Inr (survivor, absorbed))))"

definition replay_plan :: "'t saga_env \<Rightarrow> op_row \<Rightarrow> 't restore_plan result" where
  "replay_plan sv row =
     bind_result (read_snapshot_body sv (before_snapshot_json row)) (\<lambda>body.
     bind_result (participant sv ''survivor'' body) (\<lambda>survivor.
     bind_result (participant sv ''absorbed'' body) (\<lambda>absorbed. Inr (build_restore_plan survivor absorbed))))"

definition state_guard :: "'t saga_env \<Rightarrow> merge_state \<Rightarrow> unmerge_refusal option" where
  "state_guard sv observed =
     (if merge_state_fingerprint sv observed = merge_state_fingerprint sv unmerged_state then Some Already_Restored
      else if merge_state_fingerprint sv observed \<noteq> merge_state_fingerprint sv (merged_state []) then Some Graph_Not_In_Merge_After_State
      else None)"

definition survivor_guard ::
  "'t saga_env \<Rightarrow> py_dict option \<Rightarrow> 't node_state \<Rightarrow> 't node_state \<Rightarrow> unmerge_refusal option result" where
  "survivor_guard sv current survivor absorbed =
     bind_result (survivor_matches_merge_output (sv_runtime sv) (case current of None \<Rightarrow> [] | Some d \<Rightarrow> d)
       (encode_map (sv_driver sv) (nst_properties survivor)) (encode_map (sv_driver sv) (nst_properties absorbed)))
       (\<lambda>(matches, differences). Inr (if matches then None else Some (Survivor_Changed_Since_Merge differences)))"

definition peer_uuids :: "'t node_state \<Rightarrow> string list" where
  "peer_uuids absorbed = map or_empty (filter truthy (map rs_peer_uuid (nst_relationships absorbed)))"

definition peer_guard :: "string list \<Rightarrow> 't node_state \<Rightarrow> unmerge_refusal option" where
  "peer_guard present absorbed =
     (let missing = sort (dedup (filter (\<lambda>u. u \<notin> set present) (peer_uuids absorbed)));
          unidentified = filter (\<lambda>r. \<not> truthy (rs_peer_uuid r)) (nst_relationships absorbed)
      in if missing \<noteq> [] \<or> unidentified \<noteq> [] then Some (Missing_Peer missing (map rs_peer_identity unidentified)) else None)"

text \<open>The guards in their order; the first that objects ends the run.\<close>

definition unmerge_guards ::
  "'t saga_env \<Rightarrow> ('g, 't) restore_adapter \<Rightarrow> 't node_state \<Rightarrow> 't node_state \<Rightarrow> 'g \<Rightarrow> unmerge_refusal option result" where
  "unmerge_guards sv ra survivor absorbed g =
     (let s = nst_uuid survivor; a = nst_uuid absorbed in
      bind_result (ra_state ra s a g) (\<lambda>observed.
        case state_guard sv observed of
          Some r \<Rightarrow> Inr (Some r)
        | None \<Rightarrow>
            bind_result (ra_survivor_properties ra s g) (\<lambda>current.
            bind_result (survivor_guard sv current survivor absorbed) (\<lambda>objection.
              case objection of
                Some r \<Rightarrow> Inr (Some r)
              | None \<Rightarrow>
                  bind_result (ra_peers_exist ra (peer_uuids absorbed) g) (\<lambda>present. Inr (peer_guard present absorbed))))))"

section \<open>Requests\<close>

definition unmerge_request :: "'t saga_env \<Rightarrow> unmerge_call \<Rightarrow> string \<Rightarrow> string \<Rightarrow> py_value" where
  "unmerge_request sv c survivor_uuid absorbed_uuid = PMap
     [(''op_id'', PStr (uc_op_id c)), (''merge_op_id'', PStr (uc_merge_op_id c)),
      (''survivor_uuid'', PStr survivor_uuid), (''absorbed_uuid'', PStr absorbed_uuid),
      (''requested_at'', PStr (ct_iso (sv_clock sv) (uc_now c))),
      (''expected_before_sha256'', PStr (merge_state_fingerprint sv (merged_state [])))]"

definition unmerge_prepare_args ::
  "'t saga_env \<Rightarrow> unmerge_call \<Rightarrow> string \<Rightarrow> string \<Rightarrow> py_value \<Rightarrow> string \<Rightarrow> prepare_args" where
  "unmerge_prepare_args sv c s a request raw =
     \<lparr>pa_operation_kind = ''ENTITY_UNMERGE'', pa_request_json = js_canonical (sv_json sv) request,
      pa_target_uuid = Some a, pa_target_key = Some (pair_key s a), pa_batch_id = None,
      pa_before_snapshot_json = Some raw,
      pa_expected_after_sha256 = Some (merge_state_fingerprint sv unmerged_state),
      pa_reverses_op_id = Some (uc_merge_op_id c), pa_op_id = uc_op_id c, pa_owner_token = sv_token sv\<rparr>"

definition unmerge_ids :: "'t saga_env \<Rightarrow> py_value \<Rightarrow> (string \<times> string \<times> string \<times> string) result" where
  "unmerge_ids sv request =
     bind_result (request_ids sv request) (\<lambda>(oid, s, a).
     bind_result (request_str sv ''merge_op_id'' request) (\<lambda>m. Inr (oid, s, a, m)))"

definition decide_restore :: "string \<Rightarrow> py_value \<Rightarrow> string option \<Rightarrow> saga_outcome \<times> replay_diag" where
  "decide_restore observed_fp expected_before expected_after =
     (let diag = (\<lambda>e. \<lparr>dg_observed_error = e, dg_expected_before = expected_before, dg_expected_after = expected_after\<rparr>)
      in if truthy expected_after \<and> Some observed_fp = expected_after then (Would_Mark_Already_Applied, diag None)
         else if expected_before = PNone then (Would_Needs_Review, diag (Some ''no expected_before_sha256''))
         else if PStr observed_fp \<noteq> expected_before then (Would_Needs_Review, diag (Some ''precondition drift''))
         else (Would_Restore, diag None))"

definition classify_unmerge ::
  "'t saga_env \<Rightarrow> ('g, 't) restore_adapter \<Rightarrow> py_value \<Rightarrow> 'g \<Rightarrow> journal \<Rightarrow> (saga_outcome \<times> replay_diag) result" where
  "classify_unmerge sv ra request g j =
     bind_result (unmerge_ids sv request) (\<lambda>(oid, s, a, _).
     bind_result (request_get ''expected_before_sha256'' request) (\<lambda>expected_before.
     bind_result (ra_state ra s a g) (\<lambda>observed.
       Inr (decide_restore (merge_state_fingerprint sv observed) expected_before (row_expected_after oid j)))))"

section \<open>The saga body\<close>

definition mark_merge_reversed :: "string \<Rightarrow> string \<Rightarrow> journal \<Rightarrow> journal" where
  "mark_merge_reversed merge_oid later j = fst (mark_reversed merge_oid later j)"

text \<open>COMMITTED, then REVERSED on the forward row.\<close>

definition commit_unmerge ::
  "'t saga_env \<Rightarrow> string \<Rightarrow> string \<Rightarrow> string \<Rightarrow> unmerge_result \<Rightarrow> 'g saga_world \<Rightarrow> ('g, unmerge_result) saga_step" where
  "commit_unmerge sv later oid merge_oid answer w =
     (case settle (mark_committed oid (Some (sv_token sv)) later) (Inr answer) w of
        ((g, j), Inr res) \<Rightarrow> ((g, mark_merge_reversed merge_oid later j), Inr res)
      | (w', Inl e) \<Rightarrow> (w', Inl e))"

definition apply_unmerge ::
  "'t saga_env \<Rightarrow> ('g, 't) restore_adapter \<Rightarrow> string \<Rightarrow> py_value \<Rightarrow> 't restore_plan \<Rightarrow> 'g saga_world
    \<Rightarrow> ('g, unmerge_result) saga_step" where
  "apply_unmerge sv ra later request plan w =
     (case w of (g, j) \<Rightarrow>
        (case unmerge_ids sv request of
           Inl e \<Rightarrow> (w, Inl (Raised e))
         | Inr (oid, s, a, merge_oid) \<Rightarrow>
             (case classify_unmerge sv ra request g j of
                Inl e \<Rightarrow> (w, Inl (Raised e))
              | Inr (outcome, diag) \<Rightarrow>
                  if outcome = Would_Mark_Already_Applied then
                    commit_unmerge sv later oid merge_oid (Restored_Before oid) w
                  else if outcome = Would_Needs_Review then
                    quarantine sv later oid (or_empty (dg_observed_error diag)) w
                  else
                    (case ra_restore ra s a oid plan g of
                       (g', Inl e) \<Rightarrow>
                         settle (record_attempt oid (Some ''restore raised'') (Some (sv_token sv)) later)
                           (Inl (Raised e)) (g', j)
                     | (g', Inr r) \<Rightarrow>
                         (case ra_state ra s a g' of
                            Inl e \<Rightarrow> ((g', j), Inl (Raised e))
                          | Inr after \<Rightarrow>
                              if truthy (dg_expected_after diag) \<and> Some (merge_state_fingerprint sv after) \<noteq> dg_expected_after diag
                              then quarantine sv later oid ''unmerge after-state mismatch'' (g', j)
                              else commit_unmerge sv later oid merge_oid (Restored r oid) (g', j))))))"

definition unmerge ::
  "'t saga_env \<Rightarrow> ('g, 't) restore_adapter \<Rightarrow> unmerge_call \<Rightarrow> 'g saga_world \<Rightarrow> ('g, unmerge_result) saga_step" where
  "unmerge sv ra c w =
     (case w of (g, j) \<Rightarrow>
        (case get_op (uc_merge_op_id c) j of
           None \<Rightarrow> (w, Inr (Refused (Not_A_Committed_Merge None)))
         | Some row \<Rightarrow>
             if operation_kind row \<noteq> ''ENTITY_MERGE'' \<or> op_state row \<noteq> COMMITTED
             then (w, Inr (Refused (Not_A_Committed_Merge (Some (op_state row)))))
             else if \<not> truthy (before_snapshot_json row) then (w, Inr (Refused No_Snapshot))
             else
               (let raw = or_empty (before_snapshot_json row) in
                case read_participants sv raw of
                  Inl e \<Rightarrow> (w, Inl (Raised e))
                | Inr (survivor, absorbed) \<Rightarrow>
                    (case unmerge_guards sv ra survivor absorbed g of
                       Inl e \<Rightarrow> (w, Inl (Raised e))
                     | Inr (Some objection) \<Rightarrow> (w, Inr (Refused objection))
                     | Inr None \<Rightarrow>
                         if uc_dry_run c then (w, Inr (Refused Dry_Run))
                         else
                           (let s = nst_uuid survivor; a = nst_uuid absorbed; request = unmerge_request sv c s a in
                            case prepare (sv_runtime sv) (js_loads (sv_json sv)) (sv_clock sv) (uc_gate c) (uc_epoch c) (uc_now c)
                                   (unmerge_prepare_args sv c s a request raw) j of
                              (j', Inl e) \<Rightarrow> ((g, j'), Inr (Refused (Unmerge_Prepare_Failed e)))
                            | (j', Inr _) \<Rightarrow>
                                apply_unmerge sv ra (uc_later c) request (build_restore_plan survivor absorbed) (g, j'))))))"

section \<open>Replay\<close>

definition classify_unmerge_row ::
  "'t saga_env \<Rightarrow> ('g, 't) restore_adapter \<Rightarrow> op_row \<Rightarrow> 'g \<Rightarrow> journal \<Rightarrow> saga_outcome result" where
  "classify_unmerge_row sv ra row g j =
     (if operation_kind row \<noteq> ''ENTITY_UNMERGE'' then Inr Skip
      else case js_loads (sv_json sv) (request_json row) of
        None \<Rightarrow> Inr Would_Needs_Review
      | Some request \<Rightarrow>
          (case replay_plan sv row of
             Inl (ValueError _) \<Rightarrow> Inr Would_Needs_Review
           | Inl e \<Rightarrow> Inl e
           | Inr _ \<Rightarrow>
               (case classify_unmerge sv ra request g j of
                  Inl e \<Rightarrow> if row_defect e then Inr Would_Needs_Review else Inl e
                | Inr (outcome, _) \<Rightarrow> Inr outcome)))"

definition replay_unmerge_row ::
  "'t saga_env \<Rightarrow> ('g, 't) restore_adapter \<Rightarrow> string \<Rightarrow> op_row \<Rightarrow> 'g saga_world \<Rightarrow> ('g, saga_outcome) saga_step" where
  "replay_unmerge_row sv ra later row w =
     (let unreplayable = settle (mark_needs_review (op_id row) (Some ''unreplayable row'') (Some (sv_token sv)) later)
            (Inr Drifted) w
      in if operation_kind row \<noteq> ''ENTITY_UNMERGE'' then (w, Inr Skipped)
         else case js_loads (sv_json sv) (request_json row) of
           None \<Rightarrow> unreplayable
         | Some request \<Rightarrow>
             (case replay_plan sv row of
                Inl (ValueError _) \<Rightarrow> unreplayable
              | Inl e \<Rightarrow> (w, Inl (Raised e))
              | Inr plan \<Rightarrow>
                  (case apply_unmerge sv ra later request plan w of
                     (w', Inr _) \<Rightarrow> (w', Inr Replayed)
                   | (w', Inl e) \<Rightarrow>
                       (w', Inr (if e = Journal_Failed Stale_Transition then Live_Owner
                                 else if e = Merge_Drift then Drifted else Replay_Failed)))))"

definition forecast_unmerges :: "'t saga_env \<Rightarrow> ('g, 't) restore_adapter \<Rightarrow> nat \<Rightarrow> 'g \<Rightarrow> journal \<Rightarrow> (string \<times> saga_outcome) list result" where
  "forecast_unmerges sv ra limit g j =
     map_result (\<lambda>row. bind_result (classify_unmerge_row sv ra row g j) (\<lambda>out. Inr (op_id row, out)))
       (list_by_state PREPARED limit j)"

fun sweep_unmerges ::
  "'t saga_env \<Rightarrow> ('g, 't) restore_adapter \<Rightarrow> string \<Rightarrow> op_row list \<Rightarrow> 'g saga_world \<Rightarrow> ('g, saga_outcome list) saga_step" where
  "sweep_unmerges sv ra later [] w = (w, Inr [])"
| "sweep_unmerges sv ra later (row # rows) w =
     (case replay_unmerge_row sv ra later row w of
        (w', Inl e) \<Rightarrow> (w', Inl e)
      | (w', Inr out) \<Rightarrow>
          (case sweep_unmerges sv ra later rows w' of
             (w'', Inl e) \<Rightarrow> (w'', Inl e)
           | (w'', Inr outs) \<Rightarrow> (w'', Inr (out # outs))))"

definition replay_unmerges :: "'t saga_env \<Rightarrow> ('g, 't) restore_adapter \<Rightarrow> string \<Rightarrow> nat \<Rightarrow> 'g saga_world \<Rightarrow> ('g, sweep_counts) saga_step" where
  "replay_unmerges sv ra later limit w =
     (case sweep_unmerges sv ra later (list_by_state PREPARED limit (snd w)) w of
        (w', Inl e) \<Rightarrow> (w', Inl e)
      | (w', Inr outs) \<Rightarrow>
          (w', Inr \<lparr>sc_replayed = count_list outs Replayed, sc_drifted = count_list outs Drifted,
                    sc_failed = count_list outs Replay_Failed\<rparr>))"

definition reconcile_unmerges ::
  "'t saga_env \<Rightarrow> ('g, 't) restore_adapter \<Rightarrow> nat \<Rightarrow> bool \<Rightarrow> 'g saga_world \<Rightarrow> saga_error + (string \<times> saga_outcome) list" where
  "reconcile_unmerges sv ra limit dry_run w =
     (if \<not> dry_run then Inl Replay_Disabled
      else case forecast_unmerges sv ra limit (fst w) (snd w) of Inl e \<Rightarrow> Inl (Raised e) | Inr outs \<Rightarrow> Inr outs)"

section \<open>The adapter on the graph\<close>

definition fetch_survivor_properties :: "'t driver \<Rightarrow> string \<Rightarrow> 't pgraph \<Rightarrow> py_dict option" where
  "fetch_survivor_properties dr s g =
     (case entities s g of
        [] \<Rightarrow> None
      | n # _ \<Rightarrow> Some (encode_map dr (select_props
          [''summary'', ''content'', ''source'', ''source_confidence'', ''sources'', ''corroboration''] n)))"

definition peers_exist :: "string list \<Rightarrow> 't pgraph \<Rightarrow> string list" where
  "peers_exist uuids g =
     (if uuids = [] then []
      else dedup (filter (\<lambda>u. u \<in> set uuids) (List.map_filter (string_prop ''uuid'') (g_nodes g))))"

definition graph_restore_adapter :: "'t merge_world \<Rightarrow> ('t pgraph, 't) restore_adapter" where
  "graph_restore_adapter mw =
     \<lparr>ra_state = \<lambda>s a. query mw State_Read (fetch_merge_state s a),
      ra_survivor_properties = \<lambda>s. query mw Survivor_Read (fetch_survivor_properties (mw_driver mw) s),
      ra_peers_exist = \<lambda>us. query mw Peers_Read (peers_exist us),
      ra_restore = \<lambda>s a oid plan. mutate mw Restore_Write
        (\<lambda>g. case restore_merge_snapshot (mw_datetime mw) s a oid plan g of (g', r) \<Rightarrow> (g', Inr r))\<rparr>"

end
