(* ===== verification/Merge_Composition.thy ===== *)
theory Merge_Composition
  imports Merge_Graph_Properties Merge_Provenance Snapshot_Examples Unmerge_Saga
begin

text \<open>
  The merge end to end: the saga over the graph statements, the Cypher writes against their Python
  replay, and other writers between the transactions of one merge.
\<close>

section \<open>The Cypher writes and their Python replay\<close>

definition text_props :: "'t gnode \<Rightarrow> bool" where
  "text_props n \<longleftrightarrow> list_all (\<lambda>k. case node_prop k n of NStr _ \<Rightarrow> True | NNone \<Rightarrow> True | _ \<Rightarrow> False) [''summary'', ''content'']"

lemma encode_value_PNone [simp]: "encode_value dr v = PNone \<longleftrightarrow> v = NNone"
  by (cases v) (simp_all add: tagged_def)

lemma dict_get_encode_map: "dict_get k (encode_map dr d) = encode_value dr (neo_get k d)"
  by (simp add: encode_map_map dict_get_def neo_get_def map_of_map_snd split: option.split)

lemma text_props_encoded: "text_props n \<Longrightarrow> text_node (encode_map dr (gn_props n))"
  by (auto simp: text_props_def text_node_def text_value_def dict_get_encode_map node_prop_def split: neo_value.splits)

lemma neo_get_select_props: "neo_get k (select_props ks n) = (if k \<in> set ks then node_prop k n else NNone)"
  by (induction ks) (auto simp: select_props_def neo_get_def)

lemma contributors_of_cong:
  "dict_get ''sources'' d = dict_get ''sources'' e \<Longrightarrow> dict_get ''source'' d = dict_get ''source'' e \<Longrightarrow>
     contributors_of rt d = contributors_of rt e"
  by (simp add: contributors_of_def)

lemma derive_merged_provenance_cong:
  assumes "\<And>k. k \<in> {''sources'', ''source'', ''source_confidence''} \<Longrightarrow> dict_get k s = dict_get k s' \<and> dict_get k a = dict_get k a'"
  shows "derive_merged_provenance rt s a = derive_merged_provenance rt s' a'"
proof -
  have "contributors_of rt s = contributors_of rt s'" "contributors_of rt a = contributors_of rt a'"
      "dict_get ''source_confidence'' s = dict_get ''source_confidence'' s'" "dict_get ''source_confidence'' a = dict_get ''source_confidence'' a'"
    using assms by (auto intro!: contributors_of_cong)
  then show ?thesis
    by (simp add: derive_merged_provenance_def merged_contributors_def node_authority_def)
qed

lemma merge_params_provenance:
  assumes "merge_phase_one dr s a g = Some snap" "entities s g = [sn]" "entities a g = [an]" "dr = mw_driver mw"
  shows "mp_provenance (merge_params_of mw s a sim oid facts snap)
    = derive_merged_provenance (dr_runtime dr) (encode_map dr (gn_props sn)) (encode_map dr (gn_props an))"
  using assms
  by (auto simp: merge_phase_one_def merge_params_of_def Let_def dict_get_encode_map neo_get_select_props node_prop_def
      intro!: derive_merged_provenance_cong)

lemma encode_neo_of_provenance:
  "k \<in> {''sources'', ''source'', ''source_confidence'', ''corroboration''} \<Longrightarrow>
     encode_value dr (neo_of (dict_get k (derive_merged_provenance rt s a))) = dict_get k (derive_merged_provenance rt s a)"
  by (auto simp: derive_merged_provenance_def Let_def encode_list_map comp_def)

lemma text_size_encode:
  "(case v of NStr _ \<Rightarrow> True | NNone \<Rightarrow> True | _ \<Rightarrow> False) \<Longrightarrow> text_size rt (encode_value dr v) = cypher_size v"
  by (cases v) (simp_all add: text_size_def cypher_size_def py_str_def)

lemma first_present_encode: "first_present (encode_value dr v) (encode_value dr w) = encode_value dr (coalesce2 v w)"
  by (simp add: first_present_def coalesce2_def)

lemma merged_text_replay:
  assumes "text_props sn" "text_props an"
  shows "encode_value dr (fst (merged_text sn an))
      = dict_get ''summary'' (replay_survivor_merge rt (encode_map dr (gn_props sn)) (encode_map dr (gn_props an)))"
    "encode_value dr (snd (merged_text sn an))
      = dict_get ''content'' (replay_survivor_merge rt (encode_map dr (gn_props sn)) (encode_map dr (gn_props an)))"
proof -
  have sizes: "text_size rt (encode_value dr v) = cypher_size v"
    if "v \<in> {neo_get ''summary'' (gn_props sn), neo_get ''content'' (gn_props sn), neo_get ''summary'' (gn_props an),
      neo_get ''content'' (gn_props an), coalesce2 (neo_get ''summary'' (gn_props sn)) (neo_get ''content'' (gn_props sn)),
      coalesce2 (neo_get ''summary'' (gn_props an)) (neo_get ''content'' (gn_props an))}" for v
    by (rule text_size_encode) (use assms that in \<open>auto simp: text_props_def node_prop_def coalesce2_def\<close>)
  show "encode_value dr (fst (merged_text sn an))
      = dict_get ''summary'' (replay_survivor_merge rt (encode_map dr (gn_props sn)) (encode_map dr (gn_props an)))"
    by (simp add: merged_text_def replay_survivor_merge_def Let_def much_longer_def dict_get_encode_map node_prop_def
        first_present_encode sizes)
  show "encode_value dr (snd (merged_text sn an))
      = dict_get ''content'' (replay_survivor_merge rt (encode_map dr (gn_props sn)) (encode_map dr (gn_props an)))"
    by (simp add: merged_text_def replay_survivor_merge_def Let_def much_longer_def dict_get_encode_map node_prop_def sizes)
qed

lemma survivor_delta_values:
  "neo_get ''summary'' (set_props (survivor_delta mp sn an) d) = fst (merged_text sn an)"
  "neo_get ''content'' (set_props (survivor_delta mp sn an) d) = snd (merged_text sn an)"
  "neo_get ''sources'' (set_props (survivor_delta mp sn an) d) = neo_of (dict_get ''sources'' (mp_provenance mp))"
  "neo_get ''source'' (set_props (survivor_delta mp sn an) d) = neo_of (dict_get ''source'' (mp_provenance mp))"
  "neo_get ''source_confidence'' (set_props (survivor_delta mp sn an) d) = neo_of (dict_get ''source_confidence'' (mp_provenance mp))"
  "neo_get ''corroboration'' (set_props (survivor_delta mp sn an) d) = neo_of (dict_get ''corroboration'' (mp_provenance mp))"
  unfolding survivor_delta_get by (simp_all add: survivor_delta_def split: prod.split)

lemma survivor_delta_replay:
  assumes texts: "text_props sn" "text_props an"
    and prov: "mp_provenance mp = derive_merged_provenance (dr_runtime dr) (encode_map dr (gn_props sn)) (encode_map dr (gn_props an))"
    and k: "k \<in> set MERGE_OWNED_SURVIVOR_PROPERTIES"
  shows "encode_value dr (neo_get k (set_props (survivor_delta mp sn an) d))
    = dict_get k (replay_survivor_merge (dr_runtime dr) (encode_map dr (gn_props sn)) (encode_map dr (gn_props an)))"
proof -
  let ?r = "replay_survivor_merge (dr_runtime dr) (encode_map dr (gn_props sn)) (encode_map dr (gn_props an))"
  have tail: "dict_get k ?r = dict_get k (mp_provenance mp)" if "k \<notin> {''summary'', ''content''}" for k
    using that by (auto simp: replay_survivor_merge_def Let_def prov)
  show ?thesis
  proof (cases "k \<in> {''summary'', ''content''}")
    case True
    then show ?thesis
      by (elim insertE) (simp_all add: survivor_delta_values merged_text_replay [OF texts, symmetric])
  next
    case False
    then have k4: "k \<in> {''sources'', ''source'', ''source_confidence'', ''corroboration''}"
      using k by (simp add: MERGE_OWNED_SURVIVOR_PROPERTIES_def disj_commute disj_left_commute)
    then have "neo_get k (set_props (survivor_delta mp sn an) d) = neo_of (dict_get k (mp_provenance mp))"
      by (elim insertE) (simp_all add: survivor_delta_values)
    then show ?thesis
      using tail [OF False] encode_neo_of_provenance [OF k4] prov by metis
  qed
qed

text \<open>
  C21: The merge is written in Cypher and replayed in Python by the guard of the unmerge. On every graph
  whose summaries and contents are texts the two agree: right after a merge the guard, given the two
  nodes as they were, finds on the survivor exactly the six values it expects.
\<close>

theorem merge_writes_what_unmerge_expects:
  assumes ok: "pgraph_ok g" and run: "merge_entity mw s a sim oid facts g = (g', Inr r)" "mr_merged r"
    and nodes: "entities s g = [sn]" "entities a g = [an]" "text_props sn" "text_props an" and dr: "dr = mw_driver mw"
  shows "\<exists>current. fetch_survivor_properties dr s g' = Some current
    \<and> survivor_matches_merge_output (dr_runtime dr) current (encode_map dr (gn_props sn)) (encode_map dr (gn_props an)) = Inr (True, [])"
proof -
  obtain sn' an' snap where raw: "entities s g = [sn']" "entities a g = [an']" "sn' \<in> set (g_nodes g)"
    "gn_id sn' \<noteq> gn_id an'" "merge_phase_one (mw_driver mw) s a g = Some snap"
    "g_nodes g' = filter (\<lambda>n. gn_id n \<noteq> gn_id an')
       (g_nodes (update_node (gn_id sn') (set_props (survivor_delta (merge_params_of mw s a sim oid facts snap) sn' an')) g))"
    by (rule merge_entity_merged [OF ok run])
  have same: "sn' = sn" "an' = an"
    using raw(1,2) nodes(1,2) by simp_all
  note mem = raw(3) [unfolded same] and ids = raw(4,5) [unfolded same dr [symmetric]] and g' = raw(6) [unfolded same]
  let ?mp = "merge_params_of mw s a sim oid facts snap"
  let ?sn = "sn\<lparr>gn_props := set_props (survivor_delta ?mp sn an) (gn_props sn)\<rparr>"
  have ok': "pgraph_ok g'" by (rule merge_entity_ok [OF ok run(1)])
  have "?sn \<in> set (g_nodes g')"
    using mem ids(1) by (force simp: g' update_node_def)
  moreover have "has_label ''Entity'' sn" "node_prop ''uuid'' sn = NStr s"
    using nodes(1) entities_member [of sn s g] by simp_all
  ultimately have "?sn \<in> set (entities s g')"
    by (simp add: entities_member has_label_def node_prop_def)
  then have ent: "entities s g' = [?sn]"
    using entities_single [OF ok'] by (cases "entities s g'") fastforce+
  have prov: "mp_provenance ?mp = derive_merged_provenance (dr_runtime dr) (encode_map dr (gn_props sn)) (encode_map dr (gn_props an))"
    by (rule merge_params_provenance [OF ids(2) nodes(1,2) dr])
  let ?cur = "encode_map dr (select_props [''summary'', ''content'', ''source'', ''source_confidence'', ''sources'', ''corroboration''] ?sn)"
  have "dict_get k ?cur = dict_get k (replay_survivor_merge (dr_runtime dr) (encode_map dr (gn_props sn)) (encode_map dr (gn_props an)))"
    if k: "k \<in> set MERGE_OWNED_SURVIVOR_PROPERTIES" for k
    using survivor_delta_replay [OF nodes(3,4) prov k, of "gn_props sn"] k
    by (simp add: dict_get_encode_map neo_get_select_props node_prop_def MERGE_OWNED_SURVIVOR_PROPERTIES_def)
  moreover have "dict_get ''source_confidence'' (replay_survivor_merge rt x y) = PFloat (Finite (min (node_authority rt x) (node_authority rt y)))"
    for rt x y
    using replay_gets(3) [of rt x y "[]"] by simp
  moreover have "text_node (encode_map dr (gn_props sn))" "text_node (encode_map dr (gn_props an))"
    using nodes(3,4) by (simp_all add: text_props_encoded)
  ultimately have "survivor_matches_merge_output (dr_runtime dr) ?cur (encode_map dr (gn_props sn)) (encode_map dr (gn_props an)) = Inr (True, [])"
    unfolding survivor_matches_iff list_all_iff by (auto intro!: property_differs_self replay_self_equal)
  then show ?thesis
    by (simp add: fetch_survivor_properties_def ent)
qed

section \<open>Other writers\<close>

lemma phase_one_nodes:
  assumes "merge_phase_one dr s a g = Some snap"
  obtains sn an ss as where "entities s g = sn # ss" "entities a g = an # as"
    "mg_survivor snap = select_props [''source'', ''sources'', ''source_confidence''] sn"
    "mg_absorbed snap = select_props [''uuid'', ''name'', ''summary'', ''content'', ''source'', ''source_confidence'',
       ''sources'', ''corroboration'', ''type'', ''scope'', ''created_at'', ''namespace''] an"
  using assms by (auto simp: merge_phase_one_def split: list.splits)

text \<open>A merge that merged or changed the graph ran its mutation, and the mutation had passed its guard.\<close>

lemma merge_among_mutated:
  assumes run: "merge_entity_among w1 w2 mw s a sim oid facts g = (g', res)"
    and changed: "(\<exists>r. res = Inr r \<and> mr_merged r) \<or> g' \<notin> {g, w1 g, w2 (w1 g)}"
  obtains snap where "merge_phase_one (mw_driver mw) s a (w1 g) = Some snap"
    "\<exists>x. mutate mw Merge_Write (merge_phase_two (merge_params_of mw s a sim oid facts snap) snap) (w2 (w1 g)) = (g', x)
      \<and> (\<forall>r. res = Inr r \<longrightarrow> mr_merged r \<longrightarrow> x = Inr (Some r))"
proof -
  obtain eligibility where el: "query mw Eligibility_Read (graph_eligibility s a) g = Inr eligibility" "me_allowed eligibility"
    using run changed by (auto simp: merge_entity_among_def not_merged_def split: sum.splits if_splits)
  obtain snap where rd: "query mw Merge_Read (merge_phase_one (mw_driver mw) s a) (w1 g) = Inr (Some snap)"
    using run changed el by (auto simp: merge_entity_among_def not_merged_def Let_def split: sum.splits option.splits)
  show thesis
    by (rule that [OF query_Inr [OF rd, symmetric]])
      (use run changed el rd in \<open>auto simp: merge_entity_among_def not_merged_def split: prod.splits sum.splits option.splits\<close>)
qed

lemma mutate_effect:
  assumes "\<exists>x. mutate mw call (merge_phase_two mp snap) h = (g', x) \<and> (\<forall>r. res = Inr r \<longrightarrow> mr_merged r \<longrightarrow> x = Inr (Some r))"
    and "(\<exists>r. res = Inr r \<and> mr_merged r) \<or> g' \<notin> {g, g1, h}"
  obtains sn an rest1 rest2 where "entities (mp_survivor_uuid mp) h = sn # rest1" "entities (mp_absorbed_uuid mp) h = an # rest2"
    "merge_guard mp snap h sn an"
proof -
  obtain x where x: "mutate mw call (merge_phase_two mp snap) h = (g', x)"
      and eff: "(\<exists>r. x = Inr (Some r)) \<or> g' \<noteq> h"
    using assms by blast
  obtain h' y where two: "merge_phase_two mp snap h = (h', y)"
    by (cases "merge_phase_two mp snap h")
  from two show thesis
  proof (cases rule: phase_two_cases)
    case kept
    from x [unfolded mutate_def] show thesis
      by (cases rule: execute_once) (use kept eff two in auto)
  next
    case (merged sn an rest1 rest2)
    then show thesis using that by blast
  qed
qed

text \<open>
  C19: Between the transactions of a merge any other writers may run, \<open>w1\<close> before the read and \<open>w2\<close>
  before the mutation. A merge that goes through, and one that changes the graph although its
  acknowledgement is lost, found, at the moment of the mutation, a pair that was still eligible, the
  provenance of both nodes as it had read it, and exactly the expected facts; in every other case the
  graph is left as the other writers made it.
\<close>

theorem concurrent_writes_are_not_overwritten:
  assumes run: "merge_entity_among w1 w2 mw s a sim oid facts g = (g', res)"
  shows "if (\<exists>r. res = Inr r \<and> mr_merged r) \<or> g' \<notin> {g, w1 g, w2 (w1 g)}
    then \<exists>sn0 an0 sn an. hd (entities s (w1 g)) = sn0 \<and> hd (entities a (w1 g)) = an0
           \<and> sn \<in> set (entities s (w2 (w1 g))) \<and> an \<in> set (entities a (w2 (w1 g)))
           \<and> mutable_eligibility (entity_row_of (w2 (w1 g)) sn) (entity_row_of (w2 (w1 g)) an)
           \<and> list_all (\<lambda>k. unchanged_since_phase_one (node_prop k sn) (node_prop k sn0)
                  \<and> unchanged_since_phase_one (node_prop k an) (node_prop k an0)) [''source'', ''sources'', ''source_confidence'']
           \<and> fact_set_guard facts (map (rel_prop ''uuid'') (moved_facts (w2 (w1 g)) sn an))
    else g' \<in> {g, w1 g, w2 (w1 g)}"
proof (cases "g' \<in> {g, w1 g, w2 (w1 g)} \<and> \<not> (\<exists>r. res = Inr r \<and> mr_merged r)")
  case False
  then have changed: "(\<exists>r. res = Inr r \<and> mr_merged r) \<or> g' \<notin> {g, w1 g, w2 (w1 g)}"
    by blast
  obtain snap where snap: "merge_phase_one (mw_driver mw) s a (w1 g) = Some snap"
    and step: "\<exists>x. mutate mw Merge_Write (merge_phase_two (merge_params_of mw s a sim oid facts snap) snap) (w2 (w1 g)) = (g', x)
      \<and> (\<forall>r. res = Inr r \<longrightarrow> mr_merged r \<longrightarrow> x = Inr (Some r))"
    by (rule merge_among_mutated [OF run changed])
  let ?mp = "merge_params_of mw s a sim oid facts snap"
  have mp: "mp_survivor_uuid ?mp = s" "mp_absorbed_uuid ?mp = a" "mp_expected_fact_uuids ?mp = facts"
    by (simp_all add: merge_params_of_def Let_def)
  obtain sn an rest1 rest2 where merged: "entities s (w2 (w1 g)) = sn # rest1" "entities a (w2 (w1 g)) = an # rest2"
      "merge_guard ?mp snap (w2 (w1 g)) sn an"
    by (rule mutate_effect [OF step changed, unfolded mp])
  obtain sn0 an0 ss as where one: "entities s (w1 g) = sn0 # ss" "entities a (w1 g) = an0 # as"
      "mg_survivor snap = select_props [''source'', ''sources'', ''source_confidence''] sn0"
      "mg_absorbed snap = select_props [''uuid'', ''name'', ''summary'', ''content'', ''source'', ''source_confidence'',
         ''sources'', ''corroboration'', ''type'', ''scope'', ''created_at'', ''namespace''] an0"
    by (rule phase_one_nodes [OF snap])
  have "list_all (\<lambda>k. unchanged_since_phase_one (node_prop k sn) (node_prop k sn0)
              \<and> unchanged_since_phase_one (node_prop k an) (node_prop k an0)) [''source'', ''sources'', ''source_confidence'']"
    using merged(3) by (simp add: merge_guard_def provenance_guard_def GUARDED_PROVENANCE_def one(3,4) neo_get_select_props)
  moreover have "sn \<in> set (entities s (w2 (w1 g)))" "an \<in> set (entities a (w2 (w1 g)))"
    using merged(1,2) by simp_all
  moreover have "mutable_eligibility (entity_row_of (w2 (w1 g)) sn) (entity_row_of (w2 (w1 g)) an)"
      "fact_set_guard facts (map (rel_prop ''uuid'') (moved_facts (w2 (w1 g)) sn an))"
    using merged(3) by (simp_all add: merge_guard_def mp(3))
  moreover have "hd (entities s (w1 g)) = sn0" "hd (entities a (w1 g)) = an0"
    by (simp_all add: one)
  ultimately show ?thesis
    unfolding if_P [OF changed] by blast
qed auto

section \<open>Self-loops\<close>

lemma extends_merge_folds:
  "\<exists>new. g_rels (fold (\<lambda>n. merge_rel ty st n ps) ns g) = g_rels g @ new"
  "\<exists>new. g_rels (fold (\<lambda>n. merge_rel ty n en ps) ns g) = g_rels g @ new"
  "\<exists>new. g_rels (fold (move_fact sn an) fs g) = g_rels g @ new"
proof -
  have one: "\<exists>new. g_rels (merge_rel ty st en ps g) = g_rels g @ new" "\<exists>new. g_rels (move_fact sn an f g) = g_rels g @ new"
    for ty st en ps sn an f and g :: "'a pgraph"
    by (auto simp: merge_rel_def move_fact_def add_rel_def Let_def)
  show "\<exists>new. g_rels (fold (\<lambda>n. merge_rel ty st n ps) ns g) = g_rels g @ new"
    "\<exists>new. g_rels (fold (\<lambda>n. merge_rel ty n en ps) ns g) = g_rels g @ new"
    by (induction ns arbitrary: g; simp; metis one(1) append.assoc)+
  show "\<exists>new. g_rels (fold (move_fact sn an) fs g) = g_rels g @ new"
    by (induction fs arbitrary: g; simp; metis one(2) append.assoc)
qed

lemma merge_rel_exists:
  "n \<in> set ns \<Longrightarrow> \<exists>x\<in>set (g_rels (fold (\<lambda>n. merge_rel ty st n ps) ns g)). gr_type x = ty \<and> gr_start x = st \<and> gr_end x = n"
proof (induction ns arbitrary: g)
  case (Cons m ns)
  have here: "\<exists>x\<in>set (g_rels (merge_rel ty st m ps g)). gr_type x = ty \<and> gr_start x = st \<and> gr_end x = m"
    by (auto simp: merge_rel_def add_rel_def list_ex_iff)
  obtain new where "g_rels (fold (\<lambda>n. merge_rel ty st n ps) ns (merge_rel ty st m ps g)) = g_rels (merge_rel ty st m ps g) @ new"
    using extends_merge_folds(1) by blast
  with here Cons.IH [of "merge_rel ty st m ps g"] Cons.prems show ?case
    by (cases "n = m") auto
qed simp

lemma rewire_bridges:
  assumes "n \<in> set (bridge_neighbors g sn an)"
  shows "\<exists>new. g_rels (rewire mp sn an g) = g_rels g @ new
    \<and> (\<exists>x\<in>set (g_rels g @ new). gr_type x = ''RELATES_TO'' \<and> gr_start x = gn_id sn \<and> gr_end x = n)"
proof -
  define g1 where "g1 = update_node (gn_id sn) (set_props (survivor_delta mp sn an)) g"
  define g2 where "g2 = fold (move_fact sn an) (filter (\<lambda>f. gr_start f = gn_id an) (moved_facts g sn an)) g1"
  define g3 where "g3 = fold (move_fact sn an) (filter (\<lambda>f. gr_start f \<noteq> gn_id an) (moved_facts g sn an)) g2"
  define g4 where "g4 = fold (\<lambda>n. merge_rel ''RELATES_TO'' (gn_id sn) n (bridge_props mp)) (bridge_neighbors g sn an) g3"
  define g5 where "g5 = fold (\<lambda>e. merge_rel ''MENTIONS'' e (gn_id sn) []) (dedup (map gn_id (episodes_into ''MENTIONS'' g (gn_id an)))) g4"
  have g6: "rewire mp sn an g = fold (\<lambda>e. merge_rel ''RETENTION_SOURCE'' e (gn_id sn) []) (dedup (map gn_id (tenant_sources g an))) g5"
    by (simp add: rewire_def Let_def g1_def g2_def g3_def g4_def g5_def)
  obtain n2 n3 n4 n5 n6 where "g_rels g2 = g_rels g1 @ n2" "g_rels g3 = g_rels g2 @ n3" "g_rels g4 = g_rels g3 @ n4"
      "g_rels g5 = g_rels g4 @ n5" "g_rels (rewire mp sn an g) = g_rels g5 @ n6"
    using extends_merge_folds unfolding g2_def g3_def g4_def g5_def g6 by metis
  moreover have "\<exists>x\<in>set (g_rels g4). gr_type x = ''RELATES_TO'' \<and> gr_start x = gn_id sn \<and> gr_end x = n"
    unfolding g4_def by (rule merge_rel_exists [OF assms])
  moreover have "g_rels g1 = g_rels g" by (simp add: g1_def update_node_def)
  ultimately show ?thesis by auto
qed

text \<open>
  An absorbed node that has a relationship to itself: the merge bridges the survivor to the node it is
  about to delete, the plain delete then finds a relationship it does not know, and the statement
  fails. No such merge ever goes through, unless the survivor was linked to the node before.
\<close>

theorem self_loop_blocks_merge:
  assumes ok: "pgraph_ok g" and nodes: "entities s g = [sn]" "entities a g = [an]"
    and loop: "e \<in> set (g_rels g)" "gr_start e = gn_id an" "gr_end e = gn_id an" "gr_type e \<noteq> ''ANCHORED_TO''"
    and role: "node_prop ''structure_role'' an = NNone"
    and unlinked: "list_all (\<lambda>r. \<not> (gr_type r = ''RELATES_TO'' \<and> gr_start r = gn_id sn \<and> gr_end r = gn_id an)) (g_rels g)"
    and run: "merge_entity mw s a sim oid facts g = (g', res)"
  shows "g' = g \<and> \<not> (\<exists>r. res = Inr r \<and> mr_merged r)"
proof (rule ccontr)
  assume "\<not> ?thesis"
  then obtain snap r where two: "merge_phase_two (merge_params_of mw s a sim oid facts snap) snap g = (g', Inr (Some r))"
      and "me_allowed (graph_eligibility s a g)"
    by (cases rule: merge_entity_cases [OF run]) auto
  then have "s \<noteq> a"
    using evaluate_same by (auto simp: graph_eligibility_def)
  let ?mp = "merge_params_of mw s a sim oid facts snap"
  have mp: "mp_survivor_uuid ?mp = s" "mp_absorbed_uuid ?mp = a"
    by (simp_all add: merge_params_of_def Let_def)
  have mem: "sn \<in> set (g_nodes g)" "an \<in> set (g_nodes g)" "has_label ''Entity'' an" "node_prop ''uuid'' an = NStr a"
      "node_prop ''uuid'' sn = NStr s"
    using nodes entities_member by (metis list.set_intros(1))+
  have at_an: "node_by_id (gn_id an) g = Some an"
    by (rule node_by_id_member [OF ok mem(2)])
  have "gn_id an \<in> set (bridge_neighbors g sn an)"
    using loop role mem \<open>s \<noteq> a\<close> at_an
    by (force simp: bridge_neighbors_def incident_def other_end_def labelled_at_def prop_at_def)
  then obtain new x where new: "g_rels (rewire ?mp sn an g) = g_rels g @ new" "x \<in> set (g_rels g @ new)"
      "gr_type x = ''RELATES_TO''" "gr_start x = gn_id sn" "gr_end x = gn_id an"
    using rewire_bridges [of "gn_id an" g sn an ?mp] by blast
  then have "x \<in> set new"
    using unlinked by (auto simp: list_all_iff)
  moreover have "distinct (map gr_id (g_rels g @ new))"
    using rewire_within [OF ok mem(1), of ?mp an] new(1) by (simp add: rels_within_def)
  ultimately have fresh: "gr_id x \<notin> set (map gr_id (filter (incident (gn_id an)) (g_rels g)))"
    by auto
  from two show False
  proof (cases rule: phase_two_cases)
    case (merged sn' an' rest1 rest2)
    then have "delete_node (gn_id an) (map gr_id (filter (incident (gn_id an)) (g_rels g))) (rewire ?mp sn an g) = Inr g'"
      using nodes mp by simp
    note d = delete_node_Inr(2,3) [OF this]
    have "x \<in> set (g_rels g')"
      unfolding d(1) new(1) set_filter using new(2) fresh by blast
    moreover have "incident (gn_id an) x"
      using new(5) by (simp add: incident_def)
    ultimately show False
      using d(2) by blast
  qed auto
qed

section \<open>The saga over the graph\<close>

lemma saga_run_prepared:
  assumes "saga_prepared sv ad c (g, j) = Some (request, raw, before, j1)"
  obtains r where "get_op (mc_op_id c) j1 = Some r" "owned_row sv r" "before_snapshot_json r = Some raw"
    "expected_after_sha256 r = Some (merge_state_fingerprint sv (merged_state (mc_op_id c)))"
    "request_ids sv request = Inr (mc_op_id c, mc_survivor_uuid c, mc_absorbed_uuid c)" "saga_snapshot sv ad c g = Inr raw"
  by (rule saga_prepared_row [OF assms]) (metis prepared_row_owned(1-3) merge_request_ids)

lemma apply_owned_ok:
  assumes "pgraph_ok g" "apply_owned sv (graph_adapter mw js) later q (g, j) = ((g', j'), res)"
  shows "pgraph_ok g'"
proof -
  have "pgraph_ok h" if "call_merge sv (graph_adapter mw js) q oid s a facts g = (h, x)" for oid s a facts h x
    using that assms(1) merge_entity_ok by (auto simp: call_merge_def graph_adapter_def split: sum.splits)
  then show ?thesis
    using assms by (auto simp: apply_owned_def finish_abstention_def verify_merge_def quarantine_def settle_def Let_def
        split: sum.splits if_splits prod.splits)
qed

lemma apply_owned_changes:
  assumes ok: "pgraph_ok g" and ids: "request_ids sv q = Inr (oid, s, a)"
    and run: "apply_owned sv (graph_adapter mw js) later q (g, j) = ((g', j'), res)"
  shows "g' = g \<or> shows_merge (fetch_merge_state s a g')"
proof -
  have "h = g \<or> shows_merge (fetch_merge_state s a h)" if "call_merge sv (graph_adapter mw js) q oid s a facts g = (h, x)" for facts h x
    using that merge_entity_changes [OF ok] by (auto simp: call_merge_def graph_adapter_def split: sum.splits)
  then show ?thesis
    using run ids by (auto simp: apply_owned_def finish_abstention_def verify_merge_def quarantine_def settle_def Let_def
        split: sum.splits if_splits prod.splits)
qed

text \<open>
  C7: The graph and the journal move together. A merge either stops before PREPARE and changes nothing, or
  the journal holds its row with the recovery snapshot, and the state of the row tells what happened to
  the graph: committed with the merge done, failed or quarantined with the graph as it was, or still
  prepared after an exception. Then the graph is as it was, or the merge is in it although the
  acknowledgement of the mutation, or the read that verifies it, was lost; no other change is possible.
  Every outcome leaves a well-formed graph.
\<close>

theorem merge_saga_in_step:
  assumes fe: "fingerprints_exact sv" and ok: "pgraph_ok g"
    and run: "saga_merge sv (graph_adapter mw js) c (g, j) = ((g', j'), res)"
  shows "pgraph_ok g' \<and> (g' = g \<or> shows_merge (fetch_merge_state (mc_survivor_uuid c) (mc_absorbed_uuid c) g'))
    \<and> (g' = g \<and> j' = j \<and> (\<exists>why e. res = Inr (Abstained why None) \<or> res = Inl (Raised e))
       \<or> (\<exists>r raw. get_op (mc_op_id c) j' = Some r \<and> before_snapshot_json r = Some raw
            \<and> saga_snapshot sv (graph_adapter mw js) c g = Inr raw
            \<and> in_step (graph_adapter mw js) (mc_survivor_uuid c) (mc_absorbed_uuid c) g g' (op_state r) res))"
proof (cases "saga_prepared sv (graph_adapter mw js) c (g, j)")
  case None
  then show ?thesis
    using saga_merge_not_prepared [OF None run] ok by blast
next
  case (Some p)
  obtain request raw before j1 where p: "saga_prepared sv (graph_adapter mw js) c (g, j) = Some (request, raw, before, j1)"
    using Some by (cases p) auto
  have run': "apply_owned sv (graph_adapter mw js) (mc_later c) request (g, j1) = ((g', j'), res)"
    using run saga_merge_prepared [OF p] by simp
  obtain r where r: "get_op (mc_op_id c) j1 = Some r" "owned_row sv r" "before_snapshot_json r = Some raw"
      "expected_after_sha256 r = Some (merge_state_fingerprint sv (merged_state (mc_op_id c)))"
      "request_ids sv request = Inr (mc_op_id c, mc_survivor_uuid c, mc_absorbed_uuid c)"
      "saga_snapshot sv (graph_adapter mw js) c g = Inr raw"
    by (rule saga_run_prepared [OF p])
  show ?thesis
    using repository.body_in_step [OF fe ok r(1,2,4,5) run'] r(3,6) frozen_simps(4) apply_owned_ok [OF ok run']
      apply_owned_changes [OF ok r(5) run'] by metis
qed

text \<open>
  C10: Every committed merge has a durable inverse: the committed row carries a snapshot from which both
  participants are read back exactly as they were before the merge.
\<close>

theorem committed_merge_has_durable_inverse:
  assumes fe: "fingerprints_exact sv" and ok: "pgraph_ok g"
    and env: "json_ok (sv_json sv)" "driver_ok (sv_driver sv)" "mw_driver mw = sv_driver sv"
    and run: "saga_merge sv (graph_adapter mw (sv_json sv)) c (g, j) = ((g', j'), Inr (Applied m oid))"
    and nodes: "node_snapshot (sv_driver sv) g (mc_survivor_uuid c) = Some ns" "node_ok (sv_driver sv) ns"
      "node_snapshot (sv_driver sv) g (mc_absorbed_uuid c) = Some na" "node_ok (sv_driver sv) na"
  shows "\<exists>r raw. get_op (mc_op_id c) j' = Some r \<and> op_state r = COMMITTED \<and> before_snapshot_json r = Some raw
    \<and> stored_node (sv_driver sv) (sv_json sv) ''survivor'' raw = Inr (sort_node ns)
    \<and> stored_node (sv_driver sv) (sv_json sv) ''absorbed'' raw = Inr (sort_node na)"
proof (cases "saga_prepared sv (graph_adapter mw (sv_json sv)) c (g, j)")
  case None
  then show ?thesis
    using saga_merge_not_prepared [OF None run] by auto
next
  case (Some p)
  obtain request raw before j1 where p: "saga_prepared sv (graph_adapter mw (sv_json sv)) c (g, j) = Some (request, raw, before, j1)"
    using Some by (cases p) auto
  have run': "apply_owned sv (graph_adapter mw (sv_json sv)) (mc_later c) request (g, j1) = ((g', j'), Inr (Applied m oid))"
    using run saga_merge_prepared [OF p] by simp
  obtain r where r: "get_op (mc_op_id c) j1 = Some r" "owned_row sv r" "before_snapshot_json r = Some raw"
      "expected_after_sha256 r = Some (merge_state_fingerprint sv (merged_state (mc_op_id c)))"
      "request_ids sv request = Inr (mc_op_id c, mc_survivor_uuid c, mc_absorbed_uuid c)"
      "saga_snapshot sv (graph_adapter mw (sv_json sv)) c g = Inr raw"
    by (rule saga_run_prepared [OF p])
  obtain r' where r': "get_op (mc_op_id c) j' = Some r'" "frozen r' = frozen r" "op_state r' = COMMITTED"
    using repository.body_in_step [OF fe ok r(1,2,4,5) run'] by auto
  have dumped: "snapshot_dumps (sv_json sv) (build_snapshot (sv_driver sv) (sv_json sv) (encode_node (sv_driver sv) ns)
      (encode_node (sv_driver sv) na) (Some (mc_similarity c))) True = Inr raw"
    using r(6) nodes(1,3) env(3)
    by (auto simp: saga_snapshot_def graph_adapter_def capture_merge_snapshot_def capture_node_state_def dest!: query_Inr)
  have "stored_node (sv_driver sv) (sv_json sv) ''survivor'' raw = Inr (sort_node ns)"
      "stored_node (sv_driver sv) (sv_json sv) ''absorbed'' raw = Inr (sort_node na)"
    using stored_node_build [OF env(1) dumped] node_roundtrip [OF env(2)] nodes(2,4) by simp_all
  then show ?thesis
    using r(3) r' frozen_simps(4) [OF r'(2)] by auto
qed

end
