(* ===== verification/Merge_Liveness.thy ===== *)
theory Merge_Liveness
  imports Merge_Composition
begin

text \<open>
  When a merge goes through: the two halves of the fact predicate agree, so the guards of the mutation
  pass on an unchanged graph, the delete finds nothing it does not know, and the saga commits.
\<close>

section \<open>The two halves of the fact predicate\<close>

definition uuid_texts :: "'t pgraph \<Rightarrow> bool" where
  "uuid_texts g \<longleftrightarrow> list_all (\<lambda>n. case node_prop ''uuid'' n of NStr _ \<Rightarrow> True | NNone \<Rightarrow> True | _ \<Rightarrow> False) (g_nodes g)"

lemma prop_at_text:
  assumes "uuid_texts g"
  shows "(case prop_at ''uuid'' g i of NStr _ \<Rightarrow> True | NNone \<Rightarrow> True | _ \<Rightarrow> False)"
  using assms by (auto simp: prop_at_def uuid_texts_def list_all_iff dest!: node_by_id_SomeD split: option.split)

lemma node_snapshot_entity:
  assumes ok: "pgraph_ok g" and an: "entities u g = [an]"
  shows "node_snapshot dr g u = Some \<lparr>nst_uuid = u, nst_labels = gn_labels an, nst_properties = gn_props an,
     nst_relationships = map (capture_rel dr g (gn_id an)) (filter (incident (gn_id an)) (g_rels g))\<rparr>"
proof -
  have mem: "an \<in> set (g_nodes g)" "node_prop ''uuid'' an = NStr u"
    using an entities_member [of an u g] by simp_all
  then obtain n rest where n: "filter (\<lambda>n. node_prop ''uuid'' n = NStr u) (g_nodes g) = n # rest"
    by (cases "filter (\<lambda>n. node_prop ''uuid'' n = NStr u) (g_nodes g)") (auto simp: filter_empty_conv)
  then have "n \<in> set (g_nodes g)" "node_prop ''uuid'' n = NStr u"
    using filter_eq_ConsD by fastforce+
  then have "n = an"
    using pgraph_ok_uuid_unique [OF ok] mem by simp
  then show ?thesis
    using n by (simp add: node_snapshot_def)
qed

lemma is_moved_fact_capture:
  assumes texts: "uuid_texts g" and sn: "node_prop ''uuid'' sn = NStr s" and an: "node_prop ''uuid'' an = NStr a" and r: "incident (gn_id an) r"
  shows "is_moved_fact s (Some a) (capture_rel dr g (gn_id an) r) \<longleftrightarrow> moved_fact_where g sn an r"
proof -
  let ?p = "other_end (gn_id an) r"
  have pu: "(case neo_text dr (prop_at ''uuid'' g ?p) of None \<Rightarrow> False | Some p \<Rightarrow> p \<noteq> s \<and> Some p \<noteq> Some a)
      \<longleftrightarrow> prop_at ''uuid'' g ?p \<noteq> NNone \<and> prop_at ''uuid'' g ?p \<noteq> NStr s \<and> prop_at ''uuid'' g ?p \<noteq> NStr a"
    using prop_at_text [OF texts, of ?p] by (auto simp: neo_text_def py_str_def split: neo_value.splits)
  have lab: "''Entity'' \<in> set (case node_by_id ?p g of None \<Rightarrow> [] | Some n \<Rightarrow> gn_labels n) \<longleftrightarrow> labelled_at ''Entity'' g ?p"
    by (simp add: labelled_at_def has_label_def split: option.split)
  have fu: "(case rel_prop ''uuid'' r of NStr u \<Rightarrow> u | _ \<Rightarrow> []) \<noteq> []
      \<longleftrightarrow> (case rel_prop ''uuid'' r of NStr u \<Rightarrow> u \<noteq> [] | _ \<Rightarrow> False)"
    by (simp split: neo_value.split)
  show ?thesis
    unfolding is_moved_fact_def moved_fact_where_def capture_rel_def Let_def sn an
    by (simp only: rel_state.simps fact_uuid_def rel_prop_def [symmetric] fu lab pu r simp_thms conj_ac)
qed

lemma fact_uuid_capture:
  assumes "moved_fact_where g sn an r"
  shows "NStr (fact_uuid (capture_rel dr g i r)) = rel_prop ''uuid'' r"
  using assms by (auto simp: moved_fact_where_def Let_def fact_uuid_def capture_rel_def rel_prop_def split: neo_value.splits)

lemma mset_sort_map: "mset (map f (sort xs)) = mset (map f xs)"
  by simp

lemma moved_facts_agree:
  assumes ok: "pgraph_ok g" and texts: "uuid_texts g" and nodes: "entities s g = [sn]" "entities a g = [an]" and a: "a \<noteq> []"
    and snap: "node_snapshot dr g a = Some na"
  shows "mset (map NStr (moved_fact_uuids s na)) = mset (map (rel_prop ''uuid'') (moved_facts g sn an))"
proof -
  have uu: "node_prop ''uuid'' sn = NStr s" "node_prop ''uuid'' an = NStr a"
    using nodes entities_member by (metis list.set_intros(1))+
  have na: "nst_uuid na = a" "nst_relationships na = map (capture_rel dr g (gn_id an)) (filter (incident (gn_id an)) (g_rels g))"
    using snap node_snapshot_entity [OF ok nodes(2), of dr] by auto
  let ?P = "is_moved_fact s (Some a) \<circ> capture_rel dr g (gn_id an)"
  have "filter ?P (filter (incident (gn_id an)) (g_rels g)) = filter (moved_fact_where g sn an) (g_rels g)"
    using is_moved_fact_capture [OF texts uu] by (auto simp: moved_fact_where_def Let_def intro!: filter_cong)
  then have "filter (is_moved_fact s (absorbed_id na)) (nst_relationships na)
      = map (capture_rel dr g (gn_id an)) (moved_facts g sn an)"
    by (simp add: absorbed_id_def na a filter_map moved_facts_def)
  then have "map NStr (map fact_uuid (filter (is_moved_fact s (absorbed_id na)) (nst_relationships na)))
      = map (rel_prop ''uuid'') (moved_facts g sn an)"
    using fact_uuid_capture [of g sn an] by (auto simp: moved_facts_def)
  then show ?thesis
    unfolding moved_fact_uuids_def mset_sort_map by simp
qed

text \<open>
  C25: The predicate for the facts a merge moves is written twice, in Cypher for the mutation and in Python
  for the snapshot. On a graph whose uuids are texts both select the same facts, with the same
  multiplicity: what the snapshot lists is what the mutation moves.
\<close>

theorem fact_predicates_agree:
  assumes "pgraph_ok g" "uuid_texts g" "entities s g = [sn]" "entities a g = [an]" "a \<noteq> []" "node_snapshot dr g a = Some na"
  shows "mset (map NStr (moved_fact_uuids s na)) = mset (map (rel_prop ''uuid'') (moved_facts g sn an))"
  by (rule moved_facts_agree [OF assms])

section \<open>The guards on an unchanged graph\<close>

fun nan_free :: "'t neo_value \<Rightarrow> bool" where
  "nan_free (NFloat f) \<longleftrightarrow> f \<noteq> NaN"
| "nan_free (NList vs) \<longleftrightarrow> list_all nan_free vs"
| "nan_free _ \<longleftrightarrow> True"

lemma cypher_equal_refl: "nan_free v \<Longrightarrow> cypher_equal v v"
  by (induction v) (auto simp: list_all_iff list_all2_same)

definition provenance_readable :: "'t gnode \<Rightarrow> bool" where
  "provenance_readable n \<longleftrightarrow>
     list_all (\<lambda>k. nan_free (node_prop k n)) [''source'', ''sources'', ''source_confidence'', ''corroboration'']"

lemma unchanged_refl: "nan_free v \<Longrightarrow> unchanged_since_phase_one v v"
  by (simp add: unchanged_since_phase_one_def cypher_equal_refl)

lemma provenance_guard_unchanged:
  assumes "merge_phase_one dr s a g = Some snap" "entities s g = [sn]" "entities a g = [an]"
    "provenance_readable sn" "provenance_readable an"
  shows "provenance_guard snap sn an"
  using assms
  by (auto simp: merge_phase_one_def provenance_guard_def GUARDED_PROVENANCE_def neo_get_select_props provenance_readable_def
      unchanged_refl)

lemma entity_rows_single:
  assumes ok: "pgraph_ok g" and n: "entities u g = [n]"
  shows "filter (\<lambda>r. er_uuid r = u)
      (map (entity_row_of g) (filter (\<lambda>n. has_label ''Entity'' n \<and> string_prop ''uuid'' n \<noteq> None) (g_nodes g))) = [entity_row_of g n]"
proof -
  have "er_uuid (entity_row_of g m) = u \<and> string_prop ''uuid'' m \<noteq> None \<longleftrightarrow> node_prop ''uuid'' m = NStr u" for m
    by (auto simp: entity_row_of_def string_prop_def or_empty_def split: neo_value.split)
  then have "filter (\<lambda>m. (has_label ''Entity'' m \<and> string_prop ''uuid'' m \<noteq> None) \<and> er_uuid (entity_row_of g m) = u) (g_nodes g) = entities u g"
    unfolding entities_def by (metis (no_types, lifting))
  then show ?thesis
    using n by (simp add: filter_map comp_def conj_commute)
qed

lemma mutable_when_eligible:
  assumes ok: "pgraph_ok g" and nodes: "entities s g = [sn]" "entities a g = [an]"
    and allowed: "me_allowed (graph_eligibility s a g)"
    and ns: "raw_namespace (entity_row_of g sn) = raw_namespace (entity_row_of g an)"
  shows "mutable_eligibility (entity_row_of g sn) (entity_row_of g an)"
proof -
  let ?rows = "map (entity_row_of g) (filter (\<lambda>n. has_label ''Entity'' n \<and> string_prop ''uuid'' n \<noteq> None) (g_nodes g))"
  have u: "er_uuid (entity_row_of g sn) = s" "er_uuid (entity_row_of g an) = a"
    using nodes entities_member [of sn s g] entities_member [of an a g] by (simp_all add: entity_row_of_def string_prop_def or_empty_def)
  have "filter (\<lambda>r. er_uuid r = er_uuid (entity_row_of g sn)) ?rows = [entity_row_of g sn]"
      "filter (\<lambda>r. er_uuid r = er_uuid (entity_row_of g an)) ?rows = [entity_row_of g an]"
    unfolding u by (rule entity_rows_single [OF ok nodes(1)], rule entity_rows_single [OF ok nodes(2)])
  from mutation_predicate_iff [OF this] show ?thesis
    using allowed ns unfolding graph_eligibility_def u by blast
qed

lemma fact_guard_of_snapshot:
  assumes "mset (map NStr us) = mset live"
  shows "fact_set_guard (Some us) live"
  using arg_cong [OF assms, of size] arg_cong [OF assms, of set_mset] by (auto simp: fact_set_guard_def)

section \<open>The delete\<close>

definition clear_of :: "nat \<Rightarrow> 't pgraph \<Rightarrow> 't pgraph \<Rightarrow> bool" where
  "clear_of i g h \<longleftrightarrow> (\<exists>new. g_rels h = g_rels g @ new \<and> list_all (\<lambda>r. \<not> incident i r) new)"

lemma clear_of_refl: "g_rels h = g_rels g \<Longrightarrow> clear_of i g h"
  by (simp add: clear_of_def)

lemma clear_of_add: "clear_of i g h \<Longrightarrow> st \<noteq> i \<Longrightarrow> en \<noteq> i \<Longrightarrow> clear_of i g (add_rel ty st en ps h)"
  by (auto simp: clear_of_def add_rel_def incident_def)

lemma clear_of_merge: "clear_of i g h \<Longrightarrow> st \<noteq> i \<Longrightarrow> en \<noteq> i \<Longrightarrow> clear_of i g (merge_rel ty st en ps h)"
  by (simp add: merge_rel_def clear_of_add)

lemma clear_of_folds:
  "clear_of i g h \<Longrightarrow> st \<noteq> i \<Longrightarrow> i \<notin> set ns \<Longrightarrow> clear_of i g (fold (\<lambda>n. merge_rel ty st n ps) ns h)"
  "clear_of i g h \<Longrightarrow> en \<noteq> i \<Longrightarrow> i \<notin> set ns \<Longrightarrow> clear_of i g (fold (\<lambda>n. merge_rel ty n en ps) ns h)"
  by (induction ns arbitrary: h) (simp_all add: clear_of_merge)

lemma clear_of_moves:
  assumes "clear_of (gn_id an) g h" "gn_id sn \<noteq> gn_id an"
    "\<And>f. f \<in> set fs \<Longrightarrow> (gr_start f = gn_id an \<or> gr_end f = gn_id an) \<and> (gr_start f \<noteq> gn_id an \<or> gr_end f \<noteq> gn_id an)"
  shows "clear_of (gn_id an) g (fold (move_fact sn an) fs h)"
  using assms
proof (induction fs arbitrary: h)
  case (Cons f fs)
  have "clear_of (gn_id an) g (move_fact sn an f h)"
    using Cons.prems(1,2) Cons.prems(3) [of f] by (auto simp: move_fact_def Let_def intro!: clear_of_add)
  then show ?case
    using Cons by simp
qed simp

definition loop_free :: "nat \<Rightarrow> 't pgraph \<Rightarrow> bool" where
  "loop_free i g \<longleftrightarrow> list_all (\<lambda>r. \<not> (gr_start r = i \<and> gr_end r = i)) (g_rels g)"

lemma episodes_not_self:
  assumes "loop_free i g" "n \<in> set (episodes_into ty g i)"
  shows "gn_id n \<noteq> i"
  using assms by (fastforce simp: episodes_into_def List.map_filter_def loop_free_def list_all_iff dest: node_by_id_SomeD split: if_splits)

lemma rewire_clear:
  assumes ok: "pgraph_ok g" and an: "an \<in> set (g_nodes g)" and ne: "gn_id sn \<noteq> gn_id an" and loops: "loop_free (gn_id an) g"
  shows "clear_of (gn_id an) g (rewire mp sn an g)"
proof -
  have "gn_id an \<notin> set (bridge_neighbors g sn an)"
    using loops by (auto simp: bridge_neighbors_def loop_free_def list_all_iff incident_def other_end_def split: if_splits)
  moreover have "gn_id an \<notin> set (dedup (map gn_id (episodes_into ''MENTIONS'' g (gn_id an))))"
      "gn_id an \<notin> set (dedup (map gn_id (tenant_sources g an)))"
    using episodes_not_self [OF loops] by (force simp: tenant_sources_def)+
  moreover have "(gr_start f = gn_id an \<or> gr_end f = gn_id an) \<and> (gr_start f \<noteq> gn_id an \<or> gr_end f \<noteq> gn_id an)"
    if "f \<in> set (moved_facts g sn an)" for f
    using moved_fact_ends [OF ok an that] by blast
  ultimately show ?thesis
    unfolding rewire_def Let_def using ne
    by (intro clear_of_folds clear_of_moves clear_of_refl) (auto simp: update_node_def)
qed

lemma delete_succeeds:
  assumes "clear_of i g h"
  shows "\<exists>g'. delete_node i (map gr_id (filter (incident i) (g_rels g))) h = Inr g'"
  using assms by (auto simp: clear_of_def delete_node_def Let_def list_all_iff list_ex_iff)

section \<open>The merge goes through\<close>

definition mergeable :: "string \<Rightarrow> string \<Rightarrow> 't pgraph \<Rightarrow> 't gnode \<Rightarrow> 't gnode \<Rightarrow> bool" where
  "mergeable s a g sn an \<longleftrightarrow>
     entities s g = [sn] \<and> entities a g = [an] \<and> a \<noteq> [] \<and> me_allowed (graph_eligibility s a g)
     \<and> raw_namespace (entity_row_of g sn) = raw_namespace (entity_row_of g an)
     \<and> provenance_readable sn \<and> provenance_readable an \<and> loop_free (gn_id an) g"

text \<open>A connection on which every statement is answered within its attempts.\<close>

definition connected :: "'t merge_world \<Rightarrow> bool" where
  "connected mw \<longleftrightarrow> (\<forall>call g. recovers (mw_attempts mw call g))"

lemma connected_calls:
  assumes "connected mw"
  shows "query mw call f g = Inr (f g)" "mutate mw call stmt g = stmt g"
  using assms by (simp_all add: connected_def query_recovers mutate_recovers)

lemma merge_entity_succeeds:
  assumes net: "connected mw" and ok: "pgraph_ok g" and texts: "uuid_texts g" and m: "mergeable s a g sn an"
    and snap: "node_snapshot dr g a = Some na" and facts: "facts = None \<or> facts = Some (moved_fact_uuids s na)"
  shows "\<exists>g' r. merge_entity mw s a sim oid facts g = (g', Inr r) \<and> mr_merged r"
proof -
  have nodes: "entities s g = [sn]" "entities a g = [an]" "a \<noteq> []" and allowed: "me_allowed (graph_eligibility s a g)"
    using m by (simp_all add: mergeable_def)
  have "s \<noteq> a"
    using allowed evaluate_same by (auto simp: graph_eligibility_def)
  then have ids: "gn_id sn \<noteq> gn_id an" "an \<in> set (g_nodes g)"
    using pgraph_ok_id_unique [OF ok, of sn an] nodes entities_member [of sn s g] entities_member [of an a g] by auto
  obtain rd where one: "merge_phase_one (mw_driver mw) s a g = Some rd"
    by (simp add: merge_phase_one_def nodes)
  let ?mp = "merge_params_of mw s a sim oid facts rd"
  have mp: "mp_survivor_uuid ?mp = s" "mp_absorbed_uuid ?mp = a" "mp_expected_fact_uuids ?mp = facts"
    by (simp_all add: merge_params_of_def Let_def)
  have "merge_guard ?mp rd g sn an"
    unfolding merge_guard_def mp
    using mutable_when_eligible [OF ok nodes(1,2) allowed] provenance_guard_unchanged [OF one nodes(1,2)] m
      fact_guard_of_snapshot [OF moved_facts_agree [OF ok texts nodes snap]]
    facts by (auto simp: mergeable_def fact_set_guard_def [of None])
  moreover obtain g' where "delete_node (gn_id an) (map gr_id (filter (incident (gn_id an)) (g_rels g))) (rewire ?mp sn an g) = Inr g'"
    using delete_succeeds [OF rewire_clear [OF ok ids(2,1)]] m by (auto simp: mergeable_def)
  ultimately have "merge_phase_two ?mp rd g = (g', Inr (Some (merge_counts g sn an)))"
    by (simp add: merge_phase_two_def mp nodes)
  then show ?thesis
    using allowed one by (simp add: merge_entity_def merge_entity_among_def merge_counts_def connected_calls [OF net])
qed

section \<open>The saga commits\<close>

lemma insert_locks_free:
  "distinct (map lk_entity_uuid ls) \<Longrightarrow> lk_entity_uuid ` set ls \<inter> lk_entity_uuid ` set locks = {} \<Longrightarrow>
     \<exists>out. insert_locks ls locks = Some out"
  by (induction ls arbitrary: locks) auto

definition pair_unfenced :: "merge_call \<Rightarrow> journal \<Rightarrow> bool" where
  "pair_unfenced c j \<longleftrightarrow>
     gate_open (mc_epoch c) (mc_gate c)
     \<and> list_all (\<lambda>q. op_id q \<noteq> mc_op_id c
          \<and> \<not> (operation_kind q = ''ENTITY_MERGE'' \<and> unresolved q
               \<and> target_key q = Some (pair_key (mc_survivor_uuid c) (mc_absorbed_uuid c)))) (j_ops j)
     \<and> list_all (\<lambda>l. lk_entity_uuid l \<notin> {mc_survivor_uuid c, mc_absorbed_uuid c}) (j_locks j)"

lemma merge_participants:
  assumes "json_ok (sv_json sv)"
  shows "participants_from_request_json (sv_runtime sv) (js_loads (sv_json sv)) ''ENTITY_MERGE''
      (js_canonical (sv_json sv) (merge_request sv oid s a sim now raw st)) \<in> {[], [s], [a], [s, a]}"
proof -
  have "js_loads (sv_json sv) (js_canonical (sv_json sv) (merge_request sv oid s a sim now raw st))
      = Some (PMap (sort_members [(''op_id'', PStr oid), (''survivor_uuid'', PStr s), (''absorbed_uuid'', PStr a), (''similarity'', PFloat sim),
           (''requested_at'', PStr (ct_iso (sv_clock sv) now)),
           (''expected_before_sha256'', PStr (merge_state_fingerprint sv st)),
           (''expected_fact_uuids'', (case snapshot_fact_uuids sv (Some raw) s of None \<Rightarrow> PNone | Some us \<Rightarrow> PList (map PStr us)))]))"
    using assms by (simp add: json_ok_def merge_request_def sort_doc_PMap del: sort_doc.simps(2))
  then show ?thesis
    by (auto simp: participants_from_request_json_def participant_uuids_def PARTICIPANT_KINDS_def PARTICIPANT_PAIR_KINDS_def
        dict_get_sort_members py_str_def py_truthy_def)
qed

lemma merge_prepares:
  assumes js: "json_ok (sv_json sv)" and free: "pair_unfenced c j" and ne: "mc_survivor_uuid c \<noteq> mc_absorbed_uuid c"
    and req: "request = merge_request sv (mc_op_id c) (mc_survivor_uuid c) (mc_absorbed_uuid c) (mc_similarity c) (mc_now c) raw before"
  shows "\<exists>j'. saga_prepare sv c request raw j = (j', Inr (mc_op_id c))"
proof -
  let ?s = "mc_survivor_uuid c" and ?a = "mc_absorbed_uuid c"
  let ?args = "merge_prepare_args sv (mc_op_id c) ?s ?a request raw"
  let ?ps = "participants_from_request_json (sv_runtime sv) (js_loads (sv_json sv)) ''ENTITY_MERGE'' (js_canonical (sv_json sv) request)"
  have "?ps \<in> {[], [?s], [?a], [?s, ?a]}"
    unfolding req by (rule merge_participants [OF js])
  then have "distinct (map lk_entity_uuid (participant_locks (sv_clock sv) (mc_now c) ?args ?ps))
      \<and> lk_entity_uuid ` set (participant_locks (sv_clock sv) (mc_now c) ?args ?ps) \<inter> lk_entity_uuid ` set (j_locks j) = {}"
    using ne free by (auto simp: participant_locks_def pair_unfenced_def list_all_iff)
  then obtain locks where "insert_locks (participant_locks (sv_clock sv) (mc_now c) ?args ?ps) (j_locks j) = Some locks"
    using insert_locks_free by blast
  moreover have "\<not> list_ex (row_conflict (prepared_row (sv_clock sv) (mc_now c) ?args)) (j_ops j)"
    using free by (auto simp: list_ex_iff row_conflict_def pair_unfenced_def list_all_iff prepared_row_def merge_prepare_args_def)
  moreover have "''ENTITY_MERGE'' \<in> set OPERATION_KINDS" "gate_open (mc_epoch c) (mc_gate c)"
    using free by (simp_all add: OPERATION_KINDS_def pair_unfenced_def)
  ultimately show ?thesis
    by (simp add: saga_prepare_def prepare_def merge_prepare_args_def Let_def)
qed

lemma snapshot_facts:
  assumes js: "json_ok (sv_json sv)" and dr: "driver_ok (sv_driver sv)" and na: "node_ok (sv_driver sv) na"
    and raw: "snapshot_dumps (sv_json sv) (build_snapshot (sv_driver sv) (sv_json sv) x (encode_node (sv_driver sv) na) sim) e = Inr raw"
  shows "snapshot_fact_uuids sv (Some raw) s = None \<or> snapshot_fact_uuids sv (Some raw) s = Some (moved_fact_uuids s na)"
proof -
  have "stored_node (sv_driver sv) (sv_json sv) ''absorbed'' raw = Inr (sort_node na)"
    using stored_node_build [OF js raw] node_roundtrip [OF dr na] by simp
  then show ?thesis
    by (simp add: snapshot_fact_uuids_def or_empty_def moved_fact_uuids_sort_node)
qed

lemma saga_merge_completes:
  assumes net: "connected mw" and fe: "fingerprints_exact sv" and js: "json_ok (sv_json sv)" and dr: "driver_ok (sv_driver sv)" "mw_driver mw = sv_driver sv"
    and g: "pgraph_ok g" "uuid_texts g" "mergeable (mc_survivor_uuid c) (mc_absorbed_uuid c) g sn an"
    and snaps: "node_snapshot (sv_driver sv) g (mc_survivor_uuid c) = Some ns" "node_snapshot (sv_driver sv) g (mc_absorbed_uuid c) = Some na"
      "node_ok (sv_driver sv) na"
    and fits: "snapshot_size_bytes (sv_json sv) (build_snapshot (sv_driver sv) (sv_json sv) (encode_node (sv_driver sv) ns)
        (encode_node (sv_driver sv) na) (Some (mc_similarity c))) \<le> MAX_SNAPSHOT_BYTES"
    and free: "pair_unfenced c j"
  shows "\<exists>request raw before j1 g' j' m r. saga_prepared sv (graph_adapter mw (sv_json sv)) c (g, j) = Some (request, raw, before, j1)
    \<and> saga_merge sv (graph_adapter mw (sv_json sv)) c (g, j) = ((g', j'), Inr (Applied m (mc_op_id c)))
    \<and> get_op (mc_op_id c) j' = Some r \<and> op_state r = COMMITTED
    \<and> shows_merge (fetch_merge_state (mc_survivor_uuid c) (mc_absorbed_uuid c) g')"
proof -
  let ?ad = "graph_adapter mw (sv_json sv)" and ?s = "mc_survivor_uuid c" and ?a = "mc_absorbed_uuid c" and ?oid = "mc_op_id c"
  let ?snap = "build_snapshot (sv_driver sv) (sv_json sv) (encode_node (sv_driver sv) ns) (encode_node (sv_driver sv) na) (Some (mc_similarity c))"
  define raw where "raw = js_canonical (sv_json sv) ?snap"
  define before where "before = fetch_merge_state ?s ?a g"
  define request where "request = merge_request sv ?oid ?s ?a (mc_similarity c) (mc_now c) raw before"
  have dumped: "snapshot_dumps (sv_json sv) ?snap True = Inr raw"
    using fits by (simp add: snapshot_dumps_def raw_def)
  have allowed: "me_allowed (graph_eligibility ?s ?a g)" and nodes: "entities ?a g = [an]"
    using g(3) by (simp_all add: mergeable_def)
  have "?s \<noteq> ?a"
    using allowed evaluate_same by (auto simp: graph_eligibility_def)
  then obtain j1 where j1: "saga_prepare sv c request raw j = (j1, Inr ?oid)"
    using merge_prepares [OF js free _ request_def] by blast
  have prep: "saga_prepared sv ?ad c (g, j) = Some (request, raw, before, j1)"
    using allowed snaps(1,2) dr(2) dumped j1
    by (simp add: saga_prepared_def graph_adapter_def saga_snapshot_def capture_merge_snapshot_def capture_node_state_def
        before_def request_def connected_calls [OF net])
  obtain r where r: "get_op ?oid j1 = Some r" "owned_row sv r" "before_snapshot_json r = Some raw"
      "expected_after_sha256 r = Some (merge_state_fingerprint sv (merged_state ?oid))"
      "request_ids sv request = Inr (?oid, ?s, ?a)"
    by (rule saga_run_prepared [OF prep])
  have "expected_facts sv request ?oid ?s j1 = None \<or> expected_facts sv request ?oid ?s j1 = Some (moved_fact_uuids ?s na)"
    using snapshot_facts [OF js dr(1) snaps(3) dumped, of ?s] r(1,3)
    by (auto simp: expected_facts_def request_def merge_request_def request_get_def as_dict_def list_of_value_def py_str_def comp_def)
  then obtain g1 m where merged: "merge_entity mw ?s ?a (mc_similarity c) ?oid (expected_facts sv request ?oid ?s j1) g = (g1, Inr m)" "mr_merged m"
    using merge_entity_succeeds [OF net g snaps(2)] by blast
  then have call: "call_merge sv ?ad request ?oid ?s ?a (expected_facts sv request ?oid ?s j1) g = (g1, Inr m)"
    by (simp add: call_merge_def graph_adapter_def request_def merge_request_def request_item_def as_dict_def subscript_def py_float_def)
  have st1: "ad_state ?ad ?s ?a g1 = Inr (fetch_merge_state ?s ?a g1)"
    by (simp add: graph_adapter_def connected_calls [OF net])
  have shows1: "shows_merge (fetch_merge_state ?s ?a g1)"
    using repository.merged [OF g(1), of mw "sv_json sv" ?s ?a "mc_similarity c" ?oid] merged st1
    by (simp add: graph_adapter_def)
  have b: "\<not> shows_merge before" "request_get ''expected_before_sha256'' request = Inr (PStr (merge_state_fingerprint sv before))"
      "ad_state ?ad ?s ?a g = Inr before"
    by (simp_all add: before_def shows_merge_def fetch_merge_state_def nodes request_def merge_request_def request_get_def
        as_dict_def graph_adapter_def connected_calls [OF net])
  have "saga_merge sv ?ad c (g, j)
      = settle (mark_committed ?oid (Some (sv_token sv)) (mc_later c)) (Inr (Applied m ?oid)) (g1, j1)"
    unfolding saga_merge_prepared [OF prep]
    by (rule body_replay [OF fe r(1,4,5) b(2,3,1) call merged(2) st1 shows1])
  moreover obtain j2 r2 where "settle (mark_committed ?oid (Some (sv_token sv)) (mc_later c)) (Inr (Applied m ?oid)) (g1, j1)
      = ((g1, j2), Inr (Applied m ?oid))" "get_op ?oid j2 = Some r2" "op_state r2 = COMMITTED"
    using settle_marks(1) [OF r(1,2), of "mc_later c" "Inr (Applied m ?oid)" g1] by blast
  ultimately show ?thesis
    using prep shows1 by auto
qed

text \<open>
  C15: Liveness. Take a pair the policy allows, on a well-formed graph, with one spelling of the namespace,
  no NaN in its provenance and no self-loop on the absorbed node, whose snapshot fits the limit, and a
  journal in which nothing fences the pair; every statement is answered within the three attempts, after
  transient errors at most. Then the merge saga commits: the survivor is there, the
  absorbed node is gone and the lineage records it.
\<close>

theorem eligible_pair_is_merged:
  assumes "connected mw" and "fingerprints_exact sv" "json_ok (sv_json sv)" "driver_ok (sv_driver sv)" "mw_driver mw = sv_driver sv"
    and "pgraph_ok g" "uuid_texts g" "mergeable (mc_survivor_uuid c) (mc_absorbed_uuid c) g sn an"
    and "node_snapshot (sv_driver sv) g (mc_survivor_uuid c) = Some ns" "node_snapshot (sv_driver sv) g (mc_absorbed_uuid c) = Some na"
      "node_ok (sv_driver sv) na"
    and "snapshot_size_bytes (sv_json sv) (build_snapshot (sv_driver sv) (sv_json sv) (encode_node (sv_driver sv) ns)
        (encode_node (sv_driver sv) na) (Some (mc_similarity c))) \<le> MAX_SNAPSHOT_BYTES"
    and "pair_unfenced c j"
  shows "\<exists>g' j' m r. saga_merge sv (graph_adapter mw (sv_json sv)) c (g, j) = ((g', j'), Inr (Applied m (mc_op_id c)))
    \<and> get_op (mc_op_id c) j' = Some r \<and> op_state r = COMMITTED
    \<and> shows_merge (fetch_merge_state (mc_survivor_uuid c) (mc_absorbed_uuid c) g')"
  using saga_merge_completes [OF assms] by blast

end
