(* ===== verification/Saga_Examples.thy ===== *)
theory Saga_Examples
  imports Merge_Liveness Merge_Examples
begin

text \<open>
  The merge saga on a small graph: a survivor, an absorbed entity with one fact, and the peer of that
  fact. A process with an injective digest runs it on an empty journal; every hypothesis of the
  theorems about the saga and its graph statements holds here.
\<close>

section \<open>A process\<close>

definition exact_driver :: "string driver" where
  "exact_driver = plain_driver\<lparr>dr_sha256 := \<lambda>t. t\<rparr>"

lemma exact_driver_ok: "driver_ok exact_driver"
  using plain_driver_ok by (simp add: driver_ok_def exact_driver_def)

definition sample_process :: "string saga_env" where
  "sample_process = \<lparr>sv_driver = exact_driver, sv_json = prefix_json, sv_clock = binary_clock, sv_host = sample_host\<rparr>"

lemma sample_process_simps [simp]:
  "sv_driver sample_process = exact_driver" "sv_json sample_process = prefix_json" "sv_host sample_process = sample_host"
  by (simp_all add: sample_process_def)

lemma put_doc_inject: "put_doc v = put_doc w \<Longrightarrow> v = w"
  using get_put_doc [of v _ "[]"] get_put_doc [of w _ "[]"] by (metis fst_conv le_refl option.inject)

lemma put_doc_not_Nil: "put_doc v \<noteq> []"
  by (cases v) simp_all

lemma sample_fingerprints_exact: "fingerprints_exact sample_process"
proof -
  let ?doc = "\<lambda>st. PMap (sort_members [(''survivor_present'', PBool (st_survivor_present st)),
      (''absorbed_present'', PBool (st_absorbed_present st)), (''lineage_recorded'', PBool (st_lineage_recorded st))])"
  have fp: "merge_state_fingerprint sample_process st = put_doc (?doc st)" for st
    by (simp add: merge_state_fingerprint_def exact_driver_def prefix_json_def sort_doc_PMap del: sort_doc.simps)
  have "st_survivor_present st = st_survivor_present st' \<and> st_absorbed_present st = st_absorbed_present st'
      \<and> st_lineage_recorded st = st_lineage_recorded st'"
    if "?doc st = ?doc st'" for st st'
  proof -
    have *: "dict_get k (sort_members d) = dict_get k (sort_members d')" if "PMap (sort_members d) = PMap (sort_members d')" for k d d'
      using that by simp
    show ?thesis
      using * [OF that, of "''survivor_present''"] * [OF that, of "''absorbed_present''"] * [OF that, of "''lineage_recorded''"]
      unfolding dict_get_sort_members by (simp add: dict_get_def)
  qed
  then show ?thesis
    using put_doc_inject put_doc_not_Nil unfolding fingerprints_exact_def fp by blast
qed

definition sample_merge_world :: "string merge_world" where
  "sample_merge_world = \<lparr>mw_driver = exact_driver, mw_dumps = put_doc, mw_snapshot_at = [], mw_datetime = NStr ''now'',
     mw_attempts = (\<lambda>_ _ _. Answered)\<rparr>"

section \<open>A graph\<close>

definition sample_node :: "nat \<Rightarrow> string \<Rightarrow> string gnode" where
  "sample_node i u = \<lparr>gn_id = i, gn_labels = [''Entity''], gn_props = [(''uuid'', NStr u)]\<rparr>"

definition sample_fact :: "nat \<Rightarrow> nat \<Rightarrow> nat \<Rightarrow> string grel" where
  "sample_fact i st en = \<lparr>gr_id = i, gr_type = ''RELATES_TO'', gr_start = st, gr_end = en,
     gr_props = [(''uuid'', NStr ''f''), (''fact'', NStr ''x'')]\<rparr>"

definition sample_graph :: "string pgraph" where
  "sample_graph = \<lparr>g_nodes = [sample_node 0 ''s'', sample_node 1 ''a'', sample_node 2 ''p''], g_rels = [sample_fact 0 1 2]\<rparr>"

definition looped_graph :: "string pgraph" where
  "looped_graph = sample_graph\<lparr>g_rels := [sample_fact 0 1 1]\<rparr>"

definition sample_call :: merge_call where
  "sample_call = \<lparr>mc_gate = No_Such_Table, mc_epoch = 0, mc_now = 0, mc_later = ''t'', mc_op_id = ''o'',
     mc_survivor_uuid = ''s'', mc_absorbed_uuid = ''a'', mc_similarity = Finite 1\<rparr>"

lemma sample_call_simps [simp]:
  "mc_op_id sample_call = ''o''" "mc_survivor_uuid sample_call = ''s''" "mc_absorbed_uuid sample_call = ''a''"
  "mc_similarity sample_call = Finite 1" "mc_later sample_call = ''t''"
  by (simp_all add: sample_call_def)

abbreviation sample_adapter :: "string pgraph merge_adapter" where
  "sample_adapter \<equiv> graph_adapter sample_merge_world prefix_json"

lemma sample_graph_ok: "pgraph_ok sample_graph" "pgraph_ok looped_graph"
  by (simp_all add: pgraph_ok_def sample_graph_def looped_graph_def sample_node_def sample_fact_def node_prop_def neo_get_def node_ids_def)

lemma sample_graph_texts: "uuid_texts sample_graph"
  by code_simp

lemma sample_mergeable: "mergeable ''s'' ''a'' sample_graph (sample_node 0 ''s'') (sample_node 1 ''a'')"
  by code_simp

lemma sample_unfenced: "pair_unfenced sample_call empty_journal"
  by code_simp

definition sample_survivor_state :: "string node_state" where
  "sample_survivor_state = \<lparr>nst_uuid = ''s'', nst_labels = [''Entity''], nst_properties = [(''uuid'', NStr ''s'')],
     nst_relationships = []\<rparr>"

definition sample_absorbed_state :: "string node_state" where
  "sample_absorbed_state = \<lparr>nst_uuid = ''a'', nst_labels = [''Entity''], nst_properties = [(''uuid'', NStr ''a'')],
     nst_relationships = [capture_rel exact_driver sample_graph 1 (sample_fact 0 1 2)]\<rparr>"

lemma sample_states:
  "node_snapshot exact_driver sample_graph ''s'' = Some sample_survivor_state"
  "node_snapshot exact_driver sample_graph ''a'' = Some sample_absorbed_state"
  by (simp_all add: node_snapshot_def sample_survivor_state_def sample_absorbed_state_def sample_graph_def sample_node_def
      sample_fact_def node_prop_def neo_get_def incident_def)

lemma sample_states_ok: "node_ok exact_driver sample_survivor_state" "node_ok exact_driver sample_absorbed_state"
  by (simp_all add: node_ok_def props_ok_def sample_survivor_state_def sample_absorbed_state_def capture_rel_def sample_fact_def Let_def)

lemma sample_saga_size:
  "length (put_doc (sort_doc (build_snapshot exact_driver prefix_json (encode_node exact_driver sample_survivor_state)
       (encode_node exact_driver sample_absorbed_state) (Some (Finite 1))))) < 3000"
  by code_simp

lemma sample_saga_fits:
  "snapshot_size_bytes prefix_json (build_snapshot exact_driver prefix_json (encode_node exact_driver sample_survivor_state)
       (encode_node exact_driver sample_absorbed_state) (Some (Finite 1))) \<le> MAX_SNAPSHOT_BYTES"
  using sample_saga_size by (simp add: snapshot_size_bytes_def MAX_SNAPSHOT_BYTES_def prefix_json_def)

section \<open>The saga runs\<close>

lemma sample_world_driver: "mw_driver sample_merge_world = exact_driver"
  by (simp add: sample_merge_world_def)

lemma sample_setting:
  "json_ok (sv_json sample_process)" "driver_ok (sv_driver sample_process)" "mw_driver sample_merge_world = sv_driver sample_process"
  "mergeable (mc_survivor_uuid sample_call) (mc_absorbed_uuid sample_call) sample_graph (sample_node 0 ''s'') (sample_node 1 ''a'')"
  "node_snapshot (sv_driver sample_process) sample_graph (mc_survivor_uuid sample_call) = Some sample_survivor_state"
  "node_snapshot (sv_driver sample_process) sample_graph (mc_absorbed_uuid sample_call) = Some sample_absorbed_state"
  "node_ok (sv_driver sample_process) sample_survivor_state" "node_ok (sv_driver sample_process) sample_absorbed_state"
  "snapshot_size_bytes (sv_json sample_process) (build_snapshot (sv_driver sample_process) (sv_json sample_process)
     (encode_node (sv_driver sample_process) sample_survivor_state) (encode_node (sv_driver sample_process) sample_absorbed_state)
     (Some (mc_similarity sample_call))) \<le> MAX_SNAPSHOT_BYTES"
  by (simp_all only: sample_process_simps sample_call_simps sample_world_driver prefix_json_ok exact_driver_ok sample_mergeable
      sample_states sample_states_ok sample_saga_fits)

lemma sample_connected: "connected sample_merge_world"
  by (simp add: connected_def recovers_def sample_merge_world_def TRANSIENT_RETRIES_def upt_rec)

lemmas sample_completes = sample_connected sample_fingerprints_exact sample_setting(1-3) sample_graph_ok(1) sample_graph_texts sample_setting(4-6,8,9)
  sample_unfenced

lemma sample_saga_run:
  obtains request raw before j1 g' j' m r where
    "saga_prepared sample_process (graph_adapter sample_merge_world (sv_json sample_process)) sample_call (sample_graph, empty_journal)
       = Some (request, raw, before, j1)"
    "saga_merge sample_process (graph_adapter sample_merge_world (sv_json sample_process)) sample_call (sample_graph, empty_journal)
       = ((g', j'), Inr (Applied m (mc_op_id sample_call)))"
  using saga_merge_completes [OF sample_completes] by blast

lemma saga_prepared_distinct:
  assumes "saga_prepared sv ad c (g, j) = Some (request, raw, before, j1)" and "distinct (map op_id (j_ops j))"
  shows "distinct (map op_id (j_ops j1))"
proof -
  obtain u where "saga_prepare sv c request raw j = (j1, Inr u)"
    using assms(1) by (auto simp: saga_prepared_def Let_def split: sum.splits if_splits prod.splits)
  then show ?thesis
    using assms(2) by (auto simp: saga_prepare_def row_conflict_def elim!: prepare_cases)
qed

theorem eligible_pair_is_merged_witness:
  "\<exists>g' j' m r. saga_merge sample_process sample_adapter sample_call (sample_graph, empty_journal) = ((g', j'), Inr (Applied m ''o''))
     \<and> get_op ''o'' j' = Some r \<and> op_state r = COMMITTED \<and> shows_merge (fetch_merge_state ''s'' ''a'' g')"
  using eligible_pair_is_merged [OF sample_completes] unfolding sample_process_simps sample_call_simps .

theorem merge_replays_exactly_once_witness:
  "\<exists>g1 j1 rc j3. replay_prepared_row sample_process sample_adapter ''later'' rc (sample_graph, j1) = ((g1, j3), Inr Replayed)
     \<and> replay_prepared_row sample_process sample_adapter ''later'' rc (g1, j3) = ((g1, j3), Inr Replayed)"
proof -
  obtain request raw before j1 g' j' m r where
    run: "saga_prepared sample_process (graph_adapter sample_merge_world (sv_json sample_process)) sample_call (sample_graph, empty_journal)
       = Some (request, raw, before, j1)"
      "saga_merge sample_process (graph_adapter sample_merge_world (sv_json sample_process)) sample_call (sample_graph, empty_journal)
       = ((g', j'), Inr (Applied m (mc_op_id sample_call)))"
    by (rule sample_saga_run)
  obtain rc where rc: "get_op (mc_op_id sample_call) j1 = Some rc" "owned_row sample_process rc"
    by (rule saga_run_prepared [OF run(1)])
  have same: "sample_process\<lparr>sv_host := sample_host\<rparr> = sample_process"
    by (simp add: sample_process_def)
  have d: "distinct (map op_id (j_ops j1))"
    by (rule saga_prepared_distinct [OF run(1)]) (simp add: empty_journal_def)
  have "map_option frozen (get_op (mc_op_id sample_call) j1) = Some (frozen rc)" "owned_row (sample_process\<lparr>sv_host := sample_host\<rparr>) rc"
    unfolding same using rc by simp_all
  from merge_replays_exactly_once [OF sample_fingerprints_exact sample_setting(1) run d rc(1) this, of "''later''"]
  show ?thesis
    unfolding same sample_process_simps list.pred_inject by blast
qed

theorem committed_merge_has_durable_inverse_witness:
  "\<exists>g' j' m r raw. saga_merge sample_process sample_adapter sample_call (sample_graph, empty_journal) = ((g', j'), Inr (Applied m ''o''))
     \<and> get_op ''o'' j' = Some r \<and> op_state r = COMMITTED \<and> before_snapshot_json r = Some raw
     \<and> stored_node exact_driver prefix_json ''absorbed'' raw = Inr (sort_node sample_absorbed_state)"
proof -
  obtain request raw before j1 g' j' m r where
    run: "saga_merge sample_process (graph_adapter sample_merge_world (sv_json sample_process)) sample_call (sample_graph, empty_journal)
       = ((g', j'), Inr (Applied m (mc_op_id sample_call)))"
    by (rule sample_saga_run)
  from committed_merge_has_durable_inverse [OF sample_fingerprints_exact sample_graph_ok(1) sample_setting(1-3) run sample_setting(5,7,6,8)]
  show ?thesis
    using run unfolding sample_process_simps sample_call_simps by blast
qed

text \<open>The connection is lost after the server committed the mutation.\<close>

definition lossy_world :: "string merge_world" where
  "lossy_world = sample_merge_world\<lparr>mw_attempts :=
     (\<lambda>call _ _. if call = Merge_Write then Connection_Lost True (RuntimeError ''SessionExpired'') else Answered)\<rparr>"

lemma lossy_query: "call \<noteq> Merge_Write \<Longrightarrow> query lossy_world call f = query sample_merge_world call f"
  by (rule ext) (simp add: query_def lossy_world_def sample_merge_world_def)

lemma lossy_mutate: "mutate lossy_world Merge_Write stmt g = (fst (stmt g), Inl (RuntimeError ''SessionExpired''))"
  by (simp add: mutate_def execute_def lossy_world_def TRANSIENT_RETRIES_def numeral_3_eq_3)

lemma lossy_merge:
  assumes "merge_entity sample_merge_world s a sim oid facts g = (h, Inr r)" "mr_merged r"
  shows "merge_entity lossy_world s a sim oid facts g = (h, Inl (RuntimeError ''SessionExpired''))"
  using assms(1)
proof (cases rule: merge_entity_cases)
  case (merged snap r')
  have same: "mw_driver lossy_world = mw_driver sample_merge_world"
      "merge_params_of lossy_world s a sim oid facts snap = merge_params_of sample_merge_world s a sim oid facts snap"
    by (simp_all add: lossy_world_def merge_params_of_def)
  show ?thesis
    using merged by (simp add: merge_entity_def merge_entity_among_def lossy_query lossy_mutate connected_calls [OF sample_connected] same)
qed (use assms(2) in auto)

theorem merge_saga_in_step_witness:
  "\<exists>g' j' e r. saga_merge sample_process (graph_adapter lossy_world prefix_json) sample_call (sample_graph, empty_journal)
       = ((g', j'), Inl (Raised e))
     \<and> shows_merge (fetch_merge_state ''s'' ''a'' g') \<and> get_op ''o'' j' = Some r \<and> op_state r = PREPARED"
proof -
  obtain request raw before j1 g1 j2 m where
    prep: "saga_prepared sample_process sample_adapter sample_call (sample_graph, empty_journal) = Some (request, raw, before, j1)"
    and run: "saga_merge sample_process sample_adapter sample_call (sample_graph, empty_journal)
       = ((g1, j2), Inr (Applied m (mc_op_id sample_call)))"
    using saga_merge_completes [OF sample_completes] unfolding sample_process_simps by blast
  have lossy: "graph_adapter lossy_world prefix_json = sample_adapter\<lparr>ad_merge := merge_entity lossy_world\<rparr>"
    by (simp add: graph_adapter_def lossy_query) (simp add: lossy_world_def)
  have lost: "merge_entity lossy_world ''s'' ''a'' (Finite 1) ''o'' facts sample_graph = (g1, Inl (RuntimeError ''SessionExpired''))"
    if "ad_merge sample_adapter ''s'' ''a'' (Finite 1) ''o'' facts sample_graph = (g1, Inr m)" "mr_merged m" for facts
    using that lossy_merge by (simp add: graph_adapter_def)
  obtain j3 where silent: "saga_merge sample_process (graph_adapter lossy_world prefix_json) sample_call (sample_graph, empty_journal)
      = ((g1, j3), Inl (Raised (RuntimeError ''SessionExpired'')))" "g1 \<noteq> sample_graph"
    using unacknowledged_run [OF sample_fingerprints_exact prep run, of "merge_entity lossy_world"] lost
    unfolding lossy sample_call_simps by blast
  from merge_saga_in_step [OF sample_fingerprints_exact sample_graph_ok(1) silent(1)]
  show ?thesis
    using silent unfolding sample_call_simps by auto
qed

section \<open>The graph statements run\<close>

lemma sample_merge:
  obtains g' r where "merge_entity sample_merge_world ''s'' ''a'' (Finite 1) ''o'' None sample_graph = (g', Inr r)" "mr_merged r"
  using merge_entity_succeeds [OF sample_connected sample_graph_ok(1) sample_graph_texts sample_mergeable sample_states(2), of None] by blast

lemma sample_entities:
  "entities ''s'' sample_graph = [sample_node 0 ''s'']" "entities ''a'' sample_graph = [sample_node 1 ''a'']"
  "entities ''s'' looped_graph = [sample_node 0 ''s'']" "entities ''a'' looped_graph = [sample_node 1 ''a'']"
  by (simp_all add: entities_def sample_graph_def looped_graph_def sample_node_def has_label_def node_prop_def neo_get_def)

lemma sample_moved: "moved_facts sample_graph (sample_node 0 ''s'') (sample_node 1 ''a'') = [sample_fact 0 1 2]"
  by code_simp

theorem merge_accounts_for_every_fact_witness:
  "\<exists>g' r. merge_entity sample_merge_world ''s'' ''a'' (Finite 1) ''o'' None sample_graph = (g', Inr r) \<and> pgraph_ok g'
     \<and> mset (map fact_view (filter fact_edge (g_rels g'))) = {#(NStr ''f'', NStr ''x'', 0, 2)#} \<and> mr_facts_moved r = 1"
proof -
  obtain g' r where run: "merge_entity sample_merge_world ''s'' ''a'' (Finite 1) ''o'' None sample_graph = (g', Inr r)" "mr_merged r"
    by (rule sample_merge)
  have "map fact_view (filter (\<lambda>e. fact_edge e \<and> \<not> incident (gn_id (sample_node 1 ''a'')) e) (g_rels sample_graph)) = []"
      "map (moved_view (sample_node 0 ''s'') (sample_node 1 ''a'')) [sample_fact 0 1 2] = [(NStr ''f'', NStr ''x'', 0, 2)]"
    by code_simp+
  then show ?thesis
    using merge_accounts_for_every_fact [OF sample_graph_ok(1) run] run by (auto simp: sample_entities sample_moved simp del: One_nat_def mset_map mset_filter)
qed

theorem merge_writes_what_unmerge_expects_witness:
  "\<exists>g' current. fetch_survivor_properties exact_driver ''s'' g' = Some current
     \<and> survivor_matches_merge_output (dr_runtime exact_driver) current (encode_map exact_driver [(''uuid'', NStr ''s'')])
         (encode_map exact_driver [(''uuid'', NStr ''a'')]) = Inr (True, [])"
proof -
  obtain g' r where run: "merge_entity sample_merge_world ''s'' ''a'' (Finite 1) ''o'' None sample_graph = (g', Inr r)" "mr_merged r"
    by (rule sample_merge)
  have "text_props (sample_node 0 ''s'')" "text_props (sample_node 1 ''a'')" "exact_driver = mw_driver sample_merge_world"
    by (simp_all add: text_props_def sample_node_def node_prop_def neo_get_def sample_merge_world_def)
  from merge_writes_what_unmerge_expects [OF sample_graph_ok(1) run sample_entities(1,2) this] show ?thesis
    by (auto simp: sample_node_def)
qed

theorem concurrent_writes_are_not_overwritten_witness:
  "\<exists>g' res. merge_entity_among (\<lambda>g. g) (\<lambda>g. g\<lparr>g_nodes := tl (g_nodes g)\<rparr>) sample_merge_world ''s'' ''a'' (Finite 1) ''o'' None sample_graph = (g', res)
     \<and> g' \<in> {sample_graph, sample_graph\<lparr>g_nodes := tl (g_nodes sample_graph)\<rparr>}"
proof -
  let ?w = "\<lambda>g. g\<lparr>g_nodes := tl (g_nodes g)\<rparr>"
  obtain g' res where run: "merge_entity_among (\<lambda>g. g) ?w sample_merge_world ''s'' ''a'' (Finite 1) ''o'' None sample_graph = (g', res)"
    by (meson surj_pair)
  have "entities ''s'' (?w sample_graph) = []"
    by (simp add: entities_def sample_graph_def sample_node_def has_label_def node_prop_def neo_get_def)
  then show ?thesis
    using concurrent_writes_are_not_overwritten [OF run] run by (auto split: if_splits)
qed

theorem self_loop_blocks_merge_witness:
  "\<exists>g' res. merge_entity sample_merge_world ''s'' ''a'' (Finite 1) ''o'' None looped_graph = (g', res)
     \<and> g' = looped_graph \<and> \<not> (\<exists>r. res = Inr r \<and> mr_merged r)"
proof -
  obtain g' res where run: "merge_entity sample_merge_world ''s'' ''a'' (Finite 1) ''o'' None looped_graph = (g', res)"
    by (meson surj_pair)
  have "sample_fact 0 1 1 \<in> set (g_rels looped_graph)" "gr_start (sample_fact 0 1 1) = gn_id (sample_node 1 ''a'')"
      "gr_end (sample_fact 0 1 1) = gn_id (sample_node 1 ''a'')" "gr_type (sample_fact 0 1 1) \<noteq> ''ANCHORED_TO''"
      "node_prop ''structure_role'' (sample_node 1 ''a'') = NNone"
      "list_all (\<lambda>r. \<not> (gr_type r = ''RELATES_TO'' \<and> gr_start r = gn_id (sample_node 0 ''s'') \<and> gr_end r = gn_id (sample_node 1 ''a'')))
         (g_rels looped_graph)"
    by (simp_all add: looped_graph_def sample_fact_def sample_node_def node_prop_def neo_get_def)
  from self_loop_blocks_merge [OF sample_graph_ok(2) sample_entities(3,4) this run] show ?thesis
    using run by blast
qed

theorem fact_predicates_agree_witness:
  "mset (map NStr (moved_fact_uuids ''s'' sample_absorbed_state))
     = mset (map (rel_prop ''uuid'') (moved_facts sample_graph (sample_node 0 ''s'') (sample_node 1 ''a'')))"
  by (rule fact_predicates_agree [OF sample_graph_ok(1) sample_graph_texts sample_entities(1,2) _ sample_states(2)]) simp

section \<open>Forecasts\<close>

text \<open>The row a merge prepared is forecast for replay, and a replay runs the merge.\<close>

theorem forecast_matches_replay_witness:
  "\<exists>rc j1 g' j' outcome. classify_prepared_row sample_process sample_adapter rc sample_graph j1 = Inr Would_Replay
     \<and> replay_prepared_row sample_process sample_adapter ''later'' rc (sample_graph, j1) = ((g', j'), Inr outcome)
     \<and> runs_merge sample_process sample_adapter rc sample_graph j1 g' outcome (map_option op_state (get_op (op_id rc) j'))"
proof -
  obtain request raw before j1 g1 j2 m r where
    prep: "saga_prepared sample_process sample_adapter sample_call (sample_graph, empty_journal) = Some (request, raw, before, j1)"
    using saga_merge_completes [OF sample_completes] unfolding sample_process_simps by blast
  then have "ad_state sample_adapter (mc_survivor_uuid sample_call) (mc_absorbed_uuid sample_call) sample_graph = Inr before"
    by (rule saga_prepared_row)
  then have "before = fetch_merge_state ''s'' ''a'' sample_graph"
    by (simp add: graph_adapter_def connected_calls [OF sample_connected] sample_call_simps)
  then have fresh: "\<not> shows_merge before"
    by (simp add: shows_merge_def fetch_merge_state_def sample_entities)
  obtain rc where rc: "get_op (op_id rc) j1 = Some rc" "op_id rc = mc_op_id sample_call" "owned_row sample_process rc"
      "own_request sample_process rc" "classify_prepared_row sample_process sample_adapter rc sample_graph j1 = Inr Would_Replay"
    by (rule prepared_row_forecast [OF sample_fingerprints_exact sample_setting(1) prep fresh])
  obtain g' j' res where run: "replay_prepared_row sample_process sample_adapter ''later'' rc (sample_graph, j1) = ((g', j'), res)"
    by (metis surj_pair)
  have "outage_only sample_adapter sample_graph"
    by (simp add: outage_only_def graph_adapter_def connected_calls [OF sample_connected])
  from forecast_matches_replay [OF rc(1,3,4) this rc(5) run] show ?thesis
    using rc(5) run by blast
qed

end
