(* ===== verification/Unmerge_Inverse.thy ===== *)
theory Unmerge_Inverse
  imports Merge_Liveness
begin

text \<open>
  A merge and its restore on the graph: what the restore statement does to the relationships of a
  merged graph, counted with multiplicity, and what it writes on the two nodes.
\<close>

section \<open>Views of relationships\<close>

text \<open>A relationship without its element id: type, ends and the value of every property.\<close>

type_synonym 't edge_view = "string \<times> nat \<times> nat \<times> (string \<Rightarrow> 't neo_value)"

definition edge_view :: "'t grel \<Rightarrow> 't edge_view" where
  "edge_view r = (gr_type r, gr_start r, gr_end r, \<lambda>k. rel_prop k r)"

definition views :: "'t pgraph \<Rightarrow> 't edge_view multiset" where
  "views g = mset (map edge_view (g_rels g))"

definition far_view :: "nat \<Rightarrow> 't edge_view \<Rightarrow> bool" where
  "far_view i v \<longleftrightarrow> (case v of (_, st, en, _) \<Rightarrow> st \<noteq> i \<and> en \<noteq> i)"

lemma far_view_rel: "far_view i (edge_view r) \<longleftrightarrow> \<not> incident i r"
  by (auto simp: far_view_def edge_view_def incident_def)

lemma views_add_rel: "views (add_rel ty st en ps g) = add_mset (ty, st, en, \<lambda>k. neo_get k ps) (views g)"
  by (simp add: views_def add_rel_def edge_view_def rel_prop_def)

lemma g_rels_update_node [simp]: "g_rels (update_node i f g) = g_rels g"
  by (simp add: update_node_def)

lemma views_update_node [simp]: "views (update_node i f g) = views g"
  by (simp add: views_def)

lemma views_filter:
  assumes "\<And>r. r \<in> set rs \<Longrightarrow> P r \<longleftrightarrow> Q (edge_view r)"
  shows "mset (map edge_view (filter P rs)) = filter_mset Q (mset (map edge_view rs))"
  using assms by (induction rs) auto

section \<open>The relationships of a merged graph\<close>

text \<open>An end property rewritten to \<open>u\<close> where it is present.\<close>

definition turned :: "bool \<Rightarrow> 't neo_value \<Rightarrow> (string \<Rightarrow> 't neo_value) \<Rightarrow> string \<Rightarrow> 't neo_value" where
  "turned out u f k =
     (if k \<in> (if out then {''source_uuid'', ''source_node_uuid''} else {''target_uuid'', ''target_node_uuid''}) \<and> f k \<noteq> NNone
      then u else f k)"

lemma turned_rewrite_end:
  "(\<lambda>k. neo_get k (rewrite_end ''source_node_uuid'' u (rewrite_end ''source_uuid'' u ps))) = turned True u (\<lambda>k. neo_get k ps)"
  "(\<lambda>k. neo_get k (rewrite_end ''target_node_uuid'' u (rewrite_end ''target_uuid'' u ps))) = turned False u (\<lambda>k. neo_get k ps)"
  by (auto simp: turned_def rewrite_end_def neo_get_set_prop fun_eq_iff)

definition copy_view :: "'t gnode \<Rightarrow> 't gnode \<Rightarrow> 't grel \<Rightarrow> 't edge_view" where
  "copy_view sn an f =
     (if gr_start f = gn_id an
      then (''RELATES_TO'', gn_id sn, gr_end f, turned True (node_prop ''uuid'' sn) (\<lambda>k. rel_prop k f))
      else (''RELATES_TO'', gr_start f, gn_id sn, turned False (node_prop ''uuid'' sn) (\<lambda>k. rel_prop k f)))"

lemma views_move_fact: "views (move_fact sn an f g) = add_mset (copy_view sn an f) (views g)"
  by (simp add: move_fact_def Let_def views_add_rel copy_view_def turned_rewrite_end rel_prop_def)

lemma views_moves: "views (fold (move_fact sn an) fs g) = views g + mset (map (copy_view sn an) fs)"
  by (induction fs arbitrary: g) (simp_all add: views_move_fact)

text \<open>What \<^verbatim>\<open>MERGE\<close> adds: one relationship, where none of its type and ends was there.\<close>

definition new_view :: "'t pgraph \<Rightarrow> string \<Rightarrow> nat \<Rightarrow> nat \<Rightarrow> 't props \<Rightarrow> 't edge_view \<Rightarrow> bool" where
  "new_view g ty st en ps v \<longleftrightarrow>
     v = (ty, st, en, \<lambda>k. neo_get k ps) \<and> list_all (\<lambda>r. \<not> (gr_type r = ty \<and> gr_start r = st \<and> gr_end r = en)) (g_rels g)"

lemma views_merge_rel:
  "\<exists>M. views (merge_rel ty st en ps h) = views h + M \<and> (\<forall>v\<in>#M. new_view h ty st en ps v)"
  by (cases "list_ex (\<lambda>r. gr_type r = ty \<and> gr_start r = st \<and> gr_end r = en) (g_rels h)")
    (auto simp: merge_rel_def views_add_rel new_view_def list_all_iff list_ex_iff
      intro: exI [of _ "{#}"] exI [of _ "{#(ty, st, en, \<lambda>k. neo_get k ps)#}"])

lemma new_view_mono: "set (g_rels g) \<subseteq> set (g_rels h) \<Longrightarrow> new_view h ty st en ps v \<Longrightarrow> new_view g ty st en ps v"
  by (auto simp: new_view_def list_all_iff)

lemma set_g_rels_merge_rel: "set (g_rels h) \<subseteq> set (g_rels (merge_rel ty st en ps h))"
  by (auto simp: merge_rel_def add_rel_def)

lemma views_merges:
  "\<exists>M. views (fold (\<lambda>n. merge_rel ty st n ps) ns h) = views h + M \<and> (\<forall>v\<in>#M. \<exists>n\<in>set ns. new_view h ty st n ps v)"
  "\<exists>M. views (fold (\<lambda>n. merge_rel ty n en ps) ns h) = views h + M \<and> (\<forall>v\<in>#M. \<exists>n\<in>set ns. new_view h ty n en ps v)"
proof -
  have gen: "\<exists>M. views (fold (\<lambda>n. merge_rel ty (p n) (q n) ps) ns h) = views h + M
      \<and> (\<forall>v\<in>#M. \<exists>n\<in>set ns. new_view h ty (p n) (q n) ps v)" for p q
  proof (induction ns arbitrary: h)
    case (Cons n ns)
    obtain M where M: "views (merge_rel ty (p n) (q n) ps h) = views h + M" "\<forall>v\<in>#M. new_view h ty (p n) (q n) ps v"
      using views_merge_rel by blast
    obtain M' where M': "views (fold (\<lambda>n. merge_rel ty (p n) (q n) ps) ns (merge_rel ty (p n) (q n) ps h))
          = views (merge_rel ty (p n) (q n) ps h) + M'"
        "\<forall>v\<in>#M'. \<exists>m\<in>set ns. new_view (merge_rel ty (p n) (q n) ps h) ty (p m) (q m) ps v"
      using Cons.IH by blast
    have "views (fold (\<lambda>n. merge_rel ty (p n) (q n) ps) (n # ns) h) = views h + (M + M')"
      by (simp only: fold_simps M' M ac_simps o_apply)
    moreover have "\<forall>v\<in>#M + M'. \<exists>m\<in>set (n # ns). new_view h ty (p m) (q m) ps v"
      using M(2) M'(2) new_view_mono [OF set_g_rels_merge_rel] by fastforce
    ultimately show ?case by blast
  qed (auto intro: exI [of _ "{#}"])
  show "\<exists>M. views (fold (\<lambda>n. merge_rel ty st n ps) ns h) = views h + M \<and> (\<forall>v\<in>#M. \<exists>n\<in>set ns. new_view h ty st n ps v)"
    by (rule gen [of "\<lambda>_. st" "\<lambda>n. n"])
  show "\<exists>M. views (fold (\<lambda>n. merge_rel ty n en ps) ns h) = views h + M \<and> (\<forall>v\<in>#M. \<exists>n\<in>set ns. new_view h ty n en ps v)"
    by (rule gen [of "\<lambda>n. n" "\<lambda>_. en"])
qed

text \<open>The relationships a merge adds besides the copies of facts.\<close>

definition added_view :: "'t pgraph \<Rightarrow> 't gnode \<Rightarrow> 't gnode \<Rightarrow> 't merge_params \<Rightarrow> 't edge_view \<Rightarrow> bool" where
  "added_view g sn an mp v \<longleftrightarrow>
     (\<exists>n. v = (''RELATES_TO'', gn_id sn, n, \<lambda>k. neo_get k (bridge_props mp)))
     \<or> (\<exists>e\<in>set (episodes_into ''MENTIONS'' g (gn_id an)). new_view g ''MENTIONS'' (gn_id e) (gn_id sn) [] v)
     \<or> (\<exists>e\<in>set (tenant_sources g an). new_view g ''RETENTION_SOURCE'' (gn_id e) (gn_id sn) [] v)"

lemma views_rewire:
  "\<exists>N. views (rewire mp sn an g) = views g + mset (map (copy_view sn an) (moved_facts g sn an)) + N
     \<and> (\<forall>v\<in>#N. added_view g sn an mp v)"
proof -
  define g1 where "g1 = update_node (gn_id sn) (set_props (survivor_delta mp sn an)) g"
  define g2 where "g2 = fold (move_fact sn an) (filter (\<lambda>f. gr_start f = gn_id an) (moved_facts g sn an)) g1"
  define g3 where "g3 = fold (move_fact sn an) (filter (\<lambda>f. gr_start f \<noteq> gn_id an) (moved_facts g sn an)) g2"
  define g4 where "g4 = fold (\<lambda>n. merge_rel ''RELATES_TO'' (gn_id sn) n (bridge_props mp)) (bridge_neighbors g sn an) g3"
  define es where "es = dedup (map gn_id (episodes_into ''MENTIONS'' g (gn_id an)))"
  define ts where "ts = dedup (map gn_id (tenant_sources g an))"
  define g5 where "g5 = fold (\<lambda>e. merge_rel ''MENTIONS'' e (gn_id sn) []) es g4"
  have g6: "rewire mp sn an g = fold (\<lambda>e. merge_rel ''RETENTION_SOURCE'' e (gn_id sn) []) ts g5"
    by (simp add: rewire_def Let_def g1_def g2_def g3_def g4_def g5_def es_def ts_def)
  obtain A where A: "views g4 = views g3 + A" "\<forall>v\<in>#A. \<exists>n\<in>set (bridge_neighbors g sn an). new_view g3 ''RELATES_TO'' (gn_id sn) n (bridge_props mp) v"
    using views_merges(1) unfolding g4_def by blast
  obtain B where B: "views g5 = views g4 + B" "\<forall>v\<in>#B. \<exists>e\<in>set es. new_view g4 ''MENTIONS'' e (gn_id sn) [] v"
    using views_merges(2) unfolding g5_def by blast
  obtain C where C: "views (rewire mp sn an g) = views g5 + C" "\<forall>v\<in>#C. \<exists>e\<in>set ts. new_view g5 ''RETENTION_SOURCE'' e (gn_id sn) [] v"
    using views_merges(2) unfolding g6 by blast
  obtain n2 n3 n4 n5 where "g_rels g2 = g_rels g1 @ n2" "g_rels g3 = g_rels g2 @ n3" "g_rels g4 = g_rels g3 @ n4"
      "g_rels g5 = g_rels g4 @ n5"
    using extends_merge_folds unfolding g2_def g3_def g4_def g5_def by metis
  then have sub: "set (g_rels g) \<subseteq> set (g_rels g4)" "set (g_rels g) \<subseteq> set (g_rels g5)"
    by (auto simp: g1_def)
  have "views g3 = views g + mset (map (copy_view sn an) (moved_facts g sn an))"
    unfolding g3_def g2_def g1_def views_moves views_update_node add.assoc mset_partition_map ..
  then have "views (rewire mp sn an g) = views g + mset (map (copy_view sn an) (moved_facts g sn an)) + (A + B + C)"
    unfolding C(1) B(1) A(1) by (simp only: add.assoc)
  moreover have "added_view g sn an mp v" if "v \<in># A" for v
    using bspec [OF A(2) that] unfolding added_view_def new_view_def by blast
  moreover have "added_view g sn an mp v" if "v \<in># B" for v
  proof -
    from bspec [OF B(2) that] obtain e where "e \<in> set es" "new_view g4 ''MENTIONS'' e (gn_id sn) [] v" ..
    then show ?thesis
      using new_view_mono [OF sub(1)] unfolding added_view_def es_def set_dedup set_map by blast
  qed
  moreover have "added_view g sn an mp v" if "v \<in># C" for v
  proof -
    from bspec [OF C(2) that] obtain e where "e \<in> set ts" "new_view g5 ''RETENTION_SOURCE'' e (gn_id sn) [] v" ..
    then show ?thesis
      using new_view_mono [OF sub(2)] unfolding added_view_def ts_def set_dedup set_map by blast
  qed
  ultimately show ?thesis
    by (intro exI [of _ "A + B + C"]) auto
qed

lemma merged_views:
  assumes ok: "pgraph_ok g" and an: "an \<in> set (g_nodes g)" and ne: "gn_id sn \<noteq> gn_id an"
    and rels: "g_rels g' = filter (\<lambda>r. \<not> incident (gn_id an) r) (g_rels (rewire mp sn an g))"
  obtains N where "views g' = filter_mset (far_view (gn_id an)) (views g) + mset (map (copy_view sn an) (moved_facts g sn an)) + N"
    "\<And>v. v \<in># N \<Longrightarrow> added_view g sn an mp v \<and> far_view (gn_id an) v"
proof -
  obtain N where N: "views (rewire mp sn an g) = views g + mset (map (copy_view sn an) (moved_facts g sn an)) + N"
      "\<forall>v\<in>#N. added_view g sn an mp v"
    using views_rewire by blast
  have "far_view (gn_id an) (copy_view sn an f)" if "f \<in> set (moved_facts g sn an)" for f
    using moved_fact_ends [OF ok an that] ne by (auto simp: far_view_def copy_view_def)
  then have "filter_mset (far_view (gn_id an)) (mset (map (copy_view sn an) (moved_facts g sn an)))
      = mset (map (copy_view sn an) (moved_facts g sn an))"
    by (intro filter_mset_eq_conv [THEN iffD2]) auto
  moreover have "views g' = filter_mset (far_view (gn_id an)) (views (rewire mp sn an g))"
    unfolding views_def rels by (rule views_filter) (simp add: far_view_rel)
  ultimately show thesis
    using N by (intro that [of "filter_mset (far_view (gn_id an)) N"]) auto
qed

section \<open>Steps of the restore\<close>

definition ids_ok :: "'t pgraph \<Rightarrow> bool" where
  "ids_ok h \<longleftrightarrow> distinct (map gr_id (g_rels h))"

lemma ids_ok_add_rel: "ids_ok h \<Longrightarrow> ids_ok (add_rel ty st en ps h)"
  using fresh_rel_id_fresh [of h] by (auto simp: ids_ok_def add_rel_def)

definition edge_of :: "bool \<Rightarrow> string \<Rightarrow> nat \<Rightarrow> nat \<Rightarrow> (string \<Rightarrow> 't neo_value) \<Rightarrow> 't edge_view" where
  "edge_of out ty i p f = (if out then (ty, i, p, f) else (ty, p, i, f))"

lemma directed_step:
  "g_nodes (directed out ty i p ps h) = g_nodes h"
  "ids_ok h \<Longrightarrow> ids_ok (directed out ty i p ps h)"
  "views (directed out ty i p ps h) = add_mset (edge_of out ty i p (\<lambda>k. neo_get k ps)) (views h)"
  by (simp_all add: directed_def ids_ok_add_rel views_add_rel edge_of_def)

lemma fold_additions:
  assumes "\<And>x h. x \<in> set xs \<Longrightarrow> g_nodes h = ns \<Longrightarrow> ids_ok h \<Longrightarrow>
      g_nodes (f x h) = ns \<and> ids_ok (f x h) \<and> views (f x h) = add_mset (v x) (views h)"
    and "g_nodes h = ns" "ids_ok h"
  shows "g_nodes (fold f xs h) = ns \<and> ids_ok (fold f xs h) \<and> views (fold f xs h) = views h + mset (map v xs)"
  using assms
proof (induction xs arbitrary: h)
  case (Cons x xs)
  have "g_nodes (f x h) = ns \<and> ids_ok (f x h) \<and> views (f x h) = add_mset (v x) (views h)"
    using Cons.prems by simp
  with Cons.IH [of "f x h"] Cons.prems(1) show ?case by simp
qed simp

text \<open>The view of a survivor's copy of a fact, and what moving it back makes of it.\<close>

definition copy_at :: "bool \<Rightarrow> nat \<Rightarrow> nat \<Rightarrow> string \<Rightarrow> 't edge_view \<Rightarrow> bool" where
  "copy_at out si p u v \<longleftrightarrow>
     (case v of (ty, st, en, f) \<Rightarrow> ty = ''RELATES_TO'' \<and> f ''uuid'' = NStr u \<and> (if out then st = si \<and> en = p else st = p \<and> en = si))"

definition back_at :: "bool \<Rightarrow> nat \<Rightarrow> 't neo_value \<Rightarrow> 't edge_view \<Rightarrow> 't edge_view" where
  "back_at out ai au v =
     (case v of (ty, st, en, f) \<Rightarrow> edge_of out ty ai (if out then en else st) (turned out au f))"

lemma copy_at_rel: "copy_at out si p u (edge_view r) \<longleftrightarrow> fact_copy out si p u r"
  by (auto simp: copy_at_def edge_view_def fact_copy_def)

lemma neo_get_point_back: "(\<lambda>k. neo_get k (point_back out au ps)) = turned out au (\<lambda>k. neo_get k ps)"
  using turned_rewrite_end by (cases out) (simp_all add: point_back_def)

lemma fold_directed:
  "ids_ok h \<Longrightarrow> \<exists>new. g_rels (fold (\<lambda>ps. directed out ty i p (q ps)) pss h) = g_rels h @ new
     \<and> distinct (map gr_id (g_rels h @ new)) \<and> map edge_view new = map (\<lambda>ps. edge_of out ty i p (\<lambda>k. neo_get k (q ps))) pss"
proof (induction pss arbitrary: h)
  case (Cons ps pss)
  obtain r where r: "g_rels (directed out ty i p (q ps) h) = g_rels h @ [r]" "edge_view r = edge_of out ty i p (\<lambda>k. neo_get k (q ps))"
    by (cases out) (auto simp: directed_def add_rel_def edge_view_def edge_of_def rel_prop_def)
  from Cons.IH [OF directed_step(2) [OF Cons.prems], of out ty i p "q ps"] r show ?case by auto
qed (auto simp: ids_ok_def)

lemma restore_fact_at_step:
  assumes ok: "ids_ok h" and copy: "\<exists>r\<in>set (g_rels h). fact_copy out si p (rf_uuid e) r"
    and run: "restore_fact_at out si ai au e p (h, m, n) = (h', m', n')"
  shows "g_nodes h' = g_nodes h" "ids_ok h'"
    "views h' = filter_mset (\<lambda>v. \<not> copy_at out si p (rf_uuid e) v) (views h)
       + image_mset (back_at out ai au) (filter_mset (copy_at out si p (rf_uuid e)) (views h))"
proof -
  let ?copy = "fact_copy out si p (rf_uuid e)"
  define curs where "curs = filter ?copy (g_rels h)"
  have "curs \<noteq> []"
    using copy by (auto simp: curs_def filter_empty_conv)
  then have h': "h' = delete_rels (map gr_id curs) (fold (\<lambda>ps. directed out ''RELATES_TO'' ai p (point_back out au ps)) (map gr_props curs) h)"
    using run by (simp add: restore_fact_at_def curs_def [symmetric] Let_def)
  obtain new where new: "g_rels (fold (\<lambda>ps. directed out ''RELATES_TO'' ai p (point_back out au ps)) (map gr_props curs) h) = g_rels h @ new"
      "distinct (map gr_id (g_rels h @ new))"
      "map edge_view new = map (\<lambda>ps. edge_of out ''RELATES_TO'' ai p (\<lambda>k. neo_get k (point_back out au ps))) (map gr_props curs)"
    using fold_directed [OF ok] by blast
  have "gr_id r \<in> set (map gr_id curs) \<longleftrightarrow> ?copy r" if "r \<in> set (g_rels h)" for r
    using ok that by (auto simp: curs_def ids_ok_def distinct_map inj_on_def)
  moreover have "gr_id r \<notin> set (map gr_id curs)" if "r \<in> set new" for r
    using new(2) that by (auto simp: curs_def)
  ultimately have rels: "g_rels h' = filter (\<lambda>r. \<not> ?copy r) (g_rels h) @ new"
    unfolding h' delete_rels_def by (simp add: new(1) cong: filter_cong)
  have "g_nodes (fold (\<lambda>ps. directed out ''RELATES_TO'' ai p (point_back out au ps)) pss k) = g_nodes k" for pss and k :: "'a pgraph"
    by (induction pss arbitrary: k) (simp_all add: directed_step(1))
  then show "g_nodes h' = g_nodes h"
    by (simp add: h' delete_rels_def)
  show "ids_ok h'"
    using new(2) by (auto simp: ids_ok_def rels distinct_map_filter)
  have "edge_of out ''RELATES_TO'' ai p (turned out au (\<lambda>k. rel_prop k r)) = back_at out ai au (edge_view r)" if "r \<in> set curs" for r
    using that by (auto simp: curs_def fact_copy_def back_at_def edge_view_def edge_of_def)
  then have "map edge_view new = map (back_at out ai au) (map edge_view curs)"
    by (simp add: new(3) neo_get_point_back rel_prop_def [symmetric])
  moreover have "mset (map edge_view curs) = filter_mset (copy_at out si p (rf_uuid e)) (views h)"
    unfolding curs_def views_def by (rule views_filter) (simp add: copy_at_rel)
  ultimately have "mset (map edge_view new) = image_mset (back_at out ai au) (filter_mset (copy_at out si p (rf_uuid e)) (views h))"
    by (simp only: mset_map)
  moreover have "mset (map edge_view (filter (\<lambda>r. \<not> ?copy r) (g_rels h))) = filter_mset (\<lambda>v. \<not> copy_at out si p (rf_uuid e) v) (views h)"
    unfolding views_def by (rule views_filter) (simp add: copy_at_rel)
  ultimately show "views h' = filter_mset (\<lambda>v. \<not> copy_at out si p (rf_uuid e) v) (views h)
       + image_mset (back_at out ai au) (filter_mset (copy_at out si p (rf_uuid e)) (views h))"
    by (simp only: views_def [of h'] rels map_append mset_append)
qed

text \<open>All entries of one direction: each moves the copies it names, and nothing else.\<close>

definition copy_of_any :: "bool \<Rightarrow> nat \<Rightarrow> (string \<Rightarrow> nat) \<Rightarrow> 't restored_fact list \<Rightarrow> 't edge_view \<Rightarrow> bool" where
  "copy_of_any out si q es v \<longleftrightarrow> list_ex (\<lambda>e. copy_at out si (q (rf_peer_uuid e)) (rf_uuid e) v) es"

lemma filter_mset_disj:
  "(\<And>v. B v \<Longrightarrow> \<not> A v) \<Longrightarrow> filter_mset (\<lambda>v. A v \<or> B v) M = filter_mset A M + filter_mset B M"
  by (induction M) auto

lemma restore_facts_step:
  assumes "ids_ok h" "ai \<noteq> si" "distinct (map (\<lambda>e. (rf_uuid e, q (rf_peer_uuid e))) es)"
    and "\<And>e. e \<in> set es \<Longrightarrow> peers_named (Some (rf_peer_uuid e)) h = [q (rf_peer_uuid e)]"
    and "\<And>e. e \<in> set es \<Longrightarrow> \<exists>v\<in>#views h. copy_at out si (q (rf_peer_uuid e)) (rf_uuid e) v"
    and "restore_facts out si ai au es (h, m, n) = (h', m', n')"
  shows "g_nodes h' = g_nodes h \<and> ids_ok h'
    \<and> views h' = filter_mset (\<lambda>v. \<not> copy_of_any out si q es v) (views h)
       + image_mset (back_at out ai au) (filter_mset (copy_of_any out si q es) (views h))"
  using assms
proof (induction es arbitrary: h m n)
  case (Cons e es)
  let ?P = "copy_at out si (q (rf_peer_uuid e)) (rf_uuid e)" and ?any = "copy_of_any out si q es"
  obtain h1 m1 n1 where one: "restore_fact_at out si ai au e (q (rf_peer_uuid e)) (h, m, n) = (h1, m1, n1)"
    by (metis prod_cases3)
  have "\<exists>r\<in>set (g_rels h). fact_copy out si (q (rf_peer_uuid e)) (rf_uuid e) r"
    using Cons.prems(5) [of e] by (auto simp: views_def copy_at_rel)
  note h1 = restore_fact_at_step [OF Cons.prems(1) this one]
  have rest: "restore_facts out si ai au es (h1, m1, n1) = (h', m', n')"
    using Cons.prems(4) [of e] Cons.prems(6) one by (simp add: restore_facts_def)
  have apart: "\<not> ?P v" if "e' \<in> set es" "copy_at out si (q (rf_peer_uuid e')) (rf_uuid e') v" for e' v
    using that Cons.prems(3) by (auto simp: copy_at_def split: if_splits)
  have returned: "\<not> copy_at out si p u (back_at out ai au v)" for p u v
    using Cons.prems(2) by (auto simp: copy_at_def back_at_def edge_of_def split: prod.split)
  have "\<exists>v\<in>#views h1. copy_at out si (q (rf_peer_uuid e')) (rf_uuid e') v" if e': "e' \<in> set es" for e'
  proof -
    obtain v where v: "v \<in># views h" "copy_at out si (q (rf_peer_uuid e')) (rf_uuid e') v"
      using Cons.prems(5) [of e'] e' by auto
    then have "v \<in># views h1"
      using apart [OF e' v(2)] by (simp add: h1(3))
    then show ?thesis using v by blast
  qed
  moreover have "peers_named (Some (rf_peer_uuid e')) h1 = [q (rf_peer_uuid e')]" if "e' \<in> set es" for e'
    using Cons.prems(4) [of e'] that by (simp add: peers_named_def h1(1))
  ultimately have IH: "g_nodes h' = g_nodes h1 \<and> ids_ok h'
      \<and> views h' = filter_mset (\<lambda>v. \<not> ?any v) (views h1) + image_mset (back_at out ai au) (filter_mset ?any (views h1))"
    using Cons.prems(2,3) by (intro Cons.IH [OF h1(2) _ _ _ _ rest]) auto
  have any_back: "\<not> ?any (back_at out ai au v)" for v
    using returned by (simp add: copy_of_any_def list_ex_iff)
  have any_apart: "\<not> ?P v" if "?any v" for v
    using that unfolding copy_of_any_def list_ex_iff using apart by blast
  have cons_any: "copy_of_any out si q (e # es) v \<longleftrightarrow> ?P v \<or> ?any v" for v
    by (simp add: copy_of_any_def)
  have "filter_mset (\<lambda>v. \<not> ?any v) (views h1)
      = filter_mset (\<lambda>v. \<not> copy_of_any out si q (e # es) v) (views h) + image_mset (back_at out ai au) (filter_mset ?P (views h))"
    unfolding h1(3) filter_union_mset filter_mset_image_mset filter_filter_mset
    by (simp add: any_back cons_any conj_commute)
  moreover have "filter_mset ?any (views h1) = filter_mset ?any (views h)"
    using any_apart unfolding h1(3) filter_union_mset filter_mset_image_mset filter_filter_mset
    by (simp add: any_back) (metis (mono_tags, lifting) filter_mset_cong0)
  moreover have "filter_mset (copy_of_any out si q (e # es)) (views h) = filter_mset ?P (views h) + filter_mset ?any (views h)"
    unfolding cons_any by (rule filter_mset_disj) (rule any_apart)
  ultimately show ?case
    using IH h1(1) by (simp add: ac_simps)
qed (simp add: restore_facts_def copy_of_any_def)

end
