(* ===== verification/Unmerge_Exact.thy ===== *)
theory Unmerge_Exact
  imports Unmerge_Inverse Unmerge_Saga
begin

text \<open>
  The restore statement inverts the merge statement: from the snapshot taken before the merge, the
  graph gets back every relationship it had, and both nodes the properties the merge took from them.
\<close>

section \<open>Graphs whose merges can be undone exactly\<close>

definition flat_props :: "'t props \<Rightarrow> bool" where
  "flat_props ps \<longleftrightarrow> list_all (\<lambda>kv. snd kv \<noteq> NNone \<and> sort_neo (snd kv) = snd kv) ps"

text \<open>
  Neither node has a relationship to itself and both store flat values; every peer of the absorbed node has a uuid and every
  relationship of it stores flat values; a moved fact names the absorbed node where it names its own
  end, the survivor has no fact of its own with that uuid to that peer, and no bridge of an earlier
  merge of the same node.
\<close>

definition own_end :: "'t neo_value \<Rightarrow> bool \<Rightarrow> 't grel \<Rightarrow> bool" where
  "own_end u out f \<longleftrightarrow>
     list_all (\<lambda>k. rel_prop k f \<in> {NNone, u})
       (if out then [''source_uuid'', ''source_node_uuid''] else [''target_uuid'', ''target_node_uuid''])"

definition rival_fact :: "nat \<Rightarrow> nat \<Rightarrow> 't grel \<Rightarrow> 't grel \<Rightarrow> bool" where
  "rival_fact si ai f r \<longleftrightarrow>
     gr_type r = ''RELATES_TO'' \<and> rel_prop ''uuid'' r = rel_prop ''uuid'' f
     \<and> (if gr_start f = ai then gr_start r = si \<and> gr_end r = gr_end f else gr_start r = gr_start f \<and> gr_end r = si)"

definition named_peer :: "'t pgraph \<Rightarrow> nat \<Rightarrow> 't grel \<Rightarrow> bool" where
  "named_peer g i r \<longleftrightarrow> (case prop_at ''uuid'' g (other_end i r) of NStr u \<Rightarrow> u \<noteq> [] | _ \<Rightarrow> False)"

definition invertible :: "string \<Rightarrow> 't pgraph \<Rightarrow> 't gnode \<Rightarrow> 't gnode \<Rightarrow> bool" where
  "invertible a g sn an \<longleftrightarrow>
     uuid_texts g \<and> loop_free (gn_id sn) g \<and> loop_free (gn_id an) g
     \<and> flat_props (gn_props sn) \<and> flat_props (gn_props an)
     \<and> list_all (\<lambda>r. named_peer g (gn_id an) r \<and> flat_props (gr_props r)) (filter (incident (gn_id an)) (g_rels g))
     \<and> list_all (\<lambda>f. own_end (NStr a) (gr_start f = gn_id an) f) (moved_facts g sn an)
     \<and> list_all (\<lambda>f. list_all (\<lambda>r. \<not> rival_fact (gn_id sn) (gn_id an) f r) (g_rels g)) (moved_facts g sn an)
     \<and> list_all (\<lambda>r. \<not> bridge_of (gn_id sn) a r) (g_rels g)"

lemma flat_sorted:
  assumes "flat_props ps"
  shows "neo_get k (sort_props ps) = neo_get k ps"
proof -
  have "sort_neo (neo_get k ps) = neo_get k ps"
    using assms by (cases "map_of ps k") (auto simp: neo_get_def flat_props_def list_all_iff dest!: map_of_SomeD bspec)
  then show ?thesis
    by (simp add: neo_get_sort_props)
qed

lemma flat_get:
  assumes "flat_props ps"
  shows "neo_get k (present_props (sort_props ps)) = neo_get k ps"
proof -
  have "present_props (sort_props ps) = sort_props ps"
    using assms by (auto simp: present_props_def sort_props_def flat_props_def list_all_iff filter_id_conv)
  then show ?thesis
    by (simp add: flat_sorted [OF assms])
qed

section \<open>The plan of a stored snapshot\<close>

definition state_of :: "'t driver \<Rightarrow> 't pgraph \<Rightarrow> 't gnode \<Rightarrow> string \<Rightarrow> 't node_state" where
  "state_of dr g n u = sort_node \<lparr>nst_uuid = u, nst_labels = gn_labels n, nst_properties = gn_props n,
     nst_relationships = map (capture_rel dr g (gn_id n)) (filter (incident (gn_id n)) (g_rels g))\<rparr>"

definition touching :: "'t pgraph \<Rightarrow> 't gnode \<Rightarrow> bool \<Rightarrow> 't grel list" where
  "touching g an out = filter (\<lambda>r. incident (gn_id an) r \<and> (gr_start r = gn_id an) = out) (g_rels g)"

definition dir_text :: "bool \<Rightarrow> string" where
  "dir_text out = (if out then ''out'' else ''in'')"

definition plan_rel :: "'t driver \<Rightarrow> 't pgraph \<Rightarrow> nat \<Rightarrow> 't grel \<Rightarrow> 't restored_rel" where
  "plan_rel dr g ai r = \<lparr>rr_type = gr_type r, rr_peer_uuid = neo_text dr (prop_at ''uuid'' g (other_end ai r)),
     rr_properties = sort_props (gr_props r)\<rparr>"

lemma captured_simps:
  "rs_type (sort_rel (capture_rel dr g i r)) = gr_type r"
  "rs_direction (sort_rel (capture_rel dr g i r)) = dir_text (gr_start r = i)"
  "rs_properties (sort_rel (capture_rel dr g i r)) = sort_props (gr_props r)"
  "rs_peer_uuid (sort_rel (capture_rel dr g i r)) = neo_text dr (prop_at ''uuid'' g (other_end i r))"
  by (simp_all add: sort_rel_def capture_rel_def Let_def dir_text_def)

lemma dir_text_eq [simp]: "dir_text b = dir_text c \<longleftrightarrow> b = c" "dir_text b = ''out'' \<longleftrightarrow> b" "dir_text b = ''in'' \<longleftrightarrow> \<not> b"
  by (simp_all add: dir_text_def)

lemma plan_moved_state:
  assumes "uuid_texts g" "node_prop ''uuid'' sn = NStr s" "node_prop ''uuid'' an = NStr a" "incident (gn_id an) r"
  shows "plan_moved_fact (state_of dr g sn s) (state_of dr g an a) (sort_rel (capture_rel dr g (gn_id an) r))
     \<longleftrightarrow> moved_fact_where g sn an r"
proof -
  have id: "absorbed_id (state_of dr g n u) = Some u" if "node_prop ''uuid'' n = NStr u" for n u
    using that unfolding state_of_def absorbed_id_sort_node by (simp add: absorbed_id_def node_prop_def)
  show ?thesis
    using is_moved_fact_capture [OF assms, of dr] by (simp add: plan_moved_fact_def id [OF assms(2)] id [OF assms(3)] is_moved_fact_sort_rel)
qed

lemma state_relationships:
  "nst_relationships (state_of dr g n u) = map (\<lambda>r. sort_rel (capture_rel dr g (gn_id n) r)) (filter (incident (gn_id n)) (g_rels g))"
  by (simp add: state_of_def sort_node_def)

lemma plan_rels_state:
  assumes "uuid_texts g" "node_prop ''uuid'' sn = NStr s" "node_prop ''uuid'' an = NStr a"
  shows "plan_rels (plan_moved_fact (state_of dr g sn s) (state_of dr g an a)) (dir_text out) (nst_relationships (state_of dr g an a))
     = map (plan_rel dr g (gn_id an)) (filter (\<lambda>r. \<not> moved_fact_where g sn an r) (touching g an out))"
  using plan_moved_state [OF assms, of _ dr]
  by (auto simp: plan_rels_def state_relationships filter_map touching_def captured_simps plan_rel_def intro!: filter_cong map_cong)

lemma plan_facts_state:
  assumes "uuid_texts g" "node_prop ''uuid'' sn = NStr s" "node_prop ''uuid'' an = NStr a"
  shows "plan_facts (plan_moved_fact (state_of dr g sn s) (state_of dr g an a)) (dir_text out) (nst_relationships (state_of dr g an a))
     = first_facts [] (map (\<lambda>r. sort_rel (capture_rel dr g (gn_id an) r)) (filter (moved_fact_where g sn an) (touching g an out)))"
  using plan_moved_state [OF assms, of _ dr]
  by (auto simp: plan_facts_def state_relationships filter_map touching_def captured_simps intro!: arg_cong [where f = "first_facts []"] map_cong filter_cong)

lemma first_facts_keys:
  "distinct (map (\<lambda>e. (rf_uuid e, rf_peer_uuid e)) (first_facts seen rs))
   \<and> (\<lambda>e. (rf_uuid e, rf_peer_uuid e)) ` set (first_facts seen rs) = fact_key ` set rs - set seen"
proof (induction rs arbitrary: seen)
  case (Cons r rs)
  have "(rf_uuid (fact_entry r), rf_peer_uuid (fact_entry r)) = fact_key r"
    by (simp add: fact_entry_def fact_key_def)
  then show ?case
    using Cons [of seen] Cons [of "fact_key r # seen"] by auto
qed simp

section \<open>Nodes of the restored graph\<close>

definition undo_setting :: "'t merge_params \<Rightarrow> string \<Rightarrow> string \<Rightarrow> 't pgraph \<Rightarrow> 't gnode \<Rightarrow> 't gnode \<Rightarrow> 't pgraph \<Rightarrow> bool" where
  "undo_setting mp s a g sn an h \<longleftrightarrow>
     pgraph_ok g \<and> pgraph_ok h \<and> invertible a g sn an \<and> s \<noteq> a \<and> gn_id sn \<noteq> gn_id an
     \<and> entities s g = [sn] \<and> entities a g = [an] \<and> mp_absorbed_uuid mp = a
     \<and> same_tenant (tenant_of sn) (tenant_of an)
     \<and> g_nodes h = filter (\<lambda>n. gn_id n \<noteq> gn_id an) (g_nodes (update_node (gn_id sn) (set_props (survivor_delta mp sn an)) g))
     \<and> g_rels h = filter (\<lambda>r. \<not> incident (gn_id an) r) (g_rels (rewire mp sn an g))"

definition merged_survivor :: "'t merge_params \<Rightarrow> 't gnode \<Rightarrow> 't gnode \<Rightarrow> 't gnode" where
  "merged_survivor mp sn an = sn\<lparr>gn_props := set_props (survivor_delta mp sn an) (gn_props sn)\<rparr>"

lemma undo_settingD:
  assumes "undo_setting mp s a g sn an h"
  shows "pgraph_ok g" "pgraph_ok h" "invertible a g sn an" "gn_id sn \<noteq> gn_id an" "mp_absorbed_uuid mp = a" "s \<noteq> a"
    "same_tenant (tenant_of sn) (tenant_of an)" "g_rels h = filter (\<lambda>r. \<not> incident (gn_id an) r) (g_rels (rewire mp sn an g))"
  using assms by (simp_all add: undo_setting_def)

lemma undo_setting_nodes:
  assumes "undo_setting mp s a g sn an h"
  shows "sn \<in> set (g_nodes g)" "an \<in> set (g_nodes g)" "node_prop ''uuid'' sn = NStr s" "node_prop ''uuid'' an = NStr a"
    "has_label ''Entity'' sn" "has_label ''Entity'' an"
  using assms entities_member [of sn s g] entities_member [of an a g] by (simp_all add: undo_setting_def)

lemma singleton_list:
  assumes "distinct xs" "m \<in> set xs" "\<And>n. n \<in> set xs \<Longrightarrow> n = m"
  shows "xs = [m]"
proof -
  obtain y ys where xs: "xs = y # ys" using assms(2) by (cases xs) auto
  then have y: "y = m" using assms(3) [of y] by simp
  have "z = y" if "z \<in> set ys" for z using assms(3) [of z] that xs y by simp
  then have "ys = []" using assms(1) xs by (cases ys) auto
  then show ?thesis using xs y by simp
qed

lemma uuid_node_single:
  assumes "pgraph_ok h" "m \<in> set (g_nodes h)" "node_prop ''uuid'' m = NStr u"
  shows "filter (\<lambda>n. node_prop ''uuid'' n = NStr u) (g_nodes h) = [m]"
proof -
  let ?ns = "filter (\<lambda>n. node_prop ''uuid'' n = NStr u) (g_nodes h)"
  have only: "n = m" if "n \<in> set ?ns" for n
    using that pgraph_ok_uuid_unique [OF assms(1), of n m] assms(2,3) by simp
  have mem: "m \<in> set ?ns"
    using assms(2,3) by simp
  have "distinct (g_nodes h)"
    using assms(1) unfolding pgraph_ok_def distinct_map by blast
  then show ?thesis
    by (intro singleton_list [OF distinct_filter mem only])
qed

text \<open>A node of the graph, other than the absorbed one, in the merged graph.\<close>

lemma merged_node:
  assumes set: "undo_setting mp s a g sn an h" and n: "n \<in> set (g_nodes g)" "gn_id n \<noteq> gn_id an"
  shows "(if gn_id n = gn_id sn then merged_survivor mp sn an else n) \<in> set (g_nodes h)"
    "\<And>k. k \<notin> fst ` set (survivor_delta mp sn an) \<Longrightarrow>
       node_prop k (if gn_id n = gn_id sn then merged_survivor mp sn an else n) = node_prop k n"
    "gn_id (if gn_id n = gn_id sn then merged_survivor mp sn an else n) = gn_id n"
    "gn_labels (if gn_id n = gn_id sn then merged_survivor mp sn an else n) = gn_labels n"
proof -
  have same: "n = sn" if "gn_id n = gn_id sn"
    using pgraph_ok_id_unique [of g n sn] set n undo_setting_nodes(1) [OF set] that by (simp add: undo_setting_def)
  have "node_prop k (merged_survivor mp sn an) = node_prop k sn" if "k \<notin> fst ` set (survivor_delta mp sn an)" for k
    using map_of_eq_None_iff [THEN iffD2, OF that] by (simp add: merged_survivor_def node_prop_def survivor_delta_get)
  then show "\<And>k. k \<notin> fst ` set (survivor_delta mp sn an) \<Longrightarrow>
       node_prop k (if gn_id n = gn_id sn then merged_survivor mp sn an else n) = node_prop k n"
    "gn_id (if gn_id n = gn_id sn then merged_survivor mp sn an else n) = gn_id n"
    "gn_labels (if gn_id n = gn_id sn then merged_survivor mp sn an else n) = gn_labels n"
    using same by (auto simp: merged_survivor_def)
  show "(if gn_id n = gn_id sn then merged_survivor mp sn an else n) \<in> set (g_nodes h)"
    using set n same by (auto simp: undo_setting_def update_node_def merged_survivor_def)
qed

lemma survivor_in_merged:
  assumes set: "undo_setting mp s a g sn an h"
  shows "merged_survivor mp sn an \<in> set (g_nodes h)" "gn_id sn \<in> node_ids h" "gn_id (merged_survivor mp sn an) = gn_id sn"
    "node_prop ''uuid'' (merged_survivor mp sn an) = NStr s" "gn_labels (merged_survivor mp sn an) = gn_labels sn"
proof -
  show m: "merged_survivor mp sn an \<in> set (g_nodes h)" "gn_id (merged_survivor mp sn an) = gn_id sn"
    "gn_labels (merged_survivor mp sn an) = gn_labels sn"
    using merged_node(1) [OF set undo_setting_nodes(1) [OF set]] undo_settingD(4) [OF set] by (simp_all add: merged_survivor_def)
  show "gn_id sn \<in> node_ids h"
    using imageI [OF m(1), of gn_id] by (simp add: node_ids_def m(2))
  show "node_prop ''uuid'' (merged_survivor mp sn an) = NStr s"
    using undo_setting_nodes(3) [OF set] by (simp add: merged_survivor_def node_prop_def)
qed

lemma survivor_delta_keys:
  "fst ` set (survivor_delta mp sn an) = {''summary'', ''content'', ''sources'', ''corroboration'', ''source_confidence'', ''source'',
     ''last_accessed'', ''merged_from'', ''merge_audit'', ''last_merge_op_id''}"
  by (cases "merged_text sn an") (simp add: survivor_delta_def)

text \<open>A peer of the absorbed node is found again by its uuid.\<close>

lemma peer_found:
  assumes set: "undo_setting mp s a g sn an h" and r: "r \<in> set (g_rels g)" "incident (gn_id an) r"
    and nodes: "g_nodes k = g_nodes h @ [x]" "node_prop ''uuid'' x = NStr a"
  obtains u where "prop_at ''uuid'' g (other_end (gn_id an) r) = NStr u" "u \<noteq> []" "u \<noteq> a"
    "peers_named (Some u) k = [other_end (gn_id an) r]" "other_end (gn_id an) r \<noteq> gn_id an"
    "other_end (gn_id an) r \<in> node_ids h"
proof -
  let ?p = "other_end (gn_id an) r"
  have "named_peer g (gn_id an) r" and ok: "pgraph_ok g" "pgraph_ok h" and loop: "loop_free (gn_id an) g"
    using set r by (auto simp: undo_setting_def invertible_def list_all_iff)
  then obtain u where u: "prop_at ''uuid'' g ?p = NStr u" "u \<noteq> []"
    by (auto simp: named_peer_def split: neo_value.splits)
  then obtain n where n: "node_by_id ?p g = Some n" "node_prop ''uuid'' n = NStr u"
    by (auto simp: prop_at_def split: option.splits)
  then have mem: "n \<in> set (g_nodes g)" "gn_id n = ?p"
    by (auto dest: node_by_id_SomeD)
  have p: "?p \<noteq> gn_id an"
    using loop r by (auto simp: loop_free_def list_all_iff incident_def other_end_def split: if_splits)
  then have "u \<noteq> a"
    using pgraph_ok_uuid_unique [OF ok(1) mem(1) undo_setting_nodes(2) [OF set]] undo_setting_nodes(4) [OF set] n(2) mem(2) by auto
  let ?m = "if gn_id n = gn_id sn then merged_survivor mp sn an else n"
  have p': "gn_id n \<noteq> gn_id an" using p mem(2) by simp
  note m = merged_node [OF set mem(1) p']
  have "node_prop ''uuid'' ?m = NStr u"
    using m(2) [of "''uuid''"] n(2) by (simp add: survivor_delta_keys)
  then have "peers_named (Some u) k = [gn_id ?m]"
    using uuid_node_single [OF ok(2) m(1)] nodes \<open>u \<noteq> a\<close> by (simp add: peers_named_def)
  moreover have "?p \<in> node_ids h"
    using m(1,3) mem(2) by (force simp: node_ids_def)
  ultimately show thesis
    using that u \<open>u \<noteq> a\<close> p m(3) mem(2) by simp
qed

lemma fresh_node: "fresh_node_id h \<notin> node_ids h"
  using max_fold [of _ "map gn_id (g_nodes h)" 0] by (fastforce simp: fresh_node_id_def node_ids_def)

lemma neo_get_restorable:
  "neo_get k (restorable_properties d) = (if k = ''last_accessed'' then NNone else neo_get k d)"
  by (induction d) (auto simp: restorable_properties_def neo_get_def SYSTEM_MANAGED_PROPERTIES_def)

lemma restored_props:
  assumes "flat_props (gn_props an)"
  shows "node_prop k (restored_node s oid now (build_restore_plan (state_of dr g sn s) (state_of dr g an a)) i)
    = (if k = ''restored_from_merge'' then NStr s else if k = ''restored_by_op'' then NStr oid
       else if k = ''restored_at'' then now else if k = ''last_accessed'' then NNone else node_prop k an)"
proof -
  have "present_props (restorable_properties (sort_props (gn_props an))) = restorable_properties (present_props (sort_props (gn_props an)))"
    by (simp add: present_props_def restorable_properties_def conj_commute)
  then show ?thesis
    using flat_get [OF assms, of k]
    by (simp add: restored_node_def node_prop_def neo_get_set_props build_restore_plan_def Let_def state_of_def sort_node_def
        neo_get_restorable)
qed

section \<open>Relationships of the restored graph\<close>

definition returned_view :: "nat \<Rightarrow> nat \<Rightarrow> 't grel \<Rightarrow> 't edge_view" where
  "returned_view ai ni r = edge_of (gr_start r = ai) (gr_type r) ni (other_end ai r) (\<lambda>k. rel_prop k r)"

lemma invertibleD:
  assumes "invertible a g sn an"
  shows "uuid_texts g" "loop_free (gn_id sn) g" "loop_free (gn_id an) g" "flat_props (gn_props sn)" "flat_props (gn_props an)"
    "\<And>r. r \<in> set (g_rels g) \<Longrightarrow> incident (gn_id an) r \<Longrightarrow> named_peer g (gn_id an) r \<and> flat_props (gr_props r)"
    "\<And>f. f \<in> set (moved_facts g sn an) \<Longrightarrow> own_end (NStr a) (gr_start f = gn_id an) f"
    "\<And>f r. f \<in> set (moved_facts g sn an) \<Longrightarrow> r \<in> set (g_rels g) \<Longrightarrow> \<not> rival_fact (gn_id sn) (gn_id an) f r"
    "\<And>r. r \<in> set (g_rels g) \<Longrightarrow> \<not> bridge_of (gn_id sn) a r"
  using assms by (auto simp: invertible_def list_all_iff)

lemma restore_rel_step:
  assumes set: "undo_setting mp s a g sn an h" and r: "r \<in> set (touching g an out)"
    and nodes: "g_nodes k = g_nodes h @ [x]" "node_prop ''uuid'' x = NStr a" and ok: "ids_ok k"
  shows "g_nodes (restore_rel out ni (plan_rel dr g (gn_id an) r) k) = g_nodes h @ [x]
    \<and> ids_ok (restore_rel out ni (plan_rel dr g (gn_id an) r) k)
    \<and> views (restore_rel out ni (plan_rel dr g (gn_id an) r) k) = add_mset (returned_view (gn_id an) ni r) (views k)"
proof -
  have r': "r \<in> set (g_rels g)" "incident (gn_id an) r" "(gr_start r = gn_id an) = out"
    using r by (simp_all add: touching_def)
  then have flat: "flat_props (gr_props r)"
    using invertibleD(6) [OF undo_settingD(3) [OF set] r'(1,2)] by simp
  obtain u where u: "prop_at ''uuid'' g (other_end (gn_id an) r) = NStr u" "peers_named (Some u) k = [other_end (gn_id an) r]"
    by (rule peer_found [OF set r'(1,2) nodes])
  have "restore_rel out ni (plan_rel dr g (gn_id an) r) k
      = directed out (gr_type r) ni (other_end (gn_id an) r) (present_props (sort_props (gr_props r))) k"
    by (simp add: restore_rel_def plan_rel_def u neo_text_def py_str_def)
  then show ?thesis
    using r'(3) by (simp add: returned_view_def rel_prop_def directed_step nodes(1) ok flat_get [OF flat])
qed

lemma restore_rels_step:
  assumes set: "undo_setting mp s a g sn an h" and rs: "set rs \<subseteq> set (touching g an out)"
    and nodes: "g_nodes k = g_nodes h @ [x]" "node_prop ''uuid'' x = NStr a" and ok: "ids_ok k"
  shows "g_nodes (fold (restore_rel out ni) (map (plan_rel dr g (gn_id an)) rs) k) = g_nodes h @ [x]
    \<and> ids_ok (fold (restore_rel out ni) (map (plan_rel dr g (gn_id an)) rs) k)
    \<and> views (fold (restore_rel out ni) (map (plan_rel dr g (gn_id an)) rs) k) = views k + mset (map (returned_view (gn_id an) ni) rs)"
  unfolding fold_map comp_def
  by (rule fold_additions) (use restore_rel_step [OF set _ _ nodes(2)] rs nodes(1) ok in auto)

definition fact_text :: "'t grel \<Rightarrow> string" where
  "fact_text f = (case rel_prop ''uuid'' f of NStr u \<Rightarrow> u | _ \<Rightarrow> [])"

lemma moved_fact_text: "moved_fact_where g sn an f \<Longrightarrow> rel_prop ''uuid'' f = NStr (fact_text f) \<and> fact_text f \<noteq> []"
  by (auto simp: moved_fact_where_def Let_def fact_text_def split: neo_value.splits)

lemma plan_entries:
  assumes set: "undo_setting mp s a g sn an h" and fs: "set fs \<subseteq> set (touching g an out)"
    and nodes: "g_nodes k = g_nodes h @ [x]" "node_prop ''uuid'' x = NStr a"
    and es: "es = first_facts [] (map (\<lambda>r. sort_rel (capture_rel dr g (gn_id an) r)) fs)"
    and q: "q = (\<lambda>u. hd (peers_named (Some u) k))"
  shows "\<And>e. e \<in> set es \<Longrightarrow> \<exists>f\<in>set fs. rf_uuid e = fact_text f \<and> q (rf_peer_uuid e) = other_end (gn_id an) f
      \<and> peers_named (Some (rf_peer_uuid e)) k = [q (rf_peer_uuid e)]"
    "\<And>f. f \<in> set fs \<Longrightarrow> \<exists>e\<in>set es. rf_uuid e = fact_text f \<and> q (rf_peer_uuid e) = other_end (gn_id an) f"
    "distinct (map (\<lambda>e. (rf_uuid e, q (rf_peer_uuid e))) es)"
proof -
  let ?cap = "\<lambda>r. sort_rel (capture_rel dr g (gn_id an) r)" and ?key = "\<lambda>e. (rf_uuid e, rf_peer_uuid e)"
  have wording: "fact_uuid (?cap f) = fact_text f" for f
    by (simp add: fact_uuid_def captured_simps neo_get_sort_props fact_text_def rel_prop_def)
  have peer: "\<exists>u. fact_key (?cap f) = (fact_text f, u) \<and> prop_at ''uuid'' g (other_end (gn_id an) f) = NStr u
      \<and> peers_named (Some u) k = [other_end (gn_id an) f]" if "f \<in> set fs" for f
  proof -
    have "f \<in> set (g_rels g)" "incident (gn_id an) f" using fs that by (auto simp: touching_def)
    then obtain u where "prop_at ''uuid'' g (other_end (gn_id an) f) = NStr u" "peers_named (Some u) k = [other_end (gn_id an) f]"
      by (rule peer_found [OF set _ _ nodes])
    then show ?thesis
      using wording [of f] by (simp add: fact_key_def captured_simps neo_text_def py_str_def)
  qed
  have keys: "?key ` set es = fact_key ` ?cap ` set fs" and dist: "distinct (map ?key es)"
    using first_facts_keys [of "[]" "map ?cap fs"] by (simp_all add: es)
  have from_entry: "\<exists>f\<in>set fs. ?key e = fact_key (?cap f)" if "e \<in> set es" for e
    using imageI [OF that, of ?key] unfolding keys by auto
  have to_entry: "\<exists>e\<in>set es. ?key e = fact_key (?cap f)" if "f \<in> set fs" for f
  proof -
    have "fact_key (?cap f) \<in> ?key ` set es"
      unfolding keys by (intro imageI that)
    then show ?thesis
      by (elim imageE) (rule bexI, rule sym)
  qed
  show one: "\<exists>f\<in>set fs. rf_uuid e = fact_text f \<and> q (rf_peer_uuid e) = other_end (gn_id an) f
      \<and> peers_named (Some (rf_peer_uuid e)) k = [q (rf_peer_uuid e)]" if "e \<in> set es" for e
  proof -
    from from_entry [OF that] obtain f where f: "f \<in> set fs" "?key e = fact_key (?cap f)" ..
    then show ?thesis
      using peer [OF f(1)] by (intro bexI [OF _ f(1)]) (auto simp: q)
  qed
  show "\<exists>e\<in>set es. rf_uuid e = fact_text f \<and> q (rf_peer_uuid e) = other_end (gn_id an) f" if "f \<in> set fs" for f
  proof -
    from to_entry [OF that] obtain e where e: "e \<in> set es" "?key e = fact_key (?cap f)" ..
    then show ?thesis
      using peer [OF that] by (intro bexI [OF _ e(1)]) (auto simp: q)
  qed
  have "rf_peer_uuid e = rf_peer_uuid e'" if "e \<in> set es" "e' \<in> set es" "q (rf_peer_uuid e) = q (rf_peer_uuid e')" for e e'
  proof -
    have named: "\<exists>f\<in>set fs. prop_at ''uuid'' g (other_end (gn_id an) f) = NStr (rf_peer_uuid e) \<and> q (rf_peer_uuid e) = other_end (gn_id an) f"
      if "e \<in> set es" for e
    proof -
      from from_entry [OF that] obtain f where f: "f \<in> set fs" "?key e = fact_key (?cap f)" ..
      then show ?thesis using peer [OF f(1)] by (intro bexI [OF _ f(1)]) (auto simp: q)
    qed
    show ?thesis using named [OF that(1)] named [OF that(2)] that(3) by auto
  qed
  then show "distinct (map (\<lambda>e. (rf_uuid e, q (rf_peer_uuid e))) es)"
    using dist unfolding distinct_map inj_on_def by (auto 0 3)
qed

text \<open>Which relationships the restore takes for copies of the moved facts of one direction.\<close>

definition moved_dir :: "'t pgraph \<Rightarrow> 't gnode \<Rightarrow> 't gnode \<Rightarrow> bool \<Rightarrow> 't grel list" where
  "moved_dir g sn an out = filter (moved_fact_where g sn an) (touching g an out)"

definition taken :: "'t pgraph \<Rightarrow> 't gnode \<Rightarrow> 't gnode \<Rightarrow> bool \<Rightarrow> 't edge_view \<Rightarrow> bool" where
  "taken g sn an out v \<longleftrightarrow> (\<exists>f\<in>set (moved_dir g sn an out). copy_at out (gn_id sn) (other_end (gn_id an) f) (fact_text f) v)"

lemma moved_dirD:
  assumes "undo_setting mp s a g sn an h" "f \<in> set (moved_dir g sn an out)"
  shows "f \<in> set (moved_facts g sn an)" "f \<in> set (g_rels g)" "incident (gn_id an) f" "(gr_start f = gn_id an) = out"
    "gr_type f = ''RELATES_TO''" "rel_prop ''uuid'' f = NStr (fact_text f)" "other_end (gn_id an) f \<noteq> gn_id sn"
    "other_end (gn_id an) f \<noteq> gn_id an"
proof -
  show f: "f \<in> set (moved_facts g sn an)" "f \<in> set (g_rels g)" "incident (gn_id an) f" "(gr_start f = gn_id an) = out"
    using assms(2) by (auto simp: moved_dir_def touching_def moved_facts_def)
  then have "moved_fact_where g sn an f" by (simp add: moved_facts_def)
  then show "gr_type f = ''RELATES_TO''" by (simp add: moved_fact_where_def Let_def)
  show "rel_prop ''uuid'' f = NStr (fact_text f)"
    using moved_fact_text [OF \<open>moved_fact_where g sn an f\<close>] by (rule conjunct1)
  have own: "prop_at ''uuid'' g (gn_id n) = node_prop ''uuid'' n" if "n \<in> set (g_nodes g)" for n
    using node_by_id_member [OF undo_settingD(1) [OF assms(1)] that] by (simp add: prop_at_def)
  have other: "prop_at ''uuid'' g (other_end (gn_id an) f) \<noteq> node_prop ''uuid'' sn \<and> prop_at ''uuid'' g (other_end (gn_id an) f) \<noteq> node_prop ''uuid'' an"
    using \<open>moved_fact_where g sn an f\<close> by (simp add: moved_fact_where_def Let_def)
  show "other_end (gn_id an) f \<noteq> gn_id sn"
    by (rule contrapos_nn [OF conjunct1 [OF other]]) (simp add: own [OF undo_setting_nodes(1) [OF assms(1)]])
  show "other_end (gn_id an) f \<noteq> gn_id an"
    by (rule contrapos_nn [OF conjunct2 [OF other]]) (simp add: own [OF undo_setting_nodes(2) [OF assms(1)]])
qed

lemma taken_copy:
  assumes set: "undo_setting mp s a g sn an h" and f: "f \<in> set (moved_dir g sn an d)"
  shows "taken g sn an out (copy_view sn an f) \<longleftrightarrow> d = out"
proof
  note f' = moved_dirD [OF set f]
  assume "taken g sn an out (copy_view sn an f)"
  then obtain e where e: "e \<in> set (moved_dir g sn an out)" "copy_at out (gn_id sn) (other_end (gn_id an) e) (fact_text e) (copy_view sn an f)"
    by (auto simp: taken_def)
  then show "d = out"
    using f' moved_dirD(7) [OF set e(1)] by (auto simp: copy_at_def copy_view_def other_end_def incident_def split: if_splits)
next
  note f' = moved_dirD [OF set f]
  assume "d = out"
  moreover have "copy_at d (gn_id sn) (other_end (gn_id an) f) (fact_text f) (copy_view sn an f)"
    using f'(3-6) by (auto simp: copy_at_def copy_view_def other_end_def turned_def incident_def)
  ultimately show "taken g sn an out (copy_view sn an f)"
    using f by (auto simp: taken_def)
qed

lemma taken_far:
  assumes set: "undo_setting mp s a g sn an h" and v: "v \<in># filter_mset (far_view (gn_id an)) (views g)"
  shows "\<not> taken g sn an out v"
proof
  assume "taken g sn an out v"
  then obtain f r where f: "f \<in> set (moved_dir g sn an out)" and r: "r \<in> set (g_rels g)"
      "fact_copy out (gn_id sn) (other_end (gn_id an) f) (fact_text f) r"
    using v by (auto simp: taken_def views_def copy_at_rel)
  note f' = moved_dirD [OF set f]
  have "rival_fact (gn_id sn) (gn_id an) f r"
    using r(2) f'(3,4,6) by (auto simp: rival_fact_def fact_copy_def other_end_def split: if_splits)
  then show False
    using invertibleD(8) [OF undo_settingD(3) [OF set] f'(1) r(1)] by simp
qed

lemma taken_added:
  assumes "undo_setting mp s a g sn an h" "added_view g sn an mp v"
  shows "\<not> taken g sn an out v"
proof -
  have "neo_get ''uuid'' (bridge_props mp) = NNone"
    by (simp add: bridge_props_def neo_get_def)
  then show ?thesis
    using assms(2) by (auto simp: taken_def added_view_def copy_at_def new_view_def)
qed

lemma taken_returned:
  assumes set: "undo_setting mp s a g sn an h" and ni: "ni \<notin> node_ids h" and r: "incident (gn_id an) r"
  shows "\<not> taken g sn an out (returned_view (gn_id an) ni r)"
proof
  assume "taken g sn an out (returned_view (gn_id an) ni r)"
  then obtain f where f: "f \<in> set (moved_dir g sn an out)"
      "copy_at out (gn_id sn) (other_end (gn_id an) f) (fact_text f) (returned_view (gn_id an) ni r)"
    by (auto simp: taken_def)
  note f' = moved_dirD [OF set f(1)]
  have "gn_id sn \<in> node_ids h"
    by (rule survivor_in_merged(2) [OF set])
  moreover have "other_end (gn_id an) f \<in> node_ids h"
    by (rule peer_found [OF set f'(2,3), of "h\<lparr>g_nodes := g_nodes h @ [an]\<rparr>" an]) (simp_all add: undo_setting_nodes(4) [OF set])
  ultimately show False
    using f(2) ni by (auto simp: copy_at_def returned_view_def edge_of_def split: if_splits)
qed

lemma back_copy:
  assumes set: "undo_setting mp s a g sn an h" and f: "f \<in> set (moved_dir g sn an out)"
  shows "back_at out ni (NStr a) (copy_view sn an f) = returned_view (gn_id an) ni f"
proof -
  note f' = moved_dirD [OF set f]
  have "own_end (NStr a) out f"
    using invertibleD(7) [OF undo_settingD(3) [OF set] f'(1)] f'(4) by simp
  then have "turned out (NStr a) (turned out (node_prop ''uuid'' sn) (\<lambda>k. rel_prop k f)) = (\<lambda>k. rel_prop k f)"
    unfolding undo_setting_nodes(3) [OF set] by (auto simp: fun_eq_iff turned_def own_end_def)
  then show ?thesis
    using f'(3,4,5) by (auto simp: back_at_def copy_view_def returned_view_def edge_of_def other_end_def incident_def)
qed

lemma filter_none: "(\<And>v. v \<in># A \<Longrightarrow> \<not> P v) \<Longrightarrow> filter_mset P A = {#} \<and> filter_mset (\<lambda>v. \<not> P v) A = A"
  by (induction A) auto

lemma filter_every: "(\<And>v. v \<in># A \<Longrightarrow> P v) \<Longrightarrow> filter_mset P A = A \<and> filter_mset (\<lambda>v. \<not> P v) A = {#}"
  by (induction A) auto

text \<open>One direction of the facts: its copies become the relationships they came from.\<close>

lemma restore_direction:
  assumes set: "undo_setting mp s a g sn an h" and nodes: "g_nodes k = g_nodes h @ [x]" "node_prop ''uuid'' x = NStr a"
    and ok: "ids_ok k" and ni: "ni \<notin> node_ids h"
    and vk: "views k = A + mset (map (copy_view sn an) (moved_dir g sn an out))" and A: "\<And>v. v \<in># A \<Longrightarrow> \<not> taken g sn an out v"
    and es: "es = first_facts [] (map (\<lambda>r. sort_rel (capture_rel dr g (gn_id an) r)) (moved_dir g sn an out))"
    and run: "restore_facts out (gn_id sn) ni (NStr a) es (k, m, n) = (k', m', n')"
  shows "g_nodes k' = g_nodes h @ [x] \<and> ids_ok k'
    \<and> views k' = A + mset (map (returned_view (gn_id an) ni) (moved_dir g sn an out))"
proof -
  define q where "q = (\<lambda>u. hd (peers_named (Some u) k))"
  have fs: "set (moved_dir g sn an out) \<subseteq> set (touching g an out)"
    by (auto simp: moved_dir_def)
  note entries = plan_entries [OF set fs nodes es q_def]
  have any: "copy_of_any out (gn_id sn) q es v \<longleftrightarrow> taken g sn an out v" for v
  proof
    assume "copy_of_any out (gn_id sn) q es v"
    then obtain e where e: "e \<in> set es" "copy_at out (gn_id sn) (q (rf_peer_uuid e)) (rf_uuid e) v"
      by (auto simp: copy_of_any_def list_ex_iff)
    with entries(1) [OF e(1)] show "taken g sn an out v" by (auto simp: taken_def)
  next
    assume "taken g sn an out v"
    then obtain f where f: "f \<in> set (moved_dir g sn an out)" "copy_at out (gn_id sn) (other_end (gn_id an) f) (fact_text f) v"
      by (auto simp: taken_def)
    from entries(2) [OF f(1)] obtain e where "e \<in> set es" "rf_uuid e = fact_text f" "q (rf_peer_uuid e) = other_end (gn_id an) f" by blast
    with f(2) show "copy_of_any out (gn_id sn) q es v"
      unfolding copy_of_any_def list_ex_iff by (intro bexI [of _ e]) simp_all
  qed
  have there: "\<exists>v\<in>#views k. copy_at out (gn_id sn) (q (rf_peer_uuid e)) (rf_uuid e) v" if "e \<in> set es" for e
  proof -
    from entries(1) [OF that] obtain f where f: "f \<in> set (moved_dir g sn an out)" "rf_uuid e = fact_text f"
        "q (rf_peer_uuid e) = other_end (gn_id an) f" by blast
    note f' = moved_dirD [OF set f(1)]
    have "copy_at out (gn_id sn) (q (rf_peer_uuid e)) (rf_uuid e) (copy_view sn an f)"
      using f'(3-6) f(2,3) by (auto simp: copy_at_def copy_view_def other_end_def turned_def incident_def)
    moreover have "copy_view sn an f \<in># views k"
      using f(1) by (simp add: vk)
    ultimately show ?thesis by blast
  qed
  have ne: "ni \<noteq> gn_id sn"
    using ni survivor_in_merged(2) [OF set] by auto
  have step: "g_nodes k' = g_nodes k \<and> ids_ok k'
    \<and> views k' = filter_mset (\<lambda>v. \<not> copy_of_any out (gn_id sn) q es v) (views k)
       + image_mset (back_at out ni (NStr a)) (filter_mset (copy_of_any out (gn_id sn) q es) (views k))"
    by (rule restore_facts_step [OF ok ne entries(3) _ there run]) (use entries(1) in blast)+
  have copies: "taken g sn an out v" if "v \<in># mset (map (copy_view sn an) (moved_dir g sn an out))" for v
    using that taken_copy [OF set] by auto
  have "image_mset (back_at out ni (NStr a)) (mset (map (copy_view sn an) (moved_dir g sn an out)))
      = mset (map (returned_view (gn_id an) ni) (moved_dir g sn an out))"
    using back_copy [OF set] by (auto simp: mset_map [symmetric] simp del: mset_map intro!: arg_cong [where f = mset] map_cong)
  moreover have anyf: "copy_of_any out (gn_id sn) q es = taken g sn an out"
    by (rule ext) (rule any)
  moreover have fA: "filter_mset (taken g sn an out) A = {#}" "filter_mset (\<lambda>v. \<not> taken g sn an out v) A = A"
    using filter_none [of A "taken g sn an out"] A by blast+
  moreover have fC: "filter_mset (taken g sn an out) (mset (map (copy_view sn an) (moved_dir g sn an out)))
        = mset (map (copy_view sn an) (moved_dir g sn an out))"
      "filter_mset (\<lambda>v. \<not> taken g sn an out v) (mset (map (copy_view sn an) (moved_dir g sn an out))) = {#}"
    using filter_every [of "mset (map (copy_view sn an) (moved_dir g sn an out))" "taken g sn an out"] copies by blast+
  ultimately show ?thesis
    using step by (simp only: vk nodes(1) filter_union_mset empty_neutral)
qed

lemma moved_facts_split:
  "mset (map v (moved_facts g sn an)) = mset (map v (moved_dir g sn an True)) + mset (map v (moved_dir g sn an False))"
proof -
  have "moved_dir g sn an True = filter (\<lambda>f. gr_start f = gn_id an) (moved_facts g sn an)"
    "moved_dir g sn an False = filter (\<lambda>f. \<not> gr_start f = gn_id an) (moved_facts g sn an)"
    by (auto simp: moved_dir_def moved_facts_def touching_def moved_fact_where_def Let_def intro!: filter_cong)
  then show ?thesis
    using mset_partition_map [of v "\<lambda>f. gr_start f = gn_id an" "moved_facts g sn an"] by simp
qed

lemma touching_split:
  "mset (map v (filter (incident (gn_id an)) (g_rels g)))
     = mset (map v (filter (\<lambda>r. \<not> moved_fact_where g sn an r) (touching g an True)))
       + mset (map v (filter (\<lambda>r. \<not> moved_fact_where g sn an r) (touching g an False)))
       + mset (map v (moved_dir g sn an True)) + mset (map v (moved_dir g sn an False))"
proof -
  have "touching g an True = filter (\<lambda>r. gr_start r = gn_id an) (filter (incident (gn_id an)) (g_rels g))"
    "touching g an False = filter (\<lambda>r. \<not> gr_start r = gn_id an) (filter (incident (gn_id an)) (g_rels g))"
    by (auto simp: touching_def intro!: filter_cong)
  then have "mset (map v (filter (incident (gn_id an)) (g_rels g))) = mset (map v (touching g an True)) + mset (map v (touching g an False))"
    using mset_partition_map [of v "\<lambda>r. gr_start r = gn_id an" "filter (incident (gn_id an)) (g_rels g)"] by simp
  then have "mset (map v (filter (incident (gn_id an)) (g_rels g)))
      = (mset (map v (moved_dir g sn an True)) + mset (map v (filter (\<lambda>r. \<not> moved_fact_where g sn an r) (touching g an True))))
        + (mset (map v (moved_dir g sn an False)) + mset (map v (filter (\<lambda>r. \<not> moved_fact_where g sn an r) (touching g an False))))"
    unfolding moved_dir_def mset_partition_map .
  then show ?thesis
    by (simp only: ac_simps)
qed

lemma restore_edges_views:
  assumes set: "undo_setting mp s a g sn an h"
    and plan: "plan = build_restore_plan (state_of dr g sn s) (state_of dr g an a)"
    and x: "x = restored_node s oid now plan (fresh_node_id h)"
    and vh: "views h = filter_mset (far_view (gn_id an)) (views g) + mset (map (copy_view sn an) (moved_facts g sn an)) + N"
    and N: "\<And>v. v \<in># N \<Longrightarrow> added_view g sn an mp v"
    and run: "restore_edges s oid now plan (merged_survivor mp sn an) h = (k, m, n)"
  shows "g_nodes k = g_nodes h @ [x] \<and> ids_ok k
    \<and> views k = filter_mset (far_view (gn_id an)) (views g) + N
        + mset (map (returned_view (gn_id an) (fresh_node_id h)) (filter (incident (gn_id an)) (g_rels g)))"
proof -
  let ?ni = "fresh_node_id h" and ?ai = "gn_id an" and ?F = "filter_mset (far_view (gn_id an)) (views g)"
  let ?O = "\<lambda>out. filter (\<lambda>r. \<not> moved_fact_where g sn an r) (touching g an out)" and ?M = "moved_dir g sn an"
  let ?R = "returned_view ?ai ?ni" and ?cap = "\<lambda>r. sort_rel (capture_rel dr g ?ai r)"
  have texts: "uuid_texts g" and flat: "flat_props (gn_props an)"
    using invertibleD(1,5) [OF undo_settingD(3) [OF set]] by blast+
  note uu = undo_setting_nodes(3,4) [OF set]
  have xu: "node_prop ''uuid'' x = NStr a" and xi: "gn_id x = ?ni"
    using uu(2) by (simp_all add: x plan restored_props [OF flat], simp add: restored_node_def)
  have plan_parts: "rp_out_rels plan = map (plan_rel dr g ?ai) (?O True)" "rp_in_rels plan = map (plan_rel dr g ?ai) (?O False)"
    "rp_fact_out plan = first_facts [] (map ?cap (?M True))" "rp_fact_in plan = first_facts [] (map ?cap (?M False))"
    using plan_rels_state [OF texts uu, of dr True] plan_rels_state [OF texts uu, of dr False]
      plan_facts_state [OF texts uu, of dr True] plan_facts_state [OF texts uu, of dr False]
    by (simp_all add: plan build_restore_plan_def Let_def moved_dir_def dir_text_def)
  define g1 where "g1 = h\<lparr>g_nodes := g_nodes h @ [x]\<rparr>"
  define g2 where "g2 = fold (restore_rel True ?ni) (rp_out_rels plan) g1"
  define g3 where "g3 = fold (restore_rel False ?ni) (rp_in_rels plan) g2"
  have g1: "g_nodes g1 = g_nodes h @ [x]" "ids_ok g1" "views g1 = views h"
    using undo_settingD(2) [OF set] by (simp_all add: g1_def ids_ok_def pgraph_ok_def views_def)
  have sub: "set (?O out) \<subseteq> set (touching g an out)" for out by auto
  have g2: "g_nodes g2 = g_nodes h @ [x] \<and> ids_ok g2 \<and> views g2 = views g1 + mset (map ?R (?O True))"
    unfolding g2_def plan_parts by (rule restore_rels_step [OF set sub g1(1) xu g1(2)])
  have g3: "g_nodes g3 = g_nodes h @ [x] \<and> ids_ok g3 \<and> views g3 = views g2 + mset (map ?R (?O False))"
    unfolding g3_def plan_parts using g2 by (intro restore_rels_step [OF set sub _ xu]) auto
  obtain k1 m1 n1 where k1: "restore_facts True (gn_id sn) ?ni (NStr a) (rp_fact_out plan) (g3, 0, 0) = (k1, m1, n1)"
    by (metis prod_cases3)
  have k: "restore_facts False (gn_id sn) ?ni (NStr a) (rp_fact_in plan) (k1, m1, n1) = (k, m, n)"
    using run k1 by (simp add: restore_edges_def Let_def x [symmetric] xi xu g1_def [symmetric] g2_def [symmetric] g3_def [symmetric]
        survivor_in_merged(3) [OF set])
  have inc: "incident ?ai r" if "r \<in> set (?O b) \<or> r \<in> set (?M b)" for r b
    using that unfolding touching_def moved_dir_def by fastforce
  have returned: "\<not> taken g sn an out v" if "v \<in># mset (map ?R (?O b)) \<or> v \<in># mset (map ?R (?M b))" for out b v
  proof -
    from that obtain r where r: "r \<in> set (?O b) \<or> r \<in> set (?M b)" "v = ?R r"
      unfolding set_mset_mset set_map by blast
    show ?thesis
      unfolding r(2) by (rule taken_returned [OF set fresh_node inc [OF r(1)]])
  qed
  have rest: "\<not> taken g sn an out v"
    if "v \<in># ?F \<or> v \<in># N \<or> v \<in># mset (map ?R (?O True)) \<or> v \<in># mset (map ?R (?O False)) \<or> v \<in># mset (map ?R (?M True))" for out v
    using that taken_far [OF set, of v out] taken_added [OF set N, of v out] returned [of v _ out] by blast
  define B where "B = ?F + N + mset (map ?R (?O True)) + mset (map ?R (?O False))"
  have v3: "views g3 = (B + mset (map (copy_view sn an) (?M False))) + mset (map (copy_view sn an) (?M True))"
    using g1(3) g2 g3 vh moved_facts_split [of "copy_view sn an" g sn an] by (simp only: B_def ac_simps)
  have first: "\<not> taken g sn an True v" if "v \<in># B + mset (map (copy_view sn an) (?M False))" for v
    using that rest [of v True] taken_copy [OF set, of _ False True] by (auto simp: B_def)
  have s1: "g_nodes k1 = g_nodes h @ [x] \<and> ids_ok k1
      \<and> views k1 = (B + mset (map (copy_view sn an) (?M False))) + mset (map ?R (?M True))"
    using g3 by (intro restore_direction [OF set _ xu _ fresh_node v3 first plan_parts(3) k1]) auto
  have v4: "views k1 = (B + mset (map ?R (?M True))) + mset (map (copy_view sn an) (?M False))"
    using s1 by (simp only: ac_simps)
  have second: "\<not> taken g sn an False v" if "v \<in># B + mset (map ?R (?M True))" for v
    using that rest [of v False] by (auto simp: B_def)
  have "g_nodes k = g_nodes h @ [x] \<and> ids_ok k \<and> views k = (B + mset (map ?R (?M True))) + mset (map ?R (?M False))"
    using s1 by (intro restore_direction [OF set _ xu _ fresh_node v4 second plan_parts(4) k]) auto
  then show ?thesis
    unfolding touching_split [of ?R an g sn] B_def by (simp only: ac_simps)
qed

end
