(* ===== verification/Unmerge_Removal.thy ===== *)
theory Unmerge_Removal
  imports Unmerge_Exact
begin

text \<open>
  The last phase of the restore: the bridges, mentions and retention sources that the merge added go
  again, nothing else does, and the graph has the relationships it had before the merge.
\<close>

section \<open>Removals as views\<close>

definition bridge_view :: "nat \<Rightarrow> string \<Rightarrow> 't edge_view \<Rightarrow> bool" where
  "bridge_view si a v \<longleftrightarrow>
     (case v of (ty, st, en, f) \<Rightarrow> (st = si \<or> en = si) \<and> ty = ''RELATES_TO'' \<and> f ''bridged_from'' = NStr a)"

definition rebound_view :: "string \<Rightarrow> nat \<Rightarrow> 't neo_value set \<Rightarrow> 't pgraph \<Rightarrow> (nat \<Rightarrow> (string \<Rightarrow> 't neo_value) \<Rightarrow> bool) \<Rightarrow> 't edge_view \<Rightarrow> bool" where
  "rebound_view ty si us g E v \<longleftrightarrow>
     (case v of (t, st, en, f) \<Rightarrow> t = ty \<and> en = si \<and> prop_at ''uuid'' g st \<in> us \<and> E st f)"

definition episode_of_tenant :: "'t pgraph \<Rightarrow> 't gnode \<Rightarrow> nat \<Rightarrow> (string \<Rightarrow> 't neo_value) \<Rightarrow> bool" where
  "episode_of_tenant g s i f \<longleftrightarrow>
     (case node_by_id i g of None \<Rightarrow> False | Some n \<Rightarrow> has_label ''Episodic'' n \<and> same_tenant (tenant_of n) (tenant_of s))
     \<and> f ''direct'' \<in> {NNone, NBool False}"

lemma removed_views:
  "bridge_of si a r \<longleftrightarrow> bridge_view si a (edge_view r)"
  "rebound_mention g si us r \<longleftrightarrow> rebound_view ''MENTIONS'' si (NStr ` set us) g (\<lambda>i _. labelled_at ''Episodic'' g i) (edge_view r)"
  "rebound_retention g s us r \<longleftrightarrow> rebound_view ''RETENTION_SOURCE'' (gn_id s) (NStr ` set us) g (episode_of_tenant g s) (edge_view r)"
proof -
  show "bridge_of si a r \<longleftrightarrow> bridge_view si a (edge_view r)"
    by (auto simp: bridge_of_def bridge_view_def edge_view_def incident_def)
  show "rebound_mention g si us r \<longleftrightarrow> rebound_view ''MENTIONS'' si (NStr ` set us) g (\<lambda>i _. labelled_at ''Episodic'' g i) (edge_view r)"
    by (auto simp: rebound_mention_def rebound_view_def edge_view_def)
  show "rebound_retention g s us r \<longleftrightarrow> rebound_view ''RETENTION_SOURCE'' (gn_id s) (NStr ` set us) g (episode_of_tenant g s) (edge_view r)"
    by (auto simp: rebound_retention_def rebound_view_def edge_view_def episode_of_tenant_def prop_at_def split: option.splits)
qed

lemma views_remove_rels:
  assumes "\<And>r. P r \<longleftrightarrow> Q (edge_view r)"
  shows "views (remove_rels P g) = filter_mset (\<lambda>v. \<not> Q v) (views g)"
  using views_filter [of "g_rels g" "\<lambda>r. \<not> P r" "\<lambda>v. \<not> Q v"] assms by (simp add: views_def remove_rels_def)

lemma g_nodes_remove_rels [simp]: "g_nodes (remove_rels P g) = g_nodes g"
  by (simp add: remove_rels_def)

lemma lookup_cong:
  assumes "g_nodes g = g_nodes h"
  shows "node_by_id i g = node_by_id i h" "labelled_at l g i = labelled_at l h i" "prop_at k g i = prop_at k h i"
  using assms by (simp_all add: node_by_id_def labelled_at_def prop_at_def)

section \<open>Nodes looked up in the restored graph\<close>

lemma node_by_id_distinct: "distinct (map gn_id (g_nodes g)) \<Longrightarrow> n \<in> set (g_nodes g) \<Longrightarrow> node_by_id (gn_id n) g = Some n"
  unfolding node_by_id_def
proof (induction "g_nodes g" arbitrary: g)
  case (Cons m ms)
  then show ?case
    using Cons.hyps(1) [of "g\<lparr>g_nodes := ms\<rparr>"] by (cases "n = m") (auto simp: Cons.hyps(2) [symmetric] image_iff)
qed simp

definition kept_keys :: "string set" where
  "kept_keys = {''uuid'', ''namespace'', ''group_id''}"

text \<open>The graph after the relationships are back and the survivor has its own properties again.\<close>

definition restored_nodes :: "'t gnode \<Rightarrow> 't props \<Rightarrow> 't pgraph \<Rightarrow> 't gnode \<Rightarrow> 't pgraph \<Rightarrow> bool" where
  "restored_nodes x delta h sn k \<longleftrightarrow>
     g_nodes k = map (\<lambda>n. if gn_id n = gn_id sn then n\<lparr>gn_props := set_props delta (gn_props n)\<rparr> else n) (g_nodes h @ [x])
     \<and> distinct (map fst delta) \<and> fst ` set delta \<inter> kept_keys = {}"

lemma restored_nodes_ids:
  assumes set: "undo_setting mp s a g sn an h" and k: "restored_nodes x delta h sn k" and x: "gn_id x = fresh_node_id h"
  shows "distinct (map gn_id (g_nodes k))"
proof -
  have "map gn_id (g_nodes k) = map gn_id (g_nodes h) @ [gn_id x]"
    using k by (simp add: restored_nodes_def)
  then show ?thesis
    using undo_settingD(2) [OF set] fresh_node [of h] by (simp add: pgraph_ok_def x node_ids_def)
qed

lemma restored_lookup:
  assumes set: "undo_setting mp s a g sn an h" and k: "restored_nodes x delta h sn k" and x: "gn_id x = fresh_node_id h"
    and i: "i \<in> node_ids g" "i \<noteq> gn_id an"
  obtains n m where "node_by_id i g = Some n" "node_by_id i k = Some m" "gn_labels m = gn_labels n"
    "\<And>p. p \<in> kept_keys \<Longrightarrow> node_prop p m = node_prop p n"
proof -
  obtain n where n: "n \<in> set (g_nodes g)" "gn_id n = i"
    using i(1) by (auto simp: node_ids_def)
  have ni: "gn_id n \<noteq> gn_id an" using n i(2) by simp
  obtain m where m: "m \<in> set (g_nodes h)" "gn_id m = gn_id n" "gn_labels m = gn_labels n"
      "\<And>p. p \<notin> fst ` set (survivor_delta mp sn an) \<Longrightarrow> node_prop p m = node_prop p n"
    using merged_node [OF set n(1) ni] by blast
  let ?k = "if gn_id m = gn_id sn then m\<lparr>gn_props := set_props delta (gn_props m)\<rparr> else m"
  have "?k \<in> set (g_nodes k)"
    using k m(1) by (auto simp: restored_nodes_def)
  moreover have "gn_id ?k = i"
    using m(2) n(2) by simp
  ultimately have 1: "node_by_id i k = Some ?k"
    using node_by_id_distinct [OF restored_nodes_ids [OF set k x]] by blast
  have 2: "node_by_id i g = Some n"
    using node_by_id_member [OF undo_settingD(1) [OF set] n(1)] n(2) by simp
  have 3: "gn_labels ?k = gn_labels n"
    using m(3) by simp
  have 4: "node_prop p ?k = node_prop p n" if p: "p \<in> kept_keys" for p
  proof -
    have "p \<notin> fst ` set (survivor_delta mp sn an)"
      using p unfolding survivor_delta_keys kept_keys_def by auto
    moreover have "map_of delta p = None"
      using p k by (auto simp: restored_nodes_def map_of_eq_None_iff)
    ultimately show ?thesis
      using m(4) k by (simp add: node_prop_def neo_get_set_props restored_nodes_def)
  qed
  show thesis
    by (rule that [OF 2 1 3 4])
qed

lemma restored_new_lookup:
  assumes set: "undo_setting mp s a g sn an h" and k: "restored_nodes x delta h sn k" and x: "gn_id x = fresh_node_id h"
  shows "node_by_id (fresh_node_id h) k = Some x"
proof -
  have "gn_id x \<noteq> gn_id sn"
    using survivor_in_merged(2) [OF set] fresh_node [of h] x by auto
  then have "x \<in> set (g_nodes k)"
    using k by (simp add: restored_nodes_def)
  then show ?thesis
    using node_by_id_distinct [OF restored_nodes_ids [OF set k x]] x by metis
qed

section \<open>What the removals take\<close>

lemma set_map_filter: "set (List.map_filter f xs) = {y. \<exists>x\<in>set xs. f x = Some y}"
  by (auto simp: map_filter_def image_iff) (metis option.sel)

lemma incoming_mem:
  assumes "uuid_texts g"
  shows "u \<in> set (incoming_peers ty (state_of dr g n v)) \<longleftrightarrow>
     u \<noteq> [] \<and> (\<exists>r\<in>set (g_rels g). gr_type r = ty \<and> gr_end r = gn_id n \<and> gr_start r \<noteq> gn_id n \<and> prop_at ''uuid'' g (gr_start r) = NStr u)"
proof -
  have wording: "neo_text dr (prop_at ''uuid'' g i) = Some u \<longleftrightarrow> prop_at ''uuid'' g i = NStr u" for i
    using prop_at_text [OF assms, of i] by (auto simp: neo_text_def py_str_def split: neo_value.splits)
  have "u \<in> set (incoming_peers ty (state_of dr g n v)) \<longleftrightarrow>
      (\<exists>r\<in>set (g_rels g). incident (gn_id n) r \<and> gr_type r = ty \<and> gr_start r \<noteq> gn_id n
         \<and> neo_text dr (prop_at ''uuid'' g (other_end (gn_id n) r)) = Some u \<and> u \<noteq> [])"
    by (auto simp: incoming_peers_def set_map_filter state_relationships captured_simps truthy_def split: option.splits if_splits)
  then show ?thesis
    unfolding wording by (auto simp: incident_def other_end_def)
qed

lemma rebound_mem:
  "u \<in> set (rebound_peers ty survivor absorbed) \<longleftrightarrow> u \<in> set (incoming_peers ty absorbed) \<and> u \<notin> set (incoming_peers ty survivor)"
  by (auto simp: rebound_peers_def)

lemma prop_at_node: "node_by_id i g = Some n \<Longrightarrow> prop_at k g i = node_prop k n"
  by (simp add: prop_at_def)

lemma uuid_at_unique:
  assumes "pgraph_ok g" "prop_at ''uuid'' g i = NStr u" "prop_at ''uuid'' g j = NStr u"
  shows "i = j"
proof -
  obtain n m where n: "node_by_id i g = Some n" "node_prop ''uuid'' n = NStr u" "node_by_id j g = Some m" "node_prop ''uuid'' m = NStr u"
    using assms(2,3) by (auto simp: prop_at_def split: option.splits)
  then have "n = m"
    using pgraph_ok_uuid_unique [OF assms(1), of n m] node_by_id_SomeD [OF n(1)] node_by_id_SomeD [OF n(3)] by simp
  then show ?thesis
    using node_by_id_SomeD [OF n(1)] node_by_id_SomeD [OF n(3)] by simp
qed

lemma rel_ends_known: "pgraph_ok g \<Longrightarrow> r \<in> set (g_rels g) \<Longrightarrow> gr_start r \<in> node_ids g \<and> gr_end r \<in> node_ids g"
  by (simp add: pgraph_ok_def)

lemma far_kept:
  assumes set: "undo_setting mp s a g sn an h" and k: "restored_nodes x delta h sn k" and x: "gn_id x = fresh_node_id h"
    and v: "v \<in># filter_mset (far_view (gn_id an)) (views g)"
  shows "\<not> bridge_view (gn_id sn) a v"
    "\<not> rebound_view ty (gn_id sn) (NStr ` set (rebound_peers ty (state_of dr g sn s) (state_of dr g an a))) k E v"
proof -
  obtain r where r: "r \<in> set (g_rels g)" "v = edge_view r" "\<not> incident (gn_id an) r"
    using v by (auto simp: views_def far_view_rel)
  note inv = invertibleD [OF undo_settingD(3) [OF set]]
  show "\<not> bridge_view (gn_id sn) a v"
    using inv(9) [OF r(1)] unfolding r(2) removed_views(1) .
  show "\<not> rebound_view ty (gn_id sn) (NStr ` set (rebound_peers ty (state_of dr g sn s) (state_of dr g an a))) k E v"
  proof
    assume "rebound_view ty (gn_id sn) (NStr ` set (rebound_peers ty (state_of dr g sn s) (state_of dr g an a))) k E v"
    then obtain u where u: "gr_type r = ty" "gr_end r = gn_id sn" "prop_at ''uuid'' k (gr_start r) = NStr u"
        "u \<in> set (incoming_peers ty (state_of dr g an a))" "u \<notin> set (incoming_peers ty (state_of dr g sn s))"
      by (auto simp: rebound_view_def r(2) edge_view_def rebound_mem)
    have st: "gr_start r \<in> node_ids g" "gr_start r \<noteq> gn_id an"
      using rel_ends_known [OF undo_settingD(1) [OF set] r(1)] r(3) by (simp_all add: incident_def)
    obtain n m where "node_by_id (gr_start r) g = Some n" "node_by_id (gr_start r) k = Some m"
        "\<And>p. p \<in> kept_keys \<Longrightarrow> node_prop p m = node_prop p n"
      using restored_lookup [OF set k x st] by metis
    then have "prop_at ''uuid'' g (gr_start r) = NStr u"
      using u(3) by (simp add: prop_at_node kept_keys_def)
    moreover have "gr_start r \<noteq> gn_id sn"
      using inv(2) r(1) u(2) by (auto simp: loop_free_def list_all_iff)
    ultimately show False
      using u r(1) unfolding incoming_mem [OF inv(1)] by blast
  qed
qed

lemma returned_kept:
  assumes set: "undo_setting mp s a g sn an h" and k: "restored_nodes x delta h sn k" and x: "gn_id x = fresh_node_id h"
    and xu: "node_prop ''uuid'' x = NStr a" and r: "r \<in> set (g_rels g)" "incident (gn_id an) r"
  shows "\<not> bridge_view (gn_id sn) a (returned_view (gn_id an) (fresh_node_id h) r)"
    "\<not> rebound_view ty (gn_id sn) (NStr ` set (rebound_peers ty (state_of dr g sn s) (state_of dr g an a))) k E
         (returned_view (gn_id an) (fresh_node_id h) r)"
proof -
  note inv = invertibleD [OF undo_settingD(3) [OF set]]
  have ne: "fresh_node_id h \<noteq> gn_id sn"
    using survivor_in_merged(2) [OF set] fresh_node [of h] by auto
  show "\<not> bridge_view (gn_id sn) a (returned_view (gn_id an) (fresh_node_id h) r)"
    using inv(9) [OF r(1)] ne by (auto simp: bridge_view_def returned_view_def edge_of_def bridge_of_def incident_def other_end_def split: if_splits)
  show "\<not> rebound_view ty (gn_id sn) (NStr ` set (rebound_peers ty (state_of dr g sn s) (state_of dr g an a))) k E
         (returned_view (gn_id an) (fresh_node_id h) r)"
  proof
    assume "rebound_view ty (gn_id sn) (NStr ` set (rebound_peers ty (state_of dr g sn s) (state_of dr g an a))) k E
         (returned_view (gn_id an) (fresh_node_id h) r)"
    then have "prop_at ''uuid'' k (fresh_node_id h) \<in> NStr ` set (rebound_peers ty (state_of dr g sn s) (state_of dr g an a))"
      using ne by (auto simp: rebound_view_def returned_view_def edge_of_def split: if_splits)
    then have "a \<in> set (incoming_peers ty (state_of dr g an a))"
      by (auto simp: prop_at_node [OF restored_new_lookup [OF set k x]] xu rebound_mem)
    then obtain r' where r': "r' \<in> set (g_rels g)" "gr_start r' \<noteq> gn_id an" "prop_at ''uuid'' g (gr_start r') = NStr a"
      unfolding incoming_mem [OF inv(1)] by blast
    have "prop_at ''uuid'' g (gn_id an) = NStr a"
      using node_by_id_member [OF undo_settingD(1) [OF set] undo_setting_nodes(2) [OF set]] undo_setting_nodes(4) [OF set]
      by (simp add: prop_at_def)
    then show False
      using uuid_at_unique [OF undo_settingD(1) [OF set] r'(3)] r'(2) by simp
  qed
qed

lemma added_rebound:
  assumes set: "undo_setting mp s a g sn an h" and k: "restored_nodes x delta h sn k" and x: "gn_id x = fresh_node_id h"
    and e: "e \<in> set (episodes_into ty g (gn_id an))" and v: "new_view g ty (gn_id e) (gn_id sn) [] v"
  obtains m where "v = (ty, gn_id e, gn_id sn, \<lambda>_. NNone)" "node_by_id (gn_id e) k = Some m" "has_label ''Episodic'' m"
    "tenant_of m = tenant_of e"
    "prop_at ''uuid'' k (gn_id e) \<in> NStr ` set (rebound_peers ty (state_of dr g sn s) (state_of dr g an a))"
proof -
  note inv = invertibleD [OF undo_settingD(3) [OF set]]
  obtain r where r: "r \<in> set (g_rels g)" "gr_type r = ty" "gr_end r = gn_id an" "node_by_id (gr_start r) g = Some e" "has_label ''Episodic'' e"
    using e by (auto simp: episodes_into_def map_filter_def split: if_splits)
  have st: "gr_start r = gn_id e" using node_by_id_SomeD [OF r(4)] by simp
  have far: "gr_start r \<noteq> gn_id an"
    using inv(3) r(1,3) by (auto simp: loop_free_def list_all_iff)
  have "named_peer g (gn_id an) r"
    using inv(6) [OF r(1)] r(3) by (simp add: incident_def)
  then obtain u where u: "prop_at ''uuid'' g (gr_start r) = NStr u" "u \<noteq> []"
    using far by (auto simp: named_peer_def other_end_def split: neo_value.splits)
  have "u \<in> set (incoming_peers ty (state_of dr g an a))"
    unfolding incoming_mem [OF inv(1)] using r far u by blast
  moreover have "u \<notin> set (incoming_peers ty (state_of dr g sn s))"
  proof
    assume "u \<in> set (incoming_peers ty (state_of dr g sn s))"
    then obtain r' where r': "r' \<in> set (g_rels g)" "gr_type r' = ty" "gr_end r' = gn_id sn" "prop_at ''uuid'' g (gr_start r') = NStr u"
      unfolding incoming_mem [OF inv(1)] by blast
    have "gr_start r' = gn_id e"
      using uuid_at_unique [OF undo_settingD(1) [OF set] r'(4) u(1)] st by simp
    then show False
      using v r'(1-3) by (auto simp: new_view_def list_all_iff)
  qed
  ultimately have reb: "u \<in> set (rebound_peers ty (state_of dr g sn s) (state_of dr g an a))"
    by (simp add: rebound_mem)
  have known: "gn_id e \<in> node_ids g" "gn_id e \<noteq> gn_id an"
    using rel_ends_known [OF undo_settingD(1) [OF set] r(1)] far st by simp_all
  obtain m where m: "node_by_id (gn_id e) k = Some m" "gn_labels m = gn_labels e" "\<And>p. p \<in> kept_keys \<Longrightarrow> node_prop p m = node_prop p e"
    using restored_lookup [OF set k x known] r(4) st by (metis option.inject)
  have "prop_at ''uuid'' k (gn_id e) = NStr u"
    using m(3) u(1) by (simp add: prop_at_node [OF m(1)] prop_at_node [OF r(4)] kept_keys_def)
  moreover have "tenant_of m = tenant_of e"
    using m(3) by (simp add: tenant_of_def string_prop_def kept_keys_def)
  ultimately show thesis
    using that m(1,2) v r(5) reb by (auto simp: new_view_def has_label_def neo_get_def)
qed

lemma added_gone:
  assumes set: "undo_setting mp s a g sn an h" and k: "restored_nodes x delta h sn k" and x: "gn_id x = fresh_node_id h"
    and v: "added_view g sn an mp v"
  shows "bridge_view (gn_id sn) a v
    \<or> rebound_view ''MENTIONS'' (gn_id sn) (NStr ` set (rebound_peers ''MENTIONS'' (state_of dr g sn s) (state_of dr g an a))) k
        (\<lambda>i _. labelled_at ''Episodic'' k i) v
    \<or> rebound_view ''RETENTION_SOURCE'' (gn_id sn)
        (NStr ` set (rebound_peers ''RETENTION_SOURCE'' (state_of dr g sn s) (state_of dr g an a))) k
        (episode_of_tenant k (merged_survivor mp sn an)) v"
proof -
  have bridge: "bridge_view (gn_id sn) a (''RELATES_TO'', gn_id sn, n, \<lambda>q. neo_get q (bridge_props mp))" for n
    using undo_settingD(5) [OF set] by (simp add: bridge_view_def bridge_props_def neo_get_def)
  have mention: "rebound_view ''MENTIONS'' (gn_id sn) (NStr ` set (rebound_peers ''MENTIONS'' (state_of dr g sn s) (state_of dr g an a))) k
      (\<lambda>i _. labelled_at ''Episodic'' k i) v"
    if e: "e \<in> set (episodes_into ''MENTIONS'' g (gn_id an))" "new_view g ''MENTIONS'' (gn_id e) (gn_id sn) [] v" for e
  proof -
    obtain m where "v = (''MENTIONS'', gn_id e, gn_id sn, \<lambda>_. NNone)" "node_by_id (gn_id e) k = Some m" "has_label ''Episodic'' m"
        "prop_at ''uuid'' k (gn_id e) \<in> NStr ` set (rebound_peers ''MENTIONS'' (state_of dr g sn s) (state_of dr g an a))"
      by (rule added_rebound [OF set k x e])
    then show ?thesis
      by (simp add: rebound_view_def labelled_at_def)
  qed
  have retention: "rebound_view ''RETENTION_SOURCE'' (gn_id sn)
      (NStr ` set (rebound_peers ''RETENTION_SOURCE'' (state_of dr g sn s) (state_of dr g an a))) k
      (episode_of_tenant k (merged_survivor mp sn an)) v"
    if e: "e \<in> set (tenant_sources g an)" "new_view g ''RETENTION_SOURCE'' (gn_id e) (gn_id sn) [] v" for e
  proof -
    have e': "e \<in> set (episodes_into ''RETENTION_SOURCE'' g (gn_id an))" "same_tenant (tenant_of e) (tenant_of an)"
      using e(1) by (simp_all add: tenant_sources_def)
    obtain m where m: "v = (''RETENTION_SOURCE'', gn_id e, gn_id sn, \<lambda>_. NNone)" "node_by_id (gn_id e) k = Some m" "has_label ''Episodic'' m"
        "tenant_of m = tenant_of e"
        "prop_at ''uuid'' k (gn_id e) \<in> NStr ` set (rebound_peers ''RETENTION_SOURCE'' (state_of dr g sn s) (state_of dr g an a))"
      by (rule added_rebound [OF set k x e'(1) e(2)])
    have "node_prop p (merged_survivor mp sn an) = node_prop p sn" if "p \<in> {''namespace'', ''group_id''}" for p
      using merged_node(2) [OF set undo_setting_nodes(1) [OF set] undo_settingD(4) [OF set], of p] that
      by (auto simp: survivor_delta_keys)
    then have "tenant_of (merged_survivor mp sn an) = tenant_of sn"
      by (simp add: tenant_of_def string_prop_def)
    then show ?thesis
      using m e'(2) undo_settingD(7) [OF set] by (simp add: rebound_view_def episode_of_tenant_def same_tenant_def)
  qed
  show ?thesis
    using v unfolding added_view_def by (elim disjE exE bexE) (simp_all add: bridge mention retention)
qed

lemma filter_keeps: "(\<And>v. v \<in># A \<Longrightarrow> P v) \<Longrightarrow> (\<And>v. v \<in># N \<Longrightarrow> \<not> P v) \<Longrightarrow> filter_mset P (A + N) = A"
  using filter_every [of A P] filter_none [of N P] by simp

lemma rebound_view_cong: "g_nodes g = g_nodes h \<Longrightarrow> rebound_view ty si us g E v = rebound_view ty si us h E v"
  using lookup_cong(3) [of g h] by (simp add: rebound_view_def)

text \<open>Both removals of the statement read the nodes only, which they leave alone.\<close>

lemma removal_views:
  assumes set: "undo_setting mp s a g sn an h" and k: "restored_nodes x delta h sn k" and x: "gn_id x = fresh_node_id h"
    and xu: "node_prop ''uuid'' x = NStr a"
    and vk: "views k = filter_mset (far_view (gn_id an)) (views g) + N
        + mset (map (returned_view (gn_id an) (fresh_node_id h)) (filter (incident (gn_id an)) (g_rels g)))"
    and N: "\<And>v. v \<in># N \<Longrightarrow> added_view g sn an mp v"
    and plan: "plan = build_restore_plan (state_of dr g sn s) (state_of dr g an a)"
    and k2: "k2 = remove_rels (bridge_of (gn_id sn) a) k"
    and k3: "k3 = remove_rels (rebound_mention k2 (gn_id sn) (rp_rebound_episodes plan)) k2"
    and k4: "k4 = remove_rels (rebound_retention k3 (merged_survivor mp sn an) (rp_rebound_retention_sources plan)) k3"
  shows "g_nodes k4 = g_nodes k \<and> views k4 = filter_mset (far_view (gn_id an)) (views g)
        + mset (map (returned_view (gn_id an) (fresh_node_id h)) (filter (incident (gn_id an)) (g_rels g)))"
proof -
  let ?S = "state_of dr g sn s" and ?A = "state_of dr g an a"
  let ?F = "filter_mset (far_view (gn_id an)) (views g)"
  let ?R = "mset (map (returned_view (gn_id an) (fresh_node_id h)) (filter (incident (gn_id an)) (g_rels g)))"
  let ?b = "bridge_view (gn_id sn) a"
  let ?m = "rebound_view ''MENTIONS'' (gn_id sn) (NStr ` set (rebound_peers ''MENTIONS'' ?S ?A)) k (\<lambda>i _. labelled_at ''Episodic'' k i)"
  let ?r = "rebound_view ''RETENTION_SOURCE'' (gn_id sn) (NStr ` set (rebound_peers ''RETENTION_SOURCE'' ?S ?A)) k
      (episode_of_tenant k (merged_survivor mp sn an))"
  have us: "rp_rebound_episodes plan = rebound_peers ''MENTIONS'' ?S ?A" "rp_rebound_retention_sources plan = rebound_peers ''RETENTION_SOURCE'' ?S ?A"
    by (simp_all add: plan build_restore_plan_def Let_def)
  have nodes: "g_nodes k2 = g_nodes k" "g_nodes k3 = g_nodes k" "g_nodes k4 = g_nodes k"
    by (simp_all add: k2 k3 k4)
  have 2: "views k2 = filter_mset (\<lambda>v. \<not> ?b v) (views k)"
    unfolding k2 by (rule views_remove_rels) (rule removed_views(1))
  have 3: "views k3 = filter_mset (\<lambda>v. \<not> ?m v) (views k2)"
    unfolding k3 us by (rule views_remove_rels)
      (simp only: removed_views(2) rebound_view_cong [OF nodes(1)] lookup_cong(2) [OF nodes(1)])
  have 4: "views k4 = filter_mset (\<lambda>v. \<not> ?r v) (views k3)"
    unfolding k4 us by (rule views_remove_rels)
      (simp only: removed_views(3) rebound_view_cong [OF nodes(2)] survivor_in_merged(3) [OF set] episode_of_tenant_def [abs_def] lookup_cong(1) [OF nodes(2)])
  have kept: "\<not> ?b v \<and> \<not> ?m v \<and> \<not> ?r v" if "v \<in># ?F + ?R" for v
  proof (cases "v \<in># ?F")
    case True
    then show ?thesis using far_kept [OF set k x True] by blast
  next
    case False
    with that have "v \<in># ?R" by (simp only: union_iff simp_thms)
    then obtain r where r: "r \<in> set (g_rels g)" "incident (gn_id an) r" "v = returned_view (gn_id an) (fresh_node_id h) r"
      unfolding set_mset_mset set_map set_filter by blast
    show ?thesis unfolding r(3) using returned_kept [OF set k x xu r(1,2)] by blast
  qed
  have gone: "?b v \<or> ?m v \<or> ?r v" if "v \<in># N" for v
    by (rule added_gone [OF set k x N [OF that]])
  let ?keep = "\<lambda>v. \<not> ?b v \<and> \<not> ?m v \<and> \<not> ?r v"
  have "views k4 = filter_mset ?keep (views k)"
    unfolding 2 3 4 filter_filter_mset by (rule filter_mset_cong) auto
  also have "views k = (?F + ?R) + N"
    unfolding vk by (simp only: ac_simps)
  also have "filter_mset ?keep ((?F + ?R) + N) = ?F + ?R"
    by (rule filter_keeps) (use kept gone in blast)+
  finally show ?thesis
    using nodes(3) by blast
qed

section \<open>The restored graph\<close>

text \<open>The relationships of the graph, with the element id of the absorbed node replaced.\<close>

definition reborn :: "nat \<Rightarrow> nat \<Rightarrow> 't edge_view \<Rightarrow> 't edge_view" where
  "reborn ai ni v = (case v of (ty, st, en, f) \<Rightarrow> (ty, if st = ai then ni else st, if en = ai then ni else en, f))"

lemma views_reborn:
  assumes "loop_free ai g"
  shows "image_mset (reborn ai ni) (views g)
    = filter_mset (far_view ai) (views g) + mset (map (returned_view ai ni) (filter (incident ai) (g_rels g)))"
proof -
  have far: "image_mset (reborn ai ni) (filter_mset (far_view ai) A) = filter_mset (far_view ai) A" for A :: "'a edge_view multiset"
    by (induction A) (auto simp: reborn_def far_view_def split: prod.splits)
  have near: "reborn ai ni (edge_view r) = returned_view ai ni r" if "r \<in> set (filter (incident ai) (g_rels g))" for r
    using that assms by (auto simp: reborn_def edge_view_def returned_view_def edge_of_def other_end_def incident_def loop_free_def list_all_iff)
  have "mset (map edge_view (filter (\<lambda>r. \<not> incident ai r) (g_rels g))) = filter_mset (far_view ai) (views g)"
    unfolding views_def by (rule views_filter) (simp add: far_view_rel)
  then have split: "views g = filter_mset (far_view ai) (views g) + mset (map edge_view (filter (incident ai) (g_rels g)))"
    using mset_partition_map [of edge_view "incident ai" "g_rels g"] by (simp only: views_def ac_simps)
  have "image_mset (reborn ai ni) (mset (map edge_view (filter (incident ai) (g_rels g))))
      = mset (map (returned_view ai ni) (filter (incident ai) (g_rels g)))"
    unfolding mset_map [symmetric] map_map comp_def using near by (intro arg_cong [where f = mset] map_cong) simp_all
  then show ?thesis
    by (subst split) (simp only: image_mset_union far)
qed

definition unmerged_props :: "string \<Rightarrow> 't restore_plan \<Rightarrow> 't props \<Rightarrow> 't props" where
  "unmerged_props a plan d =
     (let d1 = set_props (rp_survivor_properties plan) d in set_props (lineage_delta a d1) d1)"

lemma pre_merge_keys:
  "distinct (map fst (survivor_pre_merge d))" "fst ` set (survivor_pre_merge d) = set MERGE_OWNED_SURVIVOR_PROPERTIES"
  "map_of (survivor_pre_merge d) p = (if p \<in> set MERGE_OWNED_SURVIVOR_PROPERTIES then Some (neo_get p d) else None)"
proof -
  show "distinct (map fst (survivor_pre_merge d))" "fst ` set (survivor_pre_merge d) = set MERGE_OWNED_SURVIVOR_PROPERTIES"
    by (simp_all add: survivor_pre_merge_def MERGE_OWNED_SURVIVOR_PROPERTIES_def)
  show "map_of (survivor_pre_merge d) p = (if p \<in> set MERGE_OWNED_SURVIVOR_PROPERTIES then Some (neo_get p d) else None)"
    unfolding survivor_pre_merge_def by (simp add: map_of_map_restrict restrict_map_def)
qed

lemma restored_graph:
  assumes set: "undo_setting mp s a g sn an h"
    and plan: "plan = build_restore_plan (state_of dr g sn s) (state_of dr g an a)"
    and x: "x = restored_node s oid now plan (fresh_node_id h)"
    and run: "restore_merge_snapshot now s a oid plan h = (k, res)"
  shows "rs_restored res"
    "g_nodes k = map (\<lambda>n. if gn_id n = gn_id sn then n\<lparr>gn_props := unmerged_props a plan (gn_props n)\<rparr> else n) (g_nodes h @ [x])"
    "views k = image_mset (reborn (gn_id an) (fresh_node_id h)) (views g)"
proof -
  let ?m = "merged_survivor mp sn an" and ?delta = "rp_survivor_properties plan"
  obtain rest where ent: "entities s h = ?m # rest"
  proof -
    have "entities s h = filter (has_label ''Entity'') (filter (\<lambda>n. node_prop ''uuid'' n = NStr s) (g_nodes h))"
      by (simp add: entities_def conj_commute)
    then have "entities s h = [?m]"
      using undo_setting_nodes(5) [OF set] survivor_in_merged(5) [OF set]
      unfolding uuid_node_single [OF undo_settingD(2) [OF set] survivor_in_merged(1,4) [OF set]] by (simp add: has_label_def)
    then show thesis using that by blast
  qed
  obtain N where N: "views h = filter_mset (far_view (gn_id an)) (views g) + mset (map (copy_view sn an) (moved_facts g sn an)) + N"
      "\<forall>v\<in>#N. added_view g sn an mp v"
  proof (rule merged_views [OF undo_settingD(1) [OF set] undo_setting_nodes(2) [OF set] undo_settingD(4,8) [OF set]])
    fix N
    assume "views h = filter_mset (far_view (gn_id an)) (views g) + mset (map (copy_view sn an) (moved_facts g sn an)) + N"
      and N: "\<And>v. v \<in># N \<Longrightarrow> added_view g sn an mp v \<and> far_view (gn_id an) v"
    moreover have "\<forall>v\<in>#N. added_view g sn an mp v" using N by blast
    ultimately show thesis using that by blast
  qed
  obtain g4 m n where g4: "restore_edges s oid now plan ?m h = (g4, m, n)"
    by (metis prod_cases3)
  have edges: "g_nodes g4 = g_nodes h @ [x] \<and> ids_ok g4
      \<and> views g4 = filter_mset (far_view (gn_id an)) (views g) + N
        + mset (map (returned_view (gn_id an) (fresh_node_id h)) (filter (incident (gn_id an)) (g_rels g)))"
    by (rule restore_edges_views [OF set plan x N(1) bspec [OF N(2)] g4])
  define g5 where "g5 = update_node (gn_id sn) (set_props ?delta) g4"
  define g6 where "g6 = remove_rels (bridge_of (gn_id sn) a) g5"
  define g7 where "g7 = remove_rels (rebound_mention g6 (gn_id sn) (rp_rebound_episodes plan)) g6"
  define g8 where "g8 = remove_rels (rebound_retention g7 ?m (rp_rebound_retention_sources plan)) g7"
  have k: "k = update_node (gn_id sn) (\<lambda>d. set_props (lineage_delta a d) d) g8" and res: "rs_restored res"
    using run ent g4 by (simp_all add: restore_merge_snapshot_def Let_def survivor_in_merged(3) [OF set] g5_def [symmetric] g6_def [symmetric] g7_def [symmetric] g8_def [symmetric], auto)
  show "rs_restored res" by (rule res)
  have xi: "gn_id x = fresh_node_id h" by (simp add: x restored_node_def)
  have xu: "node_prop ''uuid'' x = NStr a"
    using undo_setting_nodes(4) [OF set] by (simp add: x plan restored_props [OF invertibleD(5) [OF undo_settingD(3) [OF set]]])
  have delta: "?delta = survivor_pre_merge (nst_properties (state_of dr g sn s))"
    by (simp add: plan build_restore_plan_def Let_def)
  have nodes5: "restored_nodes x ?delta h sn g5"
    unfolding restored_nodes_def delta pre_merge_keys(2) using edges pre_merge_keys(1)
    by (simp add: g5_def delta update_node_def kept_keys_def MERGE_OWNED_SURVIVOR_PROPERTIES_def)
  have removed: "g_nodes g8 = g_nodes g5 \<and> views g8 = filter_mset (far_view (gn_id an)) (views g)
        + mset (map (returned_view (gn_id an) (fresh_node_id h)) (filter (incident (gn_id an)) (g_rels g)))"
    by (rule removal_views [OF set nodes5 xi xu _ bspec [OF N(2)] plan g6_def g7_def g8_def]) (simp add: g5_def edges)
  show "views k = image_mset (reborn (gn_id an) (fresh_node_id h)) (views g)"
    unfolding k views_update_node views_reborn [OF invertibleD(3) [OF undo_settingD(3) [OF set]]] using removed by blast
  show "g_nodes k = map (\<lambda>n. if gn_id n = gn_id sn then n\<lparr>gn_props := unmerged_props a plan (gn_props n)\<rparr> else n) (g_nodes h @ [x])"
    using removed edges by (simp add: k update_node_def g5_def unmerged_props_def Let_def comp_def)
qed

end
