(* ===== verification/Unmerge_Properties.thy ===== *)
theory Unmerge_Properties
  imports Unmerge_Removal Saga_Examples
begin

text \<open>
  The merge and its restore composed: which graph comes back, and what of the survivor's lineage does not.
\<close>

section \<open>The setting of a merge that ran\<close>

lemma same_namespace_tenant:
  assumes "raw_namespace (entity_row_of g n) = raw_namespace (entity_row_of g m)"
  shows "same_tenant (tenant_of n) (tenant_of m)"
proof -
  have "canonical_tenant (tenant_of p)
      = (if raw_namespace (entity_row_of g p) \<in> {[], ''default''} then ''default'' else raw_namespace (entity_row_of g p))" for p
    by (auto simp: canonical_tenant_def raw_namespace_def entity_row_of_def Let_def split: option.split)
  then show ?thesis
    using assms by (simp add: same_tenant_def)
qed

lemma merge_undo_setting:
  assumes ok: "pgraph_ok g" and ent: "entities s g = [sn]" "entities a g = [an]" and inv: "invertible a g sn an"
    and merge: "merge_entity mw s a sim oid facts g = (h, Inr r)" "mr_merged r"
  obtains mp where "undo_setting mp s a g sn an h"
proof -
  obtain snap where m: "s \<noteq> a" "gn_id sn \<noteq> gn_id an" "merge_phase_one (mw_driver mw) s a g = Some snap"
    "g_nodes h = filter (\<lambda>n. gn_id n \<noteq> gn_id an)
       (g_nodes (update_node (gn_id sn) (set_props (survivor_delta (merge_params_of mw s a sim oid facts snap) sn an)) g))"
    "g_rels h = filter (\<lambda>r. \<not> incident (gn_id an) r) (g_rels (rewire (merge_params_of mw s a sim oid facts snap) sn an g))"
    by (rule merge_entity_merged [OF ok merge]) (use ent in auto)
  have "same_tenant (tenant_of sn) (tenant_of an)"
    using merge(1)
  proof (cases rule: merge_entity_cases)
    case (merged snap r)
    from merged(3) show ?thesis
      by (cases rule: phase_two_cases)
        (auto simp: merge_params_of_def Let_def ent merge_guard_def mutable_eligibility_def intro: same_namespace_tenant)
  qed (use merge(2) in auto)
  moreover have "mp_absorbed_uuid (merge_params_of mw s a sim oid facts snap) = a"
    by (simp add: merge_params_of_def Let_def)
  ultimately have "undo_setting (merge_params_of mw s a sim oid facts snap) s a g sn an h"
    using m merge_entity_ok [OF ok merge(1)] ok ent inv unfolding undo_setting_def by blast
  then show thesis by (rule that)
qed

lemma snapshot_state:
  assumes "pgraph_ok g" "entities u g = [n]" "node_snapshot dr g u = Some st"
  shows "sort_node st = state_of dr g n u"
  using node_snapshot_entity [OF assms(1,2), of dr] assms(3) by (simp add: state_of_def)

section \<open>Properties of the two nodes\<close>

lemma lineage_delta_keys: "distinct (map fst (lineage_delta a d))" "fst ` set (lineage_delta a d) = {''merged_from'', ''merge_audit''}"
  by (simp_all add: lineage_delta_def)

lemma unmerged_props_get:
  assumes "flat_props d" and plan: "rp_survivor_properties plan = survivor_pre_merge (sort_props d)"
  shows "p \<notin> {''merged_from'', ''merge_audit''} \<Longrightarrow> neo_get p (unmerged_props a plan e)
      = (if p \<in> set MERGE_OWNED_SURVIVOR_PROPERTIES then neo_get p d else neo_get p e)"
    "neo_get ''merged_from'' (unmerged_props a plan e)
      = NList (filter (\<lambda>x. x \<noteq> NStr a) (neo_members (neo_get ''merged_from'' e)))"
proof -
  note flat = flat_sorted [OF assms(1)]
  have one: "neo_get q (set_props (rp_survivor_properties plan) e)
      = (if q \<in> set MERGE_OWNED_SURVIVOR_PROPERTIES then neo_get q d else neo_get q e)" for q
    by (simp add: plan neo_get_set_props [OF pre_merge_keys(1)] pre_merge_keys(3) flat)
  have two: "neo_get q (unmerged_props a plan e)
      = (case map_of (lineage_delta a (set_props (rp_survivor_properties plan) e)) q of
           None \<Rightarrow> neo_get q (set_props (rp_survivor_properties plan) e) | Some v \<Rightarrow> v)" for q
    unfolding unmerged_props_def Let_def by (rule neo_get_set_props) (rule lineage_delta_keys)
  show "p \<notin> {''merged_from'', ''merge_audit''} \<Longrightarrow> neo_get p (unmerged_props a plan e)
      = (if p \<in> set MERGE_OWNED_SURVIVOR_PROPERTIES then neo_get p d else neo_get p e)"
    unfolding two one by (simp add: lineage_delta_def)
  show "neo_get ''merged_from'' (unmerged_props a plan e)
      = NList (filter (\<lambda>x. x \<noteq> NStr a) (neo_members (neo_get ''merged_from'' e)))"
    unfolding two by (simp add: lineage_delta_def one MERGE_OWNED_SURVIVOR_PROPERTIES_def)
qed

text \<open>The survivor after merge and restore.\<close>

lemma unmerged_survivor:
  assumes flat: "flat_props (gn_props sn)" and plan: "rp_survivor_properties plan = survivor_pre_merge (sort_props (gn_props sn))"
    and mp: "mp_absorbed_uuid mp = a"
    and sn': "sn' = (merged_survivor mp sn an)\<lparr>gn_props := unmerged_props a plan (gn_props (merged_survivor mp sn an))\<rparr>"
  shows "p \<notin> {''last_accessed'', ''merged_from'', ''merge_audit'', ''last_merge_op_id''} \<Longrightarrow> node_prop p sn' = node_prop p sn"
    "node_prop ''merged_from'' sn'
      = NList (filter (\<lambda>x. x \<noteq> NStr a) (neo_members (node_prop ''merged_from'' sn) @ neo_members (node_prop ''merged_from'' an)))"
proof -
  show "node_prop p sn' = node_prop p sn" if p: "p \<notin> {''last_accessed'', ''merged_from'', ''merge_audit'', ''last_merge_op_id''}"
  proof (cases "p \<in> set MERGE_OWNED_SURVIVOR_PROPERTIES")
    case True
    then show ?thesis
      using p unmerged_props_get(1) [OF flat plan, of p a] by (simp add: sn' node_prop_def)
  next
    case False
    then have "map_of (survivor_delta mp sn an) p = None"
      using p by (simp add: map_of_eq_None_iff survivor_delta_keys MERGE_OWNED_SURVIVOR_PROPERTIES_def)
    then show ?thesis
      using False p unmerged_props_get(1) [OF flat plan, of p a]
      by (simp add: sn' node_prop_def merged_survivor_def survivor_delta_get)
  qed
  have "map_of (survivor_delta mp sn an) ''merged_from'' = Some (NList (neo_members (node_prop ''merged_from'' sn) @ [NStr a]
      @ neo_members (node_prop ''merged_from'' an)))"
    by (cases "merged_text sn an") (simp add: survivor_delta_def mp)
  then show "node_prop ''merged_from'' sn'
      = NList (filter (\<lambda>x. x \<noteq> NStr a) (neo_members (node_prop ''merged_from'' sn) @ neo_members (node_prop ''merged_from'' an)))"
    using unmerged_props_get(2) [OF flat plan, of a]
    by (simp add: sn' node_prop_def merged_survivor_def survivor_delta_get neo_members_def)
qed

lemma restore_runs:
  assumes ok: "pgraph_ok g" and ent: "entities s g = [sn]" "entities a g = [an]" and inv: "invertible a g sn an"
    and snaps: "node_snapshot dr g s = Some ss" "node_snapshot dr g a = Some sa"
    and merge: "merge_entity mw s a sim oid facts g = (h, Inr r)" "mr_merged r"
    and restore: "restore_merge_snapshot now s a roid (build_restore_plan (sort_node ss) (sort_node sa)) h = (k, res)"
  obtains mp plan x where "undo_setting mp s a g sn an h" "plan = build_restore_plan (state_of dr g sn s) (state_of dr g an a)"
    "x = restored_node s roid now plan (fresh_node_id h)" "rs_restored res"
    "g_nodes k = map (\<lambda>n. if gn_id n = gn_id sn then n\<lparr>gn_props := unmerged_props a plan (gn_props n)\<rparr> else n) (g_nodes h @ [x])"
    "views k = image_mset (reborn (gn_id an) (fresh_node_id h)) (views g)"
proof -
  obtain mp where set: "undo_setting mp s a g sn an h"
    by (rule merge_undo_setting [OF ok ent inv merge])
  have plan: "restore_merge_snapshot now s a roid (build_restore_plan (state_of dr g sn s) (state_of dr g an a)) h = (k, res)"
    using restore unfolding snapshot_state [OF ok ent(1) snaps(1)] snapshot_state [OF ok ent(2) snaps(2)] .
  show thesis
    by (rule that [OF set refl refl restored_graph [OF set refl refl plan]])
qed

lemma plan_survivor_props: "rp_survivor_properties (build_restore_plan (state_of dr g sn s) A) = survivor_pre_merge (sort_props (gn_props sn))"
  by (simp add: build_restore_plan_def Let_def state_of_def sort_node_def)

section \<open>Merge and restore composed\<close>

text \<open>
  C4: An unmerge restores the graph exactly. Let a merge of two entities go through and restore it from the
  two snapshots taken before it. Then every relationship of the graph is back, once for each time it
  was there, with its type, its ends and all its properties, and there is no other; the absorbed node,
  under a new element id, has its labels and properties again and the survivor all of its own but the
  bookkeeping of merges; every other node is as it was. The graph is one where the values stored on both
  nodes are flat and the absorbed node's peers have a uuid.
\<close>

theorem restore_inverts_merge:
  assumes "pgraph_ok g" and "entities s g = [sn]" "entities a g = [an]" and "invertible a g sn an"
    and "node_snapshot dr g s = Some ss" "node_snapshot dr g a = Some sa"
    and "merge_entity mw s a sim oid facts g = (h, Inr r)" "mr_merged r"
    and "restore_merge_snapshot now s a roid (build_restore_plan (sort_node ss) (sort_node sa)) h = (k, res)"
  shows "rs_restored res \<and> (\<exists>sn' an'. gn_id an' \<notin> node_ids h \<and> gn_id sn' = gn_id sn
    \<and> views k = image_mset (reborn (gn_id an) (gn_id an')) (views g)
    \<and> g_nodes k = map (\<lambda>n. if gn_id n = gn_id sn then sn' else n) (filter (\<lambda>n. gn_id n \<noteq> gn_id an) (g_nodes g)) @ [an']
    \<and> gn_labels sn' = gn_labels sn \<and> gn_labels an' = sort (gn_labels an)
    \<and> (\<forall>p. p \<in> {''last_accessed'', ''merged_from'', ''merge_audit'', ''last_merge_op_id''} \<or> node_prop p sn' = node_prop p sn)
    \<and> (\<forall>p. p \<in> {''last_accessed'', ''restored_from_merge'', ''restored_by_op'', ''restored_at''} \<or> node_prop p an' = node_prop p an))"
proof -
  obtain mp plan x where set: "undo_setting mp s a g sn an h" and plan: "plan = build_restore_plan (state_of dr g sn s) (state_of dr g an a)"
    and x: "x = restored_node s roid now plan (fresh_node_id h)" and res: "rs_restored res"
    and nodes: "g_nodes k = map (\<lambda>n. if gn_id n = gn_id sn then n\<lparr>gn_props := unmerged_props a plan (gn_props n)\<rparr> else n) (g_nodes h @ [x])"
    and rels: "views k = image_mset (reborn (gn_id an) (fresh_node_id h)) (views g)"
    by (rule restore_runs [OF assms])
  let ?m = "merged_survivor mp sn an"
  define sn' where "sn' = ?m\<lparr>gn_props := unmerged_props a plan (gn_props ?m)\<rparr>"
  note inv = invertibleD [OF undo_settingD(3) [OF set]]
  have xi: "gn_id x = fresh_node_id h" and xl: "gn_labels x = sort (gn_labels an)"
    by (simp_all add: x plan restored_node_def build_restore_plan_def Let_def state_of_def sort_node_def)
  have far: "gn_id x \<noteq> gn_id sn"
    using survivor_in_merged(2) [OF set] fresh_node [of h] xi by auto
  have h: "g_nodes h = map (\<lambda>n. if gn_id n = gn_id sn then ?m else n) (filter (\<lambda>n. gn_id n \<noteq> gn_id an) (g_nodes g))"
  proof -
    have "n\<lparr>gn_props := set_props (survivor_delta mp sn an) (gn_props n)\<rparr> = ?m" if "n \<in> set (g_nodes g)" "gn_id n = gn_id sn" for n
      unfolding merged_survivor_def pgraph_ok_id_unique [OF assms(1) that(1) undo_setting_nodes(1) [OF set] that(2)] ..
    then show ?thesis
      using set by (auto simp: undo_setting_def update_node_def filter_map comp_def intro!: map_cong filter_cong)
  qed
  have 1: "gn_id x \<notin> node_ids h" "views k = image_mset (reborn (gn_id an) (gn_id x)) (views g)"
    unfolding xi by (rule fresh_node, rule rels)
  have 2: "g_nodes k = map (\<lambda>n. if gn_id n = gn_id sn then sn' else n) (filter (\<lambda>n. gn_id n \<noteq> gn_id an) (g_nodes g)) @ [x]"
    unfolding nodes h using far by (auto simp: sn'_def merged_survivor_def)
  have 3: "\<forall>p. p \<in> {''last_accessed'', ''merged_from'', ''merge_audit'', ''last_merge_op_id''} \<or> node_prop p sn' = node_prop p sn"
    using unmerged_survivor(1) [OF inv(4) _ undo_settingD(5) [OF set] sn'_def] plan_survivor_props unfolding plan by blast
  have 4: "\<forall>p. p \<in> {''last_accessed'', ''restored_from_merge'', ''restored_by_op'', ''restored_at''} \<or> node_prop p x = node_prop p an"
    by (simp add: x plan restored_props [OF inv(5)])
  have 5: "gn_id sn' = gn_id sn" "gn_labels sn' = gn_labels sn"
    by (simp_all add: sn'_def merged_survivor_def)
  show ?thesis
    by (rule conjI [OF res], rule exI [of _ sn'], rule exI [of _ x], intro conjI) (rule 1 2 3 4 5 xl)+
qed

text \<open>
  C40: An unmerge leaves the absorbed node's own lineage on the survivor. The merge appends what the absorbed
  node had absorbed to the survivor's list; the restore subtracts the absorbed node alone, so both
  nodes record the earlier absorptions afterwards.
\<close>

theorem absorbed_lineage_stays:
  assumes "pgraph_ok g" and "entities s g = [sn]" "entities a g = [an]" and "invertible a g sn an"
    and "node_snapshot dr g s = Some ss" "node_snapshot dr g a = Some sa"
    and "merge_entity mw s a sim oid facts g = (h, Inr r)" "mr_merged r"
    and "restore_merge_snapshot now s a roid (build_restore_plan (sort_node ss) (sort_node sa)) h = (k, res)"
  shows "\<exists>sn'. node_by_id (gn_id sn) k = Some sn'
    \<and> node_prop ''merged_from'' sn'
        = NList (filter (\<lambda>v. v \<noteq> NStr a) (neo_members (node_prop ''merged_from'' sn) @ neo_members (node_prop ''merged_from'' an)))"
proof -
  obtain mp plan x where set: "undo_setting mp s a g sn an h" and plan: "plan = build_restore_plan (state_of dr g sn s) (state_of dr g an a)"
    and x: "x = restored_node s roid now plan (fresh_node_id h)" and res: "rs_restored res"
    and nodes: "g_nodes k = map (\<lambda>n. if gn_id n = gn_id sn then n\<lparr>gn_props := unmerged_props a plan (gn_props n)\<rparr> else n) (g_nodes h @ [x])"
    and rels: "views k = image_mset (reborn (gn_id an) (fresh_node_id h)) (views g)"
    by (rule restore_runs [OF assms])
  let ?m = "merged_survivor mp sn an"
  define sn' where "sn' = ?m\<lparr>gn_props := unmerged_props a plan (gn_props ?m)\<rparr>"
  have "gn_id x = fresh_node_id h" by (simp add: x restored_node_def)
  then have "distinct (map gn_id (g_nodes h @ [x]))"
    using undo_settingD(2) [OF set] fresh_node [of h] by (simp add: pgraph_ok_def node_ids_def)
  moreover have "map gn_id (g_nodes k) = map gn_id (g_nodes h @ [x])"
    by (simp add: nodes)
  ultimately have "distinct (map gn_id (g_nodes k))" by simp
  moreover have "sn' \<in> set (g_nodes k)"
    using survivor_in_merged(1,3) [OF set] by (auto simp: nodes sn'_def)
  moreover have "gn_id sn' = gn_id sn" by (simp add: sn'_def merged_survivor_def)
  ultimately have "node_by_id (gn_id sn) k = Some sn'"
    using node_by_id_distinct by metis
  moreover have "rp_survivor_properties plan = survivor_pre_merge (sort_props (gn_props sn))"
    by (simp only: plan plan_survivor_props)
  ultimately show ?thesis
    using unmerged_survivor(2) [OF invertibleD(4) [OF undo_settingD(3) [OF set]] _ undo_settingD(5) [OF set] sn'_def] by blast
qed

end
