(* ===== verification/Unmerge_Examples.thy ===== *)
theory Unmerge_Examples
  imports Unmerge_Properties
begin

text \<open>
  Restores on small graphs: the one of the merge examples, and one whose absorbed node had absorbed
  another before.
\<close>

section \<open>A restore runs\<close>

lemma sample_invertible: "invertible ''a'' sample_graph (sample_node 0 ''s'') (sample_node 1 ''a'')"
  by code_simp

theorem restore_inverts_merge_witness:
  "\<exists>h k r res. merge_entity sample_merge_world ''s'' ''a'' (Finite 1) ''o'' None sample_graph = (h, Inr r)
     \<and> restore_merge_snapshot (NStr ''now'') ''s'' ''a'' ''u'' (build_restore_plan (sort_node sample_survivor_state) (sort_node sample_absorbed_state)) h
         = (k, res) \<and> rs_restored res \<and> (\<exists>i. views k = image_mset (reborn 1 i) (views sample_graph))"
proof -
  obtain h r where run: "merge_entity sample_merge_world ''s'' ''a'' (Finite 1) ''o'' None sample_graph = (h, Inr r)" "mr_merged r"
    by (rule sample_merge)
  obtain k res where restore: "restore_merge_snapshot (NStr ''now'') ''s'' ''a'' ''u''
      (build_restore_plan (sort_node sample_survivor_state) (sort_node sample_absorbed_state)) h = (k, res)"
    by (metis surj_pair)
  have "gn_id (sample_node 1 ''a'') = 1" by (simp add: sample_node_def)
  then show ?thesis
    using restore_inverts_merge [OF sample_graph_ok(1) sample_entities(1,2) sample_invertible sample_states run restore] run restore by auto
qed

section \<open>A survivor absorbed\<close>

definition sample_heir :: "string gnode" where
  "sample_heir = \<lparr>gn_id = 1, gn_labels = [''Entity''], gn_props = [(''uuid'', NStr ''a''), (''merged_from'', NList [NStr ''z''])]\<rparr>"

definition lineage_graph :: "string pgraph" where
  "lineage_graph = \<lparr>g_nodes = [sample_node 0 ''s'', sample_heir], g_rels = []\<rparr>"

definition sample_heir_state :: "string node_state" where
  "sample_heir_state = \<lparr>nst_uuid = ''a'', nst_labels = [''Entity''],
     nst_properties = [(''uuid'', NStr ''a''), (''merged_from'', NList [NStr ''z''])], nst_relationships = []\<rparr>"

lemma lineage_graph_ok: "pgraph_ok lineage_graph" "uuid_texts lineage_graph"
  by (simp_all add: pgraph_ok_def uuid_texts_def lineage_graph_def sample_node_def sample_heir_def node_prop_def neo_get_def node_ids_def)

lemma lineage_entities: "entities ''s'' lineage_graph = [sample_node 0 ''s'']" "entities ''a'' lineage_graph = [sample_heir]"
  by (simp_all add: entities_def lineage_graph_def sample_node_def sample_heir_def has_label_def node_prop_def neo_get_def)

lemma lineage_mergeable: "mergeable ''s'' ''a'' lineage_graph (sample_node 0 ''s'') sample_heir"
  by code_simp

lemma lineage_invertible: "invertible ''a'' lineage_graph (sample_node 0 ''s'') sample_heir"
  by code_simp

lemma lineage_states:
  "node_snapshot exact_driver lineage_graph ''s'' = Some sample_survivor_state"
  "node_snapshot exact_driver lineage_graph ''a'' = Some sample_heir_state"
  by (simp_all add: node_snapshot_def sample_survivor_state_def sample_heir_state_def lineage_graph_def sample_node_def sample_heir_def
      node_prop_def neo_get_def)

theorem absorbed_lineage_stays_witness:
  "\<exists>h k r res sn'. merge_entity sample_merge_world ''s'' ''a'' (Finite 1) ''o'' None lineage_graph = (h, Inr r)
     \<and> restore_merge_snapshot (NStr ''now'') ''s'' ''a'' ''u'' (build_restore_plan (sort_node sample_survivor_state) (sort_node sample_heir_state)) h
         = (k, res) \<and> node_by_id 0 k = Some sn' \<and> node_prop ''merged_from'' sn' = NList [NStr ''z'']"
proof -
  obtain h r where run: "merge_entity sample_merge_world ''s'' ''a'' (Finite 1) ''o'' None lineage_graph = (h, Inr r)" "mr_merged r"
    using merge_entity_succeeds [OF sample_connected lineage_graph_ok lineage_mergeable lineage_states(2), of None] by blast
  obtain k res where restore: "restore_merge_snapshot (NStr ''now'') ''s'' ''a'' ''u''
      (build_restore_plan (sort_node sample_survivor_state) (sort_node sample_heir_state)) h = (k, res)"
    by (metis surj_pair)
  have "gn_id (sample_node 0 ''s'') = 0"
    "filter (\<lambda>v. v \<noteq> NStr ''a'') (neo_members (node_prop ''merged_from'' (sample_node 0 ''s'')) @ neo_members (node_prop ''merged_from'' sample_heir))
      = [NStr ''z'']"
    by (simp_all add: sample_node_def sample_heir_def node_prop_def neo_get_def neo_members_def)
  then show ?thesis
    using absorbed_lineage_stays [OF lineage_graph_ok(1) lineage_entities lineage_invertible lineage_states run restore] run restore by auto
qed

end
