(* ===== verification/Unmerge_Outcomes.thy ===== *)
theory Unmerge_Outcomes
  imports Unmerge_Saga Saga_Examples
begin

text \<open>
  The unmerge saga from its call to its answer: which results leave the world alone, what a restored
  merge had to pass, and how the two journal rows stand afterwards.
\<close>

section \<open>Requests and rows\<close>

lemma unmerge_request_ids: "unmerge_ids sv (unmerge_request sv c s a) = Inr (uc_op_id c, s, a, uc_merge_op_id c)"
  by (simp add: unmerge_ids_def request_ids_def request_str_def request_item_def unmerge_request_def as_dict_def subscript_def py_str_def)

lemma unmerge_request_before:
  "request_get ''expected_before_sha256'' (unmerge_request sv c s a) = Inr (PStr (merge_state_fingerprint sv (merged_state [])))"
  by (simp add: request_get_def unmerge_request_def as_dict_def dict_get_def)

lemma get_op_transition_other:
  assumes "transition now t j = (j', res)" "oid \<noteq> ta_op_id t"
  shows "get_op oid j' = get_op oid j"
proof -
  have "map_option (\<lambda>r. if transition_applies t r then transition_row now t r else r) (get_op oid j) = get_op oid j"
    using assms(2) by (cases "get_op oid j") (auto simp: transition_applies_def dest: get_op_member)
  then show ?thesis
    using assms(1) find_update_ops [of "transition_row now t" oid "transition_applies t" "j_ops j"]
    by (auto simp: transition_def get_op_def split: if_splits option.splits)
qed

lemma get_op_settle_other:
  assumes "settle (transition now t) answer (g, j) = ((g', j'), res)" "oid \<noteq> ta_op_id t"
  shows "g' = g \<and> get_op oid j' = get_op oid j"
proof (cases "transition now t j")
  case (Pair j1 res1)
  then show ?thesis
    using assms get_op_transition_other [OF Pair assms(2)] by (auto simp: settle_def split: sum.splits)
qed

lemma get_op_attempt_other:
  assumes "settle (record_attempt oid err token now) answer (g, j) = ((g', j'), res)" "m \<noteq> oid"
  shows "get_op m j' = get_op m j"
proof -
  let ?p = "\<lambda>r. op_id r = oid \<and> op_state r = PREPARED \<and> (token = None \<or> owner_token r = None \<or> owner_token r = token)"
  let ?f = "\<lambda>r :: op_row. r\<lparr>attempt_count := Suc (attempt_count r), last_error := err, updated_at := now\<rparr>"
  have "map_option (\<lambda>r. if ?p r then ?f r else r) (get_op m j) = get_op m j"
    using assms(2) by (cases "get_op m j") (auto dest: get_op_member)
  then show ?thesis
    using assms(1) find_update_ops [of ?f m ?p "j_ops j"]
    by (auto simp: settle_def record_attempt_def get_op_def Let_def split: if_splits)
qed

lemma reversed_row:
  assumes "get_op m j = Some r" "op_state r = COMMITTED"
  shows "\<exists>q. get_op m (mark_merge_reversed m later j) = Some q \<and> op_state q = REVERSED \<and> frozen q = frozen r"
proof -
  let ?t = "\<lparr>ta_op_id = m, ta_to_state = REVERSED, ta_allowed_from = [COMMITTED], ta_set_committed_at = False,
      ta_last_error = None, ta_owner_token = None\<rparr>"
  have app: "transition_applies ?t r"
    using assms get_op_member [OF assms(1)] by (simp add: transition_applies_def)
  then have "list_ex (transition_applies ?t) (j_ops j)"
    using get_op_member [OF assms(1)] by (auto simp: list_ex_iff)
  then have "get_op m (mark_merge_reversed m later j) = Some (transition_row later ?t r)"
    using assms(1) app find_update_ops [of "transition_row later ?t" m "transition_applies ?t" "j_ops j"]
    by (simp add: mark_merge_reversed_def mark_reversed_def transition_def get_op_def)
  then show ?thesis
    by (simp add: transition_row_def frozen_def)
qed

lemma get_op_reversed_other: "oid \<noteq> m \<Longrightarrow> get_op oid (mark_merge_reversed m later j) = get_op oid j"
  unfolding mark_merge_reversed_def mark_reversed_def
  by (rule get_op_transition_other [OF prod.collapse [symmetric]]) simp

lemma find_in_front: "find P xs = Some r \<Longrightarrow> find P (xs @ ys) = Some r"
  by (induction xs) (auto split: if_splits)

text \<open>What PREPARE leaves: the row of the unmerge beside the row of the merge.\<close>

lemma unmerge_prepared_rows:
  assumes "prepare rt loads ct gate epoch now (unmerge_prepare_args sv c s a request raw) j = (j1, Inr u)"
    and "get_op m j = Some r"
  obtains q where "get_op (uc_op_id c) j1 = Some q" "owned_row sv q" "operation_kind q = ''ENTITY_UNMERGE''"
    "row_expected_after (uc_op_id c) j1 = Some (merge_state_fingerprint sv unmerged_state)" "get_op m j1 = Some r" "uc_op_id c \<noteq> m"
proof -
  let ?q = "prepared_row ct now (unmerge_prepare_args sv c s a request raw)"
  have ops: "j_ops j1 = j_ops j @ [?q]" and free: "\<And>p. p \<in> set (j_ops j) \<Longrightarrow> \<not> row_conflict ?q p"
    using assms(1) by (auto elim!: prepare_cases)
  have id: "op_id ?q = uc_op_id c"
    by (simp add: prepared_row_def unmerge_prepare_args_def)
  have new: "op_id p \<noteq> op_id ?q" if "p \<in> set (j_ops j)" for p
    using free [OF that] by (auto simp: row_conflict_def)
  have q: "get_op (uc_op_id c) j1 = Some ?q"
    using get_op_append_new [of "j_ops j" ?q, OF new] by (simp add: get_op_def ops id)
  have "get_op m j1 = Some r"
    using find_in_front assms(2) by (simp add: get_op_def ops)
  moreover have "uc_op_id c \<noteq> m"
    using new [of r] get_op_member [OF assms(2)] id by auto
  ultimately show thesis
    using q by (intro that [of ?q])
      (simp_all add: owned_row_def prepared_row_def unmerge_prepare_args_def row_expected_after_def)
qed

section \<open>The body\<close>

definition shows_unmerge :: "merge_state \<Rightarrow> bool" where
  "shows_unmerge st \<longleftrightarrow> st_survivor_present st \<and> st_absorbed_present st \<and> \<not> st_lineage_recorded st"

lemma fingerprint_unmerged:
  assumes "fingerprints_exact sv"
  shows "merge_state_fingerprint sv st = merge_state_fingerprint sv unmerged_state \<Longrightarrow> shows_unmerge st"
    "merge_state_fingerprint sv (merged_state []) \<noteq> merge_state_fingerprint sv unmerged_state"
    "merge_state_fingerprint sv st \<noteq> []"
proof -
  have *: "st_survivor_present p = st_survivor_present q \<and> st_absorbed_present p = st_absorbed_present q \<and> st_lineage_recorded p = st_lineage_recorded q"
    if "merge_state_fingerprint sv p = merge_state_fingerprint sv q" for p q
    using assms that unfolding fingerprints_exact_def by blast
  show "merge_state_fingerprint sv st = merge_state_fingerprint sv unmerged_state \<Longrightarrow> shows_unmerge st"
    using * [of st unmerged_state] by (simp add: unmerged_state_def shows_unmerge_def)
  show "merge_state_fingerprint sv (merged_state []) \<noteq> merge_state_fingerprint sv unmerged_state"
    using * [of "merged_state []" unmerged_state] by (auto simp: unmerged_state_def merged_state_def)
  show "merge_state_fingerprint sv st \<noteq> []"
    using assms by (simp add: fingerprints_exact_def)
qed

text \<open>
  How an answer of the body relates the graph before and after and the two rows: the one of the unmerge
  and the one of the merge it reverses.
\<close>

definition undone_in_step ::
  "('g, 't) restore_adapter \<Rightarrow> string \<Rightarrow> string \<Rightarrow> string \<Rightarrow> 't restore_plan \<Rightarrow> 'g \<Rightarrow> 'g \<Rightarrow> op_state option \<Rightarrow> op_state option
     \<Rightarrow> saga_error + unmerge_result \<Rightarrow> bool" where
  "undone_in_step ra s a oid plan g g' own forward res \<longleftrightarrow>
     (case res of
        Inr (Restored r oid') \<Rightarrow> oid' = oid \<and> own = Some COMMITTED \<and> forward = Some REVERSED
          \<and> ra_restore ra s a oid plan g = (g', Inr r) \<and> (\<exists>st. ra_state ra s a g' = Inr st \<and> shows_unmerge st)
      | Inr _ \<Rightarrow> False
      | Inl e \<Rightarrow> own \<in> {Some PREPARED, Some NEEDS_REVIEW} \<and> forward = Some COMMITTED
          \<and> fst (ra_restore ra s a oid plan g) = g')"

lemma unmerge_body_in_step:
  assumes fe: "fingerprints_exact sv" and st: "ra_state ra s a g = Inr obs"
      "merge_state_fingerprint sv obs = merge_state_fingerprint sv (merged_state [])"
    and q: "get_op (uc_op_id c) j = Some q" "owned_row sv q"
      "row_expected_after (uc_op_id c) j = Some (merge_state_fingerprint sv unmerged_state)"
    and m: "get_op (uc_merge_op_id c) j = Some r" "op_state r = COMMITTED" "uc_op_id c \<noteq> uc_merge_op_id c"
    and run: "apply_unmerge sv ra later (unmerge_request sv c s a) plan (g, j) = ((g', j'), res)"
  shows "undone_in_step ra s a (uc_op_id c) plan g g' (map_option op_state (get_op (uc_op_id c) j'))
    (map_option op_state (get_op (uc_merge_op_id c) j')) res"
proof -
  let ?oid = "uc_op_id c" and ?m = "uc_merge_op_id c" and ?fp = "merge_state_fingerprint sv"
  have cls: "classify_unmerge sv ra (unmerge_request sv c s a) g j = Inr (Would_Restore,
      \<lparr>dg_observed_error = None, dg_expected_before = PStr (?fp (merged_state [])), dg_expected_after = Some (?fp unmerged_state)\<rparr>)"
    using fingerprint_unmerged(2) [OF fe] by (simp add: classify_unmerge_def unmerge_request_ids unmerge_request_before st q(3) decide_restore_def Let_def)
  obtain g1 out where restore: "ra_restore ra s a ?oid plan g = (g1, out)"
    by (metis surj_pair)
  have tru: "truthy (Some (?fp unmerged_state))"
    using fingerprint_unmerged(3) [OF fe] by (simp add: truthy_def)
  have own: "owned_row sv q" "op_state q = PREPARED"
    using q(2) by (simp_all add: owned_row_def)
  consider (raised) e where "out = Inl e" | (unread) rr e where "out = Inr rr" "ra_state ra s a g1 = Inl e"
    | (drift) rr after where "out = Inr rr" "ra_state ra s a g1 = Inr after" "?fp after \<noteq> ?fp unmerged_state"
    | (done_) rr after where "out = Inr rr" "ra_state ra s a g1 = Inr after" "?fp after = ?fp unmerged_state"
    by (cases out; cases "ra_state ra s a g1"; auto)
  then show ?thesis
  proof cases
    case raised
    obtain j1 q1 where j1: "settle (record_attempt ?oid (Some ''restore raised'') (Some (sv_token sv)) later)
        (Inl (Raised e)) (g1, j) = ((g1, j1), Inl (Raised e) :: saga_error + unmerge_result)" "get_op ?oid j1 = Some q1" "op_state q1 = PREPARED"
      using settle_marks(4) [OF q(1) own(1), where err = "Some ''restore raised''" and now = later and answer = "Inl (Raised e)" and g = g1] by blast
    have "get_op ?m j1 = get_op ?m j"
      by (rule get_op_attempt_other [OF j1(1)]) (use m(3) in simp)
    then show ?thesis
      using run j1 raised m(1,2) by (auto simp: undone_in_step_def apply_unmerge_def unmerge_request_ids cls restore)
  next
    case unread
    then have "g' = g1" "j' = j" "res = Inl (Raised e)"
      using run by (simp_all add: apply_unmerge_def unmerge_request_ids cls restore)
    then show ?thesis
      using q(1) own(2) m(1,2) by (simp add: undone_in_step_def restore)
  next
    case drift
    then have "quarantine sv later ?oid ''unmerge after-state mismatch'' (g1, j) = ((g', j'), res)"
      using run tru by (simp add: apply_unmerge_def unmerge_request_ids cls restore)
    moreover obtain j1 q1 where "quarantine sv later ?oid ''unmerge after-state mismatch'' (g1, j) = ((g1, j1), Inl Merge_Drift :: saga_error + unmerge_result)"
        "get_op ?oid j1 = Some q1" "op_state q1 = NEEDS_REVIEW"
      using settle_marks(3) [OF q(1) own(1), where reason = "''unmerge after-state mismatch''" and now = later and g = g1] by blast
    moreover have "get_op ?m j' = get_op ?m j"
      using calculation(1) m(3) get_op_settle_other unfolding quarantine_def mark_needs_review_def by fastforce
    ultimately show ?thesis
      using m(1,2) by (auto simp: undone_in_step_def restore)
  next
    case done_
    then have commit: "commit_unmerge sv later ?oid ?m (Restored rr ?oid) (g1, j) = ((g', j'), res)"
      using run by (simp add: apply_unmerge_def unmerge_request_ids cls restore)
    obtain j1 q1 where j1: "settle (mark_committed ?oid (Some (sv_token sv)) later) (Inr (Restored rr ?oid)) (g1, j)
        = ((g1, j1), Inr (Restored rr ?oid) :: saga_error + unmerge_result)" "get_op ?oid j1 = Some q1" "op_state q1 = COMMITTED"
      using settle_marks(1) [OF q(1) own(1), where now = later and answer = "Inr (Restored rr ?oid)" and g = g1] by blast
    have "get_op ?m j1 = Some r"
      using get_op_settle_other [OF j1(1) [unfolded mark_committed_def], of ?m] m(1,3) by simp
    then show ?thesis
      using reversed_row [of ?m j1 r later] get_op_reversed_other [OF m(3), of later j1] j1(2,3) m(2) commit done_ fingerprint_unmerged(1) [OF fe done_(3)]
      by (auto simp: undone_in_step_def restore commit_unmerge_def j1(1))
  qed
qed

section \<open>The whole run\<close>

lemma guards_passed:
  assumes "unmerge_guards sv ra survivor absorbed g = Inr None"
  obtains obs where "ra_state ra (nst_uuid survivor) (nst_uuid absorbed) g = Inr obs"
    "merge_state_fingerprint sv obs = merge_state_fingerprint sv (merged_state [])"
  using assms
  by (cases "ra_state ra (nst_uuid survivor) (nst_uuid absorbed) g")
    (auto simp: unmerge_guards_def Let_def state_guard_def split: if_splits option.splits)

text \<open>The forward merge a call names, with the participants of its snapshot, when every guard passes.\<close>

definition reversible ::
  "'t saga_env \<Rightarrow> ('g, 't) restore_adapter \<Rightarrow> unmerge_call \<Rightarrow> 'g \<Rightarrow> journal \<Rightarrow> 't node_state \<Rightarrow> 't node_state \<Rightarrow> bool" where
  "reversible sv ra c g j survivor absorbed \<longleftrightarrow>
     (case get_op (uc_merge_op_id c) j of
        None \<Rightarrow> False
      | Some row \<Rightarrow>
          operation_kind row = ''ENTITY_MERGE'' \<and> op_state row = COMMITTED
          \<and> read_participants sv (or_empty (before_snapshot_json row)) = Inr (survivor, absorbed)
          \<and> unmerge_guards sv ra survivor absorbed g = Inr None)"

lemma unmerge_cases:
  assumes "unmerge sv ra c (g, j) = ((g', j'), res)"
  obtains (kept) "g' = g" "j' = j" "(\<exists>why. res = Inr (Refused why)) \<or> (\<exists>e. res = Inl (Raised e))"
  | (prepared) survivor absorbed raw j1 u where "reversible sv ra c g j survivor absorbed" "\<not> uc_dry_run c"
      "prepare (sv_runtime sv) (js_loads (sv_json sv)) (sv_clock sv) (uc_gate c) (uc_epoch c) (uc_now c)
         (unmerge_prepare_args sv c (nst_uuid survivor) (nst_uuid absorbed) (unmerge_request sv c (nst_uuid survivor) (nst_uuid absorbed)) raw) j
         = (j1, Inr u)"
      "apply_unmerge sv ra (uc_later c) (unmerge_request sv c (nst_uuid survivor) (nst_uuid absorbed))
         (build_restore_plan survivor absorbed) (g, j1) = ((g', j'), res)"
proof (cases "\<exists>survivor absorbed. reversible sv ra c g j survivor absorbed")
  case False
  then have "g' = g \<and> j' = j \<and> ((\<exists>why. res = Inr (Refused why)) \<or> (\<exists>e. res = Inl (Raised e)))"
    using assms
    by (auto simp: unmerge_def reversible_def Let_def split: option.splits if_splits sum.splits prod.splits)
  then show thesis using kept by blast
next
  case True
  then obtain survivor absorbed where rev: "reversible sv ra c g j survivor absorbed" by blast
  let ?s = "nst_uuid survivor" and ?a = "nst_uuid absorbed"
  obtain row where row: "get_op (uc_merge_op_id c) j = Some row" "operation_kind row = ''ENTITY_MERGE''" "op_state row = COMMITTED"
      "read_participants sv (or_empty (before_snapshot_json row)) = Inr (survivor, absorbed)"
      "unmerge_guards sv ra survivor absorbed g = Inr None"
    using rev by (auto simp: reversible_def split: option.splits)
  obtain j1 out where prep: "prepare (sv_runtime sv) (js_loads (sv_json sv)) (sv_clock sv) (uc_gate c) (uc_epoch c) (uc_now c)
      (unmerge_prepare_args sv c ?s ?a (unmerge_request sv c ?s ?a) (or_empty (before_snapshot_json row))) j = (j1, out)"
    by (metis surj_pair)
  consider "\<not> truthy (before_snapshot_json row) \<or> uc_dry_run c" | e where "truthy (before_snapshot_json row)" "\<not> uc_dry_run c" "out = Inl e"
    | u where "truthy (before_snapshot_json row)" "\<not> uc_dry_run c" "out = Inr u"
    by (cases out) auto
  then show thesis
  proof cases
    case 1
    then show thesis
      using assms row by (intro kept) (auto simp: unmerge_def Let_def split: if_splits)
  next
    case 2
    then have "j1 = j" using prep by (auto elim: prepare_cases)
    then show thesis
      using 2 assms row prep by (intro kept) (auto simp: unmerge_def Let_def)
  next
    case 3
    then show thesis
      using assms row prep rev by (intro prepared) (simp_all add: unmerge_def Let_def)
  qed
qed

text \<open>
  C9: After an unmerge the journal tells what happened, on every path. A refusal, a dry run included, changes
  neither the graph nor the journal. A restore is reported only for a committed merge whose guards all
  passed on the graph as it was: the graph is then the one the restore statement left, it shows both
  nodes and no lineage, the row of the unmerge is committed and the row of the merge reversed. An
  exception either came before the row was written and changed nothing, or leaves the row prepared or
  in review, the merge still committed, and no other change of the graph than the statement's.
\<close>

theorem unmerge_saga_in_step:
  assumes "fingerprints_exact sv" and "unmerge sv ra c (g, j) = ((g', j'), res)"
  shows "g' = g \<and> j' = j \<and> ((\<exists>why. res = Inr (Refused why)) \<or> (\<exists>e. res = Inl (Raised e)))
    \<or> (\<exists>survivor absorbed. reversible sv ra c g j survivor absorbed \<and> \<not> uc_dry_run c
         \<and> undone_in_step ra (nst_uuid survivor) (nst_uuid absorbed) (uc_op_id c) (build_restore_plan survivor absorbed) g g'
             (map_option op_state (get_op (uc_op_id c) j')) (map_option op_state (get_op (uc_merge_op_id c) j')) res)"
  using assms(2)
proof (cases rule: unmerge_cases)
  case (prepared survivor absorbed raw j1 u)
  obtain row where row: "get_op (uc_merge_op_id c) j = Some row" "op_state row = COMMITTED"
      "unmerge_guards sv ra survivor absorbed g = Inr None"
    using prepared(1) by (auto simp: reversible_def split: option.splits)
  obtain obs where obs: "ra_state ra (nst_uuid survivor) (nst_uuid absorbed) g = Inr obs"
      "merge_state_fingerprint sv obs = merge_state_fingerprint sv (merged_state [])"
    by (rule guards_passed [OF row(3)])
  obtain q where q: "get_op (uc_op_id c) j1 = Some q" "owned_row sv q"
      "row_expected_after (uc_op_id c) j1 = Some (merge_state_fingerprint sv unmerged_state)" "get_op (uc_merge_op_id c) j1 = Some row"
      "uc_op_id c \<noteq> uc_merge_op_id c"
    by (rule unmerge_prepared_rows [OF prepared(3) row(1)])
  show ?thesis
    using unmerge_body_in_step [OF assms(1) obs q(1-3) q(4) row(2) q(5) prepared(4)] prepared(1,2) by blast
qed blast

definition sample_unmerge_call :: unmerge_call where
  "sample_unmerge_call = \<lparr>uc_gate = No_Such_Table, uc_epoch = 0, uc_now = 0, uc_later = ''t'', uc_op_id = ''u'',
     uc_merge_op_id = ''o'', uc_dry_run = False\<rparr>"

theorem unmerge_saga_in_step_witness:
  "unmerge sample_process (graph_restore_adapter sample_merge_world) sample_unmerge_call (sample_graph, empty_journal)
     = ((sample_graph, empty_journal), Inr (Refused (Not_A_Committed_Merge None)))"
proof -
  have none: "get_op (uc_merge_op_id sample_unmerge_call) empty_journal = None"
    by (simp add: get_op_def empty_journal_def)
  obtain g' j' res where run: "unmerge sample_process (graph_restore_adapter sample_merge_world) sample_unmerge_call (sample_graph, empty_journal)
      = ((g', j'), res)"
    by (metis surj_pair)
  have "g' = sample_graph \<and> j' = empty_journal"
    using unmerge_saga_in_step [OF sample_fingerprints_exact run] none by (simp add: reversible_def)
  then show ?thesis
    using run by (simp add: unmerge_def none)
qed

end
