(* ===== verification/Spec2Isabelle.thy ===== *)
theory Spec2Isabelle
  imports Apply_Examples Circuit_Breaker Count_Examples Merge_Examples Saga_Examples Unmerge_Examples Unmerge_Outcomes
begin

text \<open>
  Menhir is a memory service: agents write documents and facts, a graph database keeps them, and
  maintenance jobs reconcile documents with their repositories and merge duplicate entities. This
  library models the parts of it whose correctness is a matter of program logic rather than of model answers,
  under \<^verbatim>\<open>src/src/menhir/\<close>: the reconciliation of work artifacts with a corpus of documents, the journaled
  merge and unmerge of entities, and the decision which counted happenings are retellings. A few smaller state machines and
  vocabularies around them are modelled too.

  \<^bold>\<open>How the program's parts interact.\<close> \<^verbatim>\<open>ArtifactReconciliationService.audit\<close> scans a repository, reads
  the sources of the store and hands both to the pure planner; \<^verbatim>\<open>apply\<close> recomputes the plan, refuses it
  unless its digest is the approved one, and writes its safe actions one statement at a time. A merge
  runs through \<^verbatim>\<open>MergeCoordinator\<close>: eligibility, a lossless snapshot of both nodes, a PREPARED row in
  the SQLite journal that fences both participants, one Cypher mutation, a read of the state it left,
  and the terminal transition. \<^verbatim>\<open>UnmergeCoordinator\<close> reads the snapshot of a committed row and inverts the
  merge under the same protocol. After a crash the rows left PREPARED are classified and replayed.

  \<^bold>\<open>Conventions.\<close> A Python exception is a value: \<open>'a result\<close> is \<open>py_error + 'a\<close>. State is passed
  explicitly; an operation that raises still returns the state it leaves. A Cypher statement is one
  transaction, hence one function on the graph; Python between two statements is where other writers
  may run. The statements of a merge and of an unmerge run through the retry loop of the driver, with
  what the connection does to each attempt as a parameter: one that raises may have been committed
  (\<^verbatim>\<open>Statement_Execution\<close>). \<^verbatim>\<open>datetime()\<close> has one value per world, so a replay is compared with the
  first run at the same reading of the clock. Integers of the source are unbounded and are \<open>int\<close> or
  \<open>nat\<close>; a float is a rational or one of the three values that are not finite; \<open>py_equal\<close> is Python's \<^verbatim>\<open>==\<close>,
  which compares numbers across their types (\<^verbatim>\<open>Python_Values\<close>). Strings have code points below 256.
  Recursion that is not structural has a termination proof by a measure (\<open>walk_chain\<close> over the objects
  not yet seen, \<open>iter_pages\<close> over the rows past the cursor, \<open>decode_value\<close> over the size of the document,
  \<open>int_bits\<close>); no definition needs fuel, except \<open>get_doc\<close> of the examples, a reader that consumes a
  character at every call and is given the length of its text.

  \<^bold>\<open>Theories.\<close>

  \<^item> \<^verbatim>\<open>Menhir_Prelude\<close>: results, monadic folds and their loop rule (locale \<open>loop_of_steps\<close>), lists and
    dictionaries. \<^verbatim>\<open>Python_Text\<close>, \<^verbatim>\<open>Python_Values\<close>: the operations of \<^verbatim>\<open>str\<close>, values of properties and of
    JSON documents, \<^verbatim>\<open>float()\<close> and \<^verbatim>\<open>str()\<close>.
  \<^item> \<^verbatim>\<open>Namespace\<close> (\<^verbatim>\<open>domain/namespace.py\<close>): normalisation, stamps and the tenant predicates in
    three-valued logic; silos are isolated.
  \<^item> \<^verbatim>\<open>Provider_Errors\<close> (\<^verbatim>\<open>infrastructure/openai_rate_limit.py\<close>): error classification over cyclic
    exception chains. \<^verbatim>\<open>Circuit_Breaker\<close> (\<^verbatim>\<open>infrastructure/circuit_breaker.py\<close>): the breaker as a
    transition system of the stretches between the awaits, its invariant and the fate of probes.
  \<^item> \<^verbatim>\<open>Work_Artifact\<close> (\<^verbatim>\<open>domain/work_artifact.py\<close>): types, statuses, relations and declarations.
    \<^verbatim>\<open>Artifact_Store\<close> (\<^verbatim>\<open>infrastructure/work_artifact_repository.py\<close>): creation, lifecycle, relations,
    supersession; the graph invariant. \<^verbatim>\<open>Artifact_Sources\<close>, \<^verbatim>\<open>Source_Registry\<close>: the source statements of the
    same file, and the proof that each takes at most one step of an abstract registry of locators.
  \<^item> \<^verbatim>\<open>Corpus_Metadata\<close>: from a file to a corpus entry (routes, front matter, scanner).
    \<^verbatim>\<open>Reconciliation_Model\<close>, \<^verbatim>\<open>_Passes\<close>, \<^verbatim>\<open>_Planner\<close> (\<^verbatim>\<open>domain/artifact_reconciliation_*.py\<close>): the planner, one
    function per pass. \<^verbatim>\<open>Reconciliation_Steps\<close>: every pass takes steps of the relation \<open>plan_step\<close> (locale
    \<open>entry_loop\<close>, interpreted for each pass). \<^verbatim>\<open>Reconciliation_Safety\<close>, \<^verbatim>\<open>_Report\<close>: the guarantees of a plan by
    rule induction, when the planner returns, and independence of the order of its inputs.
  \<^item> \<^verbatim>\<open>Reconciliation_Apply\<close>, \<^verbatim>\<open>Source_Preparation\<close> (\<^verbatim>\<open>services/artifact_reconciliation_service.py\<close>): audit,
    apply, preparation, validation and repair. \<^verbatim>\<open>Apply_Properties\<close>: the locales \<open>action_writer\<close> and
    \<open>total_writer\<close> state what the loop over actions needs of a write; they are interpreted on the writes of
    the store here and in \<^verbatim>\<open>Audit_Composition\<close>, which puts scanner, store and planner together.
    \<^verbatim>\<open>Apply_Examples\<close>: runs of the service.
  \<^item> \<^verbatim>\<open>Source_Authority\<close> (\<^verbatim>\<open>domain/utils.py\<close>, \<^verbatim>\<open>domain/merge_delta.py\<close>), \<^verbatim>\<open>Merge_Provenance\<close>: trust tiers and
    what chains of merges do to authority. \<^verbatim>\<open>Merge_Eligibility\<close> (\<^verbatim>\<open>domain/merge_eligibility.py\<close>): the policy
    and the predicate repeated in Cypher.
  \<^item> \<^verbatim>\<open>Operation_Owner\<close>, \<^verbatim>\<open>Operation_Journal\<close> (\<^verbatim>\<open>infrastructure/operation_owner.py\<close>,
    \<^verbatim>\<open>graph_operations_*.py\<close>): leases, both tables and every write. \<^verbatim>\<open>Journal_Invariants\<close>,
    \<^verbatim>\<open>Journal_Properties\<close>: fence, append-only history and takeover as invariants of \<open>journal_step\<close>; the locale
    \<open>in_place_update\<close> carries the four updates of a single row.
  \<^item> \<^verbatim>\<open>Statement_Execution\<close> (\<^verbatim>\<open>Neo4jRepository.execute\<close> of \<^verbatim>\<open>infrastructure/neo4j.py\<close>): the attempts to run one
    statement; not retried after a lost connection, it takes effect at most once.
  \<^item> \<^verbatim>\<open>Merge_Snapshot\<close> (\<^verbatim>\<open>domain/merge_snapshot.py\<close>), \<^verbatim>\<open>Snapshot_Examples\<close>: the codec and its round trip.
  \<^item> \<^verbatim>\<open>Merge_Saga\<close> (\<^verbatim>\<open>services/merge_coordinator.py\<close>) over an adapter record; \<^verbatim>\<open>Saga_Properties\<close> proves its
    guarantees once in the locale \<open>merge_graph\<close>, for every adapter that keeps the promises of the
    protocol. \<^verbatim>\<open>Merge_Graph\<close> (\<^verbatim>\<open>infrastructure/correlation_queries.py\<close>) is the property graph with the
    statements of a merge; \<^verbatim>\<open>Merge_Graph_Properties\<close> interprets the locale on it (\<open>repository\<close>) and
    accounts for every fact, the deleted ones included. \<^verbatim>\<open>Merge_Composition\<close>: the saga over the graph, lost
    acknowledgements included, other writers between its
    transactions, the Cypher writes against their Python replay. \<^verbatim>\<open>Merge_Liveness\<close>: an eligible pair is
    merged. \<^verbatim>\<open>Merge_Examples\<close>, \<^verbatim>\<open>Saga_Examples\<close>: a clock, a host, a journal and a graph where all of it runs.
  \<^item> \<^verbatim>\<open>Merge_Restore\<close> (the restore plan of \<^verbatim>\<open>services/unmerge_coordinator.py\<close> and the statement
    \<^verbatim>\<open>restore_merge_snapshot\<close>), \<^verbatim>\<open>Unmerge_Saga\<close> (guards, PREPARE, body, replay, sweeps).
    \<^verbatim>\<open>Unmerge_Inverse\<close>, \<^verbatim>\<open>Unmerge_Exact\<close>, \<^verbatim>\<open>Unmerge_Removal\<close>: relationships as a multiset of views without
    element ids, followed through the merge, the recreated relationships, the facts that go back and the
    three removals. \<^verbatim>\<open>Unmerge_Properties\<close>: a merge and its restore composed give the graph back.
    \<^verbatim>\<open>Unmerge_Outcomes\<close>: the coordinator's answers, the graph and both journal rows are in step.
    \<^verbatim>\<open>Unmerge_Examples\<close>: restores that run.
  \<^item> \<^verbatim>\<open>Count_Match\<close> (\<^verbatim>\<open>domain/count_match.py\<close>), \<^verbatim>\<open>Count_Decide\<close> (\<^verbatim>\<open>domain/count_decide.py\<close>): the family of a
    counted happening, the rows it may repeat, the prompt, the vote over the answers and the rules.
    \<^verbatim>\<open>Count_Needles\<close>: the database prefilter misses no related row. \<^verbatim>\<open>Count_Properties\<close>: the vote, and the two
    paths without a model. \<^verbatim>\<open>Count_Targets\<close>: what a related set holds, each candidate is settled once, and a
    repeat points at a counted happening, by an invariant of the loop over the candidates.
    \<^verbatim>\<open>Count_Examples\<close>: pages that run.

  \<^bold>\<open>Parameters.\<close> Code outside the repository is an argument: git and the file tree, SHA-256, the text of
  JSON documents and of instants, the host name and process table, Neo4j's driver types and
  \<^verbatim>\<open>datetime()\<close>, and the interpreter's \<^verbatim>\<open>str()\<close> and \<^verbatim>\<open>float()\<close> of other values. What the proofs use of them
  is named: \<open>json_ok\<close> (a document is read back as written), \<open>driver_ok\<close> (a driver type is rebuilt from its
  text), \<open>fingerprints_exact\<close> (the digest separates the states it covers). Each is shown to hold for a
  concrete instance.

  \<^bold>\<open>Where the code departs from its intent.\<close> An unresolved source blocks its old destination and two
  interleaved registrations leave an orphan (\<^verbatim>\<open>Apply_Examples\<close>); the occupant of a declared UUID is
  marked missing although a conflict is about it (\<^verbatim>\<open>Reconciliation_Report\<close>); replacements can form a cycle
  (\<^verbatim>\<open>Artifact_Store\<close>); a cancelled healthy probe keeps the reason of a hard opening, and two probes can be
  in flight (\<^verbatim>\<open>Circuit_Breaker\<close>); the prefilter of the tenant scope is no superset (\<^verbatim>\<open>Namespace\<close>); a
  confidence of NaN passes the unmerge guard (\<^verbatim>\<open>Merge_Provenance\<close>); the name pattern misses slashes inside
  a name (\<^verbatim>\<open>Merge_Examples\<close>); a request without an identity is forecast for quarantine but fails on replay
  (\<^verbatim>\<open>Saga_Properties\<close>); an absorbed node with a relationship to itself is never merged
  (\<^verbatim>\<open>Merge_Composition\<close>); after an unmerge the absorbed node's own lineage stays on the survivor
  (\<^verbatim>\<open>Unmerge_Properties\<close>); a repeat without a date can be left pointing at a row that a later candidate of its
  page turns into a repeat (\<^verbatim>\<open>Count_Examples\<close>).

  \<^bold>\<open>Not modelled.\<close> Lost connections under the statements of the artifact store, which are functions that answer
  or raise without an effect; the thread that renews a claim during a mutation and the hook that carries scalar
  assertions over after a commit, logging and telemetry; of the journal, the reads over committed pairs
  and the migration of its schema; of the correlation repository, similarity edges and the vetoes by
  co-mention and by project. Of the rest of the program: recall, ranking and belief rest on
  floating-point scores, vector search and model answers; ingest, enrichment and scheduling are
  orchestration of model calls and timers; the memory graph's queries are driver calls whose meaning is
  Cypher text; scalar state, typed assertions, the fold over counted happenings and the runner that reads
  their pages and calls the model are policies and orchestration on which nothing modelled here depends; the HTTP, MCP and command-line fronts, the explorer
  and configuration only pass values on.
\<close>

section \<open>The components together\<close>

text \<open>
  C1: an audit returns a safe plan. For a named repository with a readable root and a store whose
  sources are addressable, the audit returns a report in which no source is decided twice and
  every scanned document of the repository has an action at its locator.
\<close>

theorem audit_returns_safe_plan:
  assumes "store_ok g" "backfilled g" "strip (or_empty repository) \<noteq> []" "wd_root_available wd"
  shows "\<exists>rep. audit wd repository from_commit git extra_renames namespace g = Inr rep
    \<and> distinct (map act_source_identity (source_decisions (rep_actions rep)))
    \<and> list_all (\<lambda>e. list_ex (\<lambda>a. act_kind a \<noteq> MARK_SOURCE_UNRESOLVED \<and> action_key a = entry_key e) (rep_actions rep))
        (req_entries (audit_request wd (strip (or_empty repository)) from_commit git extra_renames namespace g))"
proof -
  let ?q = "audit_request wd (strip (or_empty repository)) from_commit git extra_renames namespace g"
  obtain rep where rep: "audit wd repository from_commit git extra_renames namespace g = Inr rep"
    using audit_returns_report [OF assms(3,4)] by blast
  then have plan: "plan_reconciliation (wd_digest wd) ?q = Inr rep" by (simp add: audit_Inr)
  note wf = audit_wf [OF assms(1,2,3) strip_idem, of wd from_commit git extra_renames namespace]
  have "\<exists>a \<in> set (rep_actions rep). act_kind a \<noteq> MARK_SOURCE_UNRESOLVED \<and> action_key a = entry_key e"
    if "e \<in> set (req_entries ?q)" for e
    using report_settles_entry [OF wf plan that] scanned_entry_facts(1) [OF that] by simp
  then show ?thesis
    using rep report_sources_once [OF wf plan] by (auto simp: list_all_iff list_ex_iff)
qed

theorem audit_returns_safe_plan_witness:
  "\<exists>rep. audit sample_world (Some ''m'') None None [] None sample_store = Inr rep
     \<and> distinct (map act_source_identity (source_decisions (rep_actions rep)))"
proof -
  have "strip (or_empty (Some ''m'')) \<noteq> []" "wd_root_available sample_world" by code_simp+
  from audit_returns_safe_plan [OF sample_store_ok this] show ?thesis by blast
qed



end
